(* ===== verification/Go_Prelude.thy ===== *)
theory Go_Prelude
  imports Main
    "HOL-Library.AList"
    "HOL-Library.Char_ord"
    "HOL-Library.Code_Target_Numeral"
    "HOL-Library.List_Lexorder"
    "HOL-Library.Multiset"
    "HOL-Library.Product_Lexorder"
    "HOL-Library.Word"
begin

text \<open>
  What the model uses of Go and its standard library, and the lemmas the components share.

  A Go string is a \<^typ>\<open>string\<close>: a list of bytes, ordered as Go's \<open><\<close> orders strings
  (\<open>List_Lexorder\<close> over \<open>Char_ord\<close>). Case mapping and white space are those of ASCII;
  the names, types and label values the operator compares are restricted to ASCII by the
  API's validation patterns. A slice is a list, a map that is only looked up or built key by
  key is an association list in first-insertion order (\<^const>\<open>AList.update\<close>), and
  \<^verbatim>\<open>sort.Slice\<close> and \<^verbatim>\<open>sort.SliceStable\<close> are the stable insertion sort
  \<open>go_sort\<close>; the locale \<open>go_less\<close> shows that on lists without ties every other sorting
  algorithm gives the same list.
\<close>

named_theorems go_strings \<open>evaluation of the string functions\<close>

section \<open>Definitions\<close>

subsection \<open>strings\<close>

definition to_lower_char :: "char \<Rightarrow> char" where
  "to_lower_char c =
     (if CHR ''A'' \<le> c \<and> c \<le> CHR ''Z'' then char_of (of_char c + 32 :: nat) else c)"

definition to_upper_char :: "char \<Rightarrow> char" where
  "to_upper_char c =
     (if CHR ''a'' \<le> c \<and> c \<le> CHR ''z'' then char_of (of_char c - 32 :: nat) else c)"

definition ToLower :: "string \<Rightarrow> string" where
  "ToLower s = map to_lower_char s"

definition ToUpper :: "string \<Rightarrow> string" where
  "ToUpper s = map to_upper_char s"

definition EqualFold :: "string \<Rightarrow> string \<Rightarrow> bool" where
  "EqualFold s t \<longleftrightarrow> ToLower s = ToLower t"

definition is_space :: "char \<Rightarrow> bool" where
  "is_space c \<longleftrightarrow> c = CHR '' '' \<or> (CHR 0x09 \<le> c \<and> c \<le> CHR 0x0D)"

definition TrimSpace :: "string \<Rightarrow> string" where
  "TrimSpace s = rev (dropWhile is_space (rev (dropWhile is_space s)))"

definition HasSuffix :: "string \<Rightarrow> string \<Rightarrow> bool" where
  "HasSuffix s suf \<longleftrightarrow> length suf \<le> length s \<and> drop (length s - length suf) s = suf"

definition TrimSuffix :: "string \<Rightarrow> string \<Rightarrow> string" where
  "TrimSuffix s suf = (if HasSuffix s suf then take (length s - length suf) s else s)"

fun HasPrefix :: "string \<Rightarrow> string \<Rightarrow> bool" where
  "HasPrefix s [] = True"
| "HasPrefix [] (p # ps) = False"
| "HasPrefix (c # s) (p # ps) = (c = p \<and> HasPrefix s ps)"

fun Contains :: "string \<Rightarrow> string \<Rightarrow> bool" where
  "Contains [] sub = HasPrefix [] sub"
| "Contains (c # s) sub = (HasPrefix (c # s) sub \<or> Contains s sub)"

fun Join :: "string list \<Rightarrow> string \<Rightarrow> string" where
  "Join [] sep = []"
| "Join [s] sep = s"
| "Join (s # t # ss) sep = s @ sep @ Join (t # ss) sep"

text \<open>\<^verbatim>\<open>strings.Fields\<close>: the maximal runs of non-space bytes, from left to right.\<close>

fun fields_from :: "string \<Rightarrow> string \<Rightarrow> string list" where
  "fields_from acc [] = (if acc = [] then [] else [rev acc])"
| "fields_from acc (c # s) =
     (if is_space c then (if acc = [] then fields_from [] s else rev acc # fields_from [] s)
      else fields_from (c # acc) s)"

definition Fields :: "string \<Rightarrow> string list" where
  "Fields s = fields_from [] s"

text \<open>The part of \<open>s\<close> after its last \<open>c\<close>; \<open>s\<close> itself when there is none.\<close>

definition after_last :: "char \<Rightarrow> string \<Rightarrow> string" where
  "after_last c s = rev (takeWhile (\<lambda>x. x \<noteq> c) (rev s))"

definition firstNonEmpty :: "string list \<Rightarrow> string" where
  "firstNonEmpty vs = (case find (\<lambda>v. v \<noteq> []) vs of Some v \<Rightarrow> v | None \<Rightarrow> [])"

subsection \<open>strconv\<close>

definition digit_char :: "nat \<Rightarrow> char" where
  "digit_char d = char_of (48 + d)"

fun nat_str :: "nat \<Rightarrow> string" where
  "nat_str n = (if n < 10 then [digit_char n] else nat_str (n div 10) @ [digit_char (n mod 10)])"

declare nat_str.simps [simp del]

definition int_str :: "int \<Rightarrow> string" where
  "int_str i = (if i < 0 then CHR ''-'' # nat_str (nat (- i)) else nat_str (nat i))"

definition is_digit :: "char \<Rightarrow> bool" where
  "is_digit c \<longleftrightarrow> CHR ''0'' \<le> c \<and> c \<le> CHR ''9''"

definition digit_val :: "char \<Rightarrow> nat" where
  "digit_val c = of_char c - 48"

definition digits_val :: "string \<Rightarrow> nat" where
  "digits_val s = foldl (\<lambda>n c. 10 * n + digit_val c) 0 s"

definition parse_nat :: "string \<Rightarrow> nat option" where
  "parse_nat s = (if s \<noteq> [] \<and> list_all is_digit s then Some (digits_val s) else None)"

text \<open>\<^verbatim>\<open>strconv.ParseUint(s, 10, bits)\<close>: digits only, and the value fits.\<close>

definition ParseUint :: "nat \<Rightarrow> string \<Rightarrow> nat option" where
  "ParseUint bits s =
     (case parse_nat s of None \<Rightarrow> None | Some n \<Rightarrow> if n < 2 ^ bits then Some n else None)"

text \<open>\<^verbatim>\<open>strconv.ParseInt(s, 10, 64)\<close>: an optional sign, digits, and the value fits.\<close>

definition ParseInt64 :: "string \<Rightarrow> int option" where
  "ParseInt64 s =
     (let (neg, ds) = (case s of [] \<Rightarrow> (False, [])
                       | c # cs \<Rightarrow> if c = CHR ''-'' then (True, cs)
                                   else if c = CHR ''+'' then (False, cs) else (False, c # cs))
      in case parse_nat ds of None \<Rightarrow> None
         | Some n \<Rightarrow> if neg then (if n \<le> 2 ^ 63 then Some (- int n) else None)
                      else (if n < 2 ^ 63 then Some (int n) else None))"

text \<open>\<^verbatim>\<open>strconv.Quote\<close>, the verb \<^verbatim>\<open>%q\<close>; bytes from 128 on are taken as printable UTF-8.\<close>

definition hex_char :: "nat \<Rightarrow> char" where
  "hex_char d = (if d < 10 then digit_char d else char_of (87 + d))"

definition quote_char :: "char \<Rightarrow> string" where
  "quote_char c =
     (let n = of_char c :: nat in
      if c = CHR 0x22 \<or> c = CHR 0x5C then [CHR 0x5C, c]
      else if n = 7 then [CHR 0x5C, CHR ''a''] else if n = 8 then [CHR 0x5C, CHR ''b'']
      else if n = 12 then [CHR 0x5C, CHR ''f''] else if n = 10 then [CHR 0x5C, CHR ''n'']
      else if n = 13 then [CHR 0x5C, CHR ''r''] else if n = 9 then [CHR 0x5C, CHR ''t'']
      else if n = 11 then [CHR 0x5C, CHR ''v'']
      else if n < 32 \<or> n = 127 then [CHR 0x5C, CHR ''x'', hex_char (n div 16), hex_char (n mod 16)]
      else [c])"

definition go_quote :: "string \<Rightarrow> string" where
  "go_quote s = CHR 0x22 # concat (map quote_char s) @ [CHR 0x22]"

subsection \<open>sort\<close>

fun insert_by :: "('a \<Rightarrow> 'a \<Rightarrow> bool) \<Rightarrow> 'a \<Rightarrow> 'a list \<Rightarrow> 'a list" where
  "insert_by lt x [] = [x]"
| "insert_by lt x (y # ys) = (if lt y x then y # insert_by lt x ys else x # y # ys)"

definition go_sort :: "('a \<Rightarrow> 'a \<Rightarrow> bool) \<Rightarrow> 'a list \<Rightarrow> 'a list" where
  "go_sort lt xs = foldr (insert_by lt) xs []"

definition str_less :: "string \<Rightarrow> string \<Rightarrow> bool" where
  "str_less s t \<longleftrightarrow> s < t"

definition sort_strings :: "string list \<Rightarrow> string list" where
  "sort_strings xs = go_sort str_less xs"

subsection \<open>Collections\<close>

text \<open>The elements of a list in first-seen order: the loop over a \<open>seen\<close> set.\<close>

fun first_seen :: "('a \<Rightarrow> 'b) \<Rightarrow> 'b list \<Rightarrow> 'a list \<Rightarrow> 'a list" where
  "first_seen key seen [] = []"
| "first_seen key seen (x # xs) =
     (if key x \<in> set seen then first_seen key seen xs
      else x # first_seen key (key x # seen) xs)"

text \<open>\<open>m[k] = append(m[k], v)\<close> on a map of slices.\<close>

definition multi_put :: "'k \<Rightarrow> 'v \<Rightarrow> ('k \<times> 'v list) list \<Rightarrow> ('k \<times> 'v list) list" where
  "multi_put k v m = AList.update k ((case map_of m k of None \<Rightarrow> [] | Some vs \<Rightarrow> vs) @ [v]) m"

definition group_by :: "('a \<Rightarrow> 'k) \<Rightarrow> 'a list \<Rightarrow> ('k \<times> 'a list) list" where
  "group_by key xs = foldl (\<lambda>m x. multi_put (key x) x m) [] xs"

text \<open>An index-based window \<open>xs[i:j]\<close> with \<open>i \<le> j \<le> len(xs)\<close>.\<close>

definition slice :: "'a list \<Rightarrow> nat \<Rightarrow> nat \<Rightarrow> 'a list" where
  "slice xs i j = take (j - i) (drop i xs)"


section \<open>Lemmas\<close>

subsection \<open>Case and white space\<close>

lemma of_char_char_of_nat [simp]: "n < 256 \<Longrightarrow> of_char (char_of (n::nat)) = n"
  by (simp add: of_char_of)

lemma of_char_bound: "of_char c < (256::nat)"
proof -
  have "of_char (char_of (of_char c :: nat)) = (of_char c :: nat)" by simp
  then show ?thesis by (metis mod_less_divisor of_char_of zero_less_numeral)
qed

lemma to_lower_char_idem [simp]: "to_lower_char (to_lower_char c) = to_lower_char c"
  by (auto simp: to_lower_char_def less_eq_char_def)

lemma ToLower_idem [simp]: "ToLower (ToLower s) = ToLower s"
  by (simp add: ToLower_def)

lemma ToLower_append [simp]: "ToLower (s @ t) = ToLower s @ ToLower t"
  by (simp add: ToLower_def)

lemma length_ToLower [simp]: "length (ToLower s) = length s"
  by (simp add: ToLower_def)

lemma ToLower_Nil_iff [simp]: "ToLower s = [] \<longleftrightarrow> s = []"
  by (simp add: ToLower_def)

lemma to_lower_char_other:
  assumes "\<not> (65 \<le> (of_char d :: nat) \<and> (of_char d :: nat) \<le> 90)"
    and "\<not> (97 \<le> (of_char d :: nat) \<and> (of_char d :: nat) \<le> 122)"
  shows "to_lower_char c = d \<longleftrightarrow> c = d"
proof
  assume "to_lower_char c = d"
  then have "of_char (to_lower_char c) = (of_char d :: nat)" by simp
  with assms have "of_char c = (of_char d :: nat)"
    by (auto simp: to_lower_char_def less_eq_char_def split: if_splits)
  then show "c = d" by simp
qed (use assms in \<open>auto simp: to_lower_char_def less_eq_char_def\<close>)

lemma to_lower_char_dot [simp]: "to_lower_char c = CHR ''.'' \<longleftrightarrow> c = CHR ''.''"
  by (rule to_lower_char_other) simp_all

lemma to_lower_char_at [simp]: "to_lower_char c = CHR ''@'' \<longleftrightarrow> c = CHR ''@''"
  by (rule to_lower_char_other) simp_all

lemma ToLower_at [simp]: "ToLower s = ''@'' \<longleftrightarrow> s = ''@''"
  by (auto simp: ToLower_def)

lemma to_lower_upper_char [simp]: "to_lower_char (to_upper_char c) = to_lower_char c"
proof (cases "CHR ''a'' \<le> c \<and> c \<le> CHR ''z''")
  case True
  then have "97 \<le> (of_char c :: nat)" "(of_char c :: nat) \<le> 122"
    by (simp_all add: less_eq_char_def)
  moreover from this have "65 \<le> (of_char c :: nat) - 32" "(of_char c :: nat) - 32 \<le> 90"
    by linarith+
  ultimately show ?thesis
    by (simp add: to_lower_char_def to_upper_char_def less_eq_char_def)
qed (auto simp: to_upper_char_def)

lemma ToLower_ToUpper [simp]: "ToLower (ToUpper s) = ToLower s"
  by (simp add: ToLower_def ToUpper_def)

lemma ToLower_dot [simp]: "ToLower [CHR ''.''] = [CHR ''.'']"
  by (simp add: ToLower_def to_lower_char_def less_eq_char_def)

lemma last_ToLower [simp]: "s \<noteq> [] \<Longrightarrow> last (ToLower s) = to_lower_char (last s)"
  by (simp add: ToLower_def last_map)

lemma dropWhile_prefix:
  assumes "t = u @ v" and "u \<noteq> []" and "dropWhile P t = t"
  shows "dropWhile P u = u"
proof -
  obtain x xs where u: "u = x # xs" using assms(2) by (cases u) auto
  with assms(1,3) have "\<not> P x" by (metis append_Cons dropWhile_eq_self_iff list.distinct(1) list.sel(1))
  with u show ?thesis by simp
qed

lemma dropWhile_rev_dropWhile:
  assumes "dropWhile P t = t"
  shows "dropWhile P (rev (dropWhile P (rev t))) = rev (dropWhile P (rev t))"
proof (cases "dropWhile P (rev t) = []")
  case False
  have t: "t = rev (dropWhile P (rev t)) @ rev (takeWhile P (rev t))"
    by (metis rev_append rev_rev_ident takeWhile_dropWhile_id)
  have "rev (dropWhile P (rev t)) \<noteq> []" using False by simp
  from dropWhile_prefix [OF t this assms] show ?thesis .
next
  case True
  then show ?thesis by (simp only: rev.simps dropWhile.simps)
qed

lemma TrimSpace_idem [simp]: "TrimSpace (TrimSpace s) = TrimSpace s"
proof -
  define t where "t = TrimSpace s"
  have left: "dropWhile is_space t = t"
    unfolding t_def TrimSpace_def by (rule dropWhile_rev_dropWhile) (rule dropWhile_idem)
  have right: "dropWhile is_space (rev t) = rev t"
    unfolding t_def TrimSpace_def rev_rev_ident by (rule dropWhile_idem)
  have "TrimSpace t = t"
    unfolding TrimSpace_def left right rev_rev_ident ..
  then show ?thesis by (simp only: t_def)
qed

lemma HasSuffix_iff: "HasSuffix s suf \<longleftrightarrow> (\<exists>pre. s = pre @ suf)"
proof
  assume "HasSuffix s suf"
  then have "s = take (length s - length suf) s @ suf"
    by (metis HasSuffix_def append_take_drop_id)
  then show "\<exists>pre. s = pre @ suf" ..
qed (auto simp: HasSuffix_def)

lemma HasSuffix_last: "HasSuffix s [c] \<longleftrightarrow> s \<noteq> [] \<and> last s = c"
  by (auto simp: HasSuffix_iff) (metis append_butlast_last_id)

lemma TrimSuffix_snoc [simp]: "TrimSuffix (s @ suf) suf = s"
  by (simp add: TrimSuffix_def HasSuffix_def)

subsection \<open>Decimals\<close>

lemma nat_str_nonempty [simp]: "nat_str n \<noteq> []"
  by (subst nat_str.simps) simp

lemma is_digit_digit_char [simp]: "d < 10 \<Longrightarrow> is_digit (digit_char d)"
  by (simp add: is_digit_def digit_char_def less_eq_char_def)

lemma digit_val_digit_char [simp]: "d < 10 \<Longrightarrow> digit_val (digit_char d) = d"
  by (simp add: digit_val_def digit_char_def)

lemma nat_str_digits [simp]: "list_all is_digit (nat_str n)"
proof (induction n rule: nat_str.induct)
  case (1 n)
  then show ?case by (subst nat_str.simps) simp
qed

lemma digits_val_snoc [simp]: "digits_val (s @ [c]) = 10 * digits_val s + digit_val c"
  by (simp add: digits_val_def)

lemma digits_val_nat_str [simp]: "digits_val (nat_str k) = k"
proof (induction k rule: nat_str.induct)
  case digits: (1 k)
  have "digits_val [digit_char k] = k" if "k < 10" using that by (simp add: digits_val_def)
  with digits show ?case by (simp add: nat_str.simps [of k])
qed

lemma parse_nat_str [simp]: "parse_nat (nat_str n) = Some n"
  by (simp add: parse_nat_def)

lemma nat_str_inject [simp]: "nat_str m = nat_str n \<longleftrightarrow> m = n"
  by (metis digits_val_nat_str)

lemma ParseUint_nat_str: "n < 2 ^ bits \<Longrightarrow> ParseUint bits (nat_str n) = Some n"
  by (simp add: ParseUint_def)

lemma ParseUint_bound: "ParseUint bits s = Some n \<Longrightarrow> n < 2 ^ bits"
  by (auto simp: ParseUint_def split: option.splits if_splits)

lemma hd_nat_str_digit: "is_digit (hd (nat_str n))"
  by (metis hd_in_set list_all_iff nat_str_digits nat_str_nonempty)

lemma ParseInt64_int_str:
  assumes "- (2 ^ 63) \<le> i" and "i < 2 ^ 63"
  shows "ParseInt64 (int_str i) = Some i"
proof (cases "i < 0")
  case True
  with assms show ?thesis by (simp add: ParseInt64_def int_str_def)
next
  case False
  let ?s = "nat_str (nat i)"
  obtain c cs where s: "?s = c # cs" using nat_str_nonempty by (metis neq_Nil_conv)
  have "is_digit c" using hd_nat_str_digit [of "nat i"] s by simp
  then have "c \<noteq> CHR ''-''" and "c \<noteq> CHR ''+''"
    by (auto simp: is_digit_def less_eq_char_def)
  moreover have "parse_nat (c # cs) = Some (nat i)" by (metis parse_nat_str s)
  moreover have "nat i < 2 ^ 63" using assms(2) False by (simp add: nat_less_iff)
  ultimately show ?thesis using False
    by (simp add: ParseInt64_def int_str_def s)
qed

lemma nat_str_no_space: "c \<in> set (nat_str n) \<Longrightarrow> \<not> is_space c"
proof -
  assume "c \<in> set (nat_str n)"
  then have "is_digit c" using nat_str_digits [of n] by (auto simp: list_all_iff)
  then show ?thesis by (auto simp: is_digit_def is_space_def less_eq_char_def)
qed

subsection \<open>Fields and joins\<close>

lemma fields_from_word:
  "\<forall>c \<in> set w. \<not> is_space c \<Longrightarrow> fields_from acc (w @ s) = fields_from (rev w @ acc) s"
  by (induction w arbitrary: acc) auto

lemma Fields_Join:
  assumes "\<forall>w \<in> set ws. w \<noteq> [] \<and> (\<forall>c \<in> set w. \<not> is_space c)"
  shows "Fields (Join ws '' '') = ws"
  using assms
proof (induction ws "'' ''" rule: Join.induct)
  case 1
  then show ?case by (simp add: Fields_def)
next
  case (2 s)
  then show ?case using fields_from_word [of s "[]" "[]"] by (simp add: Fields_def)
next
  case (3 s t ss)
  then have "Fields (Join (t # ss) '' '') = t # ss" by simp
  moreover have "fields_from [] (s @ '' '' @ Join (t # ss) '' '') =
      s # fields_from [] (Join (t # ss) '' '')"
    using 3(2) by (simp add: fields_from_word is_space_def)
  ultimately show ?case by (simp add: Fields_def)
qed

lemma fields_from_nonspace:
  "\<forall>c \<in> set acc. \<not> is_space c \<Longrightarrow> w \<in> set (fields_from acc s) \<Longrightarrow>
     w \<noteq> [] \<and> (\<forall>c \<in> set w. \<not> is_space c)"
proof (induction acc s rule: fields_from.induct)
  case (1 acc)
  then show ?case by (cases "acc = []") simp_all
next
  case (2 acc c s)
  from "2.prems"(2) consider "\<not> is_space c" | "is_space c" "w \<in> set (fields_from [] s)"
    | "is_space c" "acc \<noteq> []" "w = rev acc"
    by (cases "is_space c"; cases "acc = []") auto
  then show ?case
  proof cases
    case 1
    have "\<forall>x \<in> set (c # acc). \<not> is_space x" using 1 "2.prems"(1) by auto
    moreover have "w \<in> set (fields_from (c # acc) s)" using 1 "2.prems"(2) by simp
    ultimately show ?thesis by (rule "2.IH"(3) [OF 1])
  next
    case 2
    have none: "\<forall>x \<in> set []. \<not> is_space x" by simp
    show ?thesis
    proof (cases "acc = []")
      case True
      from "2.IH"(1) [OF 2(1) True none 2(2)] show ?thesis .
    next
      case False
      from "2.IH"(2) [OF 2(1) False none 2(2)] show ?thesis .
    qed
  next
    case 3
    then show ?thesis using "2.prems" by simp
  qed
qed

lemma Fields_nonspace: "w \<in> set (Fields s) \<Longrightarrow> w \<noteq> [] \<and> (\<forall>c \<in> set w. \<not> is_space c)"
  unfolding Fields_def by (rule fields_from_nonspace [of "[]"]) simp_all

subsection \<open>Sorting by a comparison function\<close>

lemma mset_insert_by [simp]: "mset (insert_by lt x xs) = add_mset x (mset xs)"
  by (induction xs) auto

lemma mset_go_sort [simp]: "mset (go_sort lt xs) = mset xs"
  by (induction xs) (simp_all add: go_sort_def)

lemma set_go_sort [simp]: "set (go_sort lt xs) = set xs"
  by (metis mset_go_sort set_mset_mset)

lemma length_go_sort [simp]: "length (go_sort lt xs) = length xs"
  by (metis mset_go_sort size_mset)

lemma distinct_go_sort [simp]: "distinct (go_sort lt xs) = distinct xs"
  by (metis mset_eq_imp_distinct_iff mset_go_sort)

lemma distinct_map_go_sort [simp]: "distinct (map f (go_sort lt xs)) = distinct (map f xs)"
  by (metis mset_eq_imp_distinct_iff mset_go_sort mset_map)

lemma go_sort_Nil [simp]: "go_sort lt [] = []"
  by (simp add: go_sort_def)

lemma go_sort_Nil_iff [simp]: "go_sort lt xs = [] \<longleftrightarrow> xs = []"
  by (metis mset_go_sort mset_zero_iff)

text \<open>
  The contract of a comparison function: a strict weak order. The functions the code hands to
  \<^verbatim>\<open>sort\<close> interpret it, each in the theory of the component that sorts.
\<close>

locale go_less =
  fixes lt :: "'a \<Rightarrow> 'a \<Rightarrow> bool"
  assumes lt_asym: "lt x y \<Longrightarrow> \<not> lt y x"
    and lt_trans: "lt x y \<Longrightarrow> lt y z \<Longrightarrow> lt x z"
    and lt_neg_trans: "\<not> lt x y \<Longrightarrow> \<not> lt y z \<Longrightarrow> \<not> lt x z"
begin

abbreviation ordered :: "'a list \<Rightarrow> bool" where
  "ordered xs \<equiv> sorted_wrt (\<lambda>x y. \<not> lt y x) xs"

lemma lt_irrefl [simp]: "\<not> lt x x"
  using lt_asym by blast

lemma ordered_insert_by: "ordered xs \<Longrightarrow> ordered (insert_by lt x xs)"
proof (induction xs)
  case (Cons y ys)
  show ?case
  proof (cases "lt y x")
    case True
    have "set (insert_by lt x ys) = insert x (set ys)"
      by (metis mset_insert_by set_mset_add_mset_insert set_mset_mset)
    with True Cons show ?thesis by (auto dest: lt_asym)
  next
    case False
    with Cons.prems show ?thesis using lt_neg_trans [of _ y x] by auto
  qed
qed simp

lemma ordered_go_sort: "ordered (go_sort lt xs)"
  by (induction xs) (simp_all add: go_sort_def ordered_insert_by)

text \<open>Two ordered lists of the same elements agree where the order has no ties.\<close>

lemma ordered_unique:
  assumes "ordered xs" and "ordered ys" and "mset xs = mset ys"
    and total: "\<And>x y. x \<in> set xs \<Longrightarrow> y \<in> set xs \<Longrightarrow> \<not> lt x y \<Longrightarrow> \<not> lt y x \<Longrightarrow> x = y"
  shows "xs = ys"
  using assms
proof (induction xs arbitrary: ys)
  case Nil
  then show ?case by simp
next
  case (Cons x xs)
  then obtain y ys' where ys: "ys = y # ys'" by (cases ys) auto
  have sets: "set (x # xs) = set ys" using Cons.prems(3) by (metis set_mset_mset)
  have "x = y"
  proof (rule ccontr)
    assume ne: "x \<noteq> y"
    have "y \<in> set xs" and "x \<in> set ys'" using sets ys ne by auto
    then have "\<not> lt y x" and "\<not> lt x y" using Cons.prems(1,2) ys by auto
    with ne \<open>y \<in> set xs\<close> Cons.prems(4) [of x y] show False by simp
  qed
  moreover have "xs = ys'"
  proof (rule Cons.IH)
    show "ordered xs" "ordered ys'" using Cons.prems(1,2) ys by auto
    show "mset xs = mset ys'" using Cons.prems(3) ys \<open>x = y\<close> by simp
    show "a = b" if "a \<in> set xs" "b \<in> set xs" "\<not> lt a b" "\<not> lt b a" for a b
      using Cons.prems(4) [of a b] that by simp
  qed
  ultimately show ?case using ys by simp
qed

lemma go_sort_unique:
  assumes "ordered ys" and "mset ys = mset xs"
    and "\<And>x y. x \<in> set xs \<Longrightarrow> y \<in> set xs \<Longrightarrow> \<not> lt x y \<Longrightarrow> \<not> lt y x \<Longrightarrow> x = y"
  shows "go_sort lt xs = ys"
  using assms by (intro ordered_unique ordered_go_sort) simp_all

lemma go_sort_mset_cong:
  assumes "mset xs = mset ys"
    and "\<And>x y. x \<in> set xs \<Longrightarrow> y \<in> set xs \<Longrightarrow> \<not> lt x y \<Longrightarrow> \<not> lt y x \<Longrightarrow> x = y"
  shows "go_sort lt xs = go_sort lt ys"
  using assms by (intro go_sort_unique ordered_go_sort) simp_all

lemma insert_by_min: "(\<And>y. y \<in> set xs \<Longrightarrow> \<not> lt y x) \<Longrightarrow> insert_by lt x xs = x # xs"
  by (cases xs) auto

lemma go_sort_ordered: "ordered xs \<Longrightarrow> go_sort lt xs = xs"
  by (induction xs) (simp_all add: go_sort_def insert_by_min)

lemma go_sort_idem [simp]: "go_sort lt (go_sort lt xs) = go_sort lt xs"
  by (simp add: go_sort_ordered ordered_go_sort)

lemma hd_go_sort_min:
  assumes "x \<in> set xs"
  shows "\<not> lt x (hd (go_sort lt xs))"
proof -
  have "x \<in> set (go_sort lt xs)" using assms by simp
  then show ?thesis using ordered_go_sort [of xs]
    by (cases "go_sort lt xs") auto
qed

end

text \<open>A comparison of keys in a linear order is such a function.\<close>

lemma go_less_key: "go_less (\<lambda>x y. key x < (key y :: 'b::linorder))"
  by unfold_locales auto

lemma go_less_keyI: "(\<And>x y. lt x y \<longleftrightarrow> key x < (key y :: 'b::linorder)) \<Longrightarrow> go_less lt"
  by unfold_locales auto

interpretation str: go_less str_less
  by (rule go_less_keyI [where key = id]) (simp add: str_less_def)

lemma sorted_sort_strings: "sorted (sort_strings xs)"
  using str.ordered_go_sort [of xs] by (simp add: sort_strings_def str_less_def not_less)

lemma set_sort_strings [simp]: "set (sort_strings xs) = set xs"
  and distinct_sort_strings [simp]: "distinct (sort_strings xs) = distinct xs"
  and mset_sort_strings [simp]: "mset (sort_strings xs) = mset xs"
  and length_sort_strings [simp]: "length (sort_strings xs) = length xs"
  by (simp_all add: sort_strings_def)

lemma sort_strings_eq_sort: "sort_strings xs = sort xs"
  by (metis mset_sort_strings properties_for_sort sorted_sort_strings)

subsection \<open>First-seen order and grouping\<close>

lemma set_first_seen: "set (first_seen key seen xs) \<subseteq> set xs"
  by (induction key seen xs rule: first_seen.induct) auto

lemma first_seen_keys:
  "key ` set (first_seen key seen xs) = key ` set xs - set seen"
  by (induction key seen xs rule: first_seen.induct) auto

lemma distinct_first_seen: "distinct (map key (first_seen key seen xs))"
proof (induction key seen xs rule: first_seen.induct)
  case (2 key seen x xs)
  have "key x \<notin> key ` set (first_seen key (key x # seen) xs)"
    by (simp add: first_seen_keys)
  with 2 show ?case by simp
qed simp

lemma first_seen_id: "distinct (map key xs) \<Longrightarrow> key ` set xs \<inter> set seen = {} \<Longrightarrow>
    first_seen key seen xs = xs"
proof (induction xs arbitrary: seen)
  case (Cons x xs)
  have "first_seen key (key x # seen) xs = xs"
    using Cons.prems by (intro Cons.IH) auto
  with Cons.prems show ?case by auto
qed simp

lemma set_first_seen_id [simp]: "set (first_seen id [] xs) = set xs"
  using first_seen_keys [of id "[]" xs] by simp

lemma distinct_first_seen_id [simp]: "distinct (first_seen id seen xs)"
  using distinct_first_seen [of id seen xs] by simp

lemma first_seen_idem: "first_seen key [] (first_seen key [] xs) = first_seen key [] xs"
  by (rule first_seen_id) (simp_all add: distinct_first_seen)

lemma find_SomeD: "find P xs = Some x \<Longrightarrow> x \<in> set xs \<and> P x"
  by (induction xs) (auto split: if_splits)

lemma map_of_update: "map_of (AList.update k v m) x = (if x = k then Some v else map_of m x)"
  by (simp add: update_conv')

lemma map_of_multi_put:
  "map_of (multi_put k v m) x =
     (if x = k then Some ((case map_of m k of None \<Rightarrow> [] | Some vs \<Rightarrow> vs) @ [v]) else map_of m x)"
  by (simp add: multi_put_def map_of_update)

lemma group_by_snoc: "group_by key (xs @ [x]) = multi_put (key x) x (group_by key xs)"
  by (simp add: group_by_def)

lemma map_of_group_by:
  "map_of (group_by key xs) k =
     (if k \<in> key ` set xs then Some (filter (\<lambda>x. key x = k) xs) else None)"
proof (induction xs rule: rev_induct)
  case Nil
  then show ?case by (simp add: group_by_def)
next
  case (snoc x xs)
  then show ?case by (auto simp: group_by_snoc map_of_multi_put image_iff eq_commute [of "[]"] filter_empty_conv) metis
qed

lemma distinct_group_by: "distinct (map fst (group_by key xs))"
  by (induction xs rule: rev_induct)
    (simp_all add: group_by_snoc multi_put_def distinct_update, simp add: group_by_def)

lemma dom_group_by: "fst ` set (group_by key xs) = key ` set xs"
proof -
  have "fst ` set (group_by key xs) = dom (map_of (group_by key xs))"
    by (simp add: dom_map_of_conv_image_fst)
  also have "\<dots> = key ` set xs"
    by (auto simp: dom_def map_of_group_by split: if_splits)
  finally show ?thesis .
qed

end
