(* ===== verification/Api_Types.thy ===== *)
theory Api_Types
  imports Go_Prelude
begin

text \<open>
  The API objects the operator reads and writes (\<^verbatim>\<open>api/v1alpha1\<close>): zones, zone
  classes, record sets and their status. A pointer that may be nil is an \<^verbatim>\<open>option\<close>;
  unsigned integers are words of their width; a Go map of SVCB parameters is an association
  list with distinct keys. Of the Kubernetes object metadata the fields the operator reads are
  kept; times are seconds.
\<close>

section \<open>Record types\<close>

type_synonym RRType = string

definition RRTypeA :: RRType where "RRTypeA = ''A''"
definition RRTypeAAAA :: RRType where "RRTypeAAAA = ''AAAA''"
definition RRTypeCNAME :: RRType where "RRTypeCNAME = ''CNAME''"
definition RRTypeALIAS :: RRType where "RRTypeALIAS = ''ALIAS''"
definition RRTypeTXT :: RRType where "RRTypeTXT = ''TXT''"
definition RRTypeMX :: RRType where "RRTypeMX = ''MX''"
definition RRTypeSRV :: RRType where "RRTypeSRV = ''SRV''"
definition RRTypeCAA :: RRType where "RRTypeCAA = ''CAA''"
definition RRTypeNS :: RRType where "RRTypeNS = ''NS''"
definition RRTypeSOA :: RRType where "RRTypeSOA = ''SOA''"
definition RRTypePTR :: RRType where "RRTypePTR = ''PTR''"
definition RRTypeTLSA :: RRType where "RRTypeTLSA = ''TLSA''"
definition RRTypeHTTPS :: RRType where "RRTypeHTTPS = ''HTTPS''"
definition RRTypeSVCB :: RRType where "RRTypeSVCB = ''SVCB''"

lemmas rrtype_defs [simp] =
  RRTypeA_def RRTypeAAAA_def RRTypeCNAME_def RRTypeALIAS_def RRTypeTXT_def RRTypeMX_def
  RRTypeSRV_def RRTypeCAA_def RRTypeNS_def RRTypeSOA_def RRTypePTR_def RRTypeTLSA_def
  RRTypeHTTPS_def RRTypeSVCB_def

section \<open>Record values\<close>

record SRVRecordSpec =
  srv_priority :: "16 word"
  srv_weight :: "16 word"
  srv_port :: "16 word"
  srv_target :: string

record MXRecordSpec =
  mx_preference :: "16 word"
  mx_exchange :: string

record CAARecordSpec =
  caa_flag :: "8 word"
  caa_tag :: string
  caa_value :: string

record TLSARecordSpec =
  tlsa_usage :: "8 word"
  tlsa_selector :: "8 word"
  tlsa_matchingType :: "8 word"
  tlsa_certData :: string

record HTTPSRecordSpec =
  https_priority :: "16 word"
  https_target :: string
  https_params :: "(string \<times> string) list"

record SOARecordSpec =
  soa_mname :: string
  soa_rname :: string
  soa_serial :: "32 word"
  soa_refresh :: "32 word"
  soa_retry :: "32 word"
  soa_expire :: "32 word"
  soa_ttl :: "32 word"

text \<open>
  One entry: an owner name, an optional TTL and one optional value per type. The specs that
  hold a single string (A, AAAA, CNAME, ALIAS, NS, TXT, PTR) are that string, their
  \<^verbatim>\<open>Content\<close>.
\<close>

record RecordEntry =
  re_name :: string
  re_ttl :: "int option"
  re_A :: "string option"
  re_AAAA :: "string option"
  re_CNAME :: "string option"
  re_ALIAS :: "string option"
  re_NS :: "string option"
  re_TXT :: "string option"
  re_SOA :: "SOARecordSpec option"
  re_CAA :: "CAARecordSpec option"
  re_MX :: "MXRecordSpec option"
  re_SRV :: "SRVRecordSpec option"
  re_TLSA :: "TLSARecordSpec option"
  re_HTTPS :: "HTTPSRecordSpec option"
  re_SVCB :: "HTTPSRecordSpec option"
  re_PTR :: "string option"

definition emptyEntry :: "string \<Rightarrow> RecordEntry" where
  "emptyEntry n = \<lparr>re_name = n, re_ttl = None, re_A = None, re_AAAA = None, re_CNAME = None,
     re_ALIAS = None, re_NS = None, re_TXT = None, re_SOA = None, re_CAA = None, re_MX = None,
     re_SRV = None, re_TLSA = None, re_HTTPS = None, re_SVCB = None, re_PTR = None\<rparr>"

section \<open>Conditions and status\<close>

datatype ConditionStatus = ConditionTrue | ConditionFalse | ConditionUnknown

record Condition =
  c_type :: string
  c_status :: ConditionStatus
  c_reason :: string
  c_message :: string
  c_generation :: int
  c_transition :: int

record RecordSetStatus =
  st_name :: string
  st_conditions :: "Condition list"

section \<open>Objects\<close>

text \<open>Of an owner reference, the owner's UID and whether it is the controller.\<close>

record OwnerReference =
  owr_uid :: string
  owr_controller :: bool

record ObjectMeta =
  m_namespace :: string
  m_name :: string
  m_uid :: string
  m_generation :: int
  m_created :: int
  m_deleted :: "int option"
  m_finalizers :: "string list"
  m_labels :: "(string \<times> string) list"
  m_annotations :: "(string \<times> string) list"
  m_ownerRefs :: "OwnerReference list"

record DNSRecordSet =
  rs_meta :: ObjectMeta
  rs_zoneRef :: string
  rs_recordType :: RRType
  rs_records :: "RecordEntry list"
  rs_conditions :: "Condition list"
  rs_recordSets :: "RecordSetStatus list"

datatype DNSZoneVisibility = VisibilityPublic | VisibilityPrivate

text \<open>A nameserver the registrar publishes; of its addresses only the text is kept.\<close>

record Nameserver =
  ns_hostname :: string
  ns_ips :: "string list"

record DomainRef =
  dr_name :: string
  dr_nameservers :: "Nameserver list"

record DNSZone =
  z_meta :: ObjectMeta
  z_domainName :: string
  z_className :: string
  z_visibility :: DNSZoneVisibility
  z_nameservers :: "string list"
  z_recordCount :: int
  z_conditions :: "Condition list"
  z_domainRef :: "DomainRef option"

record NameServerPolicy =
  np_mode :: string
  np_static :: "string list option"

record DNSZoneClass =
  zc_name :: string
  zc_controllerName :: string
  zc_policy :: "NameServerPolicy option"

end
