(* ===== verification/Owner_Name.thy ===== *)
theory Owner_Name
  imports Api_Types
begin

text \<open>
  Owner names: the rule that turns a spelling into the absolute name PowerDNS keys an RRset on
  (\<^verbatim>\<open>internal/dns/ownername\<close>), its tolerant variant for names read from users
  (\<^verbatim>\<open>internal/dns/util/conditions.go\<close>), domain coverage
  (\<^verbatim>\<open>internal/controller/dnszone_helpers.go\<close>) and the nameserver lists of a zone class
  (\<^verbatim>\<open>internal/dns/utils\<close>). The locale \<open>owner_names\<close> is what the PowerDNS client and
  the controllers rely on.
\<close>

section \<open>Definitions\<close>

definition Qualify :: "string \<Rightarrow> string \<Rightarrow> string" where
  "Qualify owner zone =
     (let owner = ToLower owner; zone = ToLower zone in
      if owner = ''@'' \<or> owner = [] then zone @ ''.''
      else if last owner = CHR ''.'' then owner
      else owner @ ''.'' @ zone @ ''.'')"

definition qualifyOwner :: "string \<Rightarrow> string \<Rightarrow> string" where
  "qualifyOwner owner zone =
     (let owner = TrimSpace owner; zone = TrimSuffix (TrimSpace zone) ''.'' in
      if zone \<noteq> [] then Qualify owner zone
      else if owner = [] then ''@'' else ToLower owner)"

definition normalizeDomainName :: "string \<Rightarrow> string" where
  "normalizeDomainName s = ToLower (TrimSuffix (TrimSpace s) ''.'')"

definition domainCovers :: "string \<Rightarrow> string \<Rightarrow> bool" where
  "domainCovers candidate name =
     (let candidate = normalizeDomainName candidate; name = normalizeDomainName name in
      if candidate = [] \<or> name = [] then False
      else if candidate = name then True
      else HasSuffix name (''.'' @ candidate))"

definition normalizeNameserver :: "string \<Rightarrow> string" where
  "normalizeNameserver s = TrimSuffix (ToLower (TrimSpace s)) ''.''"

definition NormalizeStringSlice :: "string list \<Rightarrow> string list" where
  "NormalizeStringSlice xs = (if xs = [] then [] else sort_strings (first_seen id [] xs))"

definition ClassNameservers :: "DNSZoneClass \<Rightarrow> string list" where
  "ClassNameservers class =
     (case zc_policy class of None \<Rightarrow> []
      | Some policy \<Rightarrow>
          if np_mode policy \<noteq> ''Static'' then []
          else (case np_static policy of None \<Rightarrow> [] | Some servers \<Rightarrow> NormalizeStringSlice servers))"

section \<open>The contract of a naming rule\<close>

locale owner_names =
  fixes qual :: "string \<Rightarrow> string \<Rightarrow> string"
  assumes lower: "ToLower (qual owner zone) = qual owner zone"
    and absolute: "qual owner zone \<noteq> [] \<and> last (qual owner zone) = CHR ''.''"
    and fixpoint: "owner \<noteq> [] \<Longrightarrow> last owner = CHR ''.'' \<Longrightarrow> qual owner zone = ToLower owner"
begin

lemma nonempty [simp]: "qual owner zone \<noteq> []"
  using absolute by simp

lemma idem: "qual (qual owner zone) zone' = qual owner zone"
  using absolute [of owner zone] by (simp add: fixpoint lower)

text \<open>Names the rule produces are compared by the backend's case-insensitive rule as they are.\<close>

lemma fold_eq: "EqualFold (qual a z) (qual b z') \<longleftrightarrow> qual a z = qual b z'"
  by (simp add: EqualFold_def lower)

end

lemma ToLower_dot_append: "ToLower (''.'' @ z @ ''.'') = ''.'' @ ToLower z @ ''.''"
  by (simp add: ToLower_def to_lower_char_def less_eq_char_def)

lemma at_not_dot [simp]: "last ''@'' \<noteq> CHR ''.''"
  by simp

interpretation qn: owner_names Qualify
proof unfold_locales
  show "ToLower (Qualify owner zone) = Qualify owner zone" for owner zone
    by (simp add: Qualify_def Let_def ToLower_dot_append del: append_Cons append_Nil)
  show "Qualify owner zone \<noteq> [] \<and> last (Qualify owner zone) = CHR ''.''" for owner zone
    by (auto simp: Qualify_def Let_def)
  show "owner \<noteq> [] \<Longrightarrow> last owner = CHR ''.'' \<Longrightarrow> Qualify owner zone = ToLower owner" for owner zone
    by (auto simp: Qualify_def Let_def)
qed

lemma Qualify_case: "ToLower a = ToLower b \<Longrightarrow> Qualify a z = Qualify b z"
  by (simp add: Qualify_def)

lemma Qualify_zone_case: "ToLower z = ToLower z' \<Longrightarrow> Qualify a z = Qualify a z'"
  by (simp add: Qualify_def)

lemma Qualify_apex: "Qualify [] z = ToLower z @ ''.''" "Qualify ''@'' z = ToLower z @ ''.''"
  by (simp_all add: Qualify_def ToLower_def to_lower_char_def less_eq_char_def)

section \<open>Properties\<close>



lemma domainCovers_iff:
  "domainCovers c n \<longleftrightarrow> normalizeDomainName c \<noteq> [] \<and>
     (normalizeDomainName n = normalizeDomainName c \<or>
      (\<exists>pre. normalizeDomainName n = pre @ ''.'' @ normalizeDomainName c))"
  by (auto simp: domainCovers_def Let_def HasSuffix_iff)

lemma domainCovers_longer:
  "domainCovers c n \<Longrightarrow> normalizeDomainName c = normalizeDomainName n \<or>
     length (normalizeDomainName c) < length (normalizeDomainName n)"
  by (auto simp: domainCovers_iff)

text \<open>domain coverage is decided at label boundaries and is a partial order: a name covers
  exactly itself and the names that end in a dot and it, the relation is transitive, and two
  names that cover each other are one name up to case, white space and a trailing dot.\<close>

theorem domainCovers_order:
  "(domainCovers c n \<longleftrightarrow> normalizeDomainName c \<noteq> [] \<and>
      (normalizeDomainName n = normalizeDomainName c \<or>
       (\<exists>pre. normalizeDomainName n = pre @ ''.'' @ normalizeDomainName c)))
   \<and> (domainCovers a c \<and> domainCovers c n \<longrightarrow> domainCovers a n)
   \<and> (domainCovers c n \<and> domainCovers n c \<longrightarrow> normalizeDomainName c = normalizeDomainName n)"
proof (intro conjI impI)
  assume "domainCovers a c \<and> domainCovers c n"
  then have "domainCovers a c" and "domainCovers c n" by simp_all
  then show "domainCovers a n"
    unfolding domainCovers_iff by (metis append.assoc)
next
  assume "domainCovers c n \<and> domainCovers n c"
  then show "normalizeDomainName c = normalizeDomainName n"
    using domainCovers_longer [of c n] domainCovers_longer [of n c] by auto
qed (rule domainCovers_iff)

theorem domainCovers_order_witness:
  "domainCovers ''Example.com.'' ''b.example.com'' \<and> domainCovers ''b.example.com'' ''a.b.example.com''
   \<and> domainCovers ''Example.com.'' ''a.b.example.com'' \<and> \<not> domainCovers ''example.com'' ''notexample.com''"
proof -
  have 1: "domainCovers ''Example.com.'' ''b.example.com''" by code_simp
  have 2: "domainCovers ''b.example.com'' ''a.b.example.com''" by code_simp
  have 3: "\<not> domainCovers ''example.com'' ''notexample.com''" by code_simp
  from 1 2 domainCovers_order [of "''b.example.com''" "''a.b.example.com''" "''Example.com.''"]
  have "domainCovers ''Example.com.'' ''a.b.example.com''" by blast
  with 1 2 3 show ?thesis by simp
qed

text \<open>a normalised nameserver list is the canonical form of a set of names: sorted, without
  duplicates, with the same members, and equal for two lists exactly when their members are.\<close>

theorem NormalizeStringSlice_canonical:
  "sorted (NormalizeStringSlice xs) \<and> distinct (NormalizeStringSlice xs)
   \<and> set (NormalizeStringSlice xs) = set xs
   \<and> (NormalizeStringSlice xs = NormalizeStringSlice ys \<longleftrightarrow> set xs = set ys)
   \<and> NormalizeStringSlice (NormalizeStringSlice xs) = NormalizeStringSlice xs"
proof -
  have canon: "sorted (NormalizeStringSlice zs) \<and> distinct (NormalizeStringSlice zs)
      \<and> set (NormalizeStringSlice zs) = set zs" for zs
    using distinct_first_seen [of id "[]" zs] first_seen_keys [of id "[]" zs]
    by (simp add: NormalizeStringSlice_def sorted_sort_strings)
  have eq: "NormalizeStringSlice us = NormalizeStringSlice vs \<longleftrightarrow> set us = set vs" for us vs
    using canon [of us] canon [of vs]
      sorted_distinct_set_unique [of "NormalizeStringSlice us" "NormalizeStringSlice vs"] by auto
  have "NormalizeStringSlice (NormalizeStringSlice xs) = NormalizeStringSlice xs"
    unfolding eq using canon [of xs] by blast
  with canon [of xs] eq [of xs ys] show ?thesis by blast
qed

end
