(* ===== verification/Pdns_Content.thy ===== *)
theory Pdns_Content
  imports Owner_Name
begin

text \<open>
  From record entries to PowerDNS RRsets (\<^verbatim>\<open>internal/dns/pdns/client.go\<close>): the
  presentation-format content of each record type, the RRsets of a record set, and the SOA
  serial rule. \<open>appendRecord\<close> is the type switch of \<^verbatim>\<open>buildRRSets\<close>,
  \<open>addEntry\<close> one turn of its loop. The date that stands in for a missing SOA serial
  (\<^verbatim>\<open>time.Now().Format\<close>) is the argument \<open>today\<close>.
\<close>

section \<open>Definitions\<close>

subsection \<open>Wire data\<close>

record zoneRRsetComment =
  cm_account :: string
  cm_content :: string
  cm_modifiedAt :: int

record rrsetRecord =
  rec_content :: string
  rec_disabled :: bool

record rrset =
  rr_name :: string
  rr_type :: string
  rr_ttl :: int
  rr_changeType :: string
  rr_records :: "rrsetRecord list"
  rr_comments :: "zoneRRsetComment list option"
  rr_commentsOnly :: bool

record OwnerRRSet =
  or_ttl :: int
  or_records :: "string list"

record zoneRRset =
  zr_name :: string
  zr_type :: string
  zr_ttl :: int
  zr_records :: "rrsetRecord list"
  zr_comments :: "zoneRRsetComment list option"

definition changeTypeReplace :: string where "changeTypeReplace = ''REPLACE''"
definition changeTypeDelete :: string where "changeTypeDelete = ''DELETE''"

subsection \<open>Names, quoting and escaping\<close>

definition qualifyIfNeeded :: "string \<Rightarrow> string" where
  "qualifyIfNeeded target =
     (if target = [] then target
      else if last target = CHR ''.'' then target
      else target @ ''.'')"

definition stripTrailingDot :: "string \<Rightarrow> string" where
  "stripTrailingDot s = (if HasSuffix s ''.'' then butlast s else s)"

text \<open>The loop of \<^verbatim>\<open>escapeTXTContent\<close> with the byte before the current one.\<close>

fun escape_from :: "char option \<Rightarrow> string \<Rightarrow> string" where
  "escape_from prev [] = []"
| "escape_from prev (c # s) =
     (if c = CHR '';'' \<and> prev \<noteq> Some (CHR 0x5C) then CHR 0x5C # CHR '';'' # escape_from (Some c) s
      else c # escape_from (Some c) s)"

definition escapeTXTContent :: "string \<Rightarrow> string" where
  "escapeTXTContent s = escape_from None s"

definition quoteIfNeeded :: "string \<Rightarrow> string" where
  "quoteIfNeeded s =
     (if 2 \<le> length s \<and> hd s = CHR 0x22 \<and> last s = CHR 0x22 then s
      else CHR 0x22 # escapeTXTContent s @ [CHR 0x22])"

subsection \<open>SVCB and HTTPS parameters\<close>

definition svcbKeyRank :: "string \<Rightarrow> nat" where
  "svcbKeyRank k =
     (if k = ''alpn'' then 10
      else if k = ''no-default-alpn'' then 20
      else if k = ''port'' then 30
      else if k = ''esnikeys'' \<or> k = ''ech'' then 40
      else if k = ''ipv4hint'' then 50
      else if k = ''ipv6hint'' then 60
      else 1000)"

definition svcbKeyLess :: "string \<Rightarrow> string \<Rightarrow> bool" where
  "svcbKeyLess a b =
     (if svcbKeyRank a \<noteq> svcbKeyRank b then svcbKeyRank a < svcbKeyRank b else a < b)"

definition svcbFlagKeys :: "string list" where "svcbFlagKeys = [''no-default-alpn'']"
definition svcbUnquotedCSV :: "string list" where
  "svcbUnquotedCSV = [''alpn'', ''ipv4hint'', ''ipv6hint'', ''port'']"

definition svcbPart :: "(string \<times> string) list \<Rightarrow> string \<Rightarrow> string option" where
  "svcbPart m k =
     (let v = TrimSpace (case map_of m k of Some v \<Rightarrow> v | None \<Rightarrow> []) in
      if k \<in> set svcbFlagKeys then Some k
      else if v = [] then None
      else if k \<in> set svcbUnquotedCSV then Some (k @ ''='' @ v)
      else Some (k @ ''='' @ quoteIfNeeded v))"

definition encodeSvcbParams :: "(string \<times> string) list \<Rightarrow> string" where
  "encodeSvcbParams m =
     (if m = [] then []
      else Join (List.map_filter (svcbPart m) (go_sort svcbKeyLess (map fst m))) '' '')"

definition encodeSvcbLine :: "16 word \<Rightarrow> string \<Rightarrow> (string \<times> string) list \<Rightarrow> string" where
  "encodeSvcbLine priority target params =
     (let t = TrimSpace target;
          t = (if t = ''.'' then t else if t = [] then ''.'' else qualifyIfNeeded t) in
      if priority = 0 then nat_str (unat priority) @ '' '' @ t
      else let p = encodeSvcbParams params in
        if p \<noteq> [] then nat_str (unat priority) @ '' '' @ t @ '' '' @ p
        else nat_str (unat priority) @ '' '' @ t)"

subsection \<open>Record lines\<close>

definition u_str :: "'a::len word \<Rightarrow> string" where
  "u_str w = nat_str (unat w)"

definition orDefault :: "32 word \<Rightarrow> 32 word \<Rightarrow> 32 word" where
  "orDefault w d = (if w \<noteq> 0 then w else d)"

definition soaLine :: "string \<Rightarrow> SOARecordSpec \<Rightarrow> string" where
  "soaLine today soa =
     (let mname = qualifyIfNeeded (TrimSpace (soa_mname soa));
          rname = qualifyIfNeeded (TrimSpace (soa_rname soa));
          serial = (if soa_serial soa \<noteq> 0 then u_str (soa_serial soa) else today @ ''01'')
      in Join [mname, rname, serial,
               u_str (orDefault (soa_refresh soa) 10800), u_str (orDefault (soa_retry soa) 3600),
               u_str (orDefault (soa_expire soa) 604800), u_str (orDefault (soa_ttl soa) 3600)] '' '')"

definition srvLine :: "SRVRecordSpec \<Rightarrow> string" where
  "srvLine srv = Join [u_str (srv_priority srv), u_str (srv_weight srv), u_str (srv_port srv),
     qualifyIfNeeded (TrimSpace (srv_target srv))] '' ''"

definition caaLine :: "CAARecordSpec \<Rightarrow> string" where
  "caaLine caa = Join [u_str (caa_flag caa), caa_tag caa, quoteIfNeeded (caa_value caa)] '' ''"

definition tlsaLine :: "TLSARecordSpec \<Rightarrow> string" where
  "tlsaLine t = Join [u_str (tlsa_usage t), u_str (tlsa_selector t), u_str (tlsa_matchingType t),
     tlsa_certData t] '' ''"

definition mkRecord :: "string \<Rightarrow> rrsetRecord" where
  "mkRecord v = \<lparr>rec_content = v, rec_disabled = False\<rparr>"

text \<open>\<open>addNonEmpty f v rs\<close> appends the record of a trimmed value unless it is blank.\<close>

definition addNonEmpty :: "(string \<Rightarrow> string) \<Rightarrow> string option \<Rightarrow> rrsetRecord list \<Rightarrow> rrsetRecord list" where
  "addNonEmpty f v rs =
     (case v of None \<Rightarrow> rs
      | Some v \<Rightarrow> let v = TrimSpace v in if v \<noteq> [] then rs @ [mkRecord (f v)] else rs)"

text \<open>CNAME and ALIAS keep the first non-empty target only.\<close>

definition addSingle :: "string option \<Rightarrow> rrsetRecord list \<Rightarrow> rrsetRecord list" where
  "addSingle v rs =
     (case v of None \<Rightarrow> rs
      | Some v \<Rightarrow> let target = qualifyIfNeeded (TrimSpace v) in
          if target \<noteq> [] \<and> length rs = 0 then rs @ [mkRecord target] else rs)"

definition addLine :: "('a \<Rightarrow> string) \<Rightarrow> 'a option \<Rightarrow> rrsetRecord list \<Rightarrow> rrsetRecord list" where
  "addLine line v rs = (case v of None \<Rightarrow> rs | Some x \<Rightarrow> rs @ [mkRecord (line x)])"

definition appendRecord ::
  "string \<Rightarrow> RRType \<Rightarrow> RecordEntry \<Rightarrow> rrsetRecord list \<Rightarrow> rrsetRecord list" where
  "appendRecord today typ rec rs =
     (if typ = RRTypeA then addNonEmpty id (re_A rec) rs
      else if typ = RRTypeAAAA then addNonEmpty id (re_AAAA rec) rs
      else if typ = RRTypeCNAME then addSingle (re_CNAME rec) rs
      else if typ = RRTypeTXT then addNonEmpty quoteIfNeeded (re_TXT rec) rs
      else if typ = RRTypeMX then
        (case re_MX rec of None \<Rightarrow> rs
         | Some mx \<Rightarrow> addNonEmpty (\<lambda>e. u_str (mx_preference mx) @ '' '' @ qualifyIfNeeded e)
                        (Some (mx_exchange mx)) rs)
      else if typ = RRTypeSRV then
        (case re_SRV rec of None \<Rightarrow> rs
         | Some srv \<Rightarrow> addNonEmpty (\<lambda>_. srvLine srv) (Some (srv_target srv)) rs)
      else if typ = RRTypeCAA then addLine caaLine (re_CAA rec) rs
      else if typ = RRTypeNS then addNonEmpty qualifyIfNeeded (re_NS rec) rs
      else if typ = RRTypeSOA then
        (case re_SOA rec of None \<Rightarrow> rs | Some soa \<Rightarrow> [mkRecord (soaLine today soa)])
      else if typ = RRTypePTR then addNonEmpty qualifyIfNeeded (re_PTR rec) rs
      else if typ = RRTypeTLSA then addLine tlsaLine (re_TLSA rec) rs
      else if typ = RRTypeHTTPS then
        addLine (\<lambda>h. encodeSvcbLine (https_priority h) (https_target h) (https_params h)) (re_HTTPS rec) rs
      else if typ = RRTypeSVCB then
        addLine (\<lambda>h. encodeSvcbLine (https_priority h) (https_target h) (https_params h)) (re_SVCB rec) rs
      else if typ = RRTypeALIAS then addSingle (re_ALIAS rec) rs
      else rs)"

subsection \<open>RRsets of a record set\<close>

definition dedupeRecords :: "rrsetRecord list \<Rightarrow> rrsetRecord list" where
  "dedupeRecords rs = (if length rs < 2 then rs else first_seen rec_content [] rs)"

definition entryTTL :: "RecordEntry \<Rightarrow> int" where
  "entryTTL rec = (case re_ttl rec of None \<Rightarrow> 300 | Some ttl \<Rightarrow> ttl)"

definition newRRSet :: "string \<Rightarrow> RRType \<Rightarrow> int \<Rightarrow> rrset" where
  "newRRSet name typ ttl = \<lparr>rr_name = name, rr_type = typ, rr_ttl = ttl,
     rr_changeType = changeTypeReplace, rr_records = [], rr_comments = None, rr_commentsOnly = False\<rparr>"

definition addEntry ::
  "string \<Rightarrow> string \<Rightarrow> RRType \<Rightarrow> (string \<times> rrset) list \<Rightarrow> RecordEntry \<Rightarrow> (string \<times> rrset) list" where
  "addEntry today zone typ sets rec =
     (let name = Qualify (re_name rec) zone;
          r = (case map_of sets name of Some r \<Rightarrow> r | None \<Rightarrow> newRRSet name typ (entryTTL rec))
      in AList.update name (r\<lparr>rr_records := appendRecord today typ rec (rr_records r)\<rparr>) sets)"

definition buildRRSets :: "string \<Rightarrow> string \<Rightarrow> RRType \<Rightarrow> RecordEntry list \<Rightarrow> rrset list" where
  "buildRRSets today zone typ records =
     (let sets = foldl (addEntry today zone typ) [] records
      in List.map_filter
           (\<lambda>owner. map_option (\<lambda>r. r\<lparr>rr_records := dedupeRecords (rr_records r)\<rparr>) (map_of sets owner))
           (sort_strings (map fst sets)))"

definition BuildOwnerRRSet ::
  "string \<Rightarrow> string \<Rightarrow> RRType \<Rightarrow> string \<Rightarrow> RecordEntry list \<Rightarrow> OwnerRRSet option" where
  "BuildOwnerRRSet today zone typ ownerName entries =
     (if entries = [] then None
      else case find (\<lambda>rr. rr_name rr = Qualify ownerName zone) (buildRRSets today zone typ entries) of
        None \<Rightarrow> None
      | Some rr \<Rightarrow> Some \<lparr>or_ttl = rr_ttl rr, or_records = map rec_content (rr_records rr)\<rparr>)"

definition makeSimpleRRSet :: "string \<Rightarrow> string \<Rightarrow> int \<Rightarrow> string list \<Rightarrow> rrset" where
  "makeSimpleRRSet name typ ttl values = \<lparr>rr_name = name, rr_type = typ, rr_ttl = ttl,
     rr_changeType = changeTypeReplace, rr_records = map mkRecord values, rr_comments = None,
     rr_commentsOnly = False\<rparr>"

subsection \<open>The SOA serial\<close>

definition soaSerial :: "string \<Rightarrow> nat option" where
  "soaSerial content =
     (let fields = Fields content in
      if length fields \<noteq> 7 then None else ParseUint 32 (fields ! 2))"

definition heldSerial :: "zoneRRset \<Rightarrow> nat" where
  "heldSerial current =
     foldl (\<lambda>held rec. case soaSerial (rec_content rec) of
              Some serial \<Rightarrow> if serial > held then serial else held | None \<Rightarrow> held)
           0 (zr_records current)"

definition raiseSerial :: "nat \<Rightarrow> string \<Rightarrow> string" where
  "raiseSerial held line =
     (let fields = Fields line in
      if length fields \<noteq> 7 then line
      else case soaSerial line of
        Some serial \<Rightarrow> if serial \<ge> held then line else Join (fields[2 := nat_str held]) '' ''
      | None \<Rightarrow> Join (fields[2 := nat_str held]) '' '')"

definition keepSOASerialRising :: "string list \<Rightarrow> zoneRRset \<Rightarrow> string list" where
  "keepSOASerialRising desired current =
     (let held = heldSerial current in
      if held = 0 then desired else map (raiseSerial held) desired)"

section \<open>Lemmas\<close>

lemma dedupeRecords_eq: "dedupeRecords rs = first_seen rec_content [] rs"
proof (cases "length rs < 2")
  case True
  then have "distinct (map rec_content rs)" by (cases rs) auto
  with True show ?thesis by (simp add: dedupeRecords_def first_seen_id)
qed (simp add: dedupeRecords_def)

lemma dedupeRecords_single: "length rs \<le> 1 \<Longrightarrow> dedupeRecords rs = rs"
  by (simp add: dedupeRecords_def)

subsection \<open>Escaping\<close>

lemma escape_from_Some_cong:
  "(p = Some (CHR 0x5C)) = (q = Some (CHR 0x5C)) \<Longrightarrow> escape_from p s = escape_from q s"
  by (cases s) auto

fun semis_escaped :: "char option \<Rightarrow> string \<Rightarrow> bool" where
  "semis_escaped prev [] = True"
| "semis_escaped prev (c # s) =
     ((c = CHR '';'' \<longrightarrow> prev = Some (CHR 0x5C)) \<and> semis_escaped (Some c) s)"

lemma escape_from_escaped: "semis_escaped prev (escape_from prev s)"
proof (induction prev s rule: escape_from.induct)
  case (2 prev c s)
  then show ?case by (cases "c = CHR '';'' \<and> prev \<noteq> Some (CHR 0x5C)") auto
qed simp

lemma escape_from_fixed: "semis_escaped prev s \<Longrightarrow> escape_from prev s = s"
  by (induction prev s rule: escape_from.induct) auto

lemma escape_from_no_semi: "CHR '';'' \<notin> set s \<Longrightarrow> escape_from prev s = s"
  by (induction prev s rule: escape_from.induct) auto

text \<open>Reading escapes back: a backslash right before a semicolon is dropped.\<close>

fun unescape_semis :: "string \<Rightarrow> string" where
  "unescape_semis [] = []"
| "unescape_semis [c] = [c]"
| "unescape_semis (c # d # s) =
     (if c = CHR 0x5C \<and> d = CHR '';'' then CHR '';'' # unescape_semis s
      else c # unescape_semis (d # s))"

lemma unescape_other: "c \<noteq> CHR 0x5C \<Longrightarrow> unescape_semis (c # s) = c # unescape_semis s"
  by (cases s) auto

lemma unescape_escape_from:
  "unescape_semis (c # escape_from (Some c) s) = unescape_semis (c # s)"
proof (induction s arbitrary: c)
  case (Cons b s)
  show ?case
  proof (cases "b = CHR '';''")
    case True
    then have "unescape_semis (escape_from (Some b) s) = unescape_semis s"
      using Cons [of b] by (simp add: unescape_other)
    with True show ?thesis by (simp add: unescape_other)
  next
    case False
    with Cons [of b] show ?thesis by simp
  qed
qed simp

section \<open>Properties\<close>

text \<open>TXT escaping puts a backslash before every semicolon that has none, is idempotent, and
  changes nothing else.\<close>

theorem escapeTXTContent_ok:
  "semis_escaped None (escapeTXTContent s)
   \<and> escapeTXTContent (escapeTXTContent s) = escapeTXTContent s
   \<and> unescape_semis (escapeTXTContent s) = unescape_semis s"
proof (intro conjI)
  show "semis_escaped None (escapeTXTContent s)"
    by (simp add: escapeTXTContent_def escape_from_escaped)
  then show "escapeTXTContent (escapeTXTContent s) = escapeTXTContent s"
    by (simp add: escapeTXTContent_def escape_from_fixed)
  have "escapeTXTContent s = escape_from (Some (CHR ''x'')) s"
    unfolding escapeTXTContent_def by (rule escape_from_Some_cong) simp
  then show "unescape_semis (escapeTXTContent s) = unescape_semis s"
    using unescape_escape_from [of "CHR ''x''" s] by (simp add: unescape_other)
qed

subsection \<open>SVCB parameters\<close>

interpretation svcb: go_less svcbKeyLess
  by (rule go_less_keyI [where key = "\<lambda>k. (svcbKeyRank k, k)"])
    (auto simp: svcbKeyLess_def less_prod_def)

lemma svcbKeyLess_total: "\<not> svcbKeyLess a b \<Longrightarrow> \<not> svcbKeyLess b a \<Longrightarrow> a = b"
  by (auto simp: svcbKeyLess_def split: if_splits)

lemma svcbPart_cong: "map_of m = map_of m' \<Longrightarrow> svcbPart m = svcbPart m'"
  by (simp add: fun_eq_iff svcbPart_def)

lemma map_of_mset:
  assumes "distinct (map fst m)" and "mset m = mset m'"
  shows "map_of m = map_of m'"
proof -
  have "distinct (map fst m')" using assms by (metis mset_eq_imp_distinct_iff mset_map)
  moreover have "set m = set m'" using assms(2) by (metis set_mset_mset)
  ultimately show ?thesis using assms(1) by (metis map_of_inject_set)
qed

text \<open>the SVCB parameter text does not depend on the order in which the parameter map is
  walked: any two listings of one map give the same text, with the keys in the canonical order
  of their ranks; and a record in alias form (priority zero) never carries parameters.\<close>

theorem encodeSvcb_canonical:
  assumes "distinct (map fst m)" and "mset m = mset m'"
  shows "encodeSvcbLine p t m = encodeSvcbLine p t m'
    \<and> sorted (map svcbKeyRank (go_sort svcbKeyLess (map fst m)))
    \<and> encodeSvcbLine 0 t m = encodeSvcbLine 0 t []"
proof (intro conjI)
  have "mset (map fst m) = mset (map fst m')" using assms(2) by (metis mset_map)
  then have "go_sort svcbKeyLess (map fst m) = go_sort svcbKeyLess (map fst m')"
    by (rule svcb.go_sort_mset_cong) (rule svcbKeyLess_total)
  moreover have "svcbPart m = svcbPart m'"
    by (intro svcbPart_cong map_of_mset assms)
  moreover have "m = [] \<longleftrightarrow> m' = []" using assms(2) by auto
  ultimately have "encodeSvcbParams m = encodeSvcbParams m'"
    by (simp add: encodeSvcbParams_def)
  then show "encodeSvcbLine p t m = encodeSvcbLine p t m'"
    by (simp add: encodeSvcbLine_def Let_def)
  show "encodeSvcbLine 0 t m = encodeSvcbLine 0 t []" by (simp add: encodeSvcbLine_def Let_def)
  have "\<not> svcbKeyLess b a \<Longrightarrow> svcbKeyRank a \<le> svcbKeyRank b" for a b
    by (auto simp: svcbKeyLess_def split: if_splits)
  then show "sorted (map svcbKeyRank (go_sort svcbKeyLess (map fst m)))"
    using svcb.ordered_go_sort [of "map fst m"]
    by (simp add: sorted_map) (rule sorted_wrt_mono_rel, auto)
qed

theorem encodeSvcb_canonical_witness:
  "encodeSvcbLine 1 ''.'' [(''port'', ''443''), (''alpn'', ''h2'')]
     = encodeSvcbLine 1 ''.'' [(''alpn'', ''h2''), (''port'', ''443'')]
   \<and> encodeSvcbLine 1 ''.'' [(''port'', ''443''), (''alpn'', ''h2'')] = ''1 . alpn=h2 port=443''"
proof
  show "encodeSvcbLine 1 ''.'' [(''port'', ''443''), (''alpn'', ''h2'')]
     = encodeSvcbLine 1 ''.'' [(''alpn'', ''h2''), (''port'', ''443'')]"
    by (rule encodeSvcb_canonical [THEN conjunct1]) simp_all
  show "encodeSvcbLine 1 ''.'' [(''port'', ''443''), (''alpn'', ''h2'')] = ''1 . alpn=h2 port=443''"
    by code_simp
qed

subsection \<open>RRsets of a record set\<close>

definition entriesAt :: "string \<Rightarrow> string \<Rightarrow> RecordEntry list \<Rightarrow> RecordEntry list" where
  "entriesAt zone name records = filter (\<lambda>r. Qualify (re_name r) zone = name) records"

definition recordsAt :: "string \<Rightarrow> RRType \<Rightarrow> RecordEntry list \<Rightarrow> rrsetRecord list" where
  "recordsAt today typ es = foldl (\<lambda>rs r. appendRecord today typ r rs) [] es"

lemma map_of_addEntries:
  "map_of (foldl (addEntry today zone typ) [] records) name =
     (case entriesAt zone name records of [] \<Rightarrow> None
      | e # es \<Rightarrow> Some ((newRRSet name typ (entryTTL e))\<lparr>rr_records := recordsAt today typ (e # es)\<rparr>))"
proof (induction records rule: rev_induct)
  case Nil
  then show ?case by (simp add: entriesAt_def)
next
  case (snoc r rs)
  show ?case
  proof (cases "Qualify (re_name r) zone = name")
    case True
    have at: "entriesAt zone name (rs @ [r]) = entriesAt zone name rs @ [r]"
      using True by (simp add: entriesAt_def)
    show ?thesis
    proof (cases "entriesAt zone name rs")
      case Nil
      with True snoc at show ?thesis
        by (simp add: addEntry_def Let_def map_of_update recordsAt_def newRRSet_def)
    next
      case (Cons e es)
      with True snoc at show ?thesis
        by (simp add: addEntry_def Let_def map_of_update recordsAt_def newRRSet_def)
    qed
  next
    case False
    then have "entriesAt zone name (rs @ [r]) = entriesAt zone name rs"
      by (simp add: entriesAt_def)
    with False snoc show ?thesis by (simp add: addEntry_def Let_def map_of_update)
  qed
qed

lemma distinct_addEntries: "distinct (map fst (foldl (addEntry today zone typ) [] records))"
  by (induction records rule: rev_induct) (simp_all add: addEntry_def Let_def distinct_update)

lemma fst_addEntries:
  "fst ` set (foldl (addEntry today zone typ) [] records) = (\<lambda>r. Qualify (re_name r) zone) ` set records"
  by (induction records rule: rev_induct) (simp_all add: addEntry_def Let_def dom_update)

definition rrsetAt :: "string \<Rightarrow> string \<Rightarrow> RRType \<Rightarrow> RecordEntry list \<Rightarrow> string \<Rightarrow> rrset" where
  "rrsetAt today zone typ records name =
     (newRRSet name typ (entryTTL (hd (entriesAt zone name records))))
       \<lparr>rr_records := dedupeRecords (recordsAt today typ (entriesAt zone name records))\<rparr>"

lemma rrsetAt_simps [simp]:
  "rr_name (rrsetAt today zone typ records name) = name"
  "rr_type (rrsetAt today zone typ records name) = typ"
  "rr_ttl (rrsetAt today zone typ records name) = entryTTL (hd (entriesAt zone name records))"
  "rr_changeType (rrsetAt today zone typ records name) = changeTypeReplace"
  "rr_comments (rrsetAt today zone typ records name) = None"
  "rr_commentsOnly (rrsetAt today zone typ records name) = False"
  "rr_records (rrsetAt today zone typ records name) =
     dedupeRecords (recordsAt today typ (entriesAt zone name records))"
  by (simp_all add: rrsetAt_def newRRSet_def)

lemma map_filter_Some: "(\<And>x. x \<in> set xs \<Longrightarrow> f x = Some (g x)) \<Longrightarrow> List.map_filter f xs = map g xs"
  by (induction xs) (simp_all add: List.map_filter_simps)

definition ownerNames :: "string \<Rightarrow> RecordEntry list \<Rightarrow> string list" where
  "ownerNames zone records =
     sort_strings (first_seen id [] (map (\<lambda>r. Qualify (re_name r) zone) records))"

lemma set_ownerNames: "set (ownerNames zone records) = (\<lambda>r. Qualify (re_name r) zone) ` set records"
  by (simp add: ownerNames_def)

lemma sorted_ownerNames: "sorted (ownerNames zone records)"
  and distinct_ownerNames: "distinct (ownerNames zone records)"
  by (simp_all add: ownerNames_def sorted_sort_strings)

lemma entriesAt_nonempty: "name \<in> set (ownerNames zone records) \<Longrightarrow> entriesAt zone name records \<noteq> []"
  by (auto simp: set_ownerNames entriesAt_def filter_empty_conv)

lemma buildRRSets_eq:
  "buildRRSets today zone typ records = map (rrsetAt today zone typ records) (ownerNames zone records)"
proof -
  let ?sets = "foldl (addEntry today zone typ) [] records"
  have names: "sort_strings (map fst ?sets) = ownerNames zone records"
    by (intro sorted_distinct_set_unique)
      (simp_all add: sorted_sort_strings sorted_ownerNames distinct_ownerNames
        distinct_addEntries fst_addEntries set_ownerNames)
  have "map_option (\<lambda>r. r\<lparr>rr_records := dedupeRecords (rr_records r)\<rparr>) (map_of ?sets name)
      = Some (rrsetAt today zone typ records name)"
    if "name \<in> set (ownerNames zone records)" for name
    using entriesAt_nonempty [OF that]
    by (cases "entriesAt zone name records")
      (simp_all add: map_of_addEntries rrsetAt_def newRRSet_def)
  then show ?thesis unfolding buildRRSets_def Let_def names by (rule map_filter_Some)
qed

definition singleValued :: "RRType \<Rightarrow> bool" where
  "singleValued typ \<longleftrightarrow> typ \<in> {RRTypeCNAME, RRTypeALIAS, RRTypeSOA}"

definition appends :: "('a list \<Rightarrow> 'a list) \<Rightarrow> bool" where
  "appends g \<longleftrightarrow> (\<exists>new. \<forall>rs. g rs = rs @ new)"

lemma appends_eq: "appends g \<Longrightarrow> g rs = rs @ g []"
  by (auto simp: appends_def)

lemma appends_id: "appends (\<lambda>rs. rs)"
  by (simp add: appends_def)

lemma appends_snoc: "appends (\<lambda>rs. rs @ [x])"
  by (simp add: appends_def)

lemma appends_if:
  "(c \<Longrightarrow> appends g) \<Longrightarrow> (\<not> c \<Longrightarrow> appends h) \<Longrightarrow> appends (\<lambda>rs. if c then g rs else h rs)"
  by (cases c) simp_all

lemma appends_option:
  "(\<And>x. appends (k x)) \<Longrightarrow> appends (\<lambda>rs. case v of None \<Rightarrow> rs | Some x \<Rightarrow> k x rs)"
  by (cases v) (simp_all add: appends_id)

lemma appends_addNonEmpty: "appends (addNonEmpty f w)"
  unfolding addNonEmpty_def [abs_def] Let_def
  by (intro appends_option appends_if appends_snoc appends_id)

lemma appends_addLine: "appends (addLine line u)"
  unfolding addLine_def [abs_def] by (intro appends_option appends_snoc)

lemmas appends_rules = appends_id appends_if appends_option appends_addNonEmpty appends_addLine

lemma addSingle_single: "length rs \<le> 1 \<Longrightarrow> length (addSingle v rs) \<le> 1"
  by (simp add: addSingle_def Let_def split: option.split)

lemma appendRecord_append:
  assumes "\<not> singleValued typ"
  shows "appendRecord today typ rec rs = rs @ appendRecord today typ rec []"
proof -
  have "typ \<noteq> RRTypeCNAME" "typ \<noteq> RRTypeALIAS" "typ \<noteq> RRTypeSOA"
    using assms by (simp_all only: singleValued_def insert_iff not_False_eq_True de_Morgan_disj)
  then have "appends (appendRecord today typ rec)"
    unfolding appendRecord_def [abs_def]
    by (intro appends_rules) (simp_all only: simp_thms)
  then show ?thesis by (rule appends_eq)
qed

lemma appendRecord_single:
  assumes "singleValued typ" and "length rs \<le> 1"
  shows "length (appendRecord today typ rec rs) \<le> 1"
proof -
  consider "typ = RRTypeCNAME" | "typ = RRTypeALIAS" | "typ = RRTypeSOA"
    using assms(1) by (auto simp only: singleValued_def)
  then show ?thesis
    by cases (use addSingle_single [OF assms(2)] assms(2) in
        \<open>simp_all add: appendRecord_def split: option.split\<close>)
qed

lemma recordsAt_concat:
  assumes "\<not> singleValued typ"
  shows "recordsAt today typ es = concat (map (\<lambda>r. appendRecord today typ r []) es)"
proof (induction es rule: rev_induct)
  case (snoc e es)
  then show ?case
    using appendRecord_append [OF assms, of today e "concat (map (\<lambda>r. appendRecord today typ r []) es)"]
    by (simp add: recordsAt_def)
qed (simp add: recordsAt_def)

lemma recordsAt_single: "singleValued typ \<Longrightarrow> length (recordsAt today typ es) \<le> 1"
  by (induction es rule: rev_induct) (simp_all add: recordsAt_def appendRecord_single [simplified])

lemma first_seen_map: "map f (first_seen f seen xs) = first_seen id seen (map f xs)"
  by (induction xs arbitrary: seen) simp_all


text \<open>C33: what an RRset holds. For a multi-valued type it is the values of all entries that
  qualify to its name, in order, without repeats; a CNAME, ALIAS or SOA RRset holds at most one.\<close>

theorem buildRRSets_values:
  assumes "rr \<in> set (buildRRSets today zone typ records)"
  shows "if singleValued typ then length (rr_records rr) \<le> 1
    else map rec_content (rr_records rr) =
      first_seen id [] (concat (map (\<lambda>r. map rec_content (appendRecord today typ r []))
        (entriesAt zone (rr_name rr) records)))"
proof -
  obtain name where rr: "rr = rrsetAt today zone typ records name"
    using assms by (auto simp: buildRRSets_eq)
  show ?thesis
  proof (cases "singleValued typ")
    case True
    then show ?thesis using recordsAt_single [OF True]
      by (simp add: rr dedupeRecords_single)
  next
    case False
    then show ?thesis
      by (simp add: rr dedupeRecords_eq first_seen_map recordsAt_concat map_concat o_def)
  qed
qed

theorem buildRRSets_values_witness:
  "let es = [(emptyEntry ''www'')\<lparr>re_A := Some '' 192.0.2.1''\<rparr>, (emptyEntry ''WWW'')\<lparr>re_A := Some ''192.0.2.2''\<rparr>,
             (emptyEntry ''www.example.com.'')\<lparr>re_A := Some ''192.0.2.1''\<rparr>];
       rr = hd (buildRRSets ''20260101'' ''example.com'' ''A'' es)
   in map rec_content (rr_records rr) = [''192.0.2.1'', ''192.0.2.2'']
      \<and> map rec_content (rr_records rr) =
        first_seen id [] (concat (map (\<lambda>r. map rec_content (appendRecord ''20260101'' ''A'' r []))
          (entriesAt ''example.com'' (rr_name rr) es)))"
proof -
  define es where "es = [(emptyEntry ''www'')\<lparr>re_A := Some '' 192.0.2.1''\<rparr>,
    (emptyEntry ''WWW'')\<lparr>re_A := Some ''192.0.2.2''\<rparr>,
    (emptyEntry ''www.example.com.'')\<lparr>re_A := Some ''192.0.2.1''\<rparr>]"
  define rr where "rr = hd (buildRRSets ''20260101'' ''example.com'' ''A'' es)"
  have "buildRRSets ''20260101'' ''example.com'' ''A'' es \<noteq> []" unfolding es_def by code_simp
  then have "rr \<in> set (buildRRSets ''20260101'' ''example.com'' ''A'' es)"
    unfolding rr_def by (rule hd_in_set)
  from buildRRSets_values [OF this]
  have "map rec_content (rr_records rr) =
      first_seen id [] (concat (map (\<lambda>r. map rec_content (appendRecord ''20260101'' ''A'' r []))
        (entriesAt ''example.com'' (rr_name rr) es)))"
    by (simp add: singleValued_def)
  moreover have "map rec_content (rr_records rr) = [''192.0.2.1'', ''192.0.2.2'']"
    unfolding rr_def es_def by code_simp
  ultimately show ?thesis unfolding Let_def rr_def es_def by blast
qed

text \<open>What \<^verbatim>\<open>BuildOwnerRRSet\<close> returns for the entries of one owner name.\<close>

lemma BuildOwnerRRSet_Some:
  assumes "entries \<noteq> []" and "\<forall>e \<in> set entries. Qualify (re_name e) zone = Qualify owner zone"
  shows "BuildOwnerRRSet today zone typ owner entries =
    Some \<lparr>or_ttl = entryTTL (hd entries),
          or_records = map rec_content (dedupeRecords (recordsAt today typ entries))\<rparr>"
proof -
  let ?n = "Qualify owner zone"
  have at: "entriesAt zone ?n entries = entries" using assms(2) by (simp add: entriesAt_def)
  have "set (ownerNames zone entries) = {?n}"
    using assms by (auto simp: set_ownerNames image_iff neq_Nil_conv)
  then have "ownerNames zone entries = [?n]"
    using distinct_ownerNames [of zone entries]
    by (metis distinct_singleton sorted_distinct_set_unique sorted1 sorted_ownerNames
        list.set(1) list.set(2))
  then have "buildRRSets today zone typ entries = [rrsetAt today zone typ entries ?n]"
    by (simp add: buildRRSets_eq)
  then show ?thesis using assms(1) at by (simp add: BuildOwnerRRSet_def)
qed

subsection \<open>The SOA serial\<close>

lemma heldSerial_fold:
  defines "step \<equiv> \<lambda>held rec. case soaSerial (rec_content rec) of
              Some serial \<Rightarrow> if serial > held then serial else held | None \<Rightarrow> held"
  shows "h \<le> foldl step h rs \<and> (h < 2 ^ 32 \<longrightarrow> foldl step h rs < 2 ^ 32)
    \<and> (\<forall>rec \<in> set rs. \<forall>n. soaSerial (rec_content rec) = Some n \<longrightarrow> n \<le> foldl step h rs)"
proof (induction rs rule: rev_induct)
  case (snoc r rs)
  have "soaSerial (rec_content r) = Some n \<Longrightarrow> n < 2 ^ 32" for n
    by (auto simp: soaSerial_def Let_def split: if_splits dest: ParseUint_bound)
  with snoc show ?case by (force simp: step_def split: option.split)
qed simp

lemma heldSerial_bound: "heldSerial current < 2 ^ 32"
  using heldSerial_fold [of 0 "zr_records current"] by (simp add: heldSerial_def)

lemma heldSerial_max:
  "rec \<in> set (zr_records current) \<Longrightarrow> soaSerial (rec_content rec) = Some n \<Longrightarrow> n \<le> heldSerial current"
  using heldSerial_fold [of 0 "zr_records current"] unfolding heldSerial_def by blast

lemma Fields_raise:
  assumes "length (Fields line) = 7"
  shows "Fields (Join ((Fields line)[2 := nat_str held]) '' '') = (Fields line)[2 := nat_str held]"
proof (rule Fields_Join, rule ballI)
  fix w assume "w \<in> set ((Fields line)[2 := nat_str held])"
  then have "w = nat_str held \<or> w \<in> set (Fields line)"
    using set_update_subset_insert [of "Fields line" 2 "nat_str held"] by auto
  then show "w \<noteq> [] \<and> (\<forall>c \<in> set w. \<not> is_space c)"
  proof
    assume "w = nat_str held"
    then show ?thesis using nat_str_no_space by simp
  qed (rule Fields_nonspace)
qed

lemma raiseSerial_fields:
  assumes "length (Fields line) = 7"
  shows "\<exists>v. Fields (raiseSerial held line) = (Fields line)[2 := v]"
proof (cases "raiseSerial held line = line")
  case True
  then show ?thesis by (metis list_update_id)
next
  case False
  then have "raiseSerial held line = Join ((Fields line)[2 := nat_str held]) '' ''"
    by (simp add: raiseSerial_def Let_def split: option.splits if_splits)
  with Fields_raise [OF assms] show ?thesis by metis
qed

lemma raiseSerial_serial:
  assumes "length (Fields line) = 7" and "held < 2 ^ 32"
  shows "\<exists>m. soaSerial (raiseSerial held line) = Some m \<and> held \<le> m"
proof (cases "raiseSerial held line = line")
  case True
  have "Join ((Fields line)[2 := nat_str held]) '' '' = line \<Longrightarrow> soaSerial line = Some held"
  proof -
    assume "Join ((Fields line)[2 := nat_str held]) '' '' = line"
    with Fields_raise [OF assms(1), of held] have "Fields line = (Fields line)[2 := nat_str held]"
      by simp
    moreover have "(Fields line)[2 := nat_str held] ! 2 = nat_str held" using assms(1) by simp
    ultimately have "Fields line ! 2 = nat_str held" by simp
    with assms show ?thesis by (simp add: soaSerial_def ParseUint_nat_str)
  qed
  with True assms(1) show ?thesis
    by (auto simp: raiseSerial_def Let_def split: option.splits if_splits)
next
  case False
  then have "raiseSerial held line = Join ((Fields line)[2 := nat_str held]) '' ''"
    by (simp add: raiseSerial_def Let_def split: option.splits if_splits)
  then show ?thesis using Fields_raise [OF assms(1)] assms
    by (simp add: soaSerial_def ParseUint_nat_str)
qed

lemma raiseSerial_other: "length (Fields line) \<noteq> 7 \<Longrightarrow> raiseSerial held line = line"
  by (simp add: raiseSerial_def)

text \<open>C34: a zone's serial never moves backwards: every well-formed SOA line that is sent carries a
  serial at least as high as each one PowerDNS holds, only the serial field is ever changed, and
  every other line is sent as it was.\<close>

theorem keepSOASerialRising_ok:
  assumes "rec \<in> set (zr_records current)" and "soaSerial (rec_content rec) = Some n" and "0 < n"
    and "i < length desired"
  shows "length (keepSOASerialRising desired current) = length desired
    \<and> (if length (Fields (desired ! i)) = 7
       then (\<exists>m. soaSerial (keepSOASerialRising desired current ! i) = Some m \<and> n \<le> m)
          \<and> (\<exists>v. Fields (keepSOASerialRising desired current ! i) = (Fields (desired ! i))[2 := v])
       else keepSOASerialRising desired current ! i = desired ! i)"
proof -
  have n: "n \<le> heldSerial current" by (rule heldSerial_max [OF assms(1,2)])
  with assms(3) have eq: "keepSOASerialRising desired current = map (raiseSerial (heldSerial current)) desired"
    by (simp add: keepSOASerialRising_def)
  show ?thesis
  proof (cases "length (Fields (desired ! i)) = 7")
    case True
    obtain m where "soaSerial (raiseSerial (heldSerial current) (desired ! i)) = Some m"
        "heldSerial current \<le> m"
      using raiseSerial_serial [OF True heldSerial_bound] by blast
    with True n assms(4) raiseSerial_fields [OF True] show ?thesis by (simp add: eq)
  next
    case False
    with assms(4) show ?thesis by (simp add: eq raiseSerial_other)
  qed
qed

theorem keepSOASerialRising_ok_witness:
  "let current = \<lparr>zr_name = ''example.com.'', zr_type = ''SOA'', zr_ttl = 300,
         zr_records = [mkRecord ''ns1. host. 2026010107 1 2 3 4''], zr_comments = None\<rparr>;
       desired = [''ns1. host. 2026010101 1 2 3 4'']
   in keepSOASerialRising desired current = [''ns1. host. 2026010107 1 2 3 4'']
      \<and> (\<exists>m. soaSerial (keepSOASerialRising desired current ! 0) = Some m \<and> 2026010107 \<le> m)"
proof -
  define current where "current = \<lparr>zr_name = ''example.com.'', zr_type = ''SOA'', zr_ttl = 300,
     zr_records = [mkRecord ''ns1. host. 2026010107 1 2 3 4''], zr_comments = None\<rparr>"
  have s: "soaSerial (rec_content (mkRecord ''ns1. host. 2026010107 1 2 3 4'')) = Some 2026010107"
    by code_simp
  have len: "length (Fields ''ns1. host. 2026010101 1 2 3 4'') = 7" by code_simp
  have "mkRecord ''ns1. host. 2026010107 1 2 3 4'' \<in> set (zr_records current)"
    by (simp add: current_def)
  from keepSOASerialRising_ok [OF this s, of 0 "[''ns1. host. 2026010101 1 2 3 4'']"] len
  have "\<exists>m. soaSerial (keepSOASerialRising [''ns1. host. 2026010101 1 2 3 4''] current ! 0) = Some m
      \<and> 2026010107 \<le> m" by auto
  moreover have "keepSOASerialRising [''ns1. host. 2026010101 1 2 3 4''] current
      = [''ns1. host. 2026010107 1 2 3 4'']" unfolding current_def by code_simp
  ultimately show ?thesis unfolding Let_def current_def by blast
qed

end
