(* ===== verification/Pdns_Errors.thy ===== *)
theory Pdns_Errors
  imports Pdns_Content
begin

text \<open>
  Errors of the PowerDNS client (\<^verbatim>\<open>internal/dns/pdns/errors.go\<close>): which API errors an
  error value holds, whether it is a record conflict or worth an immediate retry, which RRsets a
  refusal names, and the message a user sees. \<open>decode\<close> stands for
  \<^verbatim>\<open>json.Unmarshal\<close> of an error body: nothing when the body is not such a document, or the
  document's \<^verbatim>\<open>error\<close> and \<^verbatim>\<open>errors\<close> fields.
\<close>

section \<open>Definitions\<close>

text \<open>
  A Go error: the client's API error, the zone-not-found sentinel, an error that wraps another
  with its own text (\<^verbatim>\<open>fmt.Errorf\<close>; the wrapped error may be nil), several errors joined,
  or any other error with its text.
\<close>

datatype go_error =
    ErrZoneNotFound
  | ApiError int string
  | WrappedError string "go_error option"
  | JoinedError "go_error list"
  | PlainError string

type_synonym err = "go_error option"

type_synonym error_decoder = "string \<Rightarrow> (string \<times> string list) option"

fun error_text :: "go_error \<Rightarrow> string" where
  "error_text ErrZoneNotFound = ''zone not found''"
| "error_text (ApiError status body) =
     (if body \<noteq> [] then ''status '' @ int_str status @ '': '' @ body
      else ''error: status '' @ int_str status)"
| "error_text (WrappedError msg e) = msg"
| "error_text (JoinedError es) = Join (map error_text es) [CHR 0x0A]"
| "error_text (PlainError msg) = msg"

text \<open>\<^verbatim>\<open>errors.Join\<close> of a list of non-nil errors.\<close>

definition errors_Join :: "go_error list \<Rightarrow> err" where
  "errors_Join es = (if es = [] then None else Some (JoinedError es))"

text \<open>\<^verbatim>\<open>errors.Is\<close> for a sentinel error.\<close>

fun errorIs :: "go_error \<Rightarrow> go_error \<Rightarrow> bool" where
  "errorIs target (WrappedError msg None) \<longleftrightarrow> WrappedError msg None = target"
| "errorIs target (WrappedError msg (Some e)) \<longleftrightarrow> WrappedError msg (Some e) = target \<or> errorIs target e"
| "errorIs target (JoinedError es) \<longleftrightarrow> JoinedError es = target \<or> list_ex (errorIs target) es"
| "errorIs target e \<longleftrightarrow> e = target"

definition conflictPhrase :: string where
  "conflictPhrase = ''Conflicts with pre-existing''"

fun api_errors :: "go_error \<Rightarrow> (int \<times> string) list" where
  "api_errors (ApiError status body) = [(status, body)]"
| "api_errors (JoinedError es) = concat (map api_errors es)"
| "api_errors (WrappedError msg None) = []"
| "api_errors (WrappedError msg (Some e)) = api_errors e"
| "api_errors ErrZoneNotFound = []"
| "api_errors (PlainError msg) = []"

definition apiErrorsIn :: "err \<Rightarrow> (int \<times> string) list" where
  "apiErrorsIn e = (case e of None \<Rightarrow> [] | Some e \<Rightarrow> api_errors e)"

definition reasons :: "error_decoder \<Rightarrow> string \<Rightarrow> string list" where
  "reasons decode body =
     (if body = [] then []
      else case decode body of None \<Rightarrow> []
        | Some (error, errors) \<Rightarrow>
            if errors \<noteq> [] then errors else if error = [] then [] else [error])"

definition isConflict :: "error_decoder \<Rightarrow> int \<times> string \<Rightarrow> bool" where
  "isConflict decode e \<longleftrightarrow>
     fst e = 422 \<and> list_ex (\<lambda>reason. Contains reason conflictPhrase) (reasons decode (snd e))"

definition IsConflict :: "error_decoder \<Rightarrow> err \<Rightarrow> bool" where
  "IsConflict decode e \<longleftrightarrow> list_ex (isConflict decode) (apiErrorsIn e)"

fun is_transient :: "go_error \<Rightarrow> bool" where
  "is_transient (ApiError status body) = (status \<ge> 500 \<or> status = 429)"
| "is_transient (JoinedError es) = list_ex is_transient es"
| "is_transient (WrappedError msg None) = False"
| "is_transient (WrappedError msg (Some e)) = is_transient e"
| "is_transient ErrZoneNotFound = True"
| "is_transient (PlainError msg) = True"

definition IsTransient :: "err \<Rightarrow> bool" where
  "IsTransient e = (case e of None \<Rightarrow> False | Some e \<Rightarrow> is_transient e)"

definition FriendlyMessage :: "error_decoder \<Rightarrow> err \<Rightarrow> string" where
  "FriendlyMessage decode e =
     (if e = None then []
      else let apiErrs = apiErrorsIn e in
      if apiErrs = [] then ''Failed to apply DNS record. It will be retried automatically.''
      else if list_ex (isConflict decode) apiErrs then
        ''A conflicting record already exists for this name. Remove the existing record and try again.''
      else let status = fst (hd apiErrs);
               detail = Join (concat (map (\<lambda>a. reasons decode (snd a)) apiErrs)) ''; '' in
        if Contains detail conflictPhrase then
          ''A conflicting record already exists for this name. Remove the existing record and try again.''
        else if Contains detail ''Invalid character'' then
          ''The record content contains an invalid character. TXT records containing semicolons or special characters must be properly quoted.''
        else if Contains detail ''Not in zone'' then
          ''The record name is outside the zone. Check that the name belongs to this DNS zone.''
        else if Contains detail ''RRset'' \<and> Contains detail ''IN CNAME'' then
          ''A CNAME record conflicts with an existing record at this name.''
        else if Contains detail ''RRset'' \<and> Contains detail ''IN ALIAS'' then
          ''An ALIAS record conflicts with an existing record at this name.''
        else if status = 422 then
          (if detail \<noteq> [] then ''The DNS record was rejected as invalid: '' @ detail
           else ''The DNS record was rejected as invalid. Check the record type and value.'')
        else if status = 404 then
          ''The DNS zone could not be found. It may still be provisioning.''
        else if status \<ge> 500 then
          ''An internal error occurred while applying the record. It will be retried automatically.''
        else ''Failed to apply DNS record. It will be retried automatically.'')"

subsection \<open>Refused RRsets\<close>

record rrsetKey =
  k_name :: string
  k_typ :: string

text \<open>
  The expression \<^verbatim>\<open>RRset (\S+) IN (\S+): Conflicts with pre-existing\<close>, matched at the
  head of a string. A group of non-space bytes ends exactly where the next space is, so the
  second group is its run without the colon at its end.
\<close>

definition re_space :: "char \<Rightarrow> bool" where
  "re_space c \<longleftrightarrow> c \<in> {CHR 0x09, CHR 0x0A, CHR 0x0C, CHR 0x0D, CHR '' ''}"

definition match_refused :: "string \<Rightarrow> (string \<times> string) option" where
  "match_refused s =
     (if HasPrefix s ''RRset '' then
        let r = drop 6 s; n = takeWhile (\<lambda>c. \<not> re_space c) r; r1 = drop (length n) r in
        if n \<noteq> [] \<and> HasPrefix r1 '' IN '' then
          let r2 = drop 4 r1; t = takeWhile (\<lambda>c. \<not> re_space c) r2; r3 = drop (length t) r2 in
          if 2 \<le> length t \<and> last t = CHR '':'' \<and> HasPrefix r3 ('' '' @ conflictPhrase)
          then Some (n, butlast t) else None
        else None
      else None)"

fun find_refused :: "string \<Rightarrow> (string \<times> string) option" where
  "find_refused [] = None"
| "find_refused (c # s) =
     (case match_refused (c # s) of Some m \<Rightarrow> Some m | None \<Rightarrow> find_refused s)"

definition refusedRRSets :: "error_decoder \<Rightarrow> err \<Rightarrow> rrsetKey list" where
  "refusedRRSets decode e =
     concat (map (\<lambda>(status, body).
       if status \<noteq> 422 then []
       else List.map_filter
         (\<lambda>reason. map_option (\<lambda>(n, t). \<lparr>k_name = ToLower n, k_typ = ToUpper t\<rparr>) (find_refused reason))
         (reasons decode body)) (apiErrorsIn e))"

definition refuses :: "error_decoder \<Rightarrow> err \<Rightarrow> rrsetKey \<Rightarrow> bool" where
  "refuses decode e key \<longleftrightarrow> key \<in> set (refusedRRSets decode e)"

section \<open>Lemmas\<close>

text \<open>The errors at the leaves of an error value; a wrapper around nil has none.\<close>

fun leaves :: "go_error \<Rightarrow> go_error list" where
  "leaves (JoinedError es) = concat (map leaves es)"
| "leaves (WrappedError msg None) = []"
| "leaves (WrappedError msg (Some e)) = leaves e"
| "leaves e = [e]"

lemma api_errors_leaves: "set (api_errors e) = {(s, b). ApiError s b \<in> set (leaves e)}"
  by (induction e rule: api_errors.induct) auto

lemma is_transient_leaves: "is_transient e \<longleftrightarrow> list_ex is_transient (leaves e)"
  by (induction e rule: is_transient.induct) (auto simp: list_ex_iff)

lemma HasPrefix_append [simp]: "HasPrefix (p @ s) p"
  by (induction p) auto

lemma HasPrefix_Cons_append [simp]: "HasPrefix (c # p @ s) (c # p)"
  by simp

lemma Contains_HasPrefix: "HasPrefix s sub \<Longrightarrow> Contains s sub"
  by (cases s) auto

lemma takeWhile_run:
  "\<forall>c \<in> set n. \<not> re_space c \<Longrightarrow> re_space d \<Longrightarrow>
     takeWhile (\<lambda>c. \<not> re_space c) (n @ d # s) = n"
  by (simp add: takeWhile_append)

lemma match_refused_rendered:
  assumes "n \<noteq> []" and "t \<noteq> []" and "\<forall>c \<in> set n. \<not> re_space c" and "\<forall>c \<in> set t. \<not> re_space c"
  shows "match_refused (''RRset '' @ n @ '' IN '' @ t @ '': '' @ conflictPhrase @ rest) = Some (n, t)"
proof -
  have sp: "re_space (CHR '' '')" and colon: "\<not> re_space (CHR '':'')" by (simp_all add: re_space_def)
  have 1: "takeWhile (\<lambda>c. \<not> re_space c) (n @ '' IN '' @ t @ '': '' @ conflictPhrase @ rest) = n"
    using takeWhile_run [OF assms(3) sp, of "''IN '' @ t @ '': '' @ conflictPhrase @ rest"] by simp
  have "\<forall>c \<in> set (t @ '':''). \<not> re_space c" using assms(4) colon by auto
  from takeWhile_run [OF this sp, of "conflictPhrase @ rest"]
  have 2: "takeWhile (\<lambda>c. \<not> re_space c) (t @ '': '' @ conflictPhrase @ rest) = t @ '':''" by simp
  have "HasPrefix ((CHR '' '' # conflictPhrase) @ rest) (CHR '' '' # conflictPhrase)"
    by (rule HasPrefix_append)
  with 1 2 assms(1,2) show ?thesis
    by (simp add: match_refused_def Let_def Suc_le_eq)
qed

section \<open>Properties\<close>

text \<open>an error is worth an immediate retry exactly when one of the errors it joins or wraps
  is, and an API error is exactly when its status is a server error or 429; so a pure record
  conflict never is.\<close>

theorem IsTransient_leaves:
  "(IsTransient (Some e) \<longleftrightarrow> (\<exists>l \<in> set (leaves e). IsTransient (Some l)))
   \<and> (IsTransient (Some (ApiError status body)) \<longleftrightarrow> status \<ge> 500 \<or> status = 429)
   \<and> (IsConflict decode (Some (ApiError status body)) \<longrightarrow> \<not> IsTransient (Some (ApiError status body)))
   \<and> \<not> IsTransient (errors_Join [])"
  using is_transient_leaves [of e]
  by (auto simp: IsTransient_def list_ex_iff IsConflict_def isConflict_def apiErrorsIn_def errors_Join_def)

theorem IsTransient_leaves_witness:
  "IsConflict (\<lambda>b. Some (b, [])) (Some (ApiError 422 ''RRset a. IN CNAME: Conflicts with pre-existing RRset''))
   \<and> \<not> IsTransient (Some (ApiError 422 ''RRset a. IN CNAME: Conflicts with pre-existing RRset''))
   \<and> IsTransient (Some (JoinedError [ApiError 422 [], WrappedError ''x'' (Some (ApiError 503 []))]))"
proof (intro conjI)
  show c: "IsConflict (\<lambda>b. Some (b, [])) (Some (ApiError 422 ''RRset a. IN CNAME: Conflicts with pre-existing RRset''))"
    by code_simp
  show "\<not> IsTransient (Some (ApiError 422 ''RRset a. IN CNAME: Conflicts with pre-existing RRset''))"
    using IsTransient_leaves [of ErrZoneNotFound 422 _ "\<lambda>b. Some (b, [])"] c by blast
  show "IsTransient (Some (JoinedError [ApiError 422 [], WrappedError ''x'' (Some (ApiError 503 []))]))"
    using IsTransient_leaves [of "JoinedError [ApiError 422 [], WrappedError ''x'' (Some (ApiError 503 []))]"]
    by (simp add: IsTransient_def)
qed

text \<open>C37: a conflict PowerDNS reports is read back: when one of the reasons of a 422 answer says
  that an RRset conflicts with a pre-existing one, that RRset (its name in lower case, its type
  in upper case) is among the refused ones, and the whole error is a conflict.\<close>

theorem refusedRRSets_reported:
  assumes "ApiError 422 body \<in> set (leaves e)"
    and "''RRset '' @ n @ '' IN '' @ t @ '': '' @ conflictPhrase @ rest \<in> set (reasons decode body)"
    and "n \<noteq> []" and "t \<noteq> []" and "\<forall>c \<in> set n. \<not> re_space c" and "\<forall>c \<in> set t. \<not> re_space c"
  shows "refuses decode (Some e) \<lparr>k_name = ToLower n, k_typ = ToUpper t\<rparr> \<and> IsConflict decode (Some e)"
proof
  let ?r = "''RRset '' @ n @ '' IN '' @ t @ '': '' @ conflictPhrase @ rest"
  have leaf: "(422, body) \<in> set (apiErrorsIn (Some e))"
    using assms(1) by (simp add: apiErrorsIn_def api_errors_leaves)
  have found: "find_refused ?r = Some (n, t)"
    using match_refused_rendered [OF assms(3-6), of rest] by simp
  have "\<exists>x \<in> set (List.map_filter (\<lambda>reason. map_option (\<lambda>(n, t). \<lparr>k_name = ToLower n, k_typ = ToUpper t\<rparr>)
      (find_refused reason)) (reasons decode body)). x = \<lparr>k_name = ToLower n, k_typ = ToUpper t\<rparr>"
    using assms(2) found by (force simp: List.map_filter_def)
  then show "refuses decode (Some e) \<lparr>k_name = ToLower n, k_typ = ToUpper t\<rparr>"
    using leaf unfolding refuses_def refusedRRSets_def by fastforce
  have "Contains (pre @ conflictPhrase @ post) conflictPhrase" for pre post
  proof (induction pre)
    case Nil
    have "HasPrefix (conflictPhrase @ post) conflictPhrase" by (rule HasPrefix_append)
    then show ?case by (simp add: Contains_HasPrefix)
  qed simp
  from this [of "''RRset '' @ n @ '' IN '' @ t @ '': ''" rest]
  have "Contains ?r conflictPhrase" by (simp only: append_assoc)
  with assms(2) have "\<exists>x \<in> set (reasons decode body). Contains x conflictPhrase" by blast
  then have "isConflict decode (422, body)" by (simp add: isConflict_def list_ex_iff)
  with leaf show "IsConflict decode (Some e)" unfolding IsConflict_def list_ex_iff by blast
qed

theorem refusedRRSets_reported_witness:
  "refuses (\<lambda>b. Some ([], [b])) (Some (WrappedError ''patch'' (Some (ApiError 422
       ''RRset WWW.example.com. IN cname: Conflicts with pre-existing RRset''))))
     \<lparr>k_name = ''www.example.com.'', k_typ = ''CNAME''\<rparr>"
proof -
  have "refuses (\<lambda>b. Some ([], [b])) (Some (WrappedError ''patch'' (Some (ApiError 422
       ''RRset WWW.example.com. IN cname: Conflicts with pre-existing RRset''))))
     \<lparr>k_name = ToLower ''WWW.example.com.'', k_typ = ToUpper ''cname''\<rparr>"
    by (rule refusedRRSets_reported [where rest = "'' RRset''"
        and body = "''RRset WWW.example.com. IN cname: Conflicts with pre-existing RRset''",
        THEN conjunct1])
      (simp_all add: reasons_def conflictPhrase_def re_space_def)
  moreover have "ToLower ''WWW.example.com.'' = ''www.example.com.''" by code_simp
  moreover have "ToUpper ''cname'' = ''CNAME''" by code_simp
  ultimately show ?thesis by simp
qed

text \<open>the message a user sees agrees with the classification: a conflict reads as one, an
  error with no API error inside is reported as retried, and no error has an empty message.\<close>

theorem FriendlyMessage_classifies:
  "(IsConflict decode e \<longrightarrow> FriendlyMessage decode e =
      ''A conflicting record already exists for this name. Remove the existing record and try again.'')
   \<and> (e \<noteq> None \<and> apiErrorsIn e = [] \<longrightarrow> FriendlyMessage decode e =
      ''Failed to apply DNS record. It will be retried automatically.'')
   \<and> (FriendlyMessage decode e = [] \<longleftrightarrow> e = None)"
proof (intro conjI impI)
  assume "IsConflict decode e"
  then have "list_ex (isConflict decode) (apiErrorsIn e)" and "apiErrorsIn e \<noteq> []" and "e \<noteq> None"
    by (auto simp: IsConflict_def apiErrorsIn_def split: option.splits)
  then show "FriendlyMessage decode e =
      ''A conflicting record already exists for this name. Remove the existing record and try again.''"
    by (simp add: FriendlyMessage_def)
next
  show "FriendlyMessage decode e = [] \<longleftrightarrow> e = None"
    by (simp add: FriendlyMessage_def Let_def)
qed (simp add: FriendlyMessage_def)

theorem FriendlyMessage_classifies_witness:
  "FriendlyMessage (\<lambda>b. Some (b, [])) (Some (ApiError 422 ''RRset a. IN CNAME: Conflicts with pre-existing RRset'')) =
     ''A conflicting record already exists for this name. Remove the existing record and try again.''
   \<and> FriendlyMessage (\<lambda>b. None) (Some (PlainError ''dial'')) =
      ''Failed to apply DNS record. It will be retried automatically.''"
proof
  have "IsConflict (\<lambda>b. Some (b, [])) (Some (ApiError 422 ''RRset a. IN CNAME: Conflicts with pre-existing RRset''))"
    by code_simp
  then show "FriendlyMessage (\<lambda>b. Some (b, [])) (Some (ApiError 422 ''RRset a. IN CNAME: Conflicts with pre-existing RRset'')) =
     ''A conflicting record already exists for this name. Remove the existing record and try again.''"
    by (rule FriendlyMessage_classifies [THEN conjunct1, rule_format])
  show "FriendlyMessage (\<lambda>b. None) (Some (PlainError ''dial'')) =
      ''Failed to apply DNS record. It will be retried automatically.''"
    by (rule FriendlyMessage_classifies [THEN conjunct2, THEN conjunct1, rule_format])
      (simp add: apiErrorsIn_def)
qed

end
