(* ===== verification/Pdns_Patch.thy ===== *)
theory Pdns_Patch
  imports Pdns_Errors
begin

text \<open>
  Patches (\<^verbatim>\<open>internal/dns/pdns/client.go\<close>): the changes a PATCH of a zone carries, how
  they are stamped, ordered, chunked and written on the wire, and how the client sends them,
  isolating the changes PowerDNS refuses. The PowerDNS server is a parameter: \<open>send\<close> takes its
  state and a request to its next state and an answer (a transport error, or a status and a body),
  and the decoders are \<^verbatim>\<open>encoding/json\<close> on an error body, on a zone and on the name
  of a zone.
\<close>

section \<open>Definitions\<close>

subsection \<open>Requests and the server\<close>

text \<open>The JSON object of one change: absent keys are \<^const>\<open>None\<close>.\<close>

record wire_rrset =
  w_name :: string
  w_type :: string
  w_changetype :: string
  w_ttl :: "int option"
  w_records :: "rrsetRecord list option"
  w_comments :: "zoneRRsetComment list option"

record createZoneRequest =
  cz_name :: string
  cz_kind :: string
  cz_nameservers :: "string list"

datatype pdns_request =
    GetZoneReq string
  | PatchReq string "wire_rrset list"
  | CreateReq createZoneRequest
  | DeleteReq string

record http_response =
  resp_status :: int
  resp_body :: string

record 's pdns_env =
  send :: "'s \<Rightarrow> pdns_request \<Rightarrow> 's \<times> (go_error + http_response)"
  decodeError :: error_decoder
  decodeZone :: "string \<Rightarrow> go_error + zoneRRset list"
  decodeZoneName :: "string \<Rightarrow> go_error + string"

definition readRespBody :: "http_response \<Rightarrow> nat \<Rightarrow> string" where
  "readRespBody resp lim =
     (let lim = (if lim \<le> 0 then 16384 else lim) in TrimSpace (take lim (resp_body resp)))"

definition marshalRRSet :: "rrset \<Rightarrow> wire_rrset" where
  "marshalRRSet r =
     (if rr_commentsOnly r then
        \<lparr>w_name = rr_name r, w_type = rr_type r, w_changetype = rr_changeType r,
         w_ttl = None, w_records = None, w_comments = Some []\<rparr>
      else if rr_changeType r = changeTypeDelete \<and> rr_comments r = None then
        \<lparr>w_name = rr_name r, w_type = rr_type r, w_changetype = rr_changeType r,
         w_ttl = Some (rr_ttl r), w_records = Some (rr_records r), w_comments = Some []\<rparr>
      else
        \<lparr>w_name = rr_name r, w_type = rr_type r, w_changetype = rr_changeType r,
         w_ttl = Some (rr_ttl r), w_records = Some (rr_records r),
         w_comments = (case rr_comments r of None \<Rightarrow> None
                       | Some cs \<Rightarrow> if cs = [] then None else Some cs)\<rparr>)"

subsection \<open>Chunks and order\<close>

definition patchChunkSize :: nat where "patchChunkSize = 500"

record rrsetChunk =
  ch_rrsets :: "rrset list"
  ch_start :: nat
  ch_end :: nat

text \<open>The loop of \<^verbatim>\<open>chunkRRSets\<close> from \<open>start\<close>.\<close>

function chunks_from :: "rrset list \<Rightarrow> nat \<Rightarrow> rrsetChunk list" where
  "chunks_from rrsets start =
     (if start < length rrsets then
        let e = start + patchChunkSize; e = (if e > length rrsets then length rrsets else e)
        in \<lparr>ch_rrsets = slice rrsets start e, ch_start = start, ch_end = e\<rparr>
             # chunks_from rrsets (start + patchChunkSize)
      else [])"
  by pat_completeness auto
termination
  by (relation "measure (\<lambda>(rrsets, start). length rrsets - start)") (auto simp: patchChunkSize_def)

definition chunkRRSets :: "rrset list \<Rightarrow> rrsetChunk list" where
  "chunkRRSets rrsets = (if length rrsets = 0 then [] else chunks_from rrsets 0)"

definition rrsetLess :: "rrset \<Rightarrow> rrset \<Rightarrow> bool" where
  "rrsetLess a b =
     (let deleteA = rr_changeType a = changeTypeDelete; deleteB = rr_changeType b = changeTypeDelete in
      if deleteA \<noteq> deleteB then deleteA
      else if rr_type a \<noteq> rr_type b then rr_type a < rr_type b
      else if rr_name a \<noteq> rr_name b then rr_name a < rr_name b
      else rr_changeType a < rr_changeType b)"

definition sortRRSets :: "rrset list \<Rightarrow> rrset list" where
  "sortRRSets patch = go_sort rrsetLess patch"

subsection \<open>Changes\<close>

definition newDeleteRRSet :: "string \<Rightarrow> string \<Rightarrow> rrset" where
  "newDeleteRRSet qualifiedName recordType = \<lparr>rr_name = qualifiedName, rr_type = recordType, rr_ttl = 0,
     rr_changeType = changeTypeDelete, rr_records = [], rr_comments = None, rr_commentsOnly = False\<rparr>"

definition commentsOnlyReplace :: "string \<Rightarrow> string \<Rightarrow> rrset" where
  "commentsOnlyReplace qualifiedName recordType = \<lparr>rr_name = qualifiedName, rr_type = recordType,
     rr_ttl = 0, rr_changeType = changeTypeReplace, rr_records = [], rr_comments = None,
     rr_commentsOnly = True\<rparr>"

definition patchIdentity :: "rrset \<Rightarrow> rrsetKey" where
  "patchIdentity rr = \<lparr>k_name = ToLower (rr_name rr), k_typ = ToUpper (rr_type rr)\<rparr>"

fun clear_behind :: "rrsetKey set \<Rightarrow> rrset list \<Rightarrow> go_error + rrset list" where
  "clear_behind replaced [] = Inr []"
| "clear_behind replaced (rr # rest) =
     (if rr_changeType rr \<noteq> changeTypeDelete then
        (case clear_behind replaced rest of Inl e \<Rightarrow> Inl e | Inr out \<Rightarrow> Inr (rr # out))
      else if patchIdentity rr \<in> replaced then
        Inl (PlainError (''patch both replaces and deletes '' @ rr_type rr @ '' '' @ rr_name rr))
      else
        (case clear_behind replaced rest of Inl e \<Rightarrow> Inl e
         | Inr out \<Rightarrow> Inr (rr # commentsOnlyReplace (rr_name rr) (rr_type rr) # out)))"

definition clearCommentsBehindDeletes :: "rrset list \<Rightarrow> go_error + rrset list" where
  "clearCommentsBehindDeletes patch =
     clear_behind (patchIdentity ` set (filter (\<lambda>rr. rr_changeType rr = changeTypeReplace) patch)) patch"

definition ACCOUNT_OWNER :: string where "ACCOUNT_OWNER = ''OWNER''"
definition ACCOUNT_OBSERVED_GENERATION :: string where
  "ACCOUNT_OBSERVED_GENERATION = ''OBSERVED_GENERATION''"
definition ACCOUNT_OBJECT_UID :: string where "ACCOUNT_OBJECT_UID = ''OBJECT_UID''"

lemmas account_defs = ACCOUNT_OWNER_def ACCOUNT_OBSERVED_GENERATION_def ACCOUNT_OBJECT_UID_def

definition stampComment :: "int \<Rightarrow> zoneRRsetComment list \<Rightarrow> zoneRRsetComment \<Rightarrow> zoneRRsetComment" where
  "stampComment now existing comment =
     comment\<lparr>cm_modifiedAt :=
       (case find (\<lambda>current. cm_account current = cm_account comment
                     \<and> cm_content current = cm_content comment \<and> cm_modifiedAt current \<noteq> 0) existing of
          Some current \<Rightarrow> cm_modifiedAt current | None \<Rightarrow> now)\<rparr>"

definition stampComments ::
  "zoneRRsetComment list \<Rightarrow> zoneRRsetComment list \<Rightarrow> int \<Rightarrow> zoneRRsetComment list" where
  "stampComments desired existing now = map (stampComment now existing) desired"

definition mkComment :: "string \<Rightarrow> string \<Rightarrow> zoneRRsetComment" where
  "mkComment account content = \<lparr>cm_account = account, cm_content = content, cm_modifiedAt = 0\<rparr>"

definition ownerComments :: "string \<Rightarrow> int \<Rightarrow> string \<Rightarrow> zoneRRsetComment list" where
  "ownerComments ownerRef observedGeneration objectUID =
     [mkComment ACCOUNT_OWNER ownerRef,
      mkComment ACCOUNT_OBSERVED_GENERATION (int_str observedGeneration)]
     @ (if objectUID \<noteq> [] then [mkComment ACCOUNT_OBJECT_UID objectUID] else [])"

definition buildReplaceRRSet ::
  "int \<Rightarrow> string \<Rightarrow> string \<Rightarrow> string \<Rightarrow> int \<Rightarrow> string list \<Rightarrow> string \<Rightarrow> int \<Rightarrow> string \<Rightarrow>
     zoneRRsetComment list option \<Rightarrow> rrset" where
  "buildReplaceRRSet now zone recordType ownerName ttl values ownerRef observedGeneration objectUID
       existingComments =
     \<lparr>rr_name = Qualify ownerName zone, rr_type = recordType, rr_ttl = ttl,
      rr_changeType = changeTypeReplace,
      rr_records = dedupeRecords (map mkRecord (filter (\<lambda>v. v \<noteq> []) values)),
      rr_comments = Some (stampComments (ownerComments ownerRef observedGeneration objectUID)
        (case existingComments of None \<Rightarrow> [] | Some cs \<Rightarrow> cs) now),
      rr_commentsOnly = False\<rparr>"

subsection \<open>Sending\<close>

definition zone_path :: "string \<Rightarrow> string" where
  "zone_path zone = zone @ ''.''"

definition applyRRSetPatch :: "'s pdns_env \<Rightarrow> 's \<Rightarrow> string \<Rightarrow> rrset list \<Rightarrow> 's \<times> err" where
  "applyRRSetPatch env s zone patch =
     (if length patch = 0 then (s, None)
      else case clearCommentsBehindDeletes (sortRRSets patch) of
        Inl e \<Rightarrow> (s, Some (WrappedError
          (''building the patch for zone '' @ zone @ '': '' @ error_text e) (Some e)))
      | Inr rrsets \<Rightarrow>
          (case send env s (PatchReq (zone_path zone) (map marshalRRSet rrsets)) of
             (s', Inl e) \<Rightarrow> (s', Some e)
           | (s', Inr resp) \<Rightarrow>
               if resp_status resp = 204 then (s', None)
               else if resp_status resp \<noteq> 200
                 then (s', Some (ApiError (resp_status resp) (readRespBody resp 65536)))
               else (s', None)))"

definition refusedIn :: "rrset list \<Rightarrow> rrsetKey set \<Rightarrow> bool" where
  "refusedIn change refused \<longleftrightarrow> list_ex (\<lambda>rr. patchIdentity rr \<in> refused) change"

definition set_all :: "nat list \<Rightarrow> 'a \<Rightarrow> 'a list \<Rightarrow> 'a list" where
  "set_all ixs x xs = foldl (\<lambda>xs i. xs[i := x]) xs ixs"

text \<open>The loop of \<^verbatim>\<open>applyIsolatingRefusals\<close>: each turn sends the pending changes in one
  patch and drops those the answer names.\<close>

function isolate ::
  "'s pdns_env \<Rightarrow> 's \<Rightarrow> string \<Rightarrow> rrset list list \<Rightarrow> nat list \<Rightarrow> err list \<Rightarrow> 's \<times> err list" where
  "isolate env s zone changes pending errs =
     (if pending = [] then (s, errs)
      else case applyRRSetPatch env s zone (concat (map (\<lambda>i. changes ! i) pending)) of
        (s', None) \<Rightarrow> (s', errs)
      | (s', Some e) \<Rightarrow>
          let refused = set (refusedRRSets (decodeError env) (Some e));
              hit = filter (\<lambda>i. refusedIn (changes ! i) refused) pending;
              kept = filter (\<lambda>i. \<not> refusedIn (changes ! i) refused) pending in
          if length kept = length pending then (s', set_all pending (Some e) errs)
          else isolate env s' zone changes kept (set_all hit (Some e) errs))"
  by pat_completeness auto
termination
  by (relation "measure (\<lambda>(env, s, zone, changes, pending, errs). length pending)")
    (auto simp: le_neq_implies_less length_filter_le)

declare isolate.simps [simp del]

definition applyIsolatingRefusals ::
  "'s pdns_env \<Rightarrow> 's \<Rightarrow> string \<Rightarrow> rrset list list \<Rightarrow> 's \<times> err list" where
  "applyIsolatingRefusals env s zone changes =
     isolate env s zone changes [0..<length changes] (replicate (length changes) None)"

declare chunks_from.simps [simp del]

section \<open>Lemmas\<close>

subsection \<open>Chunks\<close>

lemma chunks_from_nil: "length xs \<le> start \<Longrightarrow> chunks_from xs start = []"
  by (subst chunks_from.simps) simp

lemma chunks_from_cons:
  assumes "start < length xs"
  shows "chunks_from xs start =
    \<lparr>ch_rrsets = take patchChunkSize (drop start xs), ch_start = start,
     ch_end = min (start + patchChunkSize) (length xs)\<rparr> # chunks_from xs (start + patchChunkSize)"
  using assms by (subst chunks_from.simps) (auto simp: Let_def slice_def min_def)

lemma concat_chunks_from: "concat (map ch_rrsets (chunks_from xs start)) = drop start xs"
proof (induction xs start rule: chunks_from.induct)
  case (1 xs start)
  show ?case
  proof (cases "start < length xs")
    case True
    have "take patchChunkSize (drop start xs) @ drop (start + patchChunkSize) xs = drop start xs"
      by (metis add.commute append_take_drop_id drop_drop)
    with 1 True show ?thesis by (simp add: chunks_from_cons)
  qed (simp add: chunks_from_nil)
qed

definition chunk_ok :: "rrset list \<Rightarrow> rrsetChunk \<Rightarrow> bool" where
  "chunk_ok xs ch \<longleftrightarrow> ch_rrsets ch = slice xs (ch_start ch) (ch_end ch)
     \<and> ch_start ch < ch_end ch \<and> ch_end ch \<le> length xs
     \<and> ch_end ch \<le> ch_start ch + patchChunkSize"

lemma chunk_ok_chunks_from: "list_all (chunk_ok xs) (chunks_from xs start)"
proof (induction xs start rule: chunks_from.induct)
  case (1 xs start)
  show ?case
  proof (cases "start < length xs")
    case True
    have "take patchChunkSize (drop start xs) = slice xs start (min (start + patchChunkSize) (length xs))"
      using True by (simp add: slice_def min_def)
    with 1 True show ?thesis
      by (simp add: chunks_from_cons chunk_ok_def patchChunkSize_def)
  qed (simp add: chunks_from_nil)
qed

lemma chunk_count_step:
  fixes n start :: nat
  assumes "start < n"
  shows "Suc ((n - (start + 500) + 499) div 500) = (n - start + 499) div 500"
proof (cases "start + 500 \<le> n")
  case True
  then obtain k where n: "n = start + 500 + k" using le_Suc_ex by blast
  have e: "n - start + 499 = (k + 499) + 500" "n - (start + 500) + 499 = k + 499"
    using n by simp_all
  show ?thesis unfolding e by (subst div_add_self2) simp_all
next
  case False
  define k where "k = n - Suc start"
  have k: "n = start + Suc k" "k < 499" using assms False by (simp_all add: k_def)
  have e: "n - start + 499 = k + 500" "n - (start + 500) + 499 = 499"
    using k by simp_all
  show ?thesis unfolding e using k(2) by (subst div_add_self2) simp_all
qed

lemma length_chunks_from: "length (chunks_from xs start) = (length xs - start + 499) div 500"
proof (induction xs start rule: chunks_from.induct)
  case (1 xs start)
  show ?case
  proof (cases "start < length xs")
    case True
    have "length (chunks_from xs start) = Suc (length (chunks_from xs (start + 500)))"
      using chunks_from_cons [OF True] by (simp add: patchChunkSize_def)
    also have "\<dots> = Suc ((length xs - (start + 500) + 499) div 500)"
      using 1 True by (simp only: patchChunkSize_def)
    also have "\<dots> = (length xs - start + 499) div 500" by (rule chunk_count_step [OF True])
    finally show ?thesis .
  next
    case False
    then show ?thesis by (simp add: chunks_from_nil)
  qed
qed

subsection \<open>Order\<close>

definition rrsetSortKey :: "rrset \<Rightarrow> bool \<times> string \<times> string \<times> string" where
  "rrsetSortKey r = (rr_changeType r \<noteq> changeTypeDelete, rr_type r, rr_name r, rr_changeType r)"

lemma rrsetLess_key: "rrsetLess a b \<longleftrightarrow> rrsetSortKey a < rrsetSortKey b"
  by (auto simp: rrsetLess_def rrsetSortKey_def Let_def less_prod_def)

interpretation rro: go_less rrsetLess
  by (rule go_less_keyI [where key = rrsetSortKey]) (rule rrsetLess_key)

lemma mset_sortRRSets [simp]: "mset (sortRRSets patch) = mset patch"
  and set_sortRRSets [simp]: "set (sortRRSets patch) = set patch"
  and length_sortRRSets [simp]: "length (sortRRSets patch) = length patch"
  by (simp_all add: sortRRSets_def)

lemma sortRRSets_unique:
  assumes "distinct (map rrsetSortKey patch)" and "mset ys = mset patch"
    and "sorted_wrt (\<lambda>a b. \<not> rrsetLess b a) ys"
  shows "sortRRSets patch = ys"
  unfolding sortRRSets_def
proof (rule rro.go_sort_unique [OF assms(3,2)])
  fix x y assume "x \<in> set patch" "y \<in> set patch" "\<not> rrsetLess x y" "\<not> rrsetLess y x"
  then have "rrsetSortKey x = rrsetSortKey y" by (simp add: rrsetLess_key)
  with assms(1) \<open>x \<in> set patch\<close> \<open>y \<in> set patch\<close> show "x = y"
    by (simp add: distinct_map inj_on_def)
qed

lemma sortRRSets_deletes_first:
  assumes "sortRRSets patch = xs @ r # ys @ d # zs" and "rr_changeType d = changeTypeDelete"
  shows "rr_changeType r = changeTypeDelete"
proof (rule ccontr)
  assume r: "rr_changeType r \<noteq> changeTypeDelete"
  have "\<not> rrsetLess d r"
    using rro.ordered_go_sort [of patch] assms(1) by (simp add: sortRRSets_def sorted_wrt_append)
  with assms(2) r show False by (simp add: rrsetLess_def)
qed

subsection \<open>Comment clearing\<close>

definition withClears :: "rrset list \<Rightarrow> rrset list" where
  "withClears patch = concat (map (\<lambda>rr. if rr_changeType rr = changeTypeDelete
     then [rr, commentsOnlyReplace (rr_name rr) (rr_type rr)] else [rr]) patch)"

lemma withClears_Cons:
  "withClears (rr # rest) = (if rr_changeType rr = changeTypeDelete
     then [rr, commentsOnlyReplace (rr_name rr) (rr_type rr)] else [rr]) @ withClears rest"
  by (simp add: withClears_def)

lemma clear_behind_eq:
  "clear_behind R patch =
     (case find (\<lambda>rr. rr_changeType rr = changeTypeDelete \<and> patchIdentity rr \<in> R) patch of
        Some rr \<Rightarrow> Inl (PlainError (''patch both replaces and deletes '' @ rr_type rr @ '' '' @ rr_name rr))
      | None \<Rightarrow> Inr (withClears patch))"
proof (induction R patch rule: clear_behind.induct)
  case (1 R)
  then show ?case by (simp add: withClears_def)
next
  case (2 R rr rest)
  show ?case
  proof (cases "rr_changeType rr = changeTypeDelete")
    case True
    then show ?thesis using 2(2)
      by (cases "patchIdentity rr \<in> R") (simp_all add: withClears_Cons split: option.split)
  next
    case False
    then show ?thesis using 2(1) by (simp add: withClears_Cons split: option.split)
  qed
qed

definition deletesAndReplaces :: "rrset list \<Rightarrow> bool" where
  "deletesAndReplaces patch \<longleftrightarrow> (\<exists>d \<in> set patch. \<exists>r \<in> set patch.
     rr_changeType d = changeTypeDelete \<and> rr_changeType r = changeTypeReplace
     \<and> patchIdentity d = patchIdentity r)"

lemma clearComments_cases:
  "(deletesAndReplaces patch \<and> (\<exists>e. clearCommentsBehindDeletes patch = Inl e)) \<or>
   (\<not> deletesAndReplaces patch \<and> clearCommentsBehindDeletes patch = Inr (withClears patch))"
proof (cases "find (\<lambda>rr. rr_changeType rr = changeTypeDelete \<and> patchIdentity rr \<in>
    patchIdentity ` set (filter (\<lambda>rr. rr_changeType rr = changeTypeReplace) patch)) patch")
  case None
  then have "\<not> deletesAndReplaces patch"
    unfolding find_None_iff deletesAndReplaces_def by fastforce
  with None show ?thesis by (simp add: clearCommentsBehindDeletes_def clear_behind_eq)
next
  case (Some rr)
  then have "rr \<in> set patch" and "rr_changeType rr = changeTypeDelete"
    and "patchIdentity rr \<in> patchIdentity ` set (filter (\<lambda>rr. rr_changeType rr = changeTypeReplace) patch)"
    using find_SomeD [OF Some] by simp_all
  then have "deletesAndReplaces patch" unfolding deletesAndReplaces_def by fastforce
  with Some show ?thesis by (simp add: clearCommentsBehindDeletes_def clear_behind_eq)
qed

lemma deletesAndReplaces_sort [simp]: "deletesAndReplaces (sortRRSets patch) = deletesAndReplaces patch"
  by (simp add: deletesAndReplaces_def)

lemma applyRRSetPatch_ok:
  assumes "patch \<noteq> []" and "\<not> deletesAndReplaces patch"
  shows "applyRRSetPatch env s zone patch =
    (case send env s (PatchReq (zone_path zone) (map marshalRRSet (withClears (sortRRSets patch)))) of
       (s', Inl e) \<Rightarrow> (s', Some e)
     | (s', Inr resp) \<Rightarrow> (s', if resp_status resp = 204 \<or> resp_status resp = 200 then None
         else Some (ApiError (resp_status resp) (readRespBody resp 65536))))"
  using assms clearComments_cases [of "sortRRSets patch"]
  by (auto simp: applyRRSetPatch_def split: prod.split sum.split)

subsection \<open>Comments\<close>

lemma stampComment_stable:
  assumes "cm_modifiedAt c \<noteq> 0" and "c \<in> set cs" and "distinct (map (\<lambda>c. (cm_account c, cm_content c)) cs)"
  shows "stampComment now cs (c\<lparr>cm_modifiedAt := x\<rparr>) = c"
proof -
  let ?P = "\<lambda>d. cm_account d = cm_account c \<and> cm_content d = cm_content c \<and> cm_modifiedAt d \<noteq> 0"
  have "find ?P cs \<noteq> None" using assms(1,2) by (auto simp: find_None_iff)
  then obtain d where d: "find ?P cs = Some d" by auto
  with find_SomeD [OF d] assms(2,3) have "d = c" by (auto simp: distinct_map inj_on_def)
  with d show ?thesis by (simp add: stampComment_def)
qed

lemma ownerComments_simps:
  "distinct (map (\<lambda>c. (cm_account c, cm_content c)) (ownerComments ref gen uid))"
  "c \<in> set (ownerComments ref gen uid) \<Longrightarrow> cm_modifiedAt c = 0"
  by (auto simp: ownerComments_def mkComment_def account_defs)

lemma stamp_account [simp]:
  "cm_account (stampComment now cs c) = cm_account c" "cm_content (stampComment now cs c) = cm_content c"
  by (simp_all add: stampComment_def)

lemma stampComment_nonzero: "now \<noteq> 0 \<Longrightarrow> cm_modifiedAt (stampComment now cs c) \<noteq> 0"
  by (auto simp: stampComment_def split: option.split dest: find_SomeD)

lemma stampComments_stable:
  assumes "now \<noteq> 0" and "distinct (map (\<lambda>c. (cm_account c, cm_content c)) desired)"
  shows "stampComments desired (stampComments desired existing now) now' = stampComments desired existing now"
proof -
  let ?cs = "stampComments desired existing now"
  have dist: "distinct (map (\<lambda>c. (cm_account c, cm_content c)) ?cs)"
    using assms(2) by (simp add: stampComments_def o_def)
  have "stampComment now' ?cs c = stampComment now existing c" if "c \<in> set desired" for c
  proof -
    let ?d = "stampComment now existing c"
    have "?d \<in> set ?cs" using that by (simp add: stampComments_def)
    from stampComment_stable [OF stampComment_nonzero [OF assms(1)] this dist, of now' "cm_modifiedAt c"]
    show ?thesis by (simp add: stampComment_def)
  qed
  then show ?thesis by (simp add: stampComments_def)
qed

section \<open>Properties\<close>

text \<open>chunking loses and reorders nothing: the chunks in order are the list, each is the window
  of the bounds it carries, none is empty or larger than the chunk size, and there is one per
  500 changes or part of it.\<close>

theorem chunkRRSets_partition:
  "concat (map ch_rrsets (chunkRRSets rrsets)) = rrsets
   \<and> list_all (\<lambda>ch. ch_rrsets ch = slice rrsets (ch_start ch) (ch_end ch) \<and> ch_start ch < ch_end ch
        \<and> ch_end ch \<le> length rrsets \<and> ch_end ch \<le> ch_start ch + 500) (chunkRRSets rrsets)
   \<and> length (chunkRRSets rrsets) = (length rrsets + 499) div 500"
proof (cases "rrsets = []")
  case False
  have "list_all (chunk_ok rrsets) (chunks_from rrsets 0)" by (rule chunk_ok_chunks_from)
  then have "list_all (\<lambda>ch. ch_rrsets ch = slice rrsets (ch_start ch) (ch_end ch) \<and> ch_start ch < ch_end ch
        \<and> ch_end ch \<le> length rrsets \<and> ch_end ch \<le> ch_start ch + 500) (chunks_from rrsets 0)"
    by (simp add: chunk_ok_def [abs_def] patchChunkSize_def)
  with False show ?thesis
    using concat_chunks_from [of rrsets 0] length_chunks_from [of rrsets 0]
    by (simp add: chunkRRSets_def)
qed (simp add: chunkRRSets_def)

text \<open>a patch is sent with its deletes first; and as long as no two of its changes have the
  same kind, type and name, the order is fully determined: every list of the same changes that is
  ordered by the comparison is the one the client sends, whatever sorting algorithm is used.\<close>

theorem sortRRSets_ordered:
  "mset (sortRRSets patch) = mset patch
   \<and> (\<forall>xs r ys d zs. sortRRSets patch = xs @ r # ys @ d # zs \<and> rr_changeType d = changeTypeDelete
        \<longrightarrow> rr_changeType r = changeTypeDelete)
   \<and> (distinct (map rrsetSortKey patch) \<longrightarrow>
        (\<forall>ys. mset ys = mset patch \<and> sorted_wrt (\<lambda>a b. \<not> rrsetLess b a) ys \<longrightarrow> sortRRSets patch = ys))"
proof (intro conjI allI impI)
  fix xs r ys d zs
  assume "sortRRSets patch = xs @ r # ys @ d # zs \<and> rr_changeType d = changeTypeDelete"
  then show "rr_changeType r = changeTypeDelete" by (blast intro: sortRRSets_deletes_first)
next
  fix ys
  assume "distinct (map rrsetSortKey patch)"
    and "mset ys = mset patch \<and> sorted_wrt (\<lambda>a b. \<not> rrsetLess b a) ys"
  then show "sortRRSets patch = ys" by (blast intro: sortRRSets_unique)
qed simp

theorem sortRRSets_ordered_witness:
  "sortRRSets [makeSimpleRRSet ''a.'' ''A'' 1 [], newDeleteRRSet ''b.'' ''TXT'', newDeleteRRSet ''a.'' ''CNAME'']
     = [newDeleteRRSet ''a.'' ''CNAME'', newDeleteRRSet ''b.'' ''TXT'', makeSimpleRRSet ''a.'' ''A'' 1 []]"
proof -
  let ?patch = "[makeSimpleRRSet ''a.'' ''A'' 1 [], newDeleteRRSet ''b.'' ''TXT'', newDeleteRRSet ''a.'' ''CNAME'']"
  let ?ys = "[newDeleteRRSet ''a.'' ''CNAME'', newDeleteRRSet ''b.'' ''TXT'', makeSimpleRRSet ''a.'' ''A'' 1 []]"
  have "distinct (map rrsetSortKey ?patch)" by code_simp
  moreover have "mset ?ys = mset ?patch" by simp
  moreover have "sorted_wrt (\<lambda>a b. \<not> rrsetLess b a) ?ys" by code_simp
  ultimately show ?thesis using sortRRSets_ordered [of ?patch] by blast
qed

text \<open>C36: what goes out for a patch. It is refused before it is sent exactly when it both replaces
  and deletes one RRset; otherwise the request carries the changes in order, each delete directly
  followed by the comment-clearing replace of the same RRset, and nothing else.\<close>

theorem applyRRSetPatch_request:
  assumes "patch \<noteq> []"
  shows "if deletesAndReplaces patch then fst (applyRRSetPatch env s zone patch) = s
      \<and> snd (applyRRSetPatch env s zone patch) \<noteq> None
    else fst (applyRRSetPatch env s zone patch) =
      fst (send env s (PatchReq (zone @ ''.'') (map marshalRRSet (concat (map (\<lambda>rr.
        if rr_changeType rr = changeTypeDelete then [rr, commentsOnlyReplace (rr_name rr) (rr_type rr)]
        else [rr]) (sortRRSets patch))))))"
proof (cases "deletesAndReplaces patch")
  case True
  then obtain e where "clearCommentsBehindDeletes (sortRRSets patch) = Inl e"
    using clearComments_cases [of "sortRRSets patch"] by auto
  with True assms show ?thesis by (simp add: applyRRSetPatch_def)
next
  case False
  with assms show ?thesis
    by (simp add: applyRRSetPatch_ok withClears_def zone_path_def split: prod.split sum.split)
qed

theorem applyRRSetPatch_request_witness:
  "fst (applyRRSetPatch \<lparr>send = (\<lambda>s r. (s @ [r], Inr \<lparr>resp_status = 204, resp_body = []\<rparr>)),
          decodeError = (\<lambda>_. None), decodeZone = (\<lambda>_. Inr []),
        decodeZoneName = Inr\<rparr> [] ''example.com'' [newDeleteRRSet ''a.'' ''A''])
   = [PatchReq ''example.com.'' [marshalRRSet (newDeleteRRSet ''a.'' ''A''),
        marshalRRSet (commentsOnlyReplace ''a.'' ''A'')]]"
proof -
  have ne: "[newDeleteRRSet ''a.'' ''A''] \<noteq> []" by simp
  have "\<not> deletesAndReplaces [newDeleteRRSet ''a.'' ''A'']"
    by (simp add: deletesAndReplaces_def newDeleteRRSet_def changeTypeDelete_def changeTypeReplace_def)
  moreover have "sortRRSets [newDeleteRRSet ''a.'' ''A''] = [newDeleteRRSet ''a.'' ''A'']"
    by (simp add: sortRRSets_def go_sort_def)
  ultimately show ?thesis
    using applyRRSetPatch_request [OF ne, of "\<lparr>send = (\<lambda>s r. (s @ [r], Inr \<lparr>resp_status = 204, resp_body = []\<rparr>)),
        decodeError = (\<lambda>_. None), decodeZone = (\<lambda>_. Inr []),
        decodeZoneName = Inr\<rparr>" "[]" "''example.com''"]
    by (simp add: newDeleteRRSet_def changeTypeDelete_def)
qed

text \<open>rewriting an RRset for the same object and generation sends the comments PowerDNS already
  holds, time stamps included, whatever the clock says, so repeated writes add no comment rows.\<close>

theorem buildReplaceRRSet_stable:
  assumes "now \<noteq> 0"
  shows "rr_comments (buildReplaceRRSet now' zone typ owner ttl vs ref gen uid
            (rr_comments (buildReplaceRRSet now zone typ owner ttl ws ref gen uid existing)))
    = rr_comments (buildReplaceRRSet now zone typ owner ttl ws ref gen uid existing)"
  using stampComments_stable [OF assms ownerComments_simps(1)] by (simp add: buildReplaceRRSet_def)

theorem buildReplaceRRSet_stable_witness:
  "rr_comments (buildReplaceRRSet 20 ''example.com'' ''A'' ''www'' 300 [''192.0.2.1''] ''ns:rs'' 4 ''uid''
      (rr_comments (buildReplaceRRSet 10 ''example.com'' ''A'' ''www'' 300 [''192.0.2.1''] ''ns:rs'' 4 ''uid'' None)))
   = Some [\<lparr>cm_account = ''OWNER'', cm_content = ''ns:rs'', cm_modifiedAt = 10\<rparr>,
       \<lparr>cm_account = ''OBSERVED_GENERATION'', cm_content = ''4'', cm_modifiedAt = 10\<rparr>,
       \<lparr>cm_account = ''OBJECT_UID'', cm_content = ''uid'', cm_modifiedAt = 10\<rparr>]"
proof -
  have "rr_comments (buildReplaceRRSet 10 ''example.com'' ''A'' ''www'' 300 [''192.0.2.1''] ''ns:rs'' 4 ''uid'' None)
   = Some [\<lparr>cm_account = ''OWNER'', cm_content = ''ns:rs'', cm_modifiedAt = 10\<rparr>,
       \<lparr>cm_account = ''OBSERVED_GENERATION'', cm_content = ''4'', cm_modifiedAt = 10\<rparr>,
       \<lparr>cm_account = ''OBJECT_UID'', cm_content = ''uid'', cm_modifiedAt = 10\<rparr>]"
    by code_simp
  then show ?thesis by (subst buildReplaceRRSet_stable) simp_all
qed

subsection \<open>Isolating refusals\<close>

lemma length_set_all [simp]: "length (set_all ixs x xs) = length xs"
  by (induction ixs arbitrary: xs) (simp_all add: set_all_def)

lemma nth_set_all: "i < length xs \<Longrightarrow> set_all ixs x xs ! i = (if i \<in> set ixs then x else xs ! i)"
proof (induction ixs arbitrary: xs)
  case (Cons j ixs)
  have "set_all (j # ixs) x xs = set_all ixs x (xs[j := x])" by (simp add: set_all_def)
  with Cons show ?case by (auto simp: nth_list_update)
qed (simp add: set_all_def)

abbreviation batch :: "rrset list list \<Rightarrow> nat list \<Rightarrow> rrset list" where
  "batch changes pending \<equiv> concat (map (\<lambda>i. changes ! i) pending)"

definition refusedBy :: "'s pdns_env \<Rightarrow> go_error \<Rightarrow> rrset list \<Rightarrow> bool" where
  "refusedBy env e change \<longleftrightarrow> refusedIn change (set (refusedRRSets (decodeError env) (Some e)))"

text \<open>What one entry of the error list means: the change went out in the accepted last batch, or
  in a failed one whose answer names it, or in a failed last one.\<close>

definition outcome_ok :: "'s pdns_env \<Rightarrow> string \<Rightarrow> rrset list list \<Rightarrow> 's \<Rightarrow> nat \<Rightarrow> err \<Rightarrow> bool" where
  "outcome_ok env zone changes final i result \<longleftrightarrow>
     (case result of
        None \<Rightarrow> \<exists>s0 P. i \<in> set P \<and> applyRRSetPatch env s0 zone (batch changes P) = (final, None)
      | Some e \<Rightarrow> \<exists>s0 s1 P. i \<in> set P \<and> applyRRSetPatch env s0 zone (batch changes P) = (s1, Some e)
          \<and> (refusedBy env e (changes ! i) \<or> s1 = final \<and> (\<forall>j \<in> set P. \<not> refusedBy env e (changes ! j))))"

lemma isolate_done: "isolate env s zone changes [] errs = (s, errs)"
  by (subst isolate.simps) simp

lemma isolate_accepted:
  "pending \<noteq> [] \<Longrightarrow> applyRRSetPatch env s zone (batch changes pending) = (s', None) \<Longrightarrow>
     isolate env s zone changes pending errs = (s', errs)"
  by (subst isolate.simps) simp

lemma isolate_failed:
  assumes "pending \<noteq> []" and "applyRRSetPatch env s zone (batch changes pending) = (s', Some e)"
  shows "isolate env s zone changes pending errs =
    (if \<forall>i \<in> set pending. \<not> refusedBy env e (changes ! i) then (s', set_all pending (Some e) errs)
     else isolate env s' zone changes (filter (\<lambda>i. \<not> refusedBy env e (changes ! i)) pending)
       (set_all (filter (\<lambda>i. refusedBy env e (changes ! i)) pending) (Some e) errs))"
proof -
  have "length (filter (\<lambda>i. \<not> refusedBy env e (changes ! i)) pending) = length pending \<longleftrightarrow>
      (\<forall>i \<in> set pending. \<not> refusedBy env e (changes ! i))"
    by (metis (mono_tags, lifting) filter_id_conv length_filter_less less_irrefl)
  with assms show ?thesis
    by (subst isolate.simps) (simp add: refusedBy_def Let_def)
qed

lemma isolate_outcomes:
  assumes "\<forall>i \<in> set pending. i < length errs \<and> errs ! i = None"
    and "isolate env s zone changes pending errs = (final, errs')"
  shows "length errs' = length errs
    \<and> (\<forall>i < length errs. i \<notin> set pending \<longrightarrow> errs' ! i = errs ! i)
    \<and> (\<forall>i \<in> set pending. outcome_ok env zone changes final i (errs' ! i))"
  using assms
proof (induction "length pending" arbitrary: s pending errs rule: less_induct)
  case less
  show ?case
  proof (cases "pending = []")
    case True
    with less.prems show ?thesis by (simp add: isolate_done)
  next
    case ne: False
    obtain s1 r where ap: "applyRRSetPatch env s zone (batch changes pending) = (s1, r)" by fastforce
    show ?thesis
    proof (cases r)
      case None
      with less.prems ne ap have "final = s1" "errs' = errs" by (simp_all add: isolate_accepted)
      with less.prems(1) ap None show ?thesis by (auto simp: outcome_ok_def)
    next
      case (Some e)
      note step = isolate_failed [OF ne ap [unfolded Some], of errs]
      show ?thesis
      proof (cases "\<forall>i \<in> set pending. \<not> refusedBy env e (changes ! i)")
        case True
        with step less.prems(2) have "final = s1" "errs' = set_all pending (Some e) errs"
          by simp_all
        with True less.prems(1) ap Some show ?thesis
          by (auto simp: outcome_ok_def nth_set_all)
      next
        case False
        let ?kept = "filter (\<lambda>i. \<not> refusedBy env e (changes ! i)) pending"
        let ?errs = "set_all (filter (\<lambda>i. refusedBy env e (changes ! i)) pending) (Some e) errs"
        have eq: "isolate env s1 zone changes ?kept ?errs = (final, errs')"
          using step less.prems(2) by (simp only: if_not_P [OF False])
        have "length ?kept < length pending" using False by (auto intro: length_filter_less)
        moreover have "\<forall>i \<in> set ?kept. i < length ?errs \<and> ?errs ! i = None"
          using less.prems(1) by (auto simp: nth_set_all)
        ultimately have IH: "length errs' = length ?errs"
            "\<forall>i < length ?errs. i \<notin> set ?kept \<longrightarrow> errs' ! i = ?errs ! i"
            "\<forall>i \<in> set ?kept. outcome_ok env zone changes final i (errs' ! i)"
          using less.hyps [OF _ _ eq] by blast+
        have "outcome_ok env zone changes final i (errs' ! i)"
          if i: "i \<in> set pending" "refusedBy env e (changes ! i)" for i
        proof -
          have "errs' ! i = Some e" using IH(2) i less.prems(1) by (simp add: nth_set_all)
          then show ?thesis using ap Some i by (auto simp: outcome_ok_def)
        qed
        with IH show ?thesis by (auto simp: nth_set_all)
      qed
    qed
  qed
qed

text \<open>C20: isolating refusals always ends with one result per change, and every result is accounted
  for: a change without an error travelled in the batch that PowerDNS accepted last, a change
  with an error travelled in a batch that failed with exactly that error, and the error either
  names an RRset of that change or ended the loop because it names none of the batch.\<close>

theorem applyIsolatingRefusals_outcomes:
  assumes "applyIsolatingRefusals env s zone changes = (final, errs)"
  shows "length errs = length changes \<and> (\<forall>i < length changes. outcome_ok env zone changes final i (errs ! i))"
  using isolate_outcomes [OF _ assms [unfolded applyIsolatingRefusals_def]] by simp

definition named :: "'s pdns_env \<Rightarrow> rrset list list \<Rightarrow> err list \<Rightarrow> bool" where
  "named env changes errs \<longleftrightarrow> length errs = length changes
     \<and> (\<forall>i e. i < length changes \<longrightarrow> errs ! i = Some e \<longrightarrow> refusedBy env e (changes ! i))"

lemma named_set_all:
  "named env changes errs \<Longrightarrow>
     named env changes (set_all (filter (\<lambda>i. refusedBy env e (changes ! i)) pending) (Some e) errs)"
  by (auto simp: named_def nth_set_all)

lemma isolate_named:
  assumes names: "\<And>s0 s1 e P. P \<noteq> [] \<Longrightarrow> set P \<subseteq> {..<length changes} \<Longrightarrow>
        applyRRSetPatch env s0 zone (batch changes P) = (s1, Some e) \<Longrightarrow>
        \<exists>j \<in> set P. refusedBy env e (changes ! j)"
    and "isolate env s zone changes pending es = (final, errs)"
    and "set pending \<subseteq> {..<length changes}" and "named env changes es"
  shows "named env changes errs"
  using assms(2-4)
proof (induction "length pending" arbitrary: s pending es rule: less_induct)
  case less
  show ?case
  proof (cases "pending = []")
    case True
    with less.prems show ?thesis by (simp add: isolate_done)
  next
    case ne: False
    obtain s1 r where ap: "applyRRSetPatch env s zone (batch changes pending) = (s1, r)" by fastforce
    show ?thesis
    proof (cases r)
      case None
      with less.prems ne ap show ?thesis by (simp add: isolate_accepted)
    next
      case (Some e)
      let ?kept = "filter (\<lambda>i. \<not> refusedBy env e (changes ! i)) pending"
      from names [OF ne less.prems(2) ap [unfolded Some]]
      have hit: "\<not> (\<forall>i \<in> set pending. \<not> refusedBy env e (changes ! i))" by blast
      note eq = isolate_failed [OF ne ap [unfolded Some], of es, unfolded if_not_P [OF hit], symmetric,
          unfolded less.prems(1)]
      have "length ?kept < length pending" using hit by (auto intro: length_filter_less)
      moreover have "set ?kept \<subseteq> {..<length changes}" using less.prems(2) by auto
      ultimately show ?thesis using less.hyps [OF _ eq _ named_set_all [OF less.prems(3)]] by blast
    qed
  qed
qed

text \<open>C19: one refused change never holds back another. If PowerDNS fails a batch only by naming at
  least one RRset of it, a change ends with an error only when the error names that change.\<close>

theorem applyIsolatingRefusals_isolates:
  assumes "applyIsolatingRefusals env s zone changes = (final, errs)"
    and "\<And>s0 s1 e P. P \<noteq> [] \<Longrightarrow> set P \<subseteq> {..<length changes} \<Longrightarrow>
        applyRRSetPatch env s0 zone (batch changes P) = (s1, Some e) \<Longrightarrow>
        \<exists>j \<in> set P. refusedIn (changes ! j) (set (refusedRRSets (decodeError env) (Some e)))"
    and "i < length changes" and "errs ! i = Some e"
  shows "refusedIn (changes ! i) (set (refusedRRSets (decodeError env) (Some e)))"
proof -
  have "named env changes (replicate (length changes) None)" by (simp add: named_def)
  then have "named env changes errs"
    by (rule isolate_named [OF _ assms(1) [unfolded applyIsolatingRefusals_def], rotated 2])
      (unfold refusedBy_def, rule assms(2), auto)
  with assms(3,4) show ?thesis by (simp add: named_def refusedBy_def)
qed

text \<open>A server for the witnesses: it logs requests and refuses a CNAME at one name.\<close>

definition refusing_env :: "pdns_request list pdns_env" where
  "refusing_env = \<lparr>send = (\<lambda>log r. (log @ [r], Inr (case r of
       PatchReq z ws \<Rightarrow> if list_ex (\<lambda>w. w_name w = ''a.'') ws
         then \<lparr>resp_status = 422, resp_body = ''RRset a. IN CNAME: Conflicts with pre-existing RRset''\<rparr>
         else \<lparr>resp_status = 204, resp_body = []\<rparr>
     | _ \<Rightarrow> \<lparr>resp_status = 200, resp_body = []\<rparr>))),
     decodeError = (\<lambda>b. Some ([], [b])), decodeZone = (\<lambda>_. Inr []),
        decodeZoneName = Inr\<rparr>"

definition two_changes :: "rrset list list" where
  "two_changes = [[makeSimpleRRSet ''a.'' ''CNAME'' 1 [''x.'']], [makeSimpleRRSet ''b.'' ''A'' 1 [''192.0.2.1'']]]"

definition refused_error :: go_error where
  "refused_error = ApiError 422 ''RRset a. IN CNAME: Conflicts with pre-existing RRset''"

lemma two_changes_run:
  "snd (applyIsolatingRefusals refusing_env [] ''z'' two_changes) = [Some refused_error, None]"
  by code_simp

theorem applyIsolatingRefusals_outcomes_witness:
  "\<exists>final errs. applyIsolatingRefusals refusing_env [] ''z'' two_changes = (final, errs)
     \<and> errs = [Some refused_error, None] \<and> outcome_ok refusing_env ''z'' two_changes final 1 (errs ! 1)"
proof -
  obtain final errs where r: "applyIsolatingRefusals refusing_env [] ''z'' two_changes = (final, errs)"
    by fastforce
  with two_changes_run have "errs = [Some refused_error, None]" by simp
  moreover have "1 < length two_changes" by (simp add: two_changes_def)
  ultimately show ?thesis using r applyIsolatingRefusals_outcomes [OF r] by blast
qed

lemma refusing_env_send:
  "snd (send refusing_env log (PatchReq z ws)) = Inr (if list_ex (\<lambda>w. w_name w = ''a.'') ws
     then \<lparr>resp_status = 422, resp_body = ''RRset a. IN CNAME: Conflicts with pre-existing RRset''\<rparr>
     else \<lparr>resp_status = 204, resp_body = []\<rparr>)"
  by (simp add: refusing_env_def)

lemma readRespBody_refused:
  "ApiError 422 (readRespBody \<lparr>resp_status = 422,
     resp_body = ''RRset a. IN CNAME: Conflicts with pre-existing RRset''\<rparr> 65536) = refused_error"
  by code_simp

lemma refusing_env_patch:
  assumes "applyRRSetPatch refusing_env s0 ''z'' b = (s1, Some e)" and "b \<noteq> []"
    and "\<forall>rr \<in> set b. rr_changeType rr = changeTypeReplace"
  shows "e = refused_error \<and> (\<exists>rr \<in> set b. rr_name rr = ''a.'')"
proof -
  have "\<not> deletesAndReplaces b"
    using assms(3) by (auto simp: deletesAndReplaces_def changeTypeDelete_def changeTypeReplace_def)
  note ok = applyRRSetPatch_ok [OF assms(2) this, of refusing_env s0 "''z''"]
  let ?ws = "map marshalRRSet (withClears (sortRRSets b))"
  obtain s' r where r: "send refusing_env s0 (PatchReq (zone_path ''z'') ?ws) = (s', r)"
    by fastforce
  with refusing_env_send [of s0 "zone_path ''z''" ?ws] obtain resp where "r = Inr resp"
    and resp: "resp = (if list_ex (\<lambda>w. w_name w = ''a.'') ?ws
     then \<lparr>resp_status = 422, resp_body = ''RRset a. IN CNAME: Conflicts with pre-existing RRset''\<rparr>
     else \<lparr>resp_status = 204, resp_body = []\<rparr>)" by simp
  with r ok assms(1) have e: "(if resp_status resp = 204 \<or> resp_status resp = 200 then None
         else Some (ApiError (resp_status resp) (readRespBody resp 65536))) = Some e"
    by simp
  show ?thesis
  proof (cases "list_ex (\<lambda>w. w_name w = ''a.'') ?ws")
    case True
    have "\<exists>rr \<in> set b. rr_name rr = ''a.''"
      using True by (auto simp: list_ex_iff withClears_def marshalRRSet_def commentsOnlyReplace_def
          split: if_splits)
    with True e resp readRespBody_refused show ?thesis by simp
  next
    case False
    with e resp show ?thesis by simp
  qed
qed

lemma refusing_env_names:
  assumes "P \<noteq> []" and "set P \<subseteq> {..<length two_changes}"
    and "applyRRSetPatch refusing_env s0 ''z'' (batch two_changes P) = (s1, Some e)"
  shows "\<exists>j \<in> set P. refusedIn (two_changes ! j) (set (refusedRRSets (decodeError refusing_env) (Some e)))"
proof -
  have two: "\<forall>j \<in> set P. j = 0 \<or> j = 1" using assms(2) by (auto simp: two_changes_def)
  have names: "(rr_name rr = ''a.'' \<longrightarrow> 0 \<in> set P) \<and> rr_changeType rr = changeTypeReplace"
    if "rr \<in> set (batch two_changes P)" for rr
    using that two by (auto simp: two_changes_def makeSimpleRRSet_def)
  have "batch two_changes P \<noteq> []" using assms(1) two by (cases P) (auto simp: two_changes_def)
  from refusing_env_patch [OF assms(3) this] names
  have e: "e = refused_error" and "0 \<in> set P" by blast+
  moreover have "refusedIn (two_changes ! 0) (set (refusedRRSets (decodeError refusing_env) (Some e)))"
    unfolding e by code_simp
  ultimately show ?thesis by blast
qed

theorem applyIsolatingRefusals_isolates_witness:
  "refusedIn (two_changes ! 0) (set (refusedRRSets (decodeError refusing_env) (Some refused_error)))
   \<and> snd (applyIsolatingRefusals refusing_env [] ''z'' two_changes) ! 1 = None"
proof -
  obtain final errs where r: "applyIsolatingRefusals refusing_env [] ''z'' two_changes = (final, errs)"
    by fastforce
  with two_changes_run have errs: "errs = [Some refused_error, None]" by simp
  have "refusedIn (two_changes ! 0) (set (refusedRRSets (decodeError refusing_env) (Some refused_error)))"
    by (rule applyIsolatingRefusals_isolates [OF r refusing_env_names])
      (simp_all add: two_changes_def errs)
  with r errs show ?thesis by simp
qed

end
