(* ===== verification/Pdns_Zone.thy ===== *)
theory Pdns_Zone
  imports Pdns_Patch
begin

text \<open>
  Zones on PowerDNS (\<^verbatim>\<open>internal/dns/pdns/client.go\<close>): reading a zone, creating it, and
  deleting it behind a clearing of its comments. The map a zone read is indexed into is an
  association list whose order is an iteration order of the Go map. \<open>trace\<close> is the sequence of
  requests a call sends, and what the theorems speak of.
\<close>

section \<open>Definitions\<close>

type_synonym zone_map = "(rrsetKey \<times> zoneRRset) list"

definition commentsOf :: "zoneRRset \<Rightarrow> zoneRRsetComment list" where
  "commentsOf rr = (case zr_comments rr of None \<Rightarrow> [] | Some cs \<Rightarrow> cs)"

fun isZoneNotFound :: "go_error \<Rightarrow> bool" where
  "isZoneNotFound ErrZoneNotFound = True"
| "isZoneNotFound (ApiError status body) = False"
| "isZoneNotFound (WrappedError msg e) = (case e of None \<Rightarrow> False | Some e \<Rightarrow> isZoneNotFound e)"
| "isZoneNotFound (JoinedError es) = list_ex isZoneNotFound es"
| "isZoneNotFound (PlainError msg) = False"

definition rrsetKeyOf :: "zoneRRset \<Rightarrow> rrsetKey" where
  "rrsetKeyOf rr = \<lparr>k_name = zr_name rr, k_typ = zr_type rr\<rparr>"

definition indexRRSets :: "zoneRRset list \<Rightarrow> zone_map" where
  "indexRRSets rrsets = foldl (\<lambda>out rr. AList.update (rrsetKeyOf rr) rr out) [] rrsets"

definition getPDNSZoneRRSets :: "'s pdns_env \<Rightarrow> 's \<Rightarrow> string \<Rightarrow> 's \<times> (go_error + zone_map)" where
  "getPDNSZoneRRSets env s zoneName =
     (case send env s (GetZoneReq (zone_path zoneName)) of
        (s', Inl e) \<Rightarrow> (s', Inl e)
      | (s', Inr resp) \<Rightarrow>
          if resp_status resp = 404 then (s', Inl ErrZoneNotFound)
          else if resp_status resp \<noteq> 200
            then (s', Inl (ApiError (resp_status resp) (readRespBody resp 65536)))
          else (case decodeZone env (resp_body resp) of
                  Inl e \<Rightarrow> (s', Inl e)
                | Inr rrsets \<Rightarrow> (s', Inr (indexRRSets rrsets))))"

definition GetZoneRRSets :: "'s pdns_env \<Rightarrow> 's \<Rightarrow> string \<Rightarrow> 's \<times> (go_error + zoneRRset list)" where
  "GetZoneRRSets env s zone =
     (case send env s (GetZoneReq (zone_path zone)) of
        (s', Inl e) \<Rightarrow> (s', Inl e)
      | (s', Inr resp) \<Rightarrow>
          if resp_status resp = 404 then (s', Inr [])
          else if resp_status resp div 100 \<noteq> 2
            then (s', Inl (PlainError (''pdns get zone rrsets failed: status '' @ int_str (resp_status resp))))
          else (s', decodeZone env (resp_body resp)))"

definition CreateZone :: "'s pdns_env \<Rightarrow> 's \<Rightarrow> string \<Rightarrow> string list \<Rightarrow> 's \<times> err" where
  "CreateZone env s zone nameservers =
     (let nsAbs = map (\<lambda>ns. if last ns \<noteq> CHR ''.'' then ns @ ''.'' else ns) (filter (\<lambda>ns. ns \<noteq> []) nameservers);
          payload = \<lparr>cz_name = zone @ ''.'', cz_kind = ''Native'', cz_nameservers = nsAbs\<rparr>
      in case send env s (CreateReq payload) of
           (s', Inl e) \<Rightarrow> (s', Some e)
         | (s', Inr resp) \<Rightarrow>
             if resp_status resp = 201 \<or> resp_status resp = 409 then (s', None)
             else if resp_status resp \<noteq> 200
               then (s', Some (PlainError (''pdns create zone failed: status '' @ int_str (resp_status resp))))
             else (s', None))"

definition GetZone :: "'s pdns_env \<Rightarrow> 's \<Rightarrow> string \<Rightarrow> 's \<times> (go_error + string)" where
  "GetZone env s zone =
     (case send env s (GetZoneReq (zone_path zone)) of
        (s', Inl e) \<Rightarrow> (s', Inl e)
      | (s', Inr resp) \<Rightarrow>
          if resp_status resp = 404 then (s', Inl ErrZoneNotFound)
          else if resp_status resp \<noteq> 200
            then (s', Inl (PlainError (''pdns get zone failed: status '' @ int_str (resp_status resp))))
          else (s', decodeZoneName env (resp_body resp)))"

definition GetZoneNameservers :: "DNSZone \<Rightarrow> DNSZoneClass \<Rightarrow> string list" where
  "GetZoneNameservers zone class = ClassNameservers class"

definition EnsureZone :: "'s pdns_env \<Rightarrow> 's \<Rightarrow> DNSZone \<Rightarrow> DNSZoneClass \<Rightarrow> 's \<times> err" where
  "EnsureZone env s zone class =
     (let nss = GetZoneNameservers zone class in
      case GetZone env s (z_domainName zone) of
        (s', Inr name) \<Rightarrow> (s', None)
      | (s', Inl e) \<Rightarrow>
          if isZoneNotFound e then CreateZone env s' (z_domainName zone) nss else (s', Some e))"

text \<open>The patches of a list of chunks in order, up to the first that fails.\<close>

fun applyChunks :: "'s pdns_env \<Rightarrow> 's \<Rightarrow> string \<Rightarrow> rrsetChunk list \<Rightarrow> 's \<times> rrsetChunk list \<times> err" where
  "applyChunks env s zone [] = (s, [], None)"
| "applyChunks env s zone (chunk # rest) =
     (case applyRRSetPatch env s zone (ch_rrsets chunk) of
        (s', Some e) \<Rightarrow> (s', [], Some e)
      | (s', None) \<Rightarrow>
          (case applyChunks env s' zone rest of (s'', applied, e) \<Rightarrow> (s'', chunk # applied, e)))"

definition clearZoneComments :: "'s pdns_env \<Rightarrow> 's \<Rightarrow> string \<Rightarrow> 's \<times> err" where
  "clearZoneComments env s zoneName =
     (case getPDNSZoneRRSets env s zoneName of
        (s', Inl e) \<Rightarrow> if isZoneNotFound e then (s', None) else (s', Some e)
      | (s', Inr existing) \<Rightarrow>
          let clears = sortRRSets (map (\<lambda>(key, current). commentsOnlyReplace (zr_name current) (zr_type current))
                (filter (\<lambda>(key, current). commentsOf current \<noteq> []) existing))
          in case applyChunks env s' zoneName (chunkRRSets clears) of (s'', applied, e) \<Rightarrow> (s'', e))"

definition DeleteZone :: "'s pdns_env \<Rightarrow> 's \<Rightarrow> DNSZone \<Rightarrow> 's \<times> err" where
  "DeleteZone env s zone =
     (if z_domainName zone = [] then (s, None)
      else case clearZoneComments env s (z_domainName zone) of
        (s', Some e) \<Rightarrow> (s', Some (WrappedError
           (''clearing the comments of zone '' @ z_domainName zone @ '': '' @ error_text e) (Some e)))
      | (s', None) \<Rightarrow>
          (case send env s' (DeleteReq (zone_path (z_domainName zone))) of
             (s'', Inl e) \<Rightarrow> (s'', Some e)
           | (s'', Inr resp) \<Rightarrow>
               if resp_status resp = 404 then (s'', None)
               else if resp_status resp = 204 then (s'', None)
               else if resp_status resp \<noteq> 200
                 then (s'', Some (PlainError (''pdns delete zone failed: status '' @ int_str (resp_status resp))))
               else (s'', None)))"

section \<open>Traces\<close>

text \<open>\<open>trace env s log s'\<close>: sending the requests of \<open>log\<close> one after the other, and getting its answers,
  takes the server from \<open>s\<close> to \<open>s'\<close>.\<close>

type_synonym exchange = "pdns_request \<times> (go_error + http_response)"

inductive trace :: "'s pdns_env \<Rightarrow> 's \<Rightarrow> exchange list \<Rightarrow> 's \<Rightarrow> bool" for env where
  trace_Nil: "trace env s [] s"
| trace_Cons: "send env s r = (s1, a) \<Longrightarrow> trace env s1 log s2 \<Longrightarrow> trace env s ((r, a) # log) s2"

inductive_simps trace_Nil_iff [simp]: "trace env s [] s'"
inductive_simps trace_Cons_iff: "trace env s (ra # log) s'"

lemma trace_append: "trace env s log s1 \<Longrightarrow> trace env s1 log' s2 \<Longrightarrow> trace env s (log @ log') s2"
  by (induction rule: trace.induct) (auto intro: trace_Cons)

lemma trace_single [simp]: "trace env s [(r, a)] s' \<longleftrightarrow> send env s r = (s', a)"
  by (auto simp: trace_Cons_iff)

definition accepted :: "go_error + http_response \<Rightarrow> bool" where
  "accepted a = (case a of Inl e \<Rightarrow> False | Inr resp \<Rightarrow> resp_status resp = 204 \<or> resp_status resp = 200)"

text \<open>The request that carries a patch, and the exchanges that carry changes out of a given set.\<close>

definition patchOf :: "string \<Rightarrow> rrset list \<Rightarrow> pdns_request" where
  "patchOf zone patch = PatchReq (zone_path zone) (map marshalRRSet (withClears (sortRRSets patch)))"

definition within :: "string \<Rightarrow> rrset set \<Rightarrow> exchange \<Rightarrow> bool" where
  "within zone C x \<longleftrightarrow> (\<exists>patch. set patch \<subseteq> C \<and> \<not> deletesAndReplaces patch \<and> fst x = patchOf zone patch)"

lemma within_mono: "within zone C x \<Longrightarrow> C \<subseteq> D \<Longrightarrow> within zone D x"
  unfolding within_def by blast

lemma applyRRSetPatch_trace:
  assumes "applyRRSetPatch env s zone patch = (s', e)"
  shows "(patch = [] \<or> deletesAndReplaces patch) \<and> s' = s \<and> (e = None \<longleftrightarrow> patch = [])
    \<or> patch \<noteq> [] \<and> \<not> deletesAndReplaces patch
      \<and> (\<exists>a. send env s (patchOf zone patch) = (s', a) \<and> (e = None \<longleftrightarrow> accepted a))"
proof (cases "patch = []")
  case True
  with assms show ?thesis by (simp add: applyRRSetPatch_def)
next
  case False
  show ?thesis
  proof (cases "deletesAndReplaces patch")
    case True
    with clearComments_cases [of "sortRRSets patch"] obtain er
      where "clearCommentsBehindDeletes (sortRRSets patch) = Inl er" by auto
    with assms False True show ?thesis by (auto simp: applyRRSetPatch_def)
  next
    case noconf: False
    obtain s1 a where a: "send env s (patchOf zone patch) = (s1, a)" by fastforce
    have "s' = s1 \<and> (e = None \<longleftrightarrow> accepted a)"
      using assms a unfolding applyRRSetPatch_ok [OF False noconf] patchOf_def [symmetric]
      by (auto simp: accepted_def split: sum.splits if_splits)
    with a False noconf show ?thesis by blast
  qed
qed

lemma applyRRSetPatch_within:
  assumes "applyRRSetPatch env s zone patch = (s', e)"
  obtains log where "trace env s log s'" and "\<forall>x \<in> set log. within zone (set patch) x"
    and "length log \<le> 1"
proof -
  consider "s' = s" | a where "\<not> deletesAndReplaces patch" "send env s (patchOf zone patch) = (s', a)"
    using applyRRSetPatch_trace [OF assms] by blast
  then show ?thesis
  proof cases
    case 1
    then show ?thesis using that [of "[]"] by simp
  next
    case (2 a)
    then show ?thesis using that [of "[(patchOf zone patch, a)]"] by (auto simp: within_def)
  qed
qed

lemma getPDNSZoneRRSets_trace:
  assumes "getPDNSZoneRRSets env s zone = (s', r)"
  obtains a where "send env s (GetZoneReq (zone_path zone)) = (s', a)"
  using assms by (auto simp: getPDNSZoneRRSets_def split: prod.splits sum.splits if_splits)

lemma applyChunks_within:
  assumes "applyChunks env s zone chunks = (s', applied, e)"
  shows "\<exists>log. trace env s log s' \<and> length log \<le> length chunks
    \<and> (\<forall>x \<in> set log. within zone (\<Union>c \<in> set chunks. set (ch_rrsets c)) x)"
  using assms
proof (induction chunks arbitrary: s s' applied e)
  case Nil
  then show ?case by (intro exI [of _ "[]"]) auto
next
  case (Cons c rest)
  obtain s1 e1 where p: "applyRRSetPatch env s zone (ch_rrsets c) = (s1, e1)" by fastforce
  from applyRRSetPatch_within [OF p] obtain r1 where r1: "trace env s r1 s1"
    "\<forall>x \<in> set r1. within zone (set (ch_rrsets c)) x" "length r1 \<le> 1" .
  show ?case
  proof (cases e1)
    case (Some er)
    with p Cons.prems have "s' = s1" by simp
    with r1 show ?thesis by (intro exI [of _ r1]) (auto intro: within_mono)
  next
    case None
    with p Cons.prems obtain applied' where "applyChunks env s1 zone rest = (s', applied', e)"
      by (auto split: prod.splits)
    from Cons.IH [OF this] obtain r2 where r2: "trace env s1 r2 s'" "length r2 \<le> length rest"
      "\<forall>x \<in> set r2. within zone (\<Union>c \<in> set rest. set (ch_rrsets c)) x" by blast
    show ?thesis
    proof (intro exI [of _ "r1 @ r2"] conjI ballI)
      show "trace env s (r1 @ r2) s'" by (rule trace_append [OF r1(1) r2(1)])
      show "length (r1 @ r2) \<le> length (c # rest)" using r1(3) r2(2) by simp
      show "within zone (\<Union>c \<in> set (c # rest). set (ch_rrsets c)) x" if "x \<in> set (r1 @ r2)" for x
        using that r1(2) r2(3) by (auto elim!: within_mono)
    qed
  qed
qed

text \<open>When no chunk fails, every chunk has been accepted in a patch of its own, in order.\<close>

lemma applyChunks_accepted:
  assumes "applyChunks env s zone chunks = (s', applied, None)" and "\<forall>c \<in> set chunks. ch_rrsets c \<noteq> []"
  shows "\<exists>answers. length answers = length chunks \<and> list_all accepted answers
    \<and> trace env s (zip (map (\<lambda>c. patchOf zone (ch_rrsets c)) chunks) answers) s' \<and> applied = chunks"
  using assms
proof (induction chunks arbitrary: s applied)
  case Nil
  then show ?case by simp
next
  case (Cons c rest)
  obtain s1 applied' where p: "applyRRSetPatch env s zone (ch_rrsets c) = (s1, None)"
    and rest: "applyChunks env s1 zone rest = (s', applied', None)" and ap: "applied = c # applied'"
    using Cons.prems(1) by (auto split: prod.splits option.splits)
  from applyRRSetPatch_trace [OF p] Cons.prems(2)
  obtain a where a: "send env s (patchOf zone (ch_rrsets c)) = (s1, a)" "accepted a" by auto
  from Cons.IH [OF rest] Cons.prems(2) obtain as where "length as = length rest" "list_all accepted as"
    "trace env s1 (zip (map (\<lambda>c. patchOf zone (ch_rrsets c)) rest) as) s'" "applied' = rest" by auto
  with a ap show ?case by (intro exI [of _ "a # as"]) (auto intro: trace_Cons)
qed

section \<open>Lemmas on zones\<close>

lemma map_of_indexRRSets:
  "map_of (indexRRSets rrsets) key = find (\<lambda>rr. rrsetKeyOf rr = key) (rev rrsets)"
  by (induction rrsets rule: rev_induct) (auto simp: indexRRSets_def map_of_update)

lemma distinct_indexRRSets: "distinct (map fst (indexRRSets rrsets))"
  by (induction rrsets rule: rev_induct) (simp_all add: indexRRSets_def distinct_update)

lemma indexRRSets_sound: "(key, rr) \<in> set (indexRRSets rrsets) \<Longrightarrow> rr \<in> set rrsets \<and> key = rrsetKeyOf rr"
proof -
  assume "(key, rr) \<in> set (indexRRSets rrsets)"
  then have "map_of (indexRRSets rrsets) key = Some rr"
    using distinct_indexRRSets by simp
  then show ?thesis using find_SomeD by (fastforce simp: map_of_indexRRSets)
qed

lemma getPDNSZoneRRSets_ok:
  assumes "getPDNSZoneRRSets env s zone = (s1, Inr existing)"
  obtains resp rrsets where "send env s (GetZoneReq (zone_path zone)) = (s1, Inr resp)"
    and "resp_status resp = 200" and "decodeZone env (resp_body resp) = Inr rrsets"
    and "existing = indexRRSets rrsets"
  using assms by (auto simp: getPDNSZoneRRSets_def split: prod.splits sum.splits if_splits)

lemma read_distinct: "getPDNSZoneRRSets env s zone = (s1, Inr existing) \<Longrightarrow> distinct (map fst existing)"
  by (erule getPDNSZoneRRSets_ok) (simp add: distinct_indexRRSets)

lemma read_key: "getPDNSZoneRRSets env s zone = (s1, Inr existing) \<Longrightarrow> (key, rr) \<in> set existing \<Longrightarrow>
    key = rrsetKeyOf rr"
  by (erule getPDNSZoneRRSets_ok) (simp add: indexRRSets_sound)

lemma chunk_nonempty: "c \<in> set (chunkRRSets xs) \<Longrightarrow> ch_rrsets c \<noteq> []"
  using chunk_ok_chunks_from [of xs 0]
  by (auto simp: chunkRRSets_def list_all_iff chunk_ok_def slice_def split: if_splits)

lemma chunk_members: "(\<Union>c \<in> set (chunkRRSets xs). set (ch_rrsets c)) = set xs"
proof -
  have "concat (map ch_rrsets (chunkRRSets xs)) = xs"
    by (simp add: chunkRRSets_def concat_chunks_from)
  then have "set (concat (map ch_rrsets (chunkRRSets xs))) = set xs" by simp
  then show ?thesis by auto
qed

lemma withClears_replaces:
  assumes "\<forall>rr \<in> set patch. rr_changeType rr = changeTypeReplace"
  shows "\<not> deletesAndReplaces patch" and "withClears (sortRRSets patch) = sortRRSets patch"
proof -
  show "\<not> deletesAndReplaces patch"
    using assms by (auto simp: deletesAndReplaces_def changeTypeDelete_def changeTypeReplace_def)
  have "\<forall>rr \<in> set xs. rr_changeType rr = changeTypeReplace \<Longrightarrow> withClears xs = xs" for xs
    by (induction xs) (simp_all add: withClears_def changeTypeDelete_def changeTypeReplace_def)
  then show "withClears (sortRRSets patch) = sortRRSets patch" using assms by simp
qed

text \<open>The clearing of one RRset's comments as it goes on the wire: neither a TTL nor records.\<close>

definition clearWire :: "string \<Rightarrow> string \<Rightarrow> wire_rrset" where
  "clearWire name typ = \<lparr>w_name = name, w_type = typ, w_changetype = changeTypeReplace,
     w_ttl = None, w_records = None, w_comments = Some []\<rparr>"

lemma marshal_commentsOnly [simp]: "marshalRRSet (commentsOnlyReplace name typ) = clearWire name typ"
  by (simp add: marshalRRSet_def commentsOnlyReplace_def clearWire_def)

lemma commentsOnlyReplace_replace [simp]: "rr_changeType (commentsOnlyReplace name typ) = changeTypeReplace"
  by (simp add: commentsOnlyReplace_def)

definition clearsOf :: "zone_map \<Rightarrow> rrset list" where
  "clearsOf existing = sortRRSets (map (\<lambda>(key, current). commentsOnlyReplace (zr_name current) (zr_type current))
     (filter (\<lambda>(key, current). commentsOf current \<noteq> []) existing))"

lemma clearsOf_replace: "rr \<in> set (clearsOf existing) \<Longrightarrow> rr_changeType rr = changeTypeReplace"
  by (auto simp: clearsOf_def)

text \<open>A patch that only clears comments, of the RRsets in the zone read.\<close>

definition onlyClears :: "string \<Rightarrow> zone_map \<Rightarrow> pdns_request \<Rightarrow> bool" where
  "onlyClears zone existing r \<longleftrightarrow> (\<exists>ws. r = PatchReq (zone_path zone) ws
     \<and> (\<forall>w \<in> set ws. \<exists>rr \<in> snd ` set existing. commentsOf rr \<noteq> [] \<and> w = clearWire (zr_name rr) (zr_type rr)))"

lemma within_clears:
  assumes "within zone (set (clearsOf existing)) x"
  shows "onlyClears zone existing (fst x)"
proof -
  obtain patch where p: "set patch \<subseteq> set (clearsOf existing)" "fst x = patchOf zone patch"
    using assms by (auto simp: within_def)
  then have "withClears (sortRRSets patch) = sortRRSets patch"
    by (intro withClears_replaces(2)) (auto dest: clearsOf_replace)
  with p have "fst x = PatchReq (zone_path zone) (map marshalRRSet (sortRRSets patch))"
    by (simp add: patchOf_def)
  moreover have "\<exists>rr \<in> snd ` set existing. commentsOf rr \<noteq> [] \<and> w = clearWire (zr_name rr) (zr_type rr)"
    if "w \<in> set (map marshalRRSet (sortRRSets patch))" for w
    using that p(1) by (force simp: clearsOf_def)
  ultimately show ?thesis unfolding onlyClears_def by blast
qed

lemma clearZoneComments_read:
  assumes "getPDNSZoneRRSets env s zone = (s0, Inr existing)"
  shows "clearZoneComments env s zone =
    (case applyChunks env s0 zone (chunkRRSets (clearsOf existing)) of (s1, applied, e) \<Rightarrow> (s1, e))"
  using assms by (simp add: clearZoneComments_def clearsOf_def)

lemma clearZoneComments_within:
  assumes "getPDNSZoneRRSets env s zone = (s0, Inr existing)" and "clearZoneComments env s zone = (s1, e)"
  shows "\<exists>log. trace env s0 log s1 \<and> (\<forall>x \<in> set log. onlyClears zone existing (fst x))"
proof -
  obtain applied where "applyChunks env s0 zone (chunkRRSets (clearsOf existing)) = (s1, applied, e)"
    using assms by (auto simp: clearZoneComments_read split: prod.splits)
  from applyChunks_within [OF this] show ?thesis
    by (auto simp: chunk_members dest: within_clears)
qed

lemma clearZoneComments_done:
  assumes "getPDNSZoneRRSets env s zone = (s0, Inr existing)" and "clearZoneComments env s zone = (s1, None)"
  shows "\<exists>log. trace env s0 log s1 \<and> (\<forall>x \<in> set log. onlyClears zone existing (fst x) \<and> accepted (snd x))
    \<and> (\<forall>rr \<in> snd ` set existing. commentsOf rr \<noteq> [] \<longrightarrow>
         (\<exists>x \<in> set log. \<exists>ws. fst x = PatchReq (zone_path zone) ws \<and> clearWire (zr_name rr) (zr_type rr) \<in> set ws))"
proof -
  let ?cs = "chunkRRSets (clearsOf existing)"
  obtain applied where "applyChunks env s0 zone ?cs = (s1, applied, None)"
    using assms by (auto simp: clearZoneComments_read split: prod.splits)
  from applyChunks_accepted [OF this] obtain as where as: "length as = length ?cs" "list_all accepted as"
    "trace env s0 (zip (map (\<lambda>c. patchOf zone (ch_rrsets c)) ?cs) as) s1" (is "trace _ _ ?log _")
    by (auto dest: chunk_nonempty)
  have sub: "set (ch_rrsets c) \<subseteq> set (clearsOf existing)" if "c \<in> set ?cs" for c
    using that chunk_members [of "clearsOf existing"] by blast
  then have nc: "\<not> deletesAndReplaces (ch_rrsets c)"
    "withClears (sortRRSets (ch_rrsets c)) = sortRRSets (ch_rrsets c)" if "c \<in> set ?cs" for c
    using withClears_replaces [of "ch_rrsets c"] clearsOf_replace that by blast+
  have "onlyClears zone existing (fst x) \<and> accepted (snd x)" if "x \<in> set ?log" for x
  proof -
    from that obtain i where i: "i < length ?cs" "x = (patchOf zone (ch_rrsets (?cs ! i)), as ! i)"
      by (auto simp: set_zip)
    define c where "c = ?cs ! i"
    have "c \<in> set ?cs" "fst x = patchOf zone (ch_rrsets c)" "snd x \<in> set as"
      using i as(1) by (simp_all add: c_def)
    moreover from this sub nc have "within zone (set (clearsOf existing)) x"
      unfolding within_def by blast
    ultimately show ?thesis using as(2) by (auto simp: list_all_iff dest: within_clears)
  qed
  moreover have "\<exists>x \<in> set ?log. \<exists>ws. fst x = PatchReq (zone_path zone) ws \<and> clearWire (zr_name rr) (zr_type rr) \<in> set ws"
    if "rr \<in> snd ` set existing" "commentsOf rr \<noteq> []" for rr
  proof -
    have "commentsOnlyReplace (zr_name rr) (zr_type rr) \<in> set (clearsOf existing)"
      using that by (force simp: clearsOf_def)
    then obtain c where c: "c \<in> set ?cs" "commentsOnlyReplace (zr_name rr) (zr_type rr) \<in> set (ch_rrsets c)"
      using chunk_members [of "clearsOf existing"] by blast
    then have "clearWire (zr_name rr) (zr_type rr) \<in> set (map marshalRRSet (withClears (sortRRSets (ch_rrsets c))))"
      using nc(2) [OF c(1)] by (auto simp flip: marshal_commentsOnly)
    moreover obtain i where "i < length ?cs" "?cs ! i = c" using c(1) by (auto simp: in_set_conv_nth)
    then have "(patchOf zone (ch_rrsets c), as ! i) \<in> set ?log"
      using as(1) by (auto simp: set_zip intro!: exI [of _ i])
    ultimately show ?thesis by (force simp: patchOf_def)
  qed
  ultimately show ?thesis using as(3) by blast
qed

section \<open>Properties\<close>

text \<open>A server for the witnesses: it logs requests, accepts them all and serves one zone.\<close>

definition serving_env :: "zoneRRset list \<Rightarrow> pdns_request list pdns_env" where
  "serving_env zone = \<lparr>send = (\<lambda>log r. (log @ [r], Inr \<lparr>resp_status = 200, resp_body = []\<rparr>)),
     decodeError = (\<lambda>_. None), decodeZone = (\<lambda>_. Inr zone), decodeZoneName = Inr\<rparr>"

lemma serving_env_read:
  "getPDNSZoneRRSets (serving_env zone) log name = (log @ [GetZoneReq (zone_path name)], Inr (indexRRSets zone))"
  by (simp add: getPDNSZoneRRSets_def serving_env_def)

definition aMeta :: "string \<Rightarrow> ObjectMeta" where
  "aMeta name = \<lparr>m_namespace = ''ns'', m_name = name, m_uid = ''u1'', m_generation = 1, m_created = 0,
     m_deleted = None, m_finalizers = [], m_labels = [], m_annotations = [], m_ownerRefs = []\<rparr>"

definition aZone :: DNSZone where
  "aZone = \<lparr>z_meta = aMeta ''z'', z_domainName = ''example.com'', z_className = ''pdns'',
     z_visibility = VisibilityPublic, z_nameservers = [], z_recordCount = 0, z_conditions = [], z_domainRef = None\<rparr>"

definition aHeldRRset :: zoneRRset where
  "aHeldRRset = \<lparr>zr_name = ''www.example.com.'', zr_type = ''A'', zr_ttl = 300,
     zr_records = [mkRecord ''192.0.2.1''], zr_comments = Some (ownerComments ''ns:web'' 1 ''u1'')\<rparr>"

text \<open>Without the zone read nothing is deleted, unless the zone is not there.\<close>

lemma DeleteZone_unread:
  assumes "DeleteZone env s zone = (s', e)" and "z_domainName zone \<noteq> []"
    and "getPDNSZoneRRSets env s (z_domainName zone) = (s0, Inl failure)"
  shows "if isZoneNotFound failure then \<exists>a. send env s0 (DeleteReq (zone_path (z_domainName zone))) = (s', a)
    else s' = s0 \<and> e \<noteq> None"
  using assms by (auto simp: DeleteZone_def clearZoneComments_def split: prod.splits sum.splits if_splits)

lemma DeleteZone_run:
  assumes "DeleteZone env s zone = (s', e)" and "z_domainName zone \<noteq> []"
    and "getPDNSZoneRRSets env s (z_domainName zone) = (s0, Inr existing)"
  shows "\<exists>log s1. trace env s0 log s1
    \<and> (\<forall>x \<in> set log. onlyClears (z_domainName zone) existing (fst x))
    \<and> (s' = s1 \<and> e \<noteq> None
       \<or> (\<exists>a. send env s1 (DeleteReq (zone_path (z_domainName zone))) = (s', a))
         \<and> (\<forall>rr \<in> snd ` set existing. commentsOf rr \<noteq> [] \<longrightarrow>
              (\<exists>x \<in> set log. accepted (snd x) \<and> (\<exists>ws. fst x = PatchReq (zone_path (z_domainName zone)) ws
                 \<and> clearWire (zr_name rr) (zr_type rr) \<in> set ws))))"
proof -
  obtain s1 e1 where c: "clearZoneComments env s (z_domainName zone) = (s1, e1)" by fastforce
  show ?thesis
  proof (cases e1)
    case (Some er)
    then have "s' = s1 \<and> e \<noteq> None" using assms(1,2) c by (auto simp: DeleteZone_def)
    with clearZoneComments_within [OF assms(3) c] show ?thesis by blast
  next
    case None
    then have "\<exists>a. send env s1 (DeleteReq (zone_path (z_domainName zone))) = (s', a)"
      using assms(1,2) c by (auto simp: DeleteZone_def split: prod.splits sum.splits if_splits)
    moreover from clearZoneComments_done [OF assms(3) c [unfolded None]]
    obtain log where "trace env s0 log s1"
      "\<forall>x \<in> set log. onlyClears (z_domainName zone) existing (fst x) \<and> accepted (snd x)"
      "\<forall>rr \<in> snd ` set existing. commentsOf rr \<noteq> [] \<longrightarrow> (\<exists>x \<in> set log. \<exists>ws.
         fst x = PatchReq (zone_path (z_domainName zone)) ws \<and> clearWire (zr_name rr) (zr_type rr) \<in> set ws)"
      by blast
    ultimately show ?thesis by (intro exI [of _ log] exI [of _ s1]) fast
  qed
qed

text \<open>
  C22: Deleting a zone clears its comments first. The call begins with a read of the zone. When the read
  fails, the call returns an error and sends nothing more, unless the zone is not there: then there is
  nothing to clear. When it succeeds, the client sends only patches that clear the comments of RRsets
  in that read (no TTL, no records on the wire); the DELETE of the zone is sent only once every RRset that
  carried a comment has been cleared by a patch PowerDNS accepted, and otherwise the call returns an
  error and leaves the zone.
\<close>

theorem DeleteZone_clears_first:
  assumes "DeleteZone env s zone = (s', e)" and "z_domainName zone \<noteq> []"
  shows "case getPDNSZoneRRSets env s (z_domainName zone) of
      (s0, Inl failure) \<Rightarrow>
        if isZoneNotFound failure then \<exists>a. send env s0 (DeleteReq (zone_path (z_domainName zone))) = (s', a)
        else s' = s0 \<and> e \<noteq> None
    | (s0, Inr existing) \<Rightarrow> \<exists>log s1. trace env s0 log s1
        \<and> (\<forall>x \<in> set log. onlyClears (z_domainName zone) existing (fst x))
        \<and> (s' = s1 \<and> e \<noteq> None
           \<or> (\<exists>a. send env s1 (DeleteReq (zone_path (z_domainName zone))) = (s', a))
             \<and> (\<forall>rr \<in> snd ` set existing. commentsOf rr \<noteq> [] \<longrightarrow>
                  (\<exists>x \<in> set log. accepted (snd x) \<and> (\<exists>ws. fst x = PatchReq (zone_path (z_domainName zone)) ws
                     \<and> clearWire (zr_name rr) (zr_type rr) \<in> set ws))))"
  using DeleteZone_unread [OF assms] DeleteZone_run [OF assms] by (auto split: prod.splits sum.splits)

theorem DeleteZone_clears_first_witness:
  "fst (DeleteZone (serving_env [aHeldRRset]) [] aZone) =
     [GetZoneReq ''example.com.'', PatchReq ''example.com.'' [clearWire ''www.example.com.'' ''A''],
      DeleteReq ''example.com.'']
   \<and> (\<exists>log s1. trace (serving_env [aHeldRRset]) [GetZoneReq ''example.com.''] log s1
        \<and> (\<forall>x \<in> set log. onlyClears ''example.com'' (indexRRSets [aHeldRRset]) (fst x)))"
proof
  show "fst (DeleteZone (serving_env [aHeldRRset]) [] aZone) =
     [GetZoneReq ''example.com.'', PatchReq ''example.com.'' [clearWire ''www.example.com.'' ''A''],
      DeleteReq ''example.com.'']" by code_simp
  obtain s' e where "DeleteZone (serving_env [aHeldRRset]) [] aZone = (s', e)" by fastforce
  from DeleteZone_clears_first [OF this] serving_env_read
  show "\<exists>log s1. trace (serving_env [aHeldRRset]) [GetZoneReq ''example.com.''] log s1
        \<and> (\<forall>x \<in> set log. onlyClears ''example.com'' (indexRRSets [aHeldRRset]) (fst x))"
    by (auto simp: aZone_def zone_path_def)
qed

text \<open>
  EnsureZone creates a zone exactly when PowerDNS does not know it: it reads the zone once,
  and sends one creation, of the absolute zone name and the class's nameservers as absolute names,
  if and only if the read says the zone is not found; any other read error is returned as it is.
\<close>

theorem EnsureZone_creates_missing:
  assumes "EnsureZone env s zone class = (s', e)"
  shows "\<exists>s1 a found. send env s (GetZoneReq (zone_path (z_domainName zone))) = (s1, a)
    \<and> GetZone env s (z_domainName zone) = (s1, found)
    \<and> (case found of
         Inr name \<Rightarrow> s' = s1 \<and> e = None
       | Inl er \<Rightarrow>
           if isZoneNotFound er then
             (\<exists>b nss. send env s1 (CreateReq \<lparr>cz_name = z_domainName zone @ ''.'', cz_kind = ''Native'',
                 cz_nameservers = nss\<rparr>) = (s', b)
               \<and> list_all (\<lambda>ns. last ns = CHR ''.'') nss
               \<and> map (\<lambda>ns. TrimSuffix ns ''.'') nss
                 = map (\<lambda>ns. TrimSuffix ns ''.'') (filter (\<lambda>ns. ns \<noteq> []) (ClassNameservers class)))
           else s' = s1 \<and> e = Some er)"
proof -
  obtain s1 a where a: "send env s (GetZoneReq (zone_path (z_domainName zone))) = (s1, a)" by fastforce
  then have "fst (GetZone env s (z_domainName zone)) = s1" by (simp add: GetZone_def split: sum.split)
  then obtain found where f: "GetZone env s (z_domainName zone) = (s1, found)" by (metis prod.collapse)
  let ?ns = "filter (\<lambda>ns. ns \<noteq> []) (ClassNameservers class)"
  define nss where "nss = map (\<lambda>ns. if last ns \<noteq> CHR ''.'' then ns @ ''.'' else ns) ?ns"
  have "case found of
         Inr name \<Rightarrow> s' = s1 \<and> e = None
       | Inl er \<Rightarrow> if isZoneNotFound er then
             (\<exists>b. send env s1 (CreateReq \<lparr>cz_name = z_domainName zone @ ''.'', cz_kind = ''Native'',
                 cz_nameservers = nss\<rparr>) = (s', b))
           else s' = s1 \<and> e = Some er"
    using assms f
    by (auto simp: nss_def EnsureZone_def CreateZone_def GetZoneNameservers_def Let_def
        split: sum.splits prod.splits if_splits)
  moreover have "list_all (\<lambda>ns. last ns = CHR ''.'') nss" by (auto simp: nss_def list_all_iff)
  moreover have "map (\<lambda>ns. TrimSuffix ns ''.'') nss = map (\<lambda>ns. TrimSuffix ns ''.'') ?ns"
    by (auto simp: nss_def TrimSuffix_def HasSuffix_last)
  ultimately show ?thesis using a f
    by (intro exI [of _ s1] exI [of _ a] exI [of _ found] conjI) (simp_all split: sum.splits if_splits, blast)
qed

definition missing_env :: "pdns_request list pdns_env" where
  "missing_env = \<lparr>send = (\<lambda>log r. (log @ [r],
       Inr \<lparr>resp_status = (case r of GetZoneReq z \<Rightarrow> 404 | _ \<Rightarrow> 201), resp_body = []\<rparr>)),
     decodeError = (\<lambda>_. None), decodeZone = (\<lambda>_. Inr []), decodeZoneName = Inr\<rparr>"

definition aClass :: DNSZoneClass where
  "aClass = \<lparr>zc_name = ''pdns'', zc_controllerName = ''powerdns'',
     zc_policy = Some \<lparr>np_mode = ''Static'', np_static = Some [''ns2.example.net'', ''ns1.example.net.'']\<rparr>\<rparr>"

theorem EnsureZone_creates_missing_witness:
  "\<exists>s'. EnsureZone missing_env [] aZone aClass = (s', None)
     \<and> s' = [GetZoneReq ''example.com.'', CreateReq \<lparr>cz_name = ''example.com.'', cz_kind = ''Native'',
         cz_nameservers = [''ns1.example.net.'', ''ns2.example.net.'']\<rparr>]
     \<and> (\<exists>s1 a. send missing_env [] (GetZoneReq (zone_path ''example.com'')) = (s1, a))"
proof -
  have r: "EnsureZone missing_env [] aZone aClass =
    ([GetZoneReq ''example.com.'', CreateReq \<lparr>cz_name = ''example.com.'', cz_kind = ''Native'',
         cz_nameservers = [''ns1.example.net.'', ''ns2.example.net.'']\<rparr>], None)" by code_simp
  from EnsureZone_creates_missing [OF this] r show ?thesis by (auto simp: aZone_def)
qed

end
