(* ===== verification/Pdns_RecordSet.thy ===== *)
theory Pdns_RecordSet
  imports Pdns_Zone
begin

text \<open>
  The reconcile of one record set on PowerDNS (\<^verbatim>\<open>internal/dns/pdns/client.go\<close>):
  \<^verbatim>\<open>EnsureRecordSet\<close>, \<^verbatim>\<open>DeleteRecordSet\<close> and what they are made of. The clock
  readings of one call are the arguments \<open>now\<close> (Unix seconds) and \<open>today\<close>; \<open>findCond\<close> stands for
  \<^verbatim>\<open>meta.FindStatusCondition\<close> of apimachinery. Log lines are left out; the counter of
  pruned records is the list of the types counted.
\<close>

section \<open>Definitions\<close>

subsection \<open>Statuses\<close>

definition CondProgrammed :: string where "CondProgrammed = ''Programmed''"
definition ReasonProgrammed :: string where "ReasonProgrammed = ''Programmed''"
definition ReasonPDNSError :: string where "ReasonPDNSError = ''PDNSError''"
definition ReasonConflict :: string where "ReasonConflict = ''Conflict''"

lemmas status_word_defs = CondProgrammed_def ReasonProgrammed_def ReasonPDNSError_def ReasonConflict_def

definition makeProgrammedStatus ::
  "int \<Rightarrow> string \<Rightarrow> ConditionStatus \<Rightarrow> string \<Rightarrow> string \<Rightarrow> RecordSetStatus" where
  "makeProgrammedStatus now owner status reason message =
     \<lparr>st_name = owner,
      st_conditions = [\<lparr>c_type = CondProgrammed, c_status = status, c_reason = reason,
        c_message = message, c_generation = 0, c_transition = now\<rparr>]\<rparr>"

definition recordSetErrorStatus :: "int \<Rightarrow> string \<Rightarrow> go_error \<Rightarrow> RecordSetStatus" where
  "recordSetErrorStatus now owner e =
     makeProgrammedStatus now owner ConditionFalse ReasonPDNSError (error_text e)"

definition recordSetCreatedStatus :: "int \<Rightarrow> string \<Rightarrow> RecordSetStatus" where
  "recordSetCreatedStatus now owner =
     makeProgrammedStatus now owner ConditionTrue ReasonProgrammed ''Record set successfully created''"

fun recordSetSuccessStatus :: "int \<Rightarrow> string \<Rightarrow> RecordSetStatus list \<Rightarrow> RecordSetStatus" where
  "recordSetSuccessStatus now owner [] = recordSetCreatedStatus now owner"
| "recordSetSuccessStatus now owner (curStatus # rest) =
     (if st_name curStatus \<noteq> owner then recordSetSuccessStatus now owner rest
      else if st_conditions curStatus = [] \<or> c_status (hd (st_conditions curStatus)) \<noteq> ConditionTrue
        then recordSetCreatedStatus now owner
      else curStatus)"

definition keepTransitionTime :: "Condition \<Rightarrow> Condition \<Rightarrow> Condition" where
  "keepTransitionTime prev cond =
     (if c_type cond = c_type prev \<and> c_status cond = c_status prev
      then cond\<lparr>c_transition := c_transition prev\<rparr> else cond)"

definition keepTransitionTimes ::
  "(Condition list \<Rightarrow> string \<Rightarrow> Condition option) \<Rightarrow> RecordSetStatus list \<Rightarrow> RecordSetStatus list \<Rightarrow>
     RecordSetStatus list" where
  "keepTransitionTimes findCond statuses previous =
     (let before = foldl (\<lambda>m st. case findCond (st_conditions st) CondProgrammed of
                            Some cond \<Rightarrow> m(st_name st \<mapsto> cond) | None \<Rightarrow> m) Map.empty previous
      in map (\<lambda>st. case before (st_name st) of
                None \<Rightarrow> st
              | Some prev \<Rightarrow> st\<lparr>st_conditions := map (keepTransitionTime prev) (st_conditions st)\<rparr>) statuses)"

subsection \<open>Ownership of an RRset\<close>

definition recordSetOwnerRef :: "DNSRecordSet \<Rightarrow> string" where
  "recordSetOwnerRef recordSet = m_namespace (rs_meta recordSet) @ '':'' @ m_name (rs_meta recordSet)"

definition rrsetOwnerRef :: "zoneRRset \<Rightarrow> string" where
  "rrsetOwnerRef rr =
     (case find (\<lambda>c. cm_account c = ACCOUNT_OWNER) (commentsOf rr) of
        Some c \<Rightarrow> cm_content c | None \<Rightarrow> [])"

text \<open>The generation and UID the comments of an RRset record, the last of each winning.\<close>

definition observe :: "int \<times> string \<Rightarrow> zoneRRsetComment \<Rightarrow> int \<times> string" where
  "observe seen comment =
     (if cm_account comment = ACCOUNT_OBSERVED_GENERATION then
        (case ParseInt64 (cm_content comment) of Some g \<Rightarrow> (g, snd seen) | None \<Rightarrow> seen)
      else if cm_account comment = ACCOUNT_OBJECT_UID then (fst seen, cm_content comment)
      else seen)"

definition rrsetMatchesObject :: "zoneRRset \<Rightarrow> DNSRecordSet \<Rightarrow> bool" where
  "rrsetMatchesObject current recordSet =
     (case zr_comments current of None \<Rightarrow> False
      | Some comments \<Rightarrow>
          (case foldl observe (0, []) comments of (currentGeneration, currentUID) \<Rightarrow>
             currentGeneration = m_generation (rs_meta recordSet) \<and> currentUID = m_uid (rs_meta recordSet)))"

definition ownedSurplus :: "zone_map \<Rightarrow> string \<Rightarrow> string \<Rightarrow> string list \<Rightarrow> rrsetKey list" where
  "ownedSurplus existing ownerRef recordType wanted =
     map fst (filter (\<lambda>(key, current). rrsetOwnerRef current = ownerRef
                        \<and> \<not> (k_name key \<in> set wanted \<and> k_typ key = recordType)) existing)"

definition holder :: "rrsetKey \<times> zoneRRset \<Rightarrow> string" where
  "holder kr =
     (let ref = rrsetOwnerRef (snd kr) in
      if ref \<noteq> [] then k_typ (fst kr) @ '' record of DNSRecordSet '' @ after_last (CHR '':'') ref
      else k_typ (fst kr) @ '' record'')"

definition recordSetRefusedStatus ::
  "int \<Rightarrow> string \<Rightarrow> string \<Rightarrow> string \<Rightarrow> string \<Rightarrow> zone_map \<Rightarrow> RecordSetStatus" where
  "recordSetRefusedStatus now owner qualified recordType ownerRef existing =
     (let name = stripTrailingDot qualified;
          holders = sort_strings (map holder (filter (\<lambda>(key, rr).
             EqualFold (k_name key) qualified \<and> \<not> EqualFold (k_typ key) recordType
             \<and> rrsetOwnerRef rr \<noteq> ownerRef) existing));
          held = (if holders \<noteq> [] then ''the '' @ Join holders '' and the '' else ''another record'');
          message = name @ '' cannot be published because '' @ held
            @ '' already holds the name. It will be published once that record is removed.''
      in makeProgrammedStatus now owner ConditionFalse ReasonConflict message)"

subsection \<open>Reconciling a record set\<close>

definition pairChange :: "rrset list list \<times> rrset list \<Rightarrow> (string \<Rightarrow> nat option) \<Rightarrow> rrset \<Rightarrow> rrset list list \<times> rrset list" where
  "pairChange acc at rr =
     (case at (rr_name rr) of
        None \<Rightarrow> (fst acc, snd acc @ [rr])
      | Some i \<Rightarrow> ((fst acc)[i := fst acc ! i @ [rr]], snd acc))"

definition pairDeletes :: "rrset list \<Rightarrow> rrset list \<Rightarrow> rrset list list \<times> rrset list" where
  "pairDeletes replaces deletes =
     (let changes = map (\<lambda>rr. [rr]) replaces;
          at = map_of (rev (zip (map rr_name replaces) [0..<length replaces]))
      in foldl (\<lambda>acc rr. pairChange acc at rr) (changes, []) deletes)"

definition notePrunes :: "DNSRecordSet \<Rightarrow> rrset list \<Rightarrow> string list" where
  "notePrunes recordSet applied =
     map rr_type (filter (\<lambda>rr. \<not> (rr_changeType rr \<noteq> changeTypeDelete \<or> rr_type rr = rs_recordType recordSet)) applied)"

text \<open>What the loop over owner names has gathered: the statuses, the qualified names wanted, the
  changes, and for each change the status it decides.\<close>

record owner_loop =
  ol_status :: "RecordSetStatus list"
  ol_desired :: "string list"
  ol_replaces :: "rrset list"
  ol_replacedStatus :: "nat list"

definition ensureOwner ::
  "int \<Rightarrow> string \<Rightarrow> string \<Rightarrow> DNSRecordSet \<Rightarrow> zone_map \<Rightarrow> (string \<times> RecordEntry list) list \<Rightarrow> owner_loop \<Rightarrow> string \<Rightarrow>
     owner_loop" where
  "ensureOwner now today zoneName recordSet existing rrsetMap st owner =
     (let entries = (case map_of rrsetMap owner of Some es \<Rightarrow> es | None \<Rightarrow> []) in
      case BuildOwnerRRSet today zoneName (rs_recordType recordSet) owner entries of
        None \<Rightarrow> st\<lparr>ol_status := ol_status st @ [recordSetErrorStatus now owner
                   (PlainError (''failed to build owner RRSet for owner '' @ owner))]\<rparr>
      | Some ownerRRSet \<Rightarrow>
          let qualified = Qualify owner zoneName;
              st = st\<lparr>ol_desired := qualified # ol_desired st\<rparr>;
              current = map_of existing \<lparr>k_name = qualified, k_typ = rs_recordType recordSet\<rparr> in
          if (case current of Some rr \<Rightarrow> rrsetMatchesObject rr recordSet | None \<Rightarrow> False) then
            st\<lparr>ol_status := ol_status st @ [recordSetSuccessStatus now owner (rs_recordSets recordSet)]\<rparr>
          else
            let values = (case current of
                  Some rr \<Rightarrow> if rs_recordType recordSet = RRTypeSOA
                    then keepSOASerialRising (or_records ownerRRSet) rr else or_records ownerRRSet
                | None \<Rightarrow> or_records ownerRRSet);
                change = buildReplaceRRSet now zoneName (rs_recordType recordSet) owner (or_ttl ownerRRSet)
                  values (recordSetOwnerRef recordSet) (m_generation (rs_meta recordSet))
                  (m_uid (rs_meta recordSet)) (case current of Some rr \<Rightarrow> zr_comments rr | None \<Rightarrow> None)
            in st\<lparr>ol_replaces := ol_replaces st @ [change],
                  ol_status := ol_status st @ [recordSetCreatedStatus now owner],
                  ol_replacedStatus := ol_replacedStatus st @ [length (ol_status st)]\<rparr>)"

definition emptyLoop :: owner_loop where
  "emptyLoop = \<lparr>ol_status = [], ol_desired = [], ol_replaces = [], ol_replacedStatus = []\<rparr>"

definition ensureOwners :: "int \<Rightarrow> string \<Rightarrow> string \<Rightarrow> DNSRecordSet \<Rightarrow> zone_map \<Rightarrow> owner_loop" where
  "ensureOwners now today zoneName recordSet existing =
     (let rrsetMap = group_by re_name (rs_records recordSet);
          owners = sort_strings (map fst rrsetMap)
      in foldl (ensureOwner now today zoneName recordSet existing rrsetMap) emptyLoop owners)"

text \<open>Of the errors that are returned, the identity of an error value is the chunk whose patch
  gave it: the chunks of one call fail with distinct values.\<close>

record ensure_state =
  es_status :: "RecordSetStatus list"
  es_transient :: "(nat \<times> go_error) list"
  es_pruned :: "string list"

definition noteOutcome ::
  "error_decoder \<Rightarrow> int \<Rightarrow> string \<Rightarrow> DNSRecordSet \<Rightarrow> zone_map \<Rightarrow> rrset list list \<Rightarrow> nat list \<Rightarrow> rrsetChunk \<Rightarrow>
     err list \<Rightarrow> ensure_state \<Rightarrow> nat \<Rightarrow> ensure_state" where
  "noteOutcome decode now zoneName recordSet existing changes replacedStatus chunk errs st i =
     (case errs ! i of
        None \<Rightarrow> st\<lparr>es_pruned := es_pruned st @ notePrunes recordSet (changes ! (ch_start chunk + i))\<rparr>
      | Some e \<Rightarrow>
          let idx = replacedStatus ! (ch_start chunk + i);
              owner = st_name (es_status st ! idx);
              st = (if IsTransient (Some e)
                       \<and> (es_transient st = [] \<or> last (es_transient st) \<noteq> (ch_start chunk, e))
                    then st\<lparr>es_transient := es_transient st @ [(ch_start chunk, e)]\<rparr> else st);
              status = (if refuses decode (Some e) (patchIdentity (ch_rrsets chunk ! i))
                        then recordSetRefusedStatus now owner (Qualify owner zoneName)
                          (rs_recordType recordSet) (recordSetOwnerRef recordSet) existing
                        else recordSetErrorStatus now owner e)
          in st\<lparr>es_status := (es_status st)[idx := status]\<rparr>)"

fun replaceChunks ::
  "'s pdns_env \<Rightarrow> 's \<Rightarrow> int \<Rightarrow> string \<Rightarrow> DNSRecordSet \<Rightarrow> zone_map \<Rightarrow> rrset list list \<Rightarrow> nat list \<Rightarrow> ensure_state \<Rightarrow>
     rrsetChunk list \<Rightarrow> 's \<times> ensure_state" where
  "replaceChunks env s now zoneName recordSet existing changes replacedStatus st [] = (s, st)"
| "replaceChunks env s now zoneName recordSet existing changes replacedStatus st (chunk # rest) =
     (case applyIsolatingRefusals env s zoneName (slice changes (ch_start chunk) (ch_end chunk)) of
        (s', errs) \<Rightarrow>
          replaceChunks env s' now zoneName recordSet existing changes replacedStatus
            (foldl (noteOutcome (decodeError env) now zoneName recordSet existing changes replacedStatus chunk errs)
               st [0..<length errs]) rest)"

fun deleteChunks ::
  "'s pdns_env \<Rightarrow> 's \<Rightarrow> string \<Rightarrow> DNSRecordSet \<Rightarrow> ensure_state \<Rightarrow> rrsetChunk list \<Rightarrow> 's \<times> ensure_state" where
  "deleteChunks env s zoneName recordSet st [] = (s, st)"
| "deleteChunks env s zoneName recordSet st (chunk # rest) =
     (case applyRRSetPatch env s zoneName (ch_rrsets chunk) of
        (s', Some e) \<Rightarrow> deleteChunks env s' zoneName recordSet st rest
      | (s', None) \<Rightarrow> deleteChunks env s' zoneName recordSet
           (st\<lparr>es_pruned := es_pruned st @ notePrunes recordSet (ch_rrsets chunk)\<rparr>) rest)"

record ensure_result =
  er_statuses :: "RecordSetStatus list"
  er_pruned :: "string list"
  er_err :: err

definition surplusDeletes :: "zone_map \<Rightarrow> DNSRecordSet \<Rightarrow> string list \<Rightarrow> rrset list" where
  "surplusDeletes existing recordSet desired =
     map (\<lambda>key. newDeleteRRSet (k_name key) (k_typ key))
       (ownedSurplus existing (recordSetOwnerRef recordSet) (rs_recordType recordSet) desired)"

text \<open>What \<^verbatim>\<open>EnsureRecordSet\<close> does once the zone has been read.\<close>

definition ensureRead ::
  "'s pdns_env \<Rightarrow> 's \<Rightarrow> (Condition list \<Rightarrow> string \<Rightarrow> Condition option) \<Rightarrow> int \<Rightarrow> string \<Rightarrow> string \<Rightarrow> DNSRecordSet \<Rightarrow>
     zone_map \<Rightarrow> 's \<times> ensure_result" where
  "ensureRead env s findCond now today zoneName recordSet existing =
     (let ol = ensureOwners now today zoneName recordSet existing;
          (changes, deletes) = pairDeletes (ol_replaces ol) (surplusDeletes existing recordSet (ol_desired ol));
          deletes = sortRRSets deletes;
          (s1, st) = replaceChunks env s now zoneName recordSet existing changes (ol_replacedStatus ol)
             \<lparr>es_status = ol_status ol, es_transient = [], es_pruned = []\<rparr> (chunkRRSets (ol_replaces ol));
          (s2, st) = deleteChunks env s1 zoneName recordSet st (chunkRRSets deletes)
      in (s2, \<lparr>er_statuses = keepTransitionTimes findCond (es_status st) (rs_recordSets recordSet),
               er_pruned = es_pruned st, er_err = errors_Join (map snd (es_transient st))\<rparr>))"

definition EnsureRecordSet ::
  "'s pdns_env \<Rightarrow> 's \<Rightarrow> (Condition list \<Rightarrow> string \<Rightarrow> Condition option) \<Rightarrow> int \<Rightarrow> string \<Rightarrow> DNSZone \<Rightarrow> DNSRecordSet \<Rightarrow>
     's \<times> ensure_result" where
  "EnsureRecordSet env s findCond now today zone recordSet =
     (case getPDNSZoneRRSets env s (z_domainName zone) of
        (s', Inl e) \<Rightarrow> (s', \<lparr>er_statuses = [], er_pruned = [], er_err = Some e\<rparr>)
      | (s', Inr existing) \<Rightarrow> ensureRead env s' findCond now today (z_domainName zone) recordSet existing)"

definition deletable :: "zone_map \<Rightarrow> string \<Rightarrow> rrsetKey \<Rightarrow> bool" where
  "deletable existing ownerRef key =
     (case map_of existing key of None \<Rightarrow> False
      | Some current \<Rightarrow> \<not> (rrsetOwnerRef current \<noteq> [] \<and> rrsetOwnerRef current \<noteq> ownerRef))"

definition deleteTargets :: "string \<Rightarrow> DNSRecordSet \<Rightarrow> zone_map \<Rightarrow> rrsetKey list" where
  "deleteTargets zoneName recordSet existing =
     (let declared = map (\<lambda>rec. \<lparr>k_name = Qualify (re_name rec) zoneName, k_typ = rs_recordType recordSet\<rparr>)
            (rs_records recordSet);
          ownerRef = recordSetOwnerRef recordSet
      in first_seen id [] (filter (deletable existing ownerRef) declared
           @ ownedSurplus existing ownerRef (rs_recordType recordSet) []))"

definition DeleteRecordSet ::
  "'s pdns_env \<Rightarrow> 's \<Rightarrow> DNSZone \<Rightarrow> DNSRecordSet \<Rightarrow> 's \<times> string list \<times> err" where
  "DeleteRecordSet env s zone recordSet =
     (let zoneName = z_domainName zone in
      case getPDNSZoneRRSets env s zoneName of
        (s', Inl e) \<Rightarrow> if isZoneNotFound e then (s', [], None) else (s', [], Some e)
      | (s', Inr existing) \<Rightarrow>
          let deletes = sortRRSets (map (\<lambda>key. newDeleteRRSet (k_name key) (k_typ key))
                (deleteTargets zoneName recordSet existing))
          in case applyChunks env s' zoneName (chunkRRSets deletes) of
               (s'', applied, e) \<Rightarrow> (s'', concat (map (notePrunes recordSet \<circ> ch_rrsets) applied), e))"

subsection \<open>Single RRsets and whole types\<close>

definition authoritativeChanges :: "string \<Rightarrow> string \<Rightarrow> DNSRecordSet \<Rightarrow> zoneRRset list \<Rightarrow> rrset list" where
  "authoritativeChanges today zone rs existing =
     (let desired = map (\<lambda>rr. rr\<lparr>rr_changeType := (if rr_records rr = [] then ''DELETE'' else ''REPLACE'')\<rparr>)
            (filter (\<lambda>rr. rr_type rr = rs_recordType rs) (buildRRSets today zone (rs_recordType rs) (rs_records rs)));
          deletes = map (\<lambda>ex. \<lparr>rr_name = zr_name ex, rr_type = zr_type ex, rr_ttl = 0,
              rr_changeType = ''DELETE'', rr_records = [], rr_comments = None, rr_commentsOnly = False\<rparr>)
            (filter (\<lambda>ex. zr_type ex = rs_recordType rs \<and> zr_name ex \<notin> set (map rr_name desired)) existing)
      in desired @ deletes)"

definition ApplyRecordSetAuthoritative :: "'s pdns_env \<Rightarrow> 's \<Rightarrow> string \<Rightarrow> string \<Rightarrow> DNSRecordSet \<Rightarrow> 's \<times> err" where
  "ApplyRecordSetAuthoritative env s today zone rs =
     (case GetZoneRRSets env s zone of
        (s', Inl e) \<Rightarrow> (s', Some e)
      | (s', Inr existing) \<Rightarrow> applyRRSetPatch env s' zone (authoritativeChanges today zone rs existing))"

definition ReplaceRRSet ::
  "'s pdns_env \<Rightarrow> 's \<Rightarrow> int \<Rightarrow> string \<Rightarrow> string \<Rightarrow> string \<Rightarrow> int \<Rightarrow> string list \<Rightarrow> string \<Rightarrow> int \<Rightarrow> string \<Rightarrow> 's \<times> err" where
  "ReplaceRRSet env s now zone recordType ownerName ttl values ownerRef observedGeneration objectUID =
     applyRRSetPatch env s zone [buildReplaceRRSet now zone recordType ownerName ttl values ownerRef
       observedGeneration objectUID None]"

definition DeleteRRSet :: "'s pdns_env \<Rightarrow> 's \<Rightarrow> string \<Rightarrow> string \<Rightarrow> string \<Rightarrow> 's \<times> err" where
  "DeleteRRSet env s zone recordType ownerName =
     applyRRSetPatch env s zone [newDeleteRRSet (Qualify ownerName zone) recordType]"

section \<open>The plan of a reconcile\<close>

text \<open>What the zone read holds for an owner name, whether that is already this object's, and the
  change that makes it so.\<close>

definition heldAt :: "string \<Rightarrow> DNSRecordSet \<Rightarrow> zone_map \<Rightarrow> string \<Rightarrow> zoneRRset option" where
  "heldAt zone rs existing owner = map_of existing \<lparr>k_name = Qualify owner zone, k_typ = rs_recordType rs\<rparr>"

definition upToDate :: "string \<Rightarrow> DNSRecordSet \<Rightarrow> zone_map \<Rightarrow> string \<Rightarrow> bool" where
  "upToDate zone rs existing owner =
     (case heldAt zone rs existing owner of Some rr \<Rightarrow> rrsetMatchesObject rr rs | None \<Rightarrow> False)"

definition entriesOf :: "DNSRecordSet \<Rightarrow> string \<Rightarrow> RecordEntry list" where
  "entriesOf rs owner = filter (\<lambda>e. re_name e = owner) (rs_records rs)"

definition valuesOf :: "string \<Rightarrow> string \<Rightarrow> DNSRecordSet \<Rightarrow> zone_map \<Rightarrow> string \<Rightarrow> string list" where
  "valuesOf today zone rs existing owner =
     (let values = map rec_content (dedupeRecords (recordsAt today (rs_recordType rs) (entriesOf rs owner))) in
      case heldAt zone rs existing owner of
        Some rr \<Rightarrow> if rs_recordType rs = RRTypeSOA then keepSOASerialRising values rr else values
      | None \<Rightarrow> values)"

definition changeFor :: "int \<Rightarrow> string \<Rightarrow> string \<Rightarrow> DNSRecordSet \<Rightarrow> zone_map \<Rightarrow> string \<Rightarrow> rrset" where
  "changeFor now today zone rs existing owner =
     buildReplaceRRSet now zone (rs_recordType rs) owner (entryTTL (hd (entriesOf rs owner)))
       (valuesOf today zone rs existing owner) (recordSetOwnerRef rs) (m_generation (rs_meta rs))
       (m_uid (rs_meta rs)) (case heldAt zone rs existing owner of Some rr \<Rightarrow> zr_comments rr | None \<Rightarrow> None)"

definition owners :: "DNSRecordSet \<Rightarrow> string list" where
  "owners rs = sort_strings (map fst (group_by re_name (rs_records rs)))"

lemma set_owners [simp]: "set (owners rs) = re_name ` set (rs_records rs)"
  by (simp add: owners_def dom_group_by)

lemma distinct_owners [simp]: "distinct (owners rs)"
  by (simp add: owners_def distinct_group_by)

lemma sorted_owners: "sorted (owners rs)"
  by (simp add: owners_def sorted_sort_strings)

definition stale :: "string \<Rightarrow> DNSRecordSet \<Rightarrow> zone_map \<Rightarrow> string list" where
  "stale zone rs existing = filter (\<lambda>ow. \<not> upToDate zone rs existing ow) (owners rs)"

lemma ensureOwner_eq:
  assumes "owner \<in> re_name ` set (rs_records rs)"
  shows "ensureOwner now today zone rs existing (group_by re_name (rs_records rs)) st owner =
    (let st = st\<lparr>ol_desired := Qualify owner zone # ol_desired st\<rparr> in
     if upToDate zone rs existing owner then
       st\<lparr>ol_status := ol_status st @ [recordSetSuccessStatus now owner (rs_recordSets rs)]\<rparr>
     else st\<lparr>ol_replaces := ol_replaces st @ [changeFor now today zone rs existing owner],
             ol_status := ol_status st @ [recordSetCreatedStatus now owner],
             ol_replacedStatus := ol_replacedStatus st @ [length (ol_status st)]\<rparr>)"
proof -
  have e: "map_of (group_by re_name (rs_records rs)) owner = Some (entriesOf rs owner)"
    using assms by (simp add: map_of_group_by entriesOf_def)
  have "entriesOf rs owner \<noteq> []" using assms by (auto simp: entriesOf_def filter_empty_conv)
  then have b: "BuildOwnerRRSet today zone (rs_recordType rs) owner (entriesOf rs owner) =
      Some \<lparr>or_ttl = entryTTL (hd (entriesOf rs owner)),
            or_records = map rec_content (dedupeRecords (recordsAt today (rs_recordType rs) (entriesOf rs owner)))\<rparr>"
    by (rule BuildOwnerRRSet_Some) (simp add: entriesOf_def)
  show ?thesis
    by (simp add: ensureOwner_def e b Let_def upToDate_def heldAt_def changeFor_def valuesOf_def
        split: option.split)
qed

lemma ensureOwners_fold:
  assumes "set os \<subseteq> re_name ` set (rs_records rs)"
  shows "foldl (ensureOwner now today zone rs existing (group_by re_name (rs_records rs))) st os =
    \<lparr>ol_status = ol_status st @ map (\<lambda>ow. if upToDate zone rs existing ow
        then recordSetSuccessStatus now ow (rs_recordSets rs) else recordSetCreatedStatus now ow) os,
     ol_desired = rev (map (\<lambda>ow. Qualify ow zone) os) @ ol_desired st,
     ol_replaces = ol_replaces st @ map (changeFor now today zone rs existing)
       (filter (\<lambda>ow. \<not> upToDate zone rs existing ow) os),
     ol_replacedStatus = ol_replacedStatus st @ map (\<lambda>i. length (ol_status st) + i)
       (filter (\<lambda>i. \<not> upToDate zone rs existing (os ! i)) [0..<length os])\<rparr>"
  using assms
proof (induction os arbitrary: st)
  case Nil
  then show ?case by simp
next
  case (Cons ow os)
  have shift: "filter P [0..<Suc n] = (if P 0 then [0] else []) @ map Suc (filter (P \<circ> Suc) [0..<n])" for P n
    by (simp add: upt_conv_Cons filter_map flip: map_Suc_upt del: upt_Suc)
  from Cons.prems have ow: "ow \<in> re_name ` set (rs_records rs)" and os: "set os \<subseteq> re_name ` set (rs_records rs)"
    by auto
  show ?case
    by (simp only: foldl_Cons ensureOwner_eq [OF ow] Cons.IH [OF os] length_Cons shift)
      (simp add: Let_def o_def)
qed

lemma ensureOwners_eq:
  "ensureOwners now today zone rs existing =
    \<lparr>ol_status = map (\<lambda>ow. if upToDate zone rs existing ow
        then recordSetSuccessStatus now ow (rs_recordSets rs) else recordSetCreatedStatus now ow) (owners rs),
     ol_desired = rev (map (\<lambda>ow. Qualify ow zone) (owners rs)),
     ol_replaces = map (changeFor now today zone rs existing) (stale zone rs existing),
     ol_replacedStatus = filter (\<lambda>i. \<not> upToDate zone rs existing (owners rs ! i)) [0..<length (owners rs)]\<rparr>"
proof -
  have "ensureOwners now today zone rs existing =
      foldl (ensureOwner now today zone rs existing (group_by re_name (rs_records rs))) emptyLoop (owners rs)"
    by (simp add: ensureOwners_def owners_def Let_def)
  also note ensureOwners_fold
  finally show ?thesis by (simp add: emptyLoop_def stale_def)
qed

subsection \<open>Pairing deletes with replaces\<close>

definition lastAt :: "rrset list \<Rightarrow> string \<Rightarrow> nat option" where
  "lastAt replaces = map_of (rev (zip (map rr_name replaces) [0..<length replaces]))"

lemma lastAt_Some: "lastAt replaces n = Some i \<Longrightarrow> i < length replaces \<and> rr_name (replaces ! i) = n"
  by (auto simp: lastAt_def set_zip dest!: map_of_SomeD)

lemma lastAt_None: "lastAt replaces n = None \<longleftrightarrow> n \<notin> rr_name ` set replaces"
  by (auto simp: lastAt_def map_of_eq_None_iff simp flip: set_map)

lemma lastAt_distinct:
  assumes "distinct (map rr_name replaces)" and "i < length replaces"
  shows "lastAt replaces (rr_name (replaces ! i)) = Some i"
proof (cases "lastAt replaces (rr_name (replaces ! i))")
  case None
  with assms(2) show ?thesis by (auto simp: lastAt_None)
next
  case (Some j)
  with lastAt_Some [OF Some] assms show ?thesis by (auto simp: distinct_conv_nth)
qed

lemma pairDeletes_eq:
  "pairDeletes replaces deletes =
     (map (\<lambda>i. replaces ! i # filter (\<lambda>d. lastAt replaces (rr_name d) = Some i) deletes) [0..<length replaces],
      filter (\<lambda>d. rr_name d \<notin> rr_name ` set replaces) deletes)"
proof -
  let ?at = "lastAt replaces"
  let ?f = "\<lambda>ds i. replaces ! i # filter (\<lambda>d. ?at (rr_name d) = Some i) ds"
  let ?r = "\<lambda>ds. filter (\<lambda>d. rr_name d \<notin> rr_name ` set replaces) ds"
  have "foldl (\<lambda>acc rr. pairChange acc ?at rr) (map (\<lambda>rr. [rr]) replaces, []) deletes
      = (map (?f deletes) [0..<length replaces], ?r deletes)"
  proof (induction deletes rule: rev_induct)
    case Nil
    have "map (\<lambda>rr. [rr]) replaces = map (?f []) [0..<length replaces]"
      by (rule nth_equalityI) simp_all
    then show ?case by simp
  next
    case (snoc d ds)
    have step: "pairChange (map (?f ds) [0..<length replaces], ?r ds) ?at d
        = (map (?f (ds @ [d])) [0..<length replaces], ?r (ds @ [d]))"
    proof (cases "?at (rr_name d)")
      case None
      then have "rr_name d \<notin> rr_name ` set replaces" by (simp add: lastAt_None)
      with None show ?thesis by (simp add: pairChange_def)
    next
      case (Some i)
      then have i: "i < length replaces" "rr_name d \<in> rr_name ` set replaces"
        using lastAt_Some [OF Some] lastAt_None [of replaces "rr_name d"] Some by simp_all
      have "(map (?f ds) [0..<length replaces])[i := ?f ds i @ [d]] = map (?f (ds @ [d])) [0..<length replaces]"
        by (rule nth_equalityI) (simp_all add: nth_list_update Some)
      with i show ?thesis by (simp add: pairChange_def Some)
    qed
    show ?case unfolding foldl_append foldl_Cons foldl_Nil snoc by (rule step)
  qed
  then show ?thesis unfolding pairDeletes_def Let_def lastAt_def .
qed

lemma pairDeletes_changes:
  assumes "pairDeletes replaces deletes = (changes, rest)"
  shows "length changes = length replaces" and "set rest \<subseteq> set deletes"
    and "i < length changes \<Longrightarrow> \<exists>ds. changes ! i = replaces ! i # ds \<and> set ds \<subseteq> set deletes"
    and "\<Union>(set ` set changes) \<union> set rest = set replaces \<union> set deletes"
proof -
  have c: "changes = map (\<lambda>i. replaces ! i # filter (\<lambda>d. lastAt replaces (rr_name d) = Some i) deletes) [0..<length replaces]"
    and r: "rest = filter (\<lambda>d. rr_name d \<notin> rr_name ` set replaces) deletes"
    using assms unfolding pairDeletes_eq by simp_all
  show "length changes = length replaces" by (simp add: c)
  show "set rest \<subseteq> set deletes" by (auto simp: r)
  show "\<exists>ds. changes ! i = replaces ! i # ds \<and> set ds \<subseteq> set deletes" if "i < length changes"
    using that by (auto simp: c)
  have "d \<in> \<Union>(set ` set changes) \<union> set rest" if "d \<in> set deletes" for d
  proof (cases "lastAt replaces (rr_name d)")
    case None
    with that show ?thesis by (simp add: r lastAt_None)
  next
    case (Some i)
    with that lastAt_Some [OF Some] show ?thesis by (auto simp: c)
  qed
  moreover have "rr \<in> \<Union>(set ` set changes)" if "rr \<in> set replaces" for rr
    using that by (auto simp: c in_set_conv_nth)
  moreover have "set ch \<subseteq> set replaces \<union> set deletes" if "ch \<in> set changes" for ch
    using that by (auto simp: c)
  ultimately show "\<Union>(set ` set changes) \<union> set rest = set replaces \<union> set deletes"
    using \<open>set rest \<subseteq> set deletes\<close> by blast
qed

subsection \<open>The requests of a reconcile\<close>

text \<open>An exchange in which PowerDNS accepted a patch that carries a change.\<close>

definition acceptedIn :: "string \<Rightarrow> rrset list \<Rightarrow> exchange list \<Rightarrow> bool" where
  "acceptedIn zone change log \<longleftrightarrow>
     (\<exists>x \<in> set log. \<exists>patch. accepted (snd x) \<and> fst x = patchOf zone patch \<and> set change \<subseteq> set patch)"

lemma acceptedIn_append [simp]: "acceptedIn zone change (l1 @ l2) \<longleftrightarrow> acceptedIn zone change l1 \<or> acceptedIn zone change l2"
  by (auto simp: acceptedIn_def)

lemma isolate_within:
  assumes "set pending \<subseteq> {..<length changes}" and "\<forall>ch \<in> set changes. ch \<noteq> []"
    and "\<forall>i \<in> set pending. i < length errs \<and> errs ! i = None"
    and "isolate env s zone changes pending errs = (s', errs')"
  shows "\<exists>log. trace env s log s' \<and> length log \<le> length pending
    \<and> (\<forall>x \<in> set log. within zone (\<Union>(set ` set changes)) x)
    \<and> (\<forall>i \<in> set pending. errs' ! i = None \<longrightarrow> acceptedIn zone (changes ! i) log)"
  using assms(1,3,4)
proof (induction "length pending" arbitrary: s pending errs rule: less_induct)
  case less
  show ?case
  proof (cases "pending = []")
    case True
    with less.prems(3) have "s' = s" by (simp add: isolate_done)
    with True show ?thesis by (intro exI [of _ "[]"]) simp
  next
    case ne: False
    obtain s1 r where ap: "applyRRSetPatch env s zone (batch changes pending) = (s1, r)" by fastforce
    from applyRRSetPatch_within [OF ap] obtain l1 where l1: "trace env s l1 s1"
      "\<forall>x \<in> set l1. within zone (set (batch changes pending)) x" "length l1 \<le> 1" .
    have "set (changes ! i) \<subseteq> \<Union>(set ` set changes)" if "i \<in> set pending" for i
      using that less.prems(1) by (intro Union_upper imageI nth_mem) auto
    then have sub: "set (batch changes pending) \<subseteq> \<Union>(set ` set changes)" by auto
    then have w1: "\<forall>x \<in> set l1. within zone (\<Union>(set ` set changes)) x"
      using l1(2) within_mono by blast
    have len: "1 \<le> length pending" using ne by (cases pending) auto
    show ?thesis
    proof (cases r)
      case None
      have "hd pending \<in> set pending" using ne by simp
      then have "changes ! hd pending \<noteq> []" using assms(2) less.prems(1) by (auto dest: nth_mem)
      with \<open>hd pending \<in> set pending\<close> have "batch changes pending \<noteq> []" by auto
      with applyRRSetPatch_trace [OF ap [unfolded None]]
      obtain a where a: "send env s (patchOf zone (batch changes pending)) = (s1, a)" "accepted a"
        "\<not> deletesAndReplaces (batch changes pending)" by blast
      let ?log = "[(patchOf zone (batch changes pending), a)]"
      from less.prems ne ap None have "s' = s1" by (simp add: isolate_accepted)
      moreover have "within zone (\<Union>(set ` set changes)) (patchOf zone (batch changes pending), a)"
        using sub a(3) unfolding within_def by (intro exI [of _ "batch changes pending"]) simp
      moreover have "acceptedIn zone (changes ! i) ?log" if "i \<in> set pending" for i
        using that a(2) unfolding acceptedIn_def
        by (intro bexI [of _ "hd ?log"] exI [of _ "batch changes pending"]) auto
      ultimately show ?thesis using a(1) len by (intro exI [of _ ?log]) simp
    next
      case (Some e)
      note step = isolate_failed [OF ne ap [unfolded Some], of errs]
      show ?thesis
      proof (cases "\<forall>i \<in> set pending. \<not> refusedBy env e (changes ! i)")
        case True
        with step less.prems(3) have "s' = s1" "errs' = set_all pending (Some e) errs" by simp_all
        with l1 w1 len less.prems(2) show ?thesis by (intro exI [of _ l1]) (auto simp: nth_set_all)
      next
        case False
        let ?kept = "filter (\<lambda>i. \<not> refusedBy env e (changes ! i)) pending"
        let ?hit = "filter (\<lambda>i. refusedBy env e (changes ! i)) pending"
        let ?errs = "set_all ?hit (Some e) errs"
        have eq: "isolate env s1 zone changes ?kept ?errs = (s', errs')"
          using step less.prems(3) by (simp only: if_not_P [OF False])
        have lt: "length ?kept < length pending" using False by (auto intro: length_filter_less)
        have sub2: "set ?kept \<subseteq> {..<length changes}" using less.prems(1) by auto
        have kept: "\<forall>i \<in> set ?kept. i < length ?errs \<and> ?errs ! i = None"
          using less.prems(2) by (auto simp: nth_set_all)
        from less.hyps [OF lt sub2 kept eq]
        obtain l2 where l2: "trace env s1 l2 s'" "length l2 \<le> length ?kept"
          "\<forall>x \<in> set l2. within zone (\<Union>(set ` set changes)) x"
          "\<forall>i \<in> set ?kept. errs' ! i = None \<longrightarrow> acceptedIn zone (changes ! i) l2" by blast
        have hit: "errs' ! i \<noteq> None" if "i \<in> set pending" "i \<notin> set ?kept" for i
          using isolate_outcomes [OF kept eq] that less.prems(2) by (auto simp: nth_set_all)
        have "length (l1 @ l2) \<le> length pending" using l1(3) l2(2) lt by simp
        moreover have "trace env s (l1 @ l2) s'" by (rule trace_append [OF l1(1) l2(1)])
        moreover have "\<forall>x \<in> set (l1 @ l2). within zone (\<Union>(set ` set changes)) x"
          using w1 l2(3) by auto
        moreover have "\<forall>i \<in> set pending. errs' ! i = None \<longrightarrow> acceptedIn zone (changes ! i) (l1 @ l2)"
          using l2(4) hit unfolding acceptedIn_append by blast
        ultimately show ?thesis by blast
      qed
    qed
  qed
qed

lemma applyIsolatingRefusals_within:
  assumes "applyIsolatingRefusals env s zone changes = (s', errs)" and "\<forall>ch \<in> set changes. ch \<noteq> []"
  shows "length errs = length changes \<and> (\<exists>log. trace env s log s' \<and> length log \<le> length changes
    \<and> (\<forall>x \<in> set log. within zone (\<Union>(set ` set changes)) x)
    \<and> (\<forall>i < length changes. errs ! i = None \<longrightarrow> acceptedIn zone (changes ! i) log))"
proof
  note run = assms(1) [unfolded applyIsolatingRefusals_def]
  show "length errs = length changes" using isolate_outcomes [OF _ run] by simp
  show "\<exists>log. trace env s log s' \<and> length log \<le> length changes
    \<and> (\<forall>x \<in> set log. within zone (\<Union>(set ` set changes)) x)
    \<and> (\<forall>i < length changes. errs ! i = None \<longrightarrow> acceptedIn zone (changes ! i) log)"
    using isolate_within [OF _ assms(2) _ run] by (simp add: lessThan_atLeast0 Ball_def)
qed

lemma set_slice: "set (slice xs i j) \<subseteq> set xs"
  unfolding slice_def by (meson order_trans set_drop_subset set_take_subset)

definition failedStatus :: "RecordSetStatus \<Rightarrow> bool" where
  "failedStatus st \<longleftrightarrow> (\<exists>c. st_conditions st = [c] \<and> c_status c = ConditionFalse
     \<and> c_reason c \<in> {ReasonPDNSError, ReasonConflict})"

lemma noteOutcome_None [simp]:
  "errs ! i = None \<Longrightarrow>
     es_status (noteOutcome decode now zone rs existing changes positions c errs st i) = es_status st"
  by (simp add: noteOutcome_def)

lemma noteOutcome_Some:
  assumes "errs ! i = Some e"
  shows "\<exists>st1. es_status (noteOutcome decode now zone rs existing changes positions c errs st i) =
      (es_status st)[positions ! (ch_start c + i) := st1]
    \<and> failedStatus st1 \<and> st_name st1 = st_name (es_status st ! (positions ! (ch_start c + i)))"
  using assms
  by (auto simp: noteOutcome_def Let_def failedStatus_def recordSetRefusedStatus_def recordSetErrorStatus_def
      makeProgrammedStatus_def)

lemma noteOutcomes:
  assumes "distinct positions" and "\<forall>k \<in> set positions. k < length (es_status st)"
    and "ch_start c + length errs \<le> length positions" and "n \<le> length errs"
    and st': "st' = foldl (noteOutcome decode now zone rs existing changes positions c errs) st [0..<n]"
  shows "map st_name (es_status st') = map st_name (es_status st)
    \<and> (\<forall>k < length (es_status st). (\<forall>i < n. k \<noteq> positions ! (ch_start c + i)) \<longrightarrow> es_status st' ! k = es_status st ! k)
    \<and> (\<forall>i < n. if errs ! i = None
         then es_status st' ! (positions ! (ch_start c + i)) = es_status st ! (positions ! (ch_start c + i))
         else failedStatus (es_status st' ! (positions ! (ch_start c + i))))"
  unfolding st' using assms(4)
proof (induction n)
  case 0
  then show ?case by simp
next
  case (Suc n)
  let ?run = "\<lambda>n. foldl (noteOutcome decode now zone rs existing changes positions c errs) st [0..<n]"
  let ?pos = "\<lambda>i. positions ! (ch_start c + i)"
  have IH: "map st_name (es_status (?run n)) = map st_name (es_status st)"
    "\<And>k. k < length (es_status st) \<Longrightarrow> (\<forall>i < n. k \<noteq> ?pos i) \<Longrightarrow> es_status (?run n) ! k = es_status st ! k"
    "\<And>i. i < n \<Longrightarrow> if errs ! i = None then es_status (?run n) ! ?pos i = es_status st ! ?pos i
        else failedStatus (es_status (?run n) ! ?pos i)"
    using Suc by auto
  have len: "length (es_status (?run n)) = length (es_status st)" using IH(1) by (metis length_map)
  have posn: "?pos n < length (es_status st)" and inj: "\<And>i. i < n \<Longrightarrow> ?pos i \<noteq> ?pos n"
    using assms(1,2,3) Suc.prems by (auto simp: nth_eq_iff_index_eq)
  have keep: "es_status (?run n) ! ?pos n = es_status st ! ?pos n" using IH(2) [OF posn] inj by metis
  have step: "?run (Suc n) = noteOutcome decode now zone rs existing changes positions c errs (?run n) n" by simp
  show ?case
  proof (cases "errs ! n")
    case None
    then have "es_status (?run (Suc n)) = es_status (?run n)" by (simp add: step)
    with IH keep None show ?thesis by (simp add: less_Suc_eq)
  next
    case (Some e)
    from noteOutcome_Some [of errs n e, OF Some] obtain st1 where
      st1: "es_status (?run (Suc n)) = (es_status (?run n))[?pos n := st1]" "failedStatus st1"
        "st_name st1 = st_name (es_status (?run n) ! ?pos n)" unfolding step by blast
    have "map st_name (es_status (?run (Suc n))) = map st_name (es_status (?run n))"
      using st1(1,3) posn len by (simp add: map_update) (metis list_update_id nth_map)
    then have names: "map st_name (es_status (?run (Suc n))) = map st_name (es_status st)" using IH(1) by simp
    have other: "es_status (?run (Suc n)) ! k = es_status (?run n) ! k" if "k \<noteq> ?pos n" for k
      using that unfolding st1(1) by (simp add: nth_list_update)
    have atn: "failedStatus (es_status (?run (Suc n)) ! ?pos n)"
      using st1(2) posn len unfolding st1(1) by (simp add: nth_list_update)
    show ?thesis
    proof (intro conjI allI impI names)
      fix k
      assume "k < length (es_status st)" and "\<forall>i < Suc n. k \<noteq> ?pos i"
      then show "es_status (?run (Suc n)) ! k = es_status st ! k"
        using other [of k] IH(2) [of k] by (metis less_Suc_eq)
    next
      fix i
      assume "i < Suc n"
      then consider "i = n" | "i < n" by linarith
      then show "if errs ! i = None then es_status (?run (Suc n)) ! ?pos i = es_status st ! ?pos i
          else failedStatus (es_status (?run (Suc n)) ! ?pos i)"
      proof cases
        case 1
        with atn Some show ?thesis by simp
      next
        case 2
        with IH(3) [OF 2] other [OF inj [OF 2]] show ?thesis by simp
      qed
    qed
  qed
qed

text \<open>The changes \<open>lo\<close> up to \<open>hi\<close> are settled: each kept its status and was accepted, or has a
  failed status; no other status differs, and no name.\<close>

definition settled ::
  "string \<Rightarrow> rrset list list \<Rightarrow> nat list \<Rightarrow> nat \<Rightarrow> nat \<Rightarrow> exchange list \<Rightarrow> RecordSetStatus list \<Rightarrow> RecordSetStatus list \<Rightarrow> bool" where
  "settled zone changes positions lo hi log xs ys \<longleftrightarrow>
     map st_name ys = map st_name xs
     \<and> (\<forall>k < length xs. (\<forall>p. lo \<le> p \<longrightarrow> p < hi \<longrightarrow> k \<noteq> positions ! p) \<longrightarrow> ys ! k = xs ! k)
     \<and> (\<forall>p. lo \<le> p \<longrightarrow> p < hi \<longrightarrow>
          ys ! (positions ! p) = xs ! (positions ! p) \<and> acceptedIn zone (changes ! p) log
          \<or> failedStatus (ys ! (positions ! p)))"

lemma settled_empty: "settled zone changes positions lo lo log xs xs"
  by (simp add: settled_def)

lemma settled_length: "settled zone changes positions lo hi log xs ys \<Longrightarrow> length ys = length xs"
  unfolding settled_def by (metis length_map)

lemma settled_trans:
  assumes s1: "settled zone changes positions lo mid l1 xs ys" and s2: "settled zone changes positions mid hi l2 ys zs"
    and ord: "lo \<le> mid" "mid \<le> hi" "hi \<le> length positions"
    and dist: "distinct positions" and bound: "\<forall>k \<in> set positions. k < length xs"
  shows "settled zone changes positions lo hi (l1 @ l2) xs zs"
proof -
  have inj: "positions ! p \<noteq> positions ! q" if "p < q" "q < hi" for p q
    using that dist ord(3) by (simp add: nth_eq_iff_index_eq)
  have pos: "positions ! p < length xs" "positions ! p < length ys" if "p < hi" for p
    using that bound ord(3) settled_length [OF s1] by simp_all
  have "zs ! (positions ! p) = xs ! (positions ! p) \<and> acceptedIn zone (changes ! p) (l1 @ l2)
      \<or> failedStatus (zs ! (positions ! p))" if p: "lo \<le> p" "p < hi" for p
  proof (cases "p < mid")
    case True
    have "\<forall>q. mid \<le> q \<longrightarrow> q < hi \<longrightarrow> positions ! p \<noteq> positions ! q" using inj True by simp
    then have "zs ! (positions ! p) = ys ! (positions ! p)" using s2 pos(2) [OF p(2)] by (simp add: settled_def)
    moreover have "ys ! (positions ! p) = xs ! (positions ! p) \<and> acceptedIn zone (changes ! p) l1
        \<or> failedStatus (ys ! (positions ! p))" using s1 p(1) True by (simp add: settled_def)
    ultimately show ?thesis by auto
  next
    case False
    have "\<forall>q. lo \<le> q \<longrightarrow> q < mid \<longrightarrow> positions ! p \<noteq> positions ! q" 
    proof (intro allI impI)
      fix q assume "q < mid"
      with False have "q < p" by simp
      from inj [OF this p(2)] show "positions ! p \<noteq> positions ! q" by (rule not_sym)
    qed
    then have "ys ! (positions ! p) = xs ! (positions ! p)" using s1 pos(1) [OF p(2)] by (simp add: settled_def)
    moreover have "zs ! (positions ! p) = ys ! (positions ! p) \<and> acceptedIn zone (changes ! p) l2
        \<or> failedStatus (zs ! (positions ! p))" using s2 p(2) False by (simp add: settled_def not_less)
    ultimately show ?thesis by auto
  qed
  moreover have "zs ! k = xs ! k"
    if k: "k < length xs" "\<forall>p. lo \<le> p \<longrightarrow> p < hi \<longrightarrow> k \<noteq> positions ! p" for k
  proof -
    have "ys ! k = xs ! k" using s1 k ord(2) by (simp add: settled_def)
    moreover have "zs ! k = ys ! k" using s2 k ord(1) settled_length [OF s1] by (simp add: settled_def)
    ultimately show ?thesis by simp
  qed
  moreover have "map st_name zs = map st_name xs" using s1 s2 by (simp add: settled_def)
  ultimately show ?thesis by (simp add: settled_def)
qed

lemma chunk_settled:
  assumes p: "applyIsolatingRefusals env s zone (slice changes (ch_start c) hi) = (s1, errs)"
    and hi: "ch_start c \<le> hi" "hi \<le> length changes" "length positions = length changes"
    and dist: "distinct positions" and bound: "\<forall>k \<in> set positions. k < length (es_status st)"
    and ne: "\<forall>ch \<in> set changes. ch \<noteq> []"
    and st1: "st1 = foldl (noteOutcome decode now zone rs existing changes positions c errs) st [0..<length errs]"
  shows "\<exists>log. trace env s log s1 \<and> (\<forall>x \<in> set log. within zone (\<Union>(set ` set changes)) x)
    \<and> settled zone changes positions (ch_start c) hi log (es_status st) (es_status st1)"
proof -
  let ?lo = "ch_start c"
  let ?part = "slice changes ?lo hi"
  have ne': "\<forall>ch \<in> set ?part. ch \<noteq> []"
    using ne set_slice [of changes ?lo hi] by (meson subsetD)
  have len: "length ?part = hi - ?lo" using hi by (simp add: slice_def)
  from applyIsolatingRefusals_within [OF p ne'] obtain l1 where errs: "length errs = hi - ?lo"
    and l1: "trace env s l1 s1" "\<forall>x \<in> set l1. within zone (\<Union>(set ` set ?part)) x"
      "\<forall>i < hi - ?lo. errs ! i = None \<longrightarrow> acceptedIn zone (?part ! i) l1"
    unfolding len by (elim conjE exE)
  have "\<Union>(set ` set ?part) \<subseteq> \<Union>(set ` set changes)" by (intro Union_mono image_mono set_slice)
  then have w: "\<forall>x \<in> set l1. within zone (\<Union>(set ` set changes)) x" using l1(2) within_mono by blast
  have upto: "?lo + length errs \<le> length positions" using errs hi by simp
  note out = noteOutcomes [OF dist bound upto order_refl st1]
  have "settled zone changes positions ?lo hi l1 (es_status st) (es_status st1)"
    unfolding settled_def
  proof (intro conjI allI impI)
    show "map st_name (es_status st1) = map st_name (es_status st)" by (rule out [THEN conjunct1])
  next
    fix k
    assume k: "k < length (es_status st)" and "\<forall>p. ?lo \<le> p \<longrightarrow> p < hi \<longrightarrow> k \<noteq> positions ! p"
    then have "k \<noteq> positions ! (?lo + i)" if "i < length errs" for i
      using that errs by simp
    then show "es_status st1 ! k = es_status st ! k"
      using out [THEN conjunct2, THEN conjunct1, rule_format, OF k] by blast
  next
    fix p
    assume p: "?lo \<le> p" "p < hi"
    define i where "i = p - ?lo"
    have i: "p = ?lo + i" "i < length errs" "i < hi - ?lo" using p errs by (simp_all add: i_def)
    have nth: "?part ! i = changes ! p" using i(1,3) hi by (simp add: slice_def)
    have "acceptedIn zone (changes ! p) l1" if "errs ! i = None"
      using l1(3) [rule_format, OF i(3) that] unfolding nth .
    moreover have "if errs ! i = None then es_status st1 ! (positions ! p) = es_status st ! (positions ! p)
        else failedStatus (es_status st1 ! (positions ! p))"
      using out [THEN conjunct2, THEN conjunct2, rule_format, OF i(2)] unfolding i(1) .
    ultimately show "es_status st1 ! (positions ! p) = es_status st ! (positions ! p) \<and> acceptedIn zone (changes ! p) l1
      \<or> failedStatus (es_status st1 ! (positions ! p))"
      by (cases "errs ! i = None") (simp_all only: if_True if_False simp_thms)
  qed
  with l1(1) w show ?thesis by blast
qed

lemma replaceChunks_settled:
  assumes "replaceChunks env s now zone rs existing changes positions st (chunks_from reps start) = (s', st')"
    and "start \<le> length reps" and "length positions = length changes" and "length changes = length reps"
    and "distinct positions" and "\<forall>k \<in> set positions. k < length (es_status st)" and "\<forall>ch \<in> set changes. ch \<noteq> []"
  shows "\<exists>log. trace env s log s' \<and> (\<forall>x \<in> set log. within zone (\<Union>(set ` set changes)) x)
    \<and> settled zone changes positions start (length reps) log (es_status st) (es_status st')"
  using assms(1,2,6)
proof (induction "length reps - start" arbitrary: s st start rule: less_induct)
  case less
  show ?case
  proof (cases "start < length reps")
    case False
    with less.prems show ?thesis
      by (intro exI [of _ "[]"]) (simp add: chunks_from_nil settled_empty)
  next
    case True
    define hi where "hi = min (start + patchChunkSize) (length reps)"
    let ?c = "\<lparr>ch_rrsets = take patchChunkSize (drop start reps), ch_start = start, ch_end = hi\<rparr>"
    have hi: "start < hi" "hi \<le> length reps" using True by (simp_all add: hi_def patchChunkSize_def)
    have next_chunk: "chunks_from reps (start + patchChunkSize) = chunks_from reps hi"
      by (cases "start + patchChunkSize \<le> length reps") (simp_all add: hi_def min_def chunks_from_nil)
    obtain s1 errs where p: "applyIsolatingRefusals env s zone (slice changes (ch_start ?c) hi) = (s1, errs)"
      by fastforce
    let ?st1 = "foldl (noteOutcome (decodeError env) now zone rs existing changes positions ?c errs) st [0..<length errs]"
    from chunk_settled [OF p _ _ assms(3,5) less.prems(3) assms(7) refl,
        where decode = "decodeError env" and now = now and rs = rs and existing = existing] hi assms(4)
    obtain l1 where l1: "trace env s l1 s1" "\<forall>x \<in> set l1. within zone (\<Union>(set ` set changes)) x"
      "settled zone changes positions start hi l1 (es_status st) (es_status ?st1)" by auto
    have rest: "replaceChunks env s1 now zone rs existing changes positions ?st1 (chunks_from reps hi) = (s', st')"
      using less.prems(1) p unfolding chunks_from_cons [OF True] next_chunk hi_def [symmetric] by simp
    have bound: "\<forall>k \<in> set positions. k < length (es_status ?st1)"
      using less.prems(3) settled_length [OF l1(3)] by simp
    have lt: "length reps - hi < length reps - start" using hi by simp
    from less.hyps [OF lt rest hi(2) bound] obtain l2 where l2: "trace env s1 l2 s'"
      "\<forall>x \<in> set l2. within zone (\<Union>(set ` set changes)) x"
      "settled zone changes positions hi (length reps) l2 (es_status ?st1) (es_status st')" by blast
    have "settled zone changes positions start (length reps) (l1 @ l2) (es_status st) (es_status st')"
      using settled_trans [OF l1(3) l2(3) _ hi(2) _ assms(5) less.prems(3)] hi(1) assms(3,4) by simp
    with trace_append [OF l1(1) l2(1)] l1(2) l2(2) show ?thesis by (intro exI [of _ "l1 @ l2"]) auto
  qed
qed

lemma deleteChunks_within:
  assumes "deleteChunks env s zone rs st chunks = (s', st')"
  shows "\<exists>log. trace env s log s' \<and> length log \<le> length chunks
    \<and> (\<forall>x \<in> set log. within zone (\<Union>c \<in> set chunks. set (ch_rrsets c)) x)"
  using assms
proof (induction chunks arbitrary: s st)
  case Nil
  then show ?case by (intro exI [of _ "[]"]) simp
next
  case (Cons c rest)
  obtain s1 e where p: "applyRRSetPatch env s zone (ch_rrsets c) = (s1, e)" by fastforce
  from applyRRSetPatch_within [OF p] obtain l1 where l1: "trace env s l1 s1"
    "\<forall>x \<in> set l1. within zone (set (ch_rrsets c)) x" "length l1 \<le> 1" .
  from Cons.prems p obtain st1 where "deleteChunks env s1 zone rs st1 rest = (s', st')"
    by (auto split: option.splits)
  from Cons.IH [OF this] obtain l2 where l2: "trace env s1 l2 s'" "length l2 \<le> length rest"
    "\<forall>x \<in> set l2. within zone (\<Union>c \<in> set rest. set (ch_rrsets c)) x" by blast
  have "within zone (\<Union>c \<in> set (c # rest). set (ch_rrsets c)) x" if "x \<in> set (l1 @ l2)" for x
    using that l1(2) l2(3) by (auto elim!: within_mono)
  moreover have "length (l1 @ l2) \<le> length (c # rest)" using l1(3) l2(2) by simp
  ultimately show ?case using trace_append [OF l1(1) l2(1)] by blast
qed

lemma deleteChunks_status:
  "deleteChunks env s zone rs st chunks = (s', st') \<Longrightarrow> es_status st' = es_status st"
  by (induction chunks arbitrary: s st) (auto split: prod.splits option.splits)

text \<open>Everything a reconcile may send: the changes of the stale owner names, and the deletes of
  what the record set owns and no longer wants.\<close>

definition plannedChanges :: "int \<Rightarrow> string \<Rightarrow> string \<Rightarrow> DNSRecordSet \<Rightarrow> zone_map \<Rightarrow> rrset set" where
  "plannedChanges now today zone rs existing =
     changeFor now today zone rs existing ` set (stale zone rs existing)
     \<union> set (surplusDeletes existing rs (rev (map (\<lambda>ow. Qualify ow zone) (owners rs))))"

definition plannedStatuses :: "int \<Rightarrow> string \<Rightarrow> DNSRecordSet \<Rightarrow> zone_map \<Rightarrow> RecordSetStatus list" where
  "plannedStatuses now zone rs existing =
     map (\<lambda>ow. if upToDate zone rs existing ow then recordSetSuccessStatus now ow (rs_recordSets rs)
               else recordSetCreatedStatus now ow) (owners rs)"

definition stalePositions :: "string \<Rightarrow> DNSRecordSet \<Rightarrow> zone_map \<Rightarrow> nat list" where
  "stalePositions zone rs existing =
     filter (\<lambda>i. \<not> upToDate zone rs existing (owners rs ! i)) [0..<length (owners rs)]"

lemma stale_positions: "stale zone rs existing = map ((!) (owners rs)) (stalePositions zone rs existing)"
proof -
  have "stale zone rs existing = filter (\<lambda>ow. \<not> upToDate zone rs existing ow) (map ((!) (owners rs)) [0..<length (owners rs)])"
    by (simp add: stale_def map_nth)
  then show ?thesis by (simp add: stalePositions_def filter_map o_def)
qed

lemma stalePositions_bound: "k \<in> set (stalePositions zone rs existing) \<Longrightarrow> k < length (owners rs)"
  by (simp add: stalePositions_def)

lemma distinct_stalePositions [simp]: "distinct (stalePositions zone rs existing)"
  by (simp add: stalePositions_def)

lemma ensureRead_run:
  assumes "ensureRead env s findCond now today zone rs existing = (s', res)"
  shows "\<exists>log changes statuses. trace env s log s'
    \<and> (\<forall>x \<in> set log. within zone (plannedChanges now today zone rs existing) x)
    \<and> length changes = length (stale zone rs existing)
    \<and> (\<forall>p < length changes. changeFor now today zone rs existing (stale zone rs existing ! p) \<in> set (changes ! p))
    \<and> settled zone changes (stalePositions zone rs existing) 0 (length changes) log
        (plannedStatuses now zone rs existing) statuses
    \<and> er_statuses res = keepTransitionTimes findCond statuses (rs_recordSets rs)"
proof -
  let ?P = "plannedChanges now today zone rs existing"
  let ?reps = "map (changeFor now today zone rs existing) (stale zone rs existing)"
  let ?dels = "surplusDeletes existing rs (rev (map (\<lambda>ow. Qualify ow zone) (owners rs)))"
  let ?pos = "stalePositions zone rs existing"
  let ?st = "\<lparr>es_status = plannedStatuses now zone rs existing, es_transient = [], es_pruned = []\<rparr>"
  obtain changes deletes where pd: "pairDeletes ?reps ?dels = (changes, deletes)" by fastforce
  note pair = pairDeletes_changes [OF pd]
  have sub: "\<Union>(set ` set changes) \<subseteq> ?P" "set deletes \<subseteq> ?P"
    using pair(4) by (auto simp: plannedChanges_def)
  obtain s1 st1 where r: "replaceChunks env s now zone rs existing changes ?pos ?st (chunkRRSets ?reps) = (s1, st1)"
    by fastforce
  obtain s2 st2 where d: "deleteChunks env s1 zone rs st1 (chunkRRSets (sortRRSets deletes)) = (s2, st2)"
    by fastforce
  have res: "s' = s2" "er_statuses res = keepTransitionTimes findCond (es_status st2) (rs_recordSets rs)"
    using assms pd r d unfolding ensureRead_def ensureOwners_eq Let_def
    by (auto simp: plannedStatuses_def stalePositions_def)
  have chunks: "chunkRRSets ?reps = chunks_from ?reps 0"
    by (simp add: chunkRRSets_def chunks_from_nil)
  have lens: "length ?pos = length changes" "length changes = length ?reps"
    using pair(1) by (simp_all add: stale_positions)
  have bound: "\<forall>k \<in> set ?pos. k < length (es_status ?st)"
    by (simp add: plannedStatuses_def stalePositions_bound)
  have heads: "changeFor now today zone rs existing (stale zone rs existing ! p) \<in> set (changes ! p)"
    if "p < length changes" for p
    using pair(3) [OF that] that lens(2) by auto
  have ne: "\<forall>ch \<in> set changes. ch \<noteq> []"
    using pair(3) by (fastforce simp: in_set_conv_nth)
  from replaceChunks_settled [OF r [unfolded chunks] le0 lens distinct_stalePositions bound ne]
  obtain l1 where l1: "trace env s l1 s1" "\<forall>x \<in> set l1. within zone (\<Union>(set ` set changes)) x"
    "settled zone changes ?pos 0 (length changes) l1 (plannedStatuses now zone rs existing) (es_status st1)"
    using lens by auto
  from deleteChunks_within [OF d] obtain l2 where l2: "trace env s1 l2 s2"
    "\<forall>x \<in> set l2. within zone (set deletes) x" by (auto simp: chunk_members)
  have "es_status st2 = es_status st1" by (rule deleteChunks_status [OF d])
  moreover have "settled zone changes ?pos 0 (length changes) (l1 @ l2) (plannedStatuses now zone rs existing) (es_status st1)"
    using l1(3) by (auto simp: settled_def)
  moreover have "\<forall>x \<in> set (l1 @ l2). within zone ?P x"
    using l1(2) l2(2) sub within_mono by (metis Un_iff set_append)
  moreover have "trace env s (l1 @ l2) s2" by (rule trace_append [OF l1(1) l2(1)])
  ultimately show ?thesis using res heads lens(2)
    by (intro exI [of _ "l1 @ l2"] exI [of _ changes] exI [of _ "es_status st1"]) simp
qed

text \<open>What a single change on the wire does: it writes a declared name of the record set, under
  its type and with its ownership comment, or it removes an RRset that carries that comment and
  is not wanted any more (the delete, or the clearing of its comments behind it).\<close>

definition writesDeclared :: "string \<Rightarrow> DNSRecordSet \<Rightarrow> wire_rrset \<Rightarrow> bool" where
  "writesDeclared zone rs w \<longleftrightarrow>
     w_changetype w = changeTypeReplace \<and> w_type w = rs_recordType rs
     \<and> (\<exists>e \<in> set (rs_records rs). w_name w = Qualify (re_name e) zone)
     \<and> (\<exists>t cs. w_comments w = Some (\<lparr>cm_account = ACCOUNT_OWNER,
          cm_content = recordSetOwnerRef rs, cm_modifiedAt = t\<rparr> # cs))"

definition removesOwned :: "string \<Rightarrow> DNSRecordSet \<Rightarrow> zone_map \<Rightarrow> wire_rrset \<Rightarrow> bool" where
  "removesOwned zone rs existing w \<longleftrightarrow>
     (\<exists>rr. (\<lparr>k_name = w_name w, k_typ = w_type w\<rparr>, rr) \<in> set existing \<and> rrsetOwnerRef rr = recordSetOwnerRef rs)
     \<and> \<not> (w_type w = rs_recordType rs \<and> (\<exists>e \<in> set (rs_records rs). w_name w = Qualify (re_name e) zone))
     \<and> (w_changetype w = changeTypeDelete \<or> w = clearWire (w_name w) (w_type w))"

lemma stampComments_head:
  "\<exists>t cs. stampComments (ownerComments ref gen uid) held now =
     \<lparr>cm_account = ACCOUNT_OWNER, cm_content = ref, cm_modifiedAt = t\<rparr> # cs"
  by (simp add: stampComments_def ownerComments_def stampComment_def mkComment_def)

lemma changeFor_writes:
  assumes "ow \<in> re_name ` set (rs_records rs)"
  shows "writesDeclared zone rs (marshalRRSet (changeFor now today zone rs existing ow))"
proof -
  have "\<exists>t cs. rr_comments (changeFor now today zone rs existing ow) =
      Some (\<lparr>cm_account = ACCOUNT_OWNER, cm_content = recordSetOwnerRef rs, cm_modifiedAt = t\<rparr> # cs)"
    by (simp add: changeFor_def buildReplaceRRSet_def stampComments_head)
  then obtain t cs where c: "rr_comments (changeFor now today zone rs existing ow) =
      Some (\<lparr>cm_account = ACCOUNT_OWNER, cm_content = recordSetOwnerRef rs, cm_modifiedAt = t\<rparr> # cs)" by blast
  have "rr_commentsOnly (changeFor now today zone rs existing ow) = False"
    and "rr_changeType (changeFor now today zone rs existing ow) = changeTypeReplace"
    and "rr_type (changeFor now today zone rs existing ow) = rs_recordType rs"
    and "rr_name (changeFor now today zone rs existing ow) = Qualify ow zone"
    by (simp_all add: changeFor_def buildReplaceRRSet_def)
  with c assms show ?thesis
    by (auto simp: writesDeclared_def marshalRRSet_def changeTypeReplace_def changeTypeDelete_def)
qed

lemma rrsetKey_eta [simp]: "\<lparr>k_name = k_name key, k_typ = k_typ key\<rparr> = key"
  by simp

lemma surplus_removes:
  assumes "d \<in> set (surplusDeletes existing rs (rev (map (\<lambda>ow. Qualify ow zone) (owners rs))))"
  shows "rr_changeType d = changeTypeDelete"
    and "removesOwned zone rs existing (marshalRRSet d)"
    and "removesOwned zone rs existing (clearWire (rr_name d) (rr_type d))"
  using assms
  by (auto simp: surplusDeletes_def ownedSurplus_def newDeleteRRSet_def marshalRRSet_def removesOwned_def
      clearWire_def changeTypeDelete_def image_image)

lemma within_planned:
  assumes "within zone (plannedChanges now today zone rs existing) x"
  shows "\<exists>ws. fst x = PatchReq (zone_path zone) ws
    \<and> (\<forall>w \<in> set ws. writesDeclared zone rs w \<or> removesOwned zone rs existing w)"
proof -
  obtain patch where p: "set patch \<subseteq> plannedChanges now today zone rs existing" "fst x = patchOf zone patch"
    using assms by (auto simp: within_def)
  have "writesDeclared zone rs w \<or> removesOwned zone rs existing w"
    if "w \<in> set (map marshalRRSet (withClears (sortRRSets patch)))" for w
  proof -
    from that obtain rr where rr: "rr \<in> set patch"
      and w: "w = marshalRRSet rr \<or> rr_changeType rr = changeTypeDelete \<and> w = clearWire (rr_name rr) (rr_type rr)"
      by (auto simp: withClears_def split: if_splits)
    with p(1) consider ow where "ow \<in> set (stale zone rs existing)" "rr = changeFor now today zone rs existing ow"
      | "rr \<in> set (surplusDeletes existing rs (rev (map (\<lambda>ow. Qualify ow zone) (owners rs))))"
      unfolding plannedChanges_def by blast
    then show ?thesis
    proof cases
      case 1
      then have "rr_changeType rr = changeTypeReplace" by (simp add: changeFor_def buildReplaceRRSet_def)
      with w 1 changeFor_writes show ?thesis
        by (auto simp: stale_def changeTypeReplace_def changeTypeDelete_def)
    next
      case 2
      from w surplus_removes [OF this] show ?thesis by blast
    qed
  qed
  then show ?thesis using p(2) by (auto simp: patchOf_def)
qed

section \<open>Properties\<close>

text \<open>
  C1: A reconcile touches only what its record set may touch. After the one zone read, every
  request of \<^verbatim>\<open>EnsureRecordSet\<close> is a PATCH of that zone, and every change in it either writes
  a name the record set declares, under its own type and stamped with its ownership, or removes
  an RRset that the zone read says this record set wrote and that it does not declare any more.
  An RRset that another record set wrote, or that carries no ownership, is never deleted.
\<close>

theorem EnsureRecordSet_touches_own:
  assumes "getPDNSZoneRRSets env s (z_domainName zone) = (s1, Inr existing)"
    and "EnsureRecordSet env s findCond now today zone rs = (s', res)"
  shows "\<exists>log. trace env s1 log s' \<and> (\<forall>x \<in> set log. \<exists>ws. fst x = PatchReq (zone_path (z_domainName zone)) ws
    \<and> (\<forall>w \<in> set ws. writesDeclared (z_domainName zone) rs w \<or> removesOwned (z_domainName zone) rs existing w))"
proof -
  have "ensureRead env s1 findCond now today (z_domainName zone) rs existing = (s', res)"
    using assms by (simp add: EnsureRecordSet_def)
  from ensureRead_run [OF this] show ?thesis using within_planned by meson
qed

definition aRecordSet :: DNSRecordSet where
  "aRecordSet = \<lparr>rs_meta = aMeta ''web'', rs_zoneRef = ''z'', rs_recordType = ''A'',
     rs_records = [(emptyEntry ''api'')\<lparr>re_A := Some ''192.0.2.7''\<rparr>], rs_conditions = [], rs_recordSets = []\<rparr>"

definition firstOfType :: "Condition list \<Rightarrow> string \<Rightarrow> Condition option" where
  "firstOfType cs t = find (\<lambda>c. c_type c = t) cs"

theorem EnsureRecordSet_touches_own_witness:
  "length (fst (EnsureRecordSet (serving_env [aHeldRRset]) [] firstOfType 7 ''2024010100'' aZone aRecordSet)) = 3
   \<and> (\<exists>log. trace (serving_env [aHeldRRset]) [GetZoneReq ''example.com.''] log
        (fst (EnsureRecordSet (serving_env [aHeldRRset]) [] firstOfType 7 ''2024010100'' aZone aRecordSet)))"
proof
  show "length (fst (EnsureRecordSet (serving_env [aHeldRRset]) [] firstOfType 7 ''2024010100'' aZone aRecordSet)) = 3"
    by code_simp
  obtain s' res where r: "EnsureRecordSet (serving_env [aHeldRRset]) [] firstOfType 7 ''2024010100'' aZone aRecordSet
      = (s', res)" by fastforce
  from EnsureRecordSet_touches_own [OF serving_env_read r]
  show "\<exists>log. trace (serving_env [aHeldRRset]) [GetZoneReq ''example.com.''] log
        (fst (EnsureRecordSet (serving_env [aHeldRRset]) [] firstOfType 7 ''2024010100'' aZone aRecordSet))"
    using r by (auto simp: aZone_def zone_path_def)
qed

subsection \<open>What a reconcile reports\<close>

definition programmed :: "RecordSetStatus \<Rightarrow> bool" where
  "programmed st \<longleftrightarrow> st_conditions st \<noteq> [] \<and> c_status (hd (st_conditions st)) = ConditionTrue"

lemma recordSetSuccessStatus_ok:
  "programmed (recordSetSuccessStatus now ow current) \<and> st_name (recordSetSuccessStatus now ow current) = ow"
  by (induction current)
    (auto simp: programmed_def recordSetCreatedStatus_def makeProgrammedStatus_def)

lemma recordSetCreatedStatus_ok:
  "programmed (recordSetCreatedStatus now ow) \<and> st_name (recordSetCreatedStatus now ow) = ow"
  by (simp add: programmed_def recordSetCreatedStatus_def makeProgrammedStatus_def)

lemma plannedStatuses_names: "map st_name (plannedStatuses now zone rs existing) = owners rs"
  by (rule nth_equalityI)
    (simp_all add: plannedStatuses_def recordSetSuccessStatus_ok recordSetCreatedStatus_ok)

lemma plannedStatuses_programmed: "i < length (owners rs) \<Longrightarrow> programmed (plannedStatuses now zone rs existing ! i)"
  by (simp add: plannedStatuses_def recordSetSuccessStatus_ok recordSetCreatedStatus_ok)

lemma keepTransitionTime_keeps [simp]:
  "c_status (keepTransitionTime prev c) = c_status c" "c_reason (keepTransitionTime prev c) = c_reason c"
  by (simp_all add: keepTransitionTime_def)

lemma keepTransitionTimes_length [simp]:
  "length (keepTransitionTimes findCond statuses previous) = length statuses"
  by (simp add: keepTransitionTimes_def Let_def)

lemma keepTransitionTimes_nth:
  assumes "i < length statuses"
  shows "st_name (keepTransitionTimes findCond statuses previous ! i) = st_name (statuses ! i)"
    and "programmed (keepTransitionTimes findCond statuses previous ! i) \<longleftrightarrow> programmed (statuses ! i)"
    and "failedStatus (keepTransitionTimes findCond statuses previous ! i) \<longleftrightarrow> failedStatus (statuses ! i)"
  using assms
  by (auto simp: keepTransitionTimes_def Let_def programmed_def failedStatus_def hd_map split: option.split)

lemma keepTransitionTimes_names:
  "map st_name (keepTransitionTimes findCond statuses previous) = map st_name statuses"
  by (rule nth_equalityI) (simp_all add: keepTransitionTimes_nth)

lemma upToDate_position:
  assumes "i < length (owners rs)"
  shows "upToDate zone rs existing (owners rs ! i) \<longleftrightarrow> (\<forall>p < length (stalePositions zone rs existing). i \<noteq> stalePositions zone rs existing ! p)"
proof -
  have "i \<in> set (stalePositions zone rs existing) \<longleftrightarrow> \<not> upToDate zone rs existing (owners rs ! i)"
    using assms by (simp add: stalePositions_def)
  then show ?thesis by (metis in_set_conv_nth)
qed

lemma ensureRead_outcome:
  assumes "ensureRead env s1 findCond now today z rs existing = (s', res)"
  shows "map st_name (er_statuses res) = owners rs
    \<and> (\<exists>log. trace env s1 log s' \<and> (\<forall>i < length (owners rs).
        if programmed (er_statuses res ! i)
        then upToDate z rs existing (owners rs ! i)
             \<or> acceptedIn z [changeFor now today z rs existing (owners rs ! i)] log
        else failedStatus (er_statuses res ! i) \<and> \<not> upToDate z rs existing (owners rs ! i)))"
proof -
  let ?pos = "stalePositions z rs existing"
  from ensureRead_run [OF assms] obtain log changes statuses where log: "trace env s1 log s'"
    and len: "length changes = length (stale z rs existing)"
    and carry: "\<And>p. p < length changes \<Longrightarrow> changeFor now today z rs existing (stale z rs existing ! p) \<in> set (changes ! p)"
    and settled: "settled z changes ?pos 0 (length changes) log (plannedStatuses now z rs existing) statuses"
    and res: "er_statuses res = keepTransitionTimes findCond statuses (rs_recordSets rs)" by blast
  have names: "map st_name statuses = owners rs"
    using settled plannedStatuses_names by (simp add: settled_def)
  then have lenS: "length statuses = length (owners rs)" by (metis length_map)
  have lenP: "length ?pos = length changes" using len by (simp add: stale_positions)
  have outcome: "if programmed (statuses ! i)
        then upToDate z rs existing (owners rs ! i)
             \<or> acceptedIn z [changeFor now today z rs existing (owners rs ! i)] log
        else failedStatus (statuses ! i) \<and> \<not> upToDate z rs existing (owners rs ! i)"
    if i: "i < length (owners rs)" for i
  proof (cases "upToDate z rs existing (owners rs ! i)")
    case True
    then have "\<forall>p < length ?pos. i \<noteq> ?pos ! p" by (rule iffD1 [OF upToDate_position [OF i]])
    moreover have "i < length (plannedStatuses now z rs existing)" using i by (simp add: plannedStatuses_def)
    ultimately have "statuses ! i = plannedStatuses now z rs existing ! i"
      using settled lenP by (simp add: settled_def)
    with True plannedStatuses_programmed [OF i] show ?thesis by simp
  next
    case False
    then obtain p where p: "p < length changes" "i = ?pos ! p" using upToDate_position [OF i] lenP by auto
    then have ow: "stale z rs existing ! p = owners rs ! i" using lenP by (simp add: stale_positions)
    have "statuses ! i = plannedStatuses now z rs existing ! i \<and> acceptedIn z (changes ! p) log \<or> failedStatus (statuses ! i)"
      using settled p by (simp add: settled_def)
    then show ?thesis
    proof
      assume "statuses ! i = plannedStatuses now z rs existing ! i \<and> acceptedIn z (changes ! p) log"
      with plannedStatuses_programmed [OF i] carry [OF p(1)] ow show ?thesis
        by (auto simp: acceptedIn_def)
    next
      assume "failedStatus (statuses ! i)"
      moreover from this have "\<not> programmed (statuses ! i)" by (auto simp: failedStatus_def programmed_def)
      ultimately show ?thesis using False by simp
    qed
  qed
  have "\<forall>i < length (owners rs). if programmed (er_statuses res ! i)
        then upToDate z rs existing (owners rs ! i)
             \<or> acceptedIn z [changeFor now today z rs existing (owners rs ! i)] log
        else failedStatus (er_statuses res ! i) \<and> \<not> upToDate z rs existing (owners rs ! i)"
    using outcome lenS by (simp add: res keepTransitionTimes_nth)
  moreover have "map st_name (er_statuses res) = owners rs" by (simp add: res names keepTransitionTimes_names)
  ultimately show ?thesis using log by blast
qed

lemma ensureRead_statuses:
  assumes "ensureRead env s findCond now today zone rs existing = (s', res)"
  shows "map st_name (er_statuses res) = owners rs
    \<and> (\<forall>st \<in> set (er_statuses res). programmed st \<noteq> failedStatus st)"
proof -
  from ensureRead_outcome [OF assms] have names: "map st_name (er_statuses res) = owners rs"
    and each: "\<And>i. i < length (owners rs) \<Longrightarrow> programmed (er_statuses res ! i) \<or> failedStatus (er_statuses res ! i)"
    by (auto split: if_splits)
  have "length (er_statuses res) = length (owners rs)" using names by (metis length_map)
  with each have "programmed st \<or> failedStatus st" if "st \<in> set (er_statuses res)" for st
    using that by (metis in_set_conv_nth)
  moreover have "\<not> (programmed st \<and> failedStatus st)" for st
    by (auto simp: programmed_def failedStatus_def)
  ultimately show ?thesis using names by blast
qed

text \<open>
  C16: The statuses a reconcile reports are truthful. When the zone could be read there is exactly
  one status per declared owner name, in sorted order. Each either says programmed, and then the
  zone read already held this object's RRset for the name or PowerDNS accepted a patch carrying
  the change built for it, or it says not programmed with reason PDNSError or Conflict, and then
  the name was stale.
\<close>

theorem EnsureRecordSet_reports:
  assumes "getPDNSZoneRRSets env s (z_domainName zone) = (s1, Inr existing)"
    and "EnsureRecordSet env s findCond now today zone rs = (s', res)"
  shows "map st_name (er_statuses res) = owners rs
    \<and> (\<exists>log. trace env s1 log s' \<and> (\<forall>i < length (owners rs).
        if programmed (er_statuses res ! i)
        then upToDate (z_domainName zone) rs existing (owners rs ! i)
             \<or> acceptedIn (z_domainName zone) [changeFor now today (z_domainName zone) rs existing (owners rs ! i)] log
        else failedStatus (er_statuses res ! i) \<and> \<not> upToDate (z_domainName zone) rs existing (owners rs ! i)))"
  using assms by (intro ensureRead_outcome) (simp add: EnsureRecordSet_def)

theorem EnsureRecordSet_reports_witness:
  "\<exists>s' res. EnsureRecordSet (serving_env [aHeldRRset]) [] firstOfType 7 ''2024010100'' aZone aRecordSet = (s', res)
     \<and> map st_name (er_statuses res) = owners aRecordSet \<and> owners aRecordSet = [''api'']"
proof -
  obtain s' res where r: "EnsureRecordSet (serving_env [aHeldRRset]) [] firstOfType 7 ''2024010100'' aZone aRecordSet
      = (s', res)" by fastforce
  have "owners aRecordSet = [''api'']" by code_simp
  with r EnsureRecordSet_reports [OF serving_env_read r] show ?thesis by blast
qed

subsection \<open>Settling\<close>

lemma stampComment_keeps [simp]:
  "cm_account (stampComment now held c) = cm_account c" "cm_content (stampComment now held c) = cm_content c"
  by (simp_all add: stampComment_def)

lemma observe_ownerComments:
  assumes "- (2 ^ 63) \<le> gen" and "gen < 2 ^ 63"
  shows "foldl observe (0, []) (stampComments (ownerComments ref gen uid) held now) = (gen, uid)"
  using ParseInt64_int_str [OF assms]
  by (simp add: stampComments_def ownerComments_def observe_def mkComment_def account_defs)

lemma written_matches:
  assumes "zr_comments rr = rr_comments (changeFor now today zone rs existing ow)"
    and "- (2 ^ 63) \<le> m_generation (rs_meta rs)" and "m_generation (rs_meta rs) < 2 ^ 63"
  shows "rrsetMatchesObject rr rs"
  using assms(1) observe_ownerComments [OF assms(2,3)]
  by (simp add: rrsetMatchesObject_def changeFor_def buildReplaceRRSet_def)

lemma written_owned:
  assumes "zr_comments rr = rr_comments (changeFor now today zone rs existing ow)"
  shows "rrsetOwnerRef rr = recordSetOwnerRef rs"
proof -
  have "\<exists>cs. zr_comments rr = Some cs \<and> (\<exists>t ds. cs =
      \<lparr>cm_account = ACCOUNT_OWNER, cm_content = recordSetOwnerRef rs, cm_modifiedAt = t\<rparr> # ds)"
    using assms by (simp add: changeFor_def buildReplaceRRSet_def stampComments_head)
  then show ?thesis by (auto simp: rrsetOwnerRef_def commentsOf_def)
qed

text \<open>
  C26: The ownership a write stamps is read back: an RRset that PowerDNS holds with the comments
  of the change built for a name is recognised as written by this object at this generation, and
  names this record set as its owner. The generation is an int64 that is printed and parsed.
\<close>

theorem change_recognised:
  assumes "zr_comments rr = rr_comments (changeFor now today zone rs existing ow)"
    and "- (2 ^ 63) \<le> m_generation (rs_meta rs)" and "m_generation (rs_meta rs) < 2 ^ 63"
  shows "rrsetMatchesObject rr rs \<and> rrsetOwnerRef rr = recordSetOwnerRef rs"
  using written_matches [OF assms] written_owned [OF assms(1)] by blast

theorem change_recognised_witness:
  "rrsetMatchesObject (aHeldRRset\<lparr>zr_comments := rr_comments (changeFor 7 ''2024010100'' ''example.com'' aRecordSet [] ''api'')\<rparr>) aRecordSet"
  using change_recognised [of "aHeldRRset\<lparr>zr_comments := rr_comments (changeFor 7 ''2024010100'' ''example.com'' aRecordSet [] ''api'')\<rparr>"
      7 "''2024010100''" "''example.com''" aRecordSet "[]" "''api''"]
  by (simp add: aRecordSet_def aMeta_def)

lemma ensureRead_idle:
  assumes "stale zone rs existing = []"
    and "ownedSurplus existing (recordSetOwnerRef rs) (rs_recordType rs) (rev (map (\<lambda>ow. Qualify ow zone) (owners rs))) = []"
  shows "ensureRead env s findCond now today zone rs existing =
    (s, \<lparr>er_statuses = keepTransitionTimes findCond (plannedStatuses now zone rs existing) (rs_recordSets rs),
         er_pruned = [], er_err = None\<rparr>)"
  using assms
  by (simp add: ensureRead_def ensureOwners_eq surplusDeletes_def pairDeletes_eq chunkRRSets_def sortRRSets_def
      errors_Join_def plannedStatuses_def)

text \<open>
  C9: The reconcile settles. Suppose a second zone read shows every declared name with the
  comments that the first reconcile built for it, or, for a name that was already up to date,
  with the RRset it had, and shows nothing else owned by the record set. Then a second reconcile
  of the same object, at any later time, sends nothing but its zone read, reports every declared
  name as programmed, prunes nothing and returns no error.
\<close>

theorem EnsureRecordSet_settles:
  assumes read: "getPDNSZoneRRSets env s (z_domainName zone) = (s1, Inr existing')"
    and written: "\<forall>ow \<in> set (owners rs). \<exists>rr. heldAt (z_domainName zone) rs existing' ow = Some rr
        \<and> (zr_comments rr = rr_comments (changeFor now today (z_domainName zone) rs existing ow)
           \<or> upToDate (z_domainName zone) rs existing ow \<and> heldAt (z_domainName zone) rs existing ow = Some rr)"
    and pruned: "\<forall>(key, rr) \<in> set existing'. rrsetOwnerRef rr = recordSetOwnerRef rs \<longrightarrow>
        k_typ key = rs_recordType rs \<and> k_name key \<in> (\<lambda>ow. Qualify ow (z_domainName zone)) ` set (owners rs)"
    and gen: "- (2 ^ 63) \<le> m_generation (rs_meta rs)" "m_generation (rs_meta rs) < 2 ^ 63"
  shows "\<exists>res. EnsureRecordSet env s findCond now' today' zone rs = (s1, res)
    \<and> map st_name (er_statuses res) = owners rs \<and> list_all programmed (er_statuses res)
    \<and> er_pruned res = [] \<and> er_err res = None"
proof -
  let ?z = "z_domainName zone"
  have up: "upToDate ?z rs existing' ow" if "ow \<in> set (owners rs)" for ow
  proof -
    from written that obtain rr where rr: "heldAt ?z rs existing' ow = Some rr"
      "zr_comments rr = rr_comments (changeFor now today ?z rs existing ow)
       \<or> upToDate ?z rs existing ow \<and> heldAt ?z rs existing ow = Some rr" by blast
    from rr(2) have "rrsetMatchesObject rr rs"
      using written_matches [OF _ gen] by (auto simp: upToDate_def)
    with rr(1) show ?thesis by (simp add: upToDate_def)
  qed
  then have "stale ?z rs existing' = []" by (auto simp: stale_def filter_empty_conv)
  moreover have "ownedSurplus existing' (recordSetOwnerRef rs) (rs_recordType rs) (rev (map (\<lambda>ow. Qualify ow ?z) (owners rs))) = []"
    using pruned by (fastforce simp: ownedSurplus_def filter_empty_conv)
  ultimately have "EnsureRecordSet env s findCond now' today' zone rs =
    (s1, \<lparr>er_statuses = keepTransitionTimes findCond (plannedStatuses now' ?z rs existing') (rs_recordSets rs),
          er_pruned = [], er_err = None\<rparr>)"
    using read by (simp add: EnsureRecordSet_def ensureRead_idle)
  moreover have "length (plannedStatuses now' ?z rs existing') = length (owners rs)"
    by (simp add: plannedStatuses_def)
  then have "list_all programmed (keepTransitionTimes findCond (plannedStatuses now' ?z rs existing') (rs_recordSets rs))"
    by (simp add: list_all_length keepTransitionTimes_nth plannedStatuses_programmed)
  ultimately show ?thesis by (simp add: keepTransitionTimes_names plannedStatuses_names)
qed

definition aWrittenRRset :: zoneRRset where
  "aWrittenRRset = \<lparr>zr_name = ''api.example.com.'', zr_type = ''A'', zr_ttl = 300,
     zr_records = [mkRecord ''192.0.2.7''],
     zr_comments = rr_comments (changeFor 7 ''2024010100'' ''example.com'' aRecordSet [] ''api'')\<rparr>"

theorem EnsureRecordSet_settles_witness:
  "\<exists>res. EnsureRecordSet (serving_env [aWrittenRRset]) [] firstOfType 9 ''2024010200'' aZone aRecordSet
      = ([GetZoneReq ''example.com.''], res)
    \<and> map st_name (er_statuses res) = owners aRecordSet \<and> list_all programmed (er_statuses res)
    \<and> er_pruned res = [] \<and> er_err res = None"
proof -
  have ow: "owners aRecordSet = [''api'']" by code_simp
  have h: "heldAt ''example.com'' aRecordSet (indexRRSets [aWrittenRRset]) ''api'' = Some aWrittenRRset"
    by code_simp
  have "\<exists>res. EnsureRecordSet (serving_env [aWrittenRRset]) [] firstOfType 9 ''2024010200'' aZone aRecordSet
      = ([] @ [GetZoneReq (zone_path (z_domainName aZone))], res)
    \<and> map st_name (er_statuses res) = owners aRecordSet \<and> list_all programmed (er_statuses res)
    \<and> er_pruned res = [] \<and> er_err res = None"
  proof (rule EnsureRecordSet_settles [OF serving_env_read, where now = 7 and today = "''2024010100''" and existing = "[]"])
    show "\<forall>ow \<in> set (owners aRecordSet). \<exists>rr. heldAt (z_domainName aZone) aRecordSet (indexRRSets [aWrittenRRset]) ow = Some rr
        \<and> (zr_comments rr = rr_comments (changeFor 7 ''2024010100'' (z_domainName aZone) aRecordSet [] ow)
           \<or> upToDate (z_domainName aZone) aRecordSet [] ow \<and> heldAt (z_domainName aZone) aRecordSet [] ow = Some rr)"
      using ow h by (simp add: aZone_def aWrittenRRset_def del: set_owners)
    show "\<forall>(key, rr) \<in> set (indexRRSets [aWrittenRRset]). rrsetOwnerRef rr = recordSetOwnerRef aRecordSet \<longrightarrow>
        k_typ key = rs_recordType aRecordSet
        \<and> k_name key \<in> (\<lambda>ow. Qualify ow (z_domainName aZone)) ` set (owners aRecordSet)"
      by code_simp
  qed (simp_all add: aRecordSet_def aMeta_def)
  then show ?thesis by (simp add: aZone_def zone_path_def)
qed

subsection \<open>Deleting a record set\<close>

text \<open>What a deleted record set may remove: RRsets in the zone read that carry its ownership, and
  those at a name it declares, of its type, that carry none.\<close>

definition deletableBy :: "string \<Rightarrow> DNSRecordSet \<Rightarrow> zone_map \<Rightarrow> string \<Rightarrow> string \<Rightarrow> bool" where
  "deletableBy zone rs existing name typ \<longleftrightarrow>
     (\<exists>rr. (\<lparr>k_name = name, k_typ = typ\<rparr>, rr) \<in> set existing
        \<and> (rrsetOwnerRef rr = recordSetOwnerRef rs
           \<or> rrsetOwnerRef rr = [] \<and> typ = rs_recordType rs
             \<and> (\<exists>e \<in> set (rs_records rs). name = Qualify (re_name e) zone)))"

lemma deleteTargets_deletable:
  assumes "key \<in> set (deleteTargets zone rs existing)"
  shows "deletableBy zone rs existing (k_name key) (k_typ key)"
proof -
  from assms consider
      e where "e \<in> set (rs_records rs)" "key = \<lparr>k_name = Qualify (re_name e) zone, k_typ = rs_recordType rs\<rparr>"
        "deletable existing (recordSetOwnerRef rs) key"
    | rr where "(key, rr) \<in> set existing" "rrsetOwnerRef rr = recordSetOwnerRef rs"
    by (auto simp: deleteTargets_def ownedSurplus_def Let_def)
  then show ?thesis
  proof cases
    case (1 e)
    from 1(3) obtain rr where "map_of existing key = Some rr" "rrsetOwnerRef rr = [] \<or> rrsetOwnerRef rr = recordSetOwnerRef rs"
      by (auto simp: deletable_def split: option.splits)
    with 1 show ?thesis by (auto simp: deletableBy_def dest: map_of_SomeD)
  next
    case (2 rr)
    then show ?thesis by (auto simp: deletableBy_def)
  qed
qed

lemma deleteTargets_owned:
  "(key, rr) \<in> set existing \<Longrightarrow> rrsetOwnerRef rr = recordSetOwnerRef rs \<Longrightarrow> key \<in> set (deleteTargets zone rs existing)"
  by (force simp: deleteTargets_def ownedSurplus_def Let_def)

definition targetDeletes :: "string \<Rightarrow> DNSRecordSet \<Rightarrow> zone_map \<Rightarrow> rrset list" where
  "targetDeletes zone rs existing = sortRRSets (map (\<lambda>key. newDeleteRRSet (k_name key) (k_typ key))
     (deleteTargets zone rs existing))"

lemma targetDeletes_delete: "d \<in> set (targetDeletes zone rs existing) \<Longrightarrow> rr_changeType d = changeTypeDelete"
  by (auto simp: targetDeletes_def newDeleteRRSet_def)

lemma only_deletes: "\<forall>d \<in> set patch. rr_changeType d = changeTypeDelete \<Longrightarrow> \<not> deletesAndReplaces patch"
  by (auto simp: deletesAndReplaces_def changeTypeDelete_def changeTypeReplace_def)

lemma within_targets:
  assumes "within zone (set (targetDeletes zone rs existing)) x"
  shows "\<exists>ws. fst x = PatchReq (zone_path zone) ws \<and> (\<forall>w \<in> set ws. deletableBy zone rs existing (w_name w) (w_type w)
    \<and> (w_changetype w = changeTypeDelete \<or> w = clearWire (w_name w) (w_type w)))"
proof -
  obtain patch where p: "set patch \<subseteq> set (targetDeletes zone rs existing)" "fst x = patchOf zone patch"
    using assms by (auto simp: within_def)
  have "deletableBy zone rs existing (w_name w) (w_type w)
      \<and> (w_changetype w = changeTypeDelete \<or> w = clearWire (w_name w) (w_type w))"
    if "w \<in> set (map marshalRRSet (withClears (sortRRSets patch)))" for w
  proof -
    from that obtain d where d: "d \<in> set patch"
      and w: "w = marshalRRSet d \<or> w = clearWire (rr_name d) (rr_type d)"
      by (auto simp: withClears_def split: if_splits)
    from d p(1) obtain key where "key \<in> set (deleteTargets zone rs existing)" "d = newDeleteRRSet (k_name key) (k_typ key)"
      by (auto simp: targetDeletes_def)
    with deleteTargets_deletable w show ?thesis
      by (auto simp: newDeleteRRSet_def marshalRRSet_def clearWire_def)
  qed
  then show ?thesis using p(2) by (auto simp: patchOf_def)
qed

lemma chunk_accepted_all:
  assumes "applyChunks env s zone (chunkRRSets xs) = (s', applied, None)"
    and "\<And>ys. set ys \<subseteq> set xs \<Longrightarrow> \<not> deletesAndReplaces ys"
  shows "\<exists>log. trace env s log s' \<and> (\<forall>x \<in> set log. within zone (set xs) x) \<and> (\<forall>rr \<in> set xs. acceptedIn zone [rr] log)"
proof -
  let ?cs = "chunkRRSets xs"
  from applyChunks_accepted [OF assms(1)] obtain as where as: "length as = length ?cs" "list_all accepted as"
    "trace env s (zip (map (\<lambda>c. patchOf zone (ch_rrsets c)) ?cs) as) s'" (is "trace _ _ ?log _")
    by (auto dest: chunk_nonempty)
  have sub: "set (ch_rrsets c) \<subseteq> set xs" if "c \<in> set ?cs" for c
    using that chunk_members [of xs] by blast
  have "within zone (set xs) x" if "x \<in> set ?log" for x
  proof -
    from that obtain i where i: "i < length ?cs" "x = (patchOf zone (ch_rrsets (?cs ! i)), as ! i)"
      by (auto simp: set_zip)
    with sub [OF nth_mem [OF i(1)]] assms(2) show ?thesis by (auto simp: within_def)
  qed
  moreover have "acceptedIn zone [rr] ?log" if "rr \<in> set xs" for rr
  proof -
    from that chunk_members [of xs] obtain c where "c \<in> set ?cs" "rr \<in> set (ch_rrsets c)" by blast
    then obtain i where i: "i < length ?cs" "rr \<in> set (ch_rrsets (?cs ! i))" by (auto simp: in_set_conv_nth)
    then have "(patchOf zone (ch_rrsets (?cs ! i)), as ! i) \<in> set ?log"
      using as(1) by (auto simp: set_zip intro!: exI [of _ i])
    moreover have "accepted (as ! i)" using as(1,2) i(1) by (simp add: list_all_length)
    ultimately show ?thesis using i(2) unfolding acceptedIn_def by force
  qed
  ultimately show ?thesis using as(3) by blast
qed

lemma DeleteRecordSet_run:
  assumes "getPDNSZoneRRSets env s (z_domainName zone) = (s1, Inr existing)"
    and "DeleteRecordSet env s zone rs = (s', pruned, e)"
  shows "\<exists>log. trace env s1 log s'
    \<and> (\<forall>x \<in> set log. \<exists>ws. fst x = PatchReq (zone_path (z_domainName zone)) ws
        \<and> (\<forall>w \<in> set ws. deletableBy (z_domainName zone) rs existing (w_name w) (w_type w)
             \<and> (w_changetype w = changeTypeDelete \<or> w = clearWire (w_name w) (w_type w))))
    \<and> (e = None \<longrightarrow> (\<forall>(key, rr) \<in> set existing. rrsetOwnerRef rr = recordSetOwnerRef rs \<longrightarrow>
        acceptedIn (z_domainName zone) [newDeleteRRSet (k_name key) (k_typ key)] log))"
proof -
  let ?z = "z_domainName zone"
  let ?ds = "targetDeletes ?z rs existing"
  obtain applied where a: "applyChunks env s1 ?z (chunkRRSets ?ds) = (s', applied, e)"
    using assms by (auto simp: DeleteRecordSet_def targetDeletes_def Let_def split: prod.splits)
  show ?thesis
  proof (cases e)
    case None
    have "\<not> deletesAndReplaces ys" if "set ys \<subseteq> set ?ds" for ys
      using that targetDeletes_delete by (intro only_deletes) blast
    from chunk_accepted_all [OF a [unfolded None] this] obtain log where log: "trace env s1 log s'"
      "\<forall>x \<in> set log. within ?z (set ?ds) x" "\<forall>rr \<in> set ?ds. acceptedIn ?z [rr] log" by blast
    have "acceptedIn ?z [newDeleteRRSet (k_name key) (k_typ key)] log"
      if "(key, rr) \<in> set existing" "rrsetOwnerRef rr = recordSetOwnerRef rs" for key rr
      using log(3) deleteTargets_owned [OF that] by (simp add: targetDeletes_def)
    with log(1,2) within_targets show ?thesis by (intro exI [of _ log]) blast
  next
    case (Some er)
    from applyChunks_within [OF a] obtain log where "trace env s1 log s'"
      "\<forall>x \<in> set log. within ?z (set ?ds) x" unfolding chunk_members by blast
    with Some within_targets show ?thesis by (intro exI [of _ log]) blast
  qed
qed

text \<open>
  C15: Deleting a record set removes all of its RRsets and none of anyone else's. The call begins with a
  read of the zone. When the read fails, nothing is sent, and the call returns an error exactly when the
  failure is another than that the zone is gone. When it succeeds, every change deletes, or clears the
  comments behind the delete of, an RRset that carries this record set's ownership, or that carries none
  and sits at a name and type it declares, and when no error is returned, every RRset of the zone read
  that carries its ownership has been deleted in a patch PowerDNS accepted. (No other record set is asked
  whether it spells the same name: the guard that \<^verbatim>\<open>docs/architecture/record-ownership.md\<close> describes
  belongs to the per-name controller, which no command runs; here the ownership comment decides.)
\<close>

theorem DeleteRecordSet_removes_own:
  assumes "DeleteRecordSet env s zone rs = (s', pruned, e)"
  shows "case getPDNSZoneRRSets env s (z_domainName zone) of
      (s1, Inl failure) \<Rightarrow> s' = s1 \<and> (e = None \<longleftrightarrow> isZoneNotFound failure)
    | (s1, Inr existing) \<Rightarrow> \<exists>log. trace env s1 log s'
        \<and> (\<forall>x \<in> set log. \<exists>ws. fst x = PatchReq (zone_path (z_domainName zone)) ws
            \<and> (\<forall>w \<in> set ws. deletableBy (z_domainName zone) rs existing (w_name w) (w_type w)
                 \<and> (w_changetype w = changeTypeDelete \<or> w = clearWire (w_name w) (w_type w))))
        \<and> (e = None \<longrightarrow> (\<forall>(key, rr) \<in> set existing. rrsetOwnerRef rr = recordSetOwnerRef rs \<longrightarrow>
            acceptedIn (z_domainName zone) [newDeleteRRSet (k_name key) (k_typ key)] log))"
proof -
  have "s' = s1 \<and> (e = None \<longleftrightarrow> isZoneNotFound failure)"
    if "getPDNSZoneRRSets env s (z_domainName zone) = (s1, Inl failure)" for s1 failure
    using assms that by (auto simp: DeleteRecordSet_def Let_def split: if_splits)
  with DeleteRecordSet_run [OF _ assms] show ?thesis by (simp split: prod.splits sum.splits)
qed

theorem DeleteRecordSet_removes_own_witness:
  "\<exists>log. trace (serving_env [aHeldRRset]) [GetZoneReq ''example.com.''] log
      (fst (DeleteRecordSet (serving_env [aHeldRRset]) [] aZone aRecordSet))
    \<and> acceptedIn ''example.com'' [newDeleteRRSet ''www.example.com.'' ''A''] log"
proof -
  have e: "snd (snd (DeleteRecordSet (serving_env [aHeldRRset]) [] aZone aRecordSet)) = None" by code_simp
  obtain s' pruned where r: "DeleteRecordSet (serving_env [aHeldRRset]) [] aZone aRecordSet = (s', pruned, None)"
    using e by (metis prod.collapse)
  have "indexRRSets [aHeldRRset] = [(\<lparr>k_name = ''www.example.com.'', k_typ = ''A''\<rparr>, aHeldRRset)]"
    and "rrsetOwnerRef aHeldRRset = recordSetOwnerRef aRecordSet" by code_simp+
  with DeleteRecordSet_removes_own [OF r] serving_env_read r show ?thesis
    by (auto simp: aZone_def zone_path_def)
qed

end
