(* ===== verification/Record_Status.thy ===== *)
theory Record_Status
  imports Pdns_RecordSet
begin

text \<open>
  How the state of zones and records is put into words (\<^verbatim>\<open>internal/dns/util\<close>): the status word
  of a zone and of one owner name in a record set, the delegation of a zone at its registrar, and
  who a record set belongs to. Label maps are association lists. \<open>findCond\<close> stands for
  \<^verbatim>\<open>meta.FindStatusCondition\<close> of apimachinery.
\<close>

section \<open>Definitions\<close>

subsection \<open>Status words\<close>

type_synonym cond_finder = "Condition list \<Rightarrow> string \<Rightarrow> Condition option"

definition CondAccepted :: string where "CondAccepted = ''Accepted''"
definition ReasonAccepted :: string where "ReasonAccepted = ''Accepted''"
definition ReasonPending :: string where "ReasonPending = ''Pending''"
definition ReasonNotOwner :: string where "ReasonNotOwner = ''NotOwner''"

definition StatusOK :: string where "StatusOK = ''OK''"
definition StatusPending :: string where "StatusPending = ''Pending''"
definition StatusError :: string where "StatusError = ''Error''"
definition StatusRejected :: string where "StatusRejected = ''Rejected''"
definition StatusProgrammed :: string where "StatusProgrammed = ''Programmed''"
definition StatusNotOwner :: string where "StatusNotOwner = ''Not owner''"
definition StatusConflict :: string where "StatusConflict = ''Conflict''"
definition StatusUnknown :: string where "StatusUnknown = ''Unknown''"
definition pendingDetail :: string where "pendingDetail = ''waiting for the DNS backend''"

lemmas status_words = CondAccepted_def ReasonAccepted_def ReasonPending_def ReasonNotOwner_def
  StatusOK_def StatusPending_def StatusError_def StatusRejected_def StatusProgrammed_def
  StatusNotOwner_def StatusConflict_def StatusUnknown_def pendingDetail_def

definition pluralRecords :: "int \<Rightarrow> string" where
  "pluralRecords n = (if n = 1 then ''1 record'' else int_str n @ '' records'')"

definition ZoneStatus :: "cond_finder \<Rightarrow> DNSZone option \<Rightarrow> string \<times> string" where
  "ZoneStatus findCond z =
     (case z of None \<Rightarrow> (StatusUnknown, ''no zone data'')
      | Some z \<Rightarrow>
          let rejected = (case findCond (z_conditions z) CondAccepted of
                Some acc \<Rightarrow> if c_status acc = ConditionFalse then Some acc else None
              | None \<Rightarrow> None) in
          case rejected of
            Some acc \<Rightarrow> (StatusRejected,
              firstNonEmpty [c_message acc, c_reason acc, ''the zone was rejected''])
          | None \<Rightarrow>
              (case findCond (z_conditions z) CondProgrammed of
                 None \<Rightarrow> (StatusPending, pendingDetail)
               | Some prog \<Rightarrow>
                   (case c_status prog of
                      ConditionTrue \<Rightarrow> (StatusOK, ''zone programmed, '' @ pluralRecords (z_recordCount z) @ '' live'')
                    | ConditionFalse \<Rightarrow>
                        if c_reason prog = ReasonPending \<or> c_reason prog = []
                        then (StatusPending, firstNonEmpty [c_message prog, pendingDetail])
                        else (StatusError, firstNonEmpty [c_message prog, c_reason prog])
                    | ConditionUnknown \<Rightarrow> (StatusPending, firstNonEmpty [c_message prog, pendingDetail]))))"

definition statusSeverity :: "string \<Rightarrow> int" where
  "statusSeverity word =
     (if word = StatusRejected then 70
      else if word = StatusError then 60
      else if word = StatusConflict then 50
      else if word = StatusNotOwner then 40
      else if word = StatusPending then 20
      else if word = StatusProgrammed then 10
      else if word = StatusUnknown then 5
      else 30)"

definition classifyProgrammed :: "Condition option \<Rightarrow> string \<times> string" where
  "classifyProgrammed c =
     (case c of None \<Rightarrow> (StatusPending, pendingDetail)
      | Some c \<Rightarrow>
          if c_status c = ConditionTrue then
            (StatusProgrammed, firstNonEmpty [c_message c, ''live in the DNS backend''])
          else if c_reason c = ReasonNotOwner then
            (StatusNotOwner, firstNonEmpty [c_message c, ''another record set owns this name''])
          else if c_reason c = ReasonConflict then
            (StatusConflict, firstNonEmpty [c_message c, ''the backend reported a conflict''])
          else if c_reason c = ReasonPDNSError then
            (StatusError, firstNonEmpty [c_message c, ''the backend reported an error''])
          else if c_reason c = ReasonPending \<or> c_reason c = [] then
            (StatusPending, firstNonEmpty [c_message c, pendingDetail])
          else (c_reason c, c_message c))"

definition ownerConditions :: "cond_finder \<Rightarrow> DNSRecordSet \<Rightarrow> string \<Rightarrow> string \<Rightarrow> string \<Rightarrow> Condition option list" where
  "ownerConditions findCond rs ownerName zone condType =
     (let want = qualifyOwner ownerName zone in
      map (\<lambda>st. findCond (st_conditions st) condType)
        (filter (\<lambda>st. qualifyOwner (st_name st) zone = want) (rs_recordSets rs)))"

text \<open>The loop of \<^verbatim>\<open>recordStatus\<close> that keeps the first of the worst.\<close>

definition worseStatus :: "int \<times> string \<times> string \<Rightarrow> Condition option \<Rightarrow> int \<times> string \<times> string" where
  "worseStatus worst c =
     (case classifyProgrammed c of (w, d) \<Rightarrow>
        if statusSeverity w > fst worst then (statusSeverity w, w, d) else worst)"

definition recordStatus :: "cond_finder \<Rightarrow> DNSRecordSet option \<Rightarrow> string \<Rightarrow> string \<Rightarrow> string \<times> string" where
  "recordStatus findCond rs ownerName zone =
     (case rs of None \<Rightarrow> (StatusUnknown, ''no record set data'')
      | Some rs \<Rightarrow>
          let rejected = (case findCond (rs_conditions rs) CondAccepted of
                Some acc \<Rightarrow> if c_status acc = ConditionFalse then Some acc else None
              | None \<Rightarrow> None) in
          case rejected of
            Some acc \<Rightarrow> (StatusRejected,
              firstNonEmpty [c_message acc, c_reason acc, ''the record set was rejected''])
          | None \<Rightarrow>
              let conditions = ownerConditions findCond rs ownerName zone CondProgrammed in
              if conditions = [] then (StatusPending, pendingDetail)
              else snd (foldl worseStatus (-1, [], []) conditions))"

definition RecordStatus :: "cond_finder \<Rightarrow> DNSRecordSet option \<Rightarrow> string \<Rightarrow> string \<times> string" where
  "RecordStatus findCond rs ownerName = recordStatus findCond rs ownerName []"

definition RecordStatusInZone :: "cond_finder \<Rightarrow> DNSRecordSet option \<Rightarrow> string \<Rightarrow> string \<Rightarrow> string \<times> string" where
  "RecordStatusInZone findCond rs ownerName zone = recordStatus findCond rs ownerName zone"

subsection \<open>Delegation\<close>

datatype delegation_state = DelegationComplete | DelegationPartial | DelegationIncomplete | DelegationUnknown

record Delegation =
  d_state :: delegation_state
  d_expected :: "string list"
  d_observed :: "string list"
  d_setCount :: nat
  d_total :: nat
  d_linked :: bool

definition IsSet :: "Delegation \<Rightarrow> string \<Rightarrow> bool" where
  "IsSet d nameserver \<longleftrightarrow>
     list_ex (\<lambda>observed. normalizeNameserver observed = normalizeNameserver nameserver) (d_observed d)"

definition DelegationState :: "DNSZone option \<Rightarrow> Delegation" where
  "DelegationState z =
     (case z of
        None \<Rightarrow> \<lparr>d_state = DelegationUnknown, d_expected = [], d_observed = [], d_setCount = 0, d_total = 0, d_linked = False\<rparr>
      | Some z \<Rightarrow>
          let expected = z_nameservers z; total = length expected;
              linked = (z_domainRef z \<noteq> None);
              observed = (case z_domainRef z of None \<Rightarrow> [] | Some r \<Rightarrow> map ns_hostname (dr_nameservers r));
              d = \<lparr>d_state = DelegationUnknown, d_expected = expected, d_observed = observed, d_setCount = 0,
                   d_total = total, d_linked = linked\<rparr> in
          if total = 0 \<or> \<not> linked \<or> length observed = 0 then d
          else
            let seen = filter (\<lambda>n. n \<noteq> []) (map normalizeNameserver observed);
                setCount = foldl (\<lambda>n e. if normalizeNameserver e \<in> set seen then n + 1 else n) 0 expected in
            d\<lparr>d_setCount := setCount,
              d_state := (if setCount = total then DelegationComplete
                          else if setCount = 0 then DelegationIncomplete else DelegationPartial)\<rparr>)"

subsection \<open>Whose record it is\<close>

definition LabelManagedBy :: string where "LabelManagedBy = ''app.kubernetes.io/managed-by''"
definition LabelDNSManaged :: string where "LabelDNSManaged = ''dns.datumapis.com/managed''"
definition LabelSourceKind :: string where "LabelSourceKind = ''dns.datumapis.com/source-kind''"
definition LabelSourceName :: string where "LabelSourceName = ''dns.datumapis.com/source-name''"
definition LabelSourceNamespace :: string where "LabelSourceNamespace = ''dns.datumapis.com/source-namespace''"
definition ValueManagedByNetworking :: string where "ValueManagedByNetworking = ''networking.datumapis.com''"
definition ValueDNSManaged :: string where "ValueDNSManaged = ''true''"
definition ValueSourceKindGateway :: string where "ValueSourceKindGateway = ''Gateway''"
definition LabelIrohConnectorName :: string where
  "LabelIrohConnectorName = ''networking.datumapis.com/iroh-dns-connector-name''"
definition LabelIrohConnectorNamespace :: string where
  "LabelIrohConnectorNamespace = ''networking.datumapis.com/iroh-dns-connector-namespace''"
definition LabelExternalDNSManagedBy :: string where "LabelExternalDNSManagedBy = ''external-dns.io/managed-by''"
definition ValueExternalDNSManagedBy :: string where "ValueExternalDNSManagedBy = ''datum-cloud-webhook''"
definition LabelExternalDNSOwner :: string where "LabelExternalDNSOwner = ''external-dns.io/owner''"

lemmas label_defs = LabelManagedBy_def LabelDNSManaged_def LabelSourceKind_def LabelSourceName_def
  LabelSourceNamespace_def ValueManagedByNetworking_def ValueDNSManaged_def ValueSourceKindGateway_def
  LabelIrohConnectorName_def LabelIrohConnectorNamespace_def LabelExternalDNSManagedBy_def
  ValueExternalDNSManagedBy_def LabelExternalDNSOwner_def

type_synonym labels = "(string \<times> string) list"

definition label :: "labels \<Rightarrow> string \<Rightarrow> string" where
  "label ls k = (case map_of ls k of Some v \<Rightarrow> v | None \<Rightarrow> [])"

definition MachineOwned :: "labels \<Rightarrow> bool \<times> string" where
  "MachineOwned ls =
     (if ls = [] then (False, [])
      else if \<not> (EqualFold (label ls LabelSourceKind) ValueSourceKindGateway
                \<or> EqualFold (label ls LabelDNSManaged) ValueDNSManaged
                \<or> EqualFold (label ls LabelManagedBy) ValueManagedByNetworking) then (False, [])
      else let name = label ls LabelSourceName; ns = label ls LabelSourceNamespace in
        if name = [] then (True, [])
        else if ns \<noteq> [] then (True, ns @ ''/'' @ name)
        else (True, name))"

datatype Provenance = ProvenanceUser | ProvenancePlatform | ProvenanceGateway | ProvenanceIroh | ProvenanceExternalDNS

definition Managed :: "Provenance \<Rightarrow> bool" where
  "Managed p \<longleftrightarrow> p \<noteq> ProvenanceUser"

definition IsPlatformShape :: "RRType \<Rightarrow> string \<Rightarrow> string \<Rightarrow> bool" where
  "IsPlatformShape t ownerName zoneDomain =
     (if t = RRTypeSOA then True
      else if t = RRTypeNS then qualifyOwner ownerName zoneDomain = qualifyOwner ''@'' zoneDomain
      else False)"

definition ClassifyOwnership :: "labels \<Rightarrow> RRType \<Rightarrow> string \<Rightarrow> string \<Rightarrow> Provenance \<times> string" where
  "ClassifyOwnership ls t ownerName zoneDomain =
     (if ls \<noteq> [] \<and> label ls LabelExternalDNSManagedBy = ValueExternalDNSManagedBy then
        (ProvenanceExternalDNS, label ls LabelExternalDNSOwner)
      else if ls \<noteq> [] \<and> label ls LabelIrohConnectorName \<noteq> [] then
        (ProvenanceIroh,
         if label ls LabelIrohConnectorNamespace \<noteq> []
         then label ls LabelIrohConnectorNamespace @ ''/'' @ label ls LabelIrohConnectorName
         else label ls LabelIrohConnectorName)
      else if ls \<noteq> [] \<and> fst (MachineOwned ls) then (ProvenanceGateway, snd (MachineOwned ls))
      else if IsPlatformShape t ownerName zoneDomain then (ProvenancePlatform, [])
      else (ProvenanceUser, []))"

section \<open>Lemmas\<close>

text \<open>The fold that keeps the first of the worst, from any start.\<close>

lemma worseStatus_fold:
  assumes "fst acc = -1 \<or> fst acc = statusSeverity (fst (snd acc))"
  shows "let res = foldl worseStatus acc cs in
    fst acc \<le> fst res
    \<and> (\<forall>c \<in> set cs. statusSeverity (fst (classifyProgrammed c)) \<le> fst res)
    \<and> (res = acc \<or> snd res \<in> classifyProgrammed ` set cs \<and> fst res = statusSeverity (fst (snd res)))"
  using assms
proof (induction cs arbitrary: acc)
  case Nil
  then show ?case by simp
next
  case (Cons c cs)
  obtain w d where c: "classifyProgrammed c = (w, d)" by fastforce
  define acc' where "acc' = worseStatus acc c"
  have acc': "acc' = (if statusSeverity w > fst acc then (statusSeverity w, w, d) else acc)"
    by (simp add: acc'_def worseStatus_def c)
  then have "fst acc' = -1 \<or> fst acc' = statusSeverity (fst (snd acc'))" using Cons.prems by auto
  from Cons.IH [OF this] acc' c show ?case
    by (simp add: Let_def acc'_def [symmetric]) (auto split: if_splits)
qed

lemma statusSeverity_pos: "statusSeverity w > 0"
  by (simp add: statusSeverity_def)

lemma statusSeverity_live: "statusSeverity w \<le> 10 \<Longrightarrow> w = StatusProgrammed \<or> w = StatusUnknown"
  by (simp add: statusSeverity_def split: if_splits)

lemma classifyProgrammed_live:
  assumes "fst (classifyProgrammed c) = StatusProgrammed \<or> fst (classifyProgrammed c) = StatusUnknown"
  shows "\<exists>c'. c = Some c' \<and> (c_status c' = ConditionTrue \<or> c_reason c' \<in> {''Programmed'', ''Unknown''})"
  using assms
  by (auto simp: classifyProgrammed_def status_words status_word_defs split: option.splits if_splits)

lemma setCount_filter: "foldl (\<lambda>n e. if P e then n + 1 else n) (k::nat) xs = k + length (filter P xs)"
  by (induction xs arbitrary: k) auto

lemma delegation_cases:
  assumes "st = (if p then DelegationComplete else if q then DelegationIncomplete else DelegationPartial)"
    and "\<not> (p \<and> q)"
  shows "(st = DelegationComplete \<longleftrightarrow> p) \<and> (st = DelegationIncomplete \<longleftrightarrow> q) \<and> st \<noteq> DelegationUnknown"
  using assms by simp

section \<open>Properties\<close>

text \<open>
  The word shown for an owner name is the worst among all spellings of that name. For a record
  set that is not rejected and has a status entry for some spelling of the name, the answer
  classifies one of those entries, none of them is more severe, and every spelling of the name
  gets the same answer. The word says Programmed only if every entry is programmed; the one way
  around it is an entry that is not programmed but whose reason is itself spelled Programmed or
  Unknown, which is passed through as it stands.
\<close>

theorem recordStatus_worst:
  assumes "\<forall>acc. findCond (rs_conditions rs) CondAccepted = Some acc \<longrightarrow> c_status acc \<noteq> ConditionFalse"
    and "conds = ownerConditions findCond rs owner zone CondProgrammed" and "conds \<noteq> []"
    and "recordStatus findCond (Some rs) owner zone = (word, detail)"
  shows "(word, detail) \<in> classifyProgrammed ` set conds
    \<and> (\<forall>c \<in> set conds. statusSeverity (fst (classifyProgrammed c)) \<le> statusSeverity word)
    \<and> (\<forall>other. qualifyOwner other zone = qualifyOwner owner zone \<longrightarrow>
         recordStatus findCond (Some rs) other zone = (word, detail))
    \<and> (word = StatusProgrammed \<longrightarrow> (\<forall>c \<in> set conds. \<exists>c'. c = Some c'
         \<and> (c_status c' = ConditionTrue \<or> c_reason c' \<in> {''Programmed'', ''Unknown''})))"
proof -
  let ?fold = "foldl worseStatus (-1, [], []) conds"
  have res: "recordStatus findCond (Some rs) owner zone = snd ?fold"
    using assms(1,3) by (auto simp: recordStatus_def assms(2) [symmetric] Let_def split: option.split)
  have run: "\<forall>c \<in> set conds. statusSeverity (fst (classifyProgrammed c)) \<le> fst ?fold"
    "?fold = (-1, [], []) \<or> snd ?fold \<in> classifyProgrammed ` set conds \<and> fst ?fold = statusSeverity (fst (snd ?fold))"
    using worseStatus_fold [of "(-1, [], [])" conds] by (simp_all add: Let_def)
  obtain c where "c \<in> set conds" using assms(3) by (cases conds) auto
  with run(1) statusSeverity_pos have "fst ?fold \<noteq> -1" by (metis le_less_trans less_irrefl neg_0_less_iff_less not_less_iff_gr_or_eq zero_less_one)
  then have pick: "(word, detail) \<in> classifyProgrammed ` set conds" "fst ?fold = statusSeverity word"
    using run(2) res assms(4) by (metis fst_conv)+
  have same: "recordStatus findCond (Some rs) other zone = (word, detail)"
    if "qualifyOwner other zone = qualifyOwner owner zone" for other
    using assms(4) that by (simp add: recordStatus_def ownerConditions_def)
  have "\<exists>c'. c = Some c' \<and> (c_status c' = ConditionTrue \<or> c_reason c' \<in> {''Programmed'', ''Unknown''})"
    if "word = StatusProgrammed" "c \<in> set conds" for c
  proof -
    have "statusSeverity word = 10" using that(1) by (simp add: statusSeverity_def status_words)
    with run(1) pick(2) that(2) have "statusSeverity (fst (classifyProgrammed c)) \<le> 10" by simp
    then show ?thesis by (intro classifyProgrammed_live statusSeverity_live)
  qed
  with pick run(1) same show ?thesis by simp
qed

definition conditionOf :: "ConditionStatus \<Rightarrow> string \<Rightarrow> Condition" where
  "conditionOf status reason = \<lparr>c_type = CondProgrammed, c_status = status, c_reason = reason,
     c_message = [], c_generation = 1, c_transition = 0\<rparr>"

definition twoSpellings :: DNSRecordSet where
  "twoSpellings = aRecordSet\<lparr>rs_recordSets :=
     [\<lparr>st_name = ''www'', st_conditions = [conditionOf ConditionTrue ReasonProgrammed]\<rparr>,
      \<lparr>st_name = ''WWW.example.com.'', st_conditions = [conditionOf ConditionFalse ReasonConflict]\<rparr>]\<rparr>"

theorem recordStatus_worst_witness:
  "recordStatus firstOfType (Some twoSpellings) ''www'' ''example.com'' = (StatusConflict, ''the backend reported a conflict'')
   \<and> recordStatus firstOfType (Some twoSpellings) ''WWW.Example.com.'' ''example.com''
      = (StatusConflict, ''the backend reported a conflict'')"
proof -
  have r: "recordStatus firstOfType (Some twoSpellings) ''www'' ''example.com''
      = (StatusConflict, ''the backend reported a conflict'')" by code_simp
  have ne: "ownerConditions firstOfType twoSpellings ''www'' ''example.com'' CondProgrammed \<noteq> []" by code_simp
  have "\<forall>acc. firstOfType (rs_conditions twoSpellings) CondAccepted = Some acc \<longrightarrow> c_status acc \<noteq> ConditionFalse"
    by (simp add: twoSpellings_def aRecordSet_def firstOfType_def)
  from recordStatus_worst [OF this refl ne r] have
    "\<forall>other. qualifyOwner other ''example.com'' = qualifyOwner ''www'' ''example.com'' \<longrightarrow>
        recordStatus firstOfType (Some twoSpellings) other ''example.com''
          = (StatusConflict, ''the backend reported a conflict'')" by blast
  moreover have "qualifyOwner ''WWW.Example.com.'' ''example.com'' = qualifyOwner ''www'' ''example.com''" by code_simp
  ultimately show ?thesis using r by blast
qed

text \<open>A condition that is not programmed but gives the reason Programmed is shown as Programmed.\<close>

lemma classifyProgrammed_raw_reason:
  "classifyProgrammed (Some (conditionOf ConditionFalse ''Programmed'')) = (StatusProgrammed, [])"
  by code_simp

text \<open>
  The delegation of a zone is counted right. With at least one expected nameserver, a linked
  domain and at least one observed nameserver, the count is the number of expected nameservers
  that the registrar lists (names compared without case, spaces around and the final dot; a blank
  name never counts), the state is Complete, Incomplete or Partial as all, none or some are
  listed, and without those data the state is Unknown.
\<close>

theorem DelegationState_counts:
  "let d = DelegationState (Some z);
       listed = (\<lambda>e. normalizeNameserver e \<noteq> [] \<and> IsSet d e) in
   if z_nameservers z = [] \<or> z_domainRef z = None \<or> d_observed d = [] then d_state d = DelegationUnknown
   else d_setCount d = length (filter listed (z_nameservers z)) \<and> d_setCount d \<le> d_total d
     \<and> (d_state d = DelegationComplete \<longleftrightarrow> list_all listed (z_nameservers z))
     \<and> (d_state d = DelegationIncomplete \<longleftrightarrow> \<not> list_ex listed (z_nameservers z))
     \<and> d_state d \<noteq> DelegationUnknown"
proof (cases "z_nameservers z = [] \<or> z_domainRef z = None \<or> d_observed (DelegationState (Some z)) = []")
  case True
  then show ?thesis by (auto simp: DelegationState_def Let_def split: option.splits if_splits)
next
  case False
  then obtain r where r: "z_domainRef z = Some r" by auto
  let ?d = "DelegationState (Some z)"
  let ?seen = "filter (\<lambda>n. n \<noteq> []) (map normalizeNameserver (map ns_hostname (dr_nameservers r)))"
  let ?listed = "\<lambda>e. normalizeNameserver e \<noteq> [] \<and> IsSet ?d e"
  let ?n = "length (filter (\<lambda>e. normalizeNameserver e \<in> set ?seen) (z_nameservers z))"
  have obs: "d_observed ?d = map ns_hostname (dr_nameservers r)"
    by (simp add: DelegationState_def Let_def r)
  have listed: "(\<lambda>e. normalizeNameserver e \<in> set ?seen) = ?listed"
    by (auto simp: fun_eq_iff IsSet_def obs list_ex_iff intro: rev_image_eqI)
  have ne: "dr_nameservers r \<noteq> []" using False obs by auto
  have count: "d_setCount ?d = ?n" and total: "d_total ?d = length (z_nameservers z)"
    and state: "d_state ?d = (if ?n = length (z_nameservers z) then DelegationComplete
      else if ?n = 0 then DelegationIncomplete else DelegationPartial)"
    using False ne by (simp_all add: DelegationState_def Let_def r setCount_filter del: set_filter)
  have all: "?n = length (z_nameservers z) \<longleftrightarrow> list_all ?listed (z_nameservers z)"
    unfolding listed by (metis (mono_tags, lifting) filter_id_conv length_filter_less less_irrefl list_all_iff)
  have none: "?n = 0 \<longleftrightarrow> \<not> list_ex ?listed (z_nameservers z)"
    unfolding listed by (simp add: filter_empty_conv list_ex_iff)
  have "\<not> (list_all ?listed (z_nameservers z) \<and> \<not> list_ex ?listed (z_nameservers z))"
    using False by (cases "z_nameservers z") auto
  then have both: "\<not> (?n = length (z_nameservers z) \<and> ?n = 0)" unfolding all none .
  have complete: "d_state ?d = DelegationComplete \<longleftrightarrow> ?n = length (z_nameservers z)"
    and incomplete: "d_state ?d = DelegationIncomplete \<longleftrightarrow> ?n = 0"
    and known: "d_state ?d \<noteq> DelegationUnknown"
    using delegation_cases [OF state both] by blast+
  show ?thesis
    unfolding Let_def if_not_P [OF False] complete [unfolded all] incomplete [unfolded none]
    unfolding count total listed using known by simp
qed

end
