(* ===== verification/Dns_Backend.thy ===== *)
theory Dns_Backend
  imports Pdns_RecordSet
begin

text \<open>
  The provider interface of the controllers (\<^verbatim>\<open>internal/dns/client.go\<close>) as a record of its
  operations, the two providers that implement it (\<^verbatim>\<open>internal/dns/pdns\<close> and
  \<^verbatim>\<open>internal/dns/fake\<close>), and the choice between them (\<^verbatim>\<open>internal/dns/handler.go\<close>). The
  locale \<open>record_backend\<close> is what a controller may rely on for every provider, \<open>complete_backend\<close>
  what PowerDNS promises on top of it.
\<close>

section \<open>Definitions\<close>

subsection \<open>The interface\<close>

record 's dns_backend =
  bk_EnsureZone :: "'s \<Rightarrow> DNSZone \<Rightarrow> DNSZoneClass \<Rightarrow> 's \<times> err"
  bk_DeleteZone :: "'s \<Rightarrow> DNSZone \<Rightarrow> 's \<times> err"
  bk_GetZoneNameservers :: "DNSZone \<Rightarrow> DNSZoneClass \<Rightarrow> string list"
  bk_EnsureRecordSet :: "'s \<Rightarrow> DNSZone \<Rightarrow> DNSRecordSet \<Rightarrow> 's \<times> RecordSetStatus list \<times> err"
  bk_DeleteRecordSet :: "'s \<Rightarrow> DNSZone \<Rightarrow> DNSRecordSet \<Rightarrow> 's \<times> err"
  bk_ReplaceRRSet :: "'s \<Rightarrow> string \<Rightarrow> string \<Rightarrow> string \<Rightarrow> int \<Rightarrow> string list \<Rightarrow> string \<Rightarrow> int \<Rightarrow> string \<Rightarrow> 's \<times> err"
  bk_DeleteRRSet :: "'s \<Rightarrow> string \<Rightarrow> string \<Rightarrow> string \<Rightarrow> 's \<times> err"

text \<open>The PowerDNS client at one reading of the clock.\<close>

definition pdnsBackend ::
  "'s pdns_env \<Rightarrow> (Condition list \<Rightarrow> string \<Rightarrow> Condition option) \<Rightarrow> int \<Rightarrow> string \<Rightarrow> 's dns_backend" where
  "pdnsBackend env findCond now today =
     \<lparr>bk_EnsureZone = EnsureZone env,
      bk_DeleteZone = DeleteZone env,
      bk_GetZoneNameservers = GetZoneNameservers,
      bk_EnsureRecordSet = (\<lambda>s zone rs. case EnsureRecordSet env s findCond now today zone rs of
         (s', res) \<Rightarrow> (s', er_statuses res, er_err res)),
      bk_DeleteRecordSet = (\<lambda>s zone rs. case DeleteRecordSet env s zone rs of (s', pruned, e) \<Rightarrow> (s', e)),
      bk_ReplaceRRSet = (\<lambda>s. ReplaceRRSet env s now),
      bk_DeleteRRSet = DeleteRRSet env\<rparr>"

subsection \<open>The fake provider\<close>

record ReplaceCall =
  rc_zone :: string
  rc_recordType :: string
  rc_ownerName :: string
  rc_ttl :: int
  rc_values :: "string list"
  rc_ownerUID :: string

record DeleteCall =
  dc_zone :: string
  dc_recordType :: string
  dc_ownerName :: string

record FakeDNSClient =
  fk_replaceCalls :: "ReplaceCall list"
  fk_deleteCalls :: "DeleteCall list"
  fk_ensureZoneCalls :: "(string \<times> string) list"
  fk_deleteZoneCalls :: "string list"
  fk_replaceErr :: err
  fk_deleteErr :: err
  fk_ensureZoneErr :: err
  fk_deleteZoneErr :: err

definition fakeEnsureZone :: "FakeDNSClient \<Rightarrow> DNSZone \<Rightarrow> DNSZoneClass \<Rightarrow> FakeDNSClient \<times> err" where
  "fakeEnsureZone f z c =
     (f\<lparr>fk_ensureZoneCalls := fk_ensureZoneCalls f @ [(m_name (z_meta z), zc_name c)]\<rparr>, fk_ensureZoneErr f)"

definition fakeDeleteZone :: "FakeDNSClient \<Rightarrow> DNSZone \<Rightarrow> FakeDNSClient \<times> err" where
  "fakeDeleteZone f z = (f\<lparr>fk_deleteZoneCalls := fk_deleteZoneCalls f @ [m_name (z_meta z)]\<rparr>, fk_deleteZoneErr f)"

definition fakeReplaceRRSet ::
  "FakeDNSClient \<Rightarrow> string \<Rightarrow> string \<Rightarrow> string \<Rightarrow> int \<Rightarrow> string list \<Rightarrow> string \<Rightarrow> int \<Rightarrow> string \<Rightarrow> FakeDNSClient \<times> err" where
  "fakeReplaceRRSet f zone recordType ownerName ttl values ownerRef observedGeneration objectUID =
     (f\<lparr>fk_replaceCalls := fk_replaceCalls f @ [\<lparr>rc_zone = zone, rc_recordType = recordType, rc_ownerName = ownerName,
          rc_ttl = ttl, rc_values = values, rc_ownerUID = objectUID\<rparr>]\<rparr>, fk_replaceErr f)"

definition fakeDeleteRRSet :: "FakeDNSClient \<Rightarrow> string \<Rightarrow> string \<Rightarrow> string \<Rightarrow> FakeDNSClient \<times> err" where
  "fakeDeleteRRSet f zone recordType ownerName =
     (f\<lparr>fk_deleteCalls := fk_deleteCalls f @ [\<lparr>dc_zone = zone, dc_recordType = recordType, dc_ownerName = ownerName\<rparr>]\<rparr>,
      fk_deleteErr f)"

definition fakeBackend :: "FakeDNSClient dns_backend" where
  "fakeBackend =
     \<lparr>bk_EnsureZone = fakeEnsureZone, bk_DeleteZone = fakeDeleteZone,
      bk_GetZoneNameservers = (\<lambda>zone class. []),
      bk_EnsureRecordSet = (\<lambda>f zone rs. (f, [], None)),
      bk_DeleteRecordSet = (\<lambda>f zone rs. (f, None)),
      bk_ReplaceRRSet = fakeReplaceRRSet, bk_DeleteRRSet = fakeDeleteRRSet\<rparr>"

subsection \<open>The handler\<close>

datatype provider = PowerDNSProvider | FakeProvider

record DNSHandler =
  h_name :: string
  h_type :: string
  h_provider :: provider

text \<open>\<open>envErr\<close> is the error of reading the PowerDNS settings from the environment, if any.\<close>

definition New :: "err \<Rightarrow> string \<Rightarrow> string \<Rightarrow> go_error + DNSHandler" where
  "New envErr className classType =
     (if classType = ''powerdns'' then
        (case envErr of Some e \<Rightarrow> Inl e
         | None \<Rightarrow> Inr \<lparr>h_name = className, h_type = classType, h_provider = PowerDNSProvider\<rparr>)
      else if classType = ''fake'' then Inr \<lparr>h_name = className, h_type = classType, h_provider = FakeProvider\<rparr>
      else Inl (WrappedError (''unknown class '' @ className @ '' and type '' @ classType) None))"

section \<open>Contracts\<close>

text \<open>Every provider: a status is only ever given for a declared owner name, at most once.\<close>

locale record_backend =
  fixes ensure :: "'s \<Rightarrow> DNSZone \<Rightarrow> DNSRecordSet \<Rightarrow> 's \<times> RecordSetStatus list \<times> err"
  assumes declared: "ensure s zone rs = (s', statuses, e) \<Longrightarrow>
      distinct (map st_name statuses) \<and> st_name ` set statuses \<subseteq> re_name ` set (rs_records rs)"
begin

lemma status_count:
  assumes "ensure s zone rs = (s', statuses, e)"
  shows "length statuses \<le> length (rs_records rs)"
proof -
  from declared [OF assms] have "card (st_name ` set statuses) = length statuses"
    by (metis distinct_card length_map set_map)
  moreover have "card (st_name ` set statuses) \<le> card (re_name ` set (rs_records rs))"
    using declared [OF assms] by (simp add: card_mono)
  moreover have "card (re_name ` set (rs_records rs)) \<le> length (rs_records rs)"
    by (metis card_length length_map set_map)
  ultimately show ?thesis by simp
qed

end

text \<open>PowerDNS: without an error there is a status for every declared owner name, and each says
  programmed or names a failure.\<close>

locale complete_backend = record_backend +
  assumes complete: "ensure s zone rs = (s', statuses, None) \<Longrightarrow> map st_name statuses = owners rs"
    and decided: "ensure s zone rs = (s', statuses, e) \<Longrightarrow> st \<in> set statuses \<Longrightarrow> programmed st \<noteq> failedStatus st"
begin

lemma all_or_failed:
  assumes "ensure s zone rs = (s', statuses, None)" and "\<not> (\<exists>st \<in> set statuses. failedStatus st)"
  shows "\<forall>e \<in> set (rs_records rs). \<exists>st \<in> set statuses. st_name st = re_name e \<and> programmed st"
proof
  fix e
  assume "e \<in> set (rs_records rs)"
  then have "re_name e \<in> set (map st_name statuses)" using complete [OF assms(1)] by simp
  then obtain st where "st \<in> set statuses" "st_name st = re_name e" by auto
  with decided [OF assms(1)] assms(2) show "\<exists>st \<in> set statuses. st_name st = re_name e \<and> programmed st" by blast
qed

end

lemma EnsureRecordSet_statuses:
  assumes "EnsureRecordSet env s findCond now today zone rs = (s', res)"
  shows "er_statuses res = [] \<and> er_err res \<noteq> None
    \<or> map st_name (er_statuses res) = owners rs \<and> (\<forall>st \<in> set (er_statuses res). programmed st \<noteq> failedStatus st)"
proof -
  obtain s1 r where read: "getPDNSZoneRRSets env s (z_domainName zone) = (s1, r)" by fastforce
  show ?thesis
  proof (cases r)
    case (Inl e)
    with read assms show ?thesis by (auto simp: EnsureRecordSet_def)
  next
    case (Inr existing)
    have "ensureRead env s1 findCond now today (z_domainName zone) rs existing = (s', res)"
      using assms read Inr by (simp add: EnsureRecordSet_def)
    from ensureRead_statuses [OF this] show ?thesis by blast
  qed
qed

interpretation fk: record_backend "bk_EnsureRecordSet fakeBackend"
  by unfold_locales (simp add: fakeBackend_def)

interpretation pd: complete_backend "bk_EnsureRecordSet (pdnsBackend env findCond now today)"
  for env findCond now today
proof unfold_locales
  fix s zone rs s' statuses e st
  assume "bk_EnsureRecordSet (pdnsBackend env findCond now today) s zone rs = (s', statuses, e)"
  then obtain res where run: "EnsureRecordSet env s findCond now today zone rs = (s', res)"
    and res: "statuses = er_statuses res" "e = er_err res"
    by (auto simp: pdnsBackend_def split: prod.splits)
  show "distinct (map st_name statuses) \<and> st_name ` set statuses \<subseteq> re_name ` set (rs_records rs)"
    using EnsureRecordSet_statuses [OF run] res distinct_owners set_owners by (metis empty_subsetI image_is_empty list.set(1) list.set_map list.simps(8) distinct.simps(1) order_refl)
  show "st \<in> set statuses \<Longrightarrow> programmed st \<noteq> failedStatus st"
    using EnsureRecordSet_statuses [OF run] res by auto
next
  fix s zone rs s' statuses
  assume "bk_EnsureRecordSet (pdnsBackend env findCond now today) s zone rs = (s', statuses, None)"
  then obtain res where run: "EnsureRecordSet env s findCond now today zone rs = (s', res)"
    and res: "statuses = er_statuses res" "er_err res = None"
    by (auto simp: pdnsBackend_def split: prod.splits)
  show "map st_name statuses = owners rs" using EnsureRecordSet_statuses [OF run] res by blast
qed

end
