(* ===== verification/Kube_Api.thy ===== *)
theory Kube_Api
  imports Record_Status Dns_Backend
begin

text \<open>
  What the controllers share: the Kubernetes API and its client libraries as parameters, the state
  a controller runs in, and the folding of per-name statuses into one condition
  (\<^verbatim>\<open>internal/controller/conditions.go\<close>). Reads and writes thread the state of the cluster, so
  other writers may act between any two calls. \<open>cs_log\<close> is a ghost: the writes and provider calls
  a reconcile makes, in order. Times and durations are in seconds.
\<close>

section \<open>Definitions\<close>

subsection \<open>The cluster\<close>

text \<open>
  The parameters, by the library they stand for. The client: cached reads, live reads, lists by
  field index, patches (an object as it was and as it is to be; the answer is the object as
  stored) and deletes. apierrors: \<open>isNotFound\<close>. apimeta: \<open>findCond\<close>, \<open>setCond\<close> (whether the
  conditions changed), \<open>removeCond\<close>. controllerutil and metav1: finalizers and owner references.
\<close>

record 'k kube =
  kb_isNotFound :: "go_error \<Rightarrow> bool"
  kb_getRecordSet :: "'k \<Rightarrow> string \<times> string \<Rightarrow> 'k \<times> (go_error + DNSRecordSet)"
  kb_getZone :: "'k \<Rightarrow> string \<times> string \<Rightarrow> 'k \<times> (go_error + DNSZone)"
  kb_getZoneLive :: "'k \<Rightarrow> string \<times> string \<Rightarrow> 'k \<times> (go_error + DNSZone)"
  kb_getZoneClass :: "'k \<Rightarrow> string \<Rightarrow> 'k \<times> (go_error + DNSZoneClass)"
  kb_listByZone :: "'k \<Rightarrow> string \<times> string \<Rightarrow> 'k \<times> (go_error + DNSRecordSet list)"
  kb_listByZoneAndType :: "'k \<Rightarrow> string \<times> string \<Rightarrow> string \<Rightarrow> 'k \<times> (go_error + DNSRecordSet list)"
  kb_listWaiting :: "'k \<Rightarrow> string \<times> string \<Rightarrow> 'k \<times> (go_error + DNSRecordSet list)"
  kb_patchRecordSet :: "'k \<Rightarrow> DNSRecordSet \<Rightarrow> DNSRecordSet \<Rightarrow> 'k \<times> (go_error + DNSRecordSet)"
  kb_patchRecordSetStatus :: "'k \<Rightarrow> DNSRecordSet \<Rightarrow> DNSRecordSet \<Rightarrow> 'k \<times> (go_error + DNSRecordSet)"
  kb_patchZone :: "'k \<Rightarrow> DNSZone \<Rightarrow> DNSZone \<Rightarrow> 'k \<times> (go_error + DNSZone)"
  kb_patchZoneStatus :: "'k \<Rightarrow> DNSZone \<Rightarrow> DNSZone \<Rightarrow> 'k \<times> (go_error + DNSZone)"
  kb_deleteRecordSet :: "'k \<Rightarrow> DNSRecordSet \<Rightarrow> 'k \<times> err"
  kb_findCond :: cond_finder
  kb_setCond :: "Condition list \<Rightarrow> Condition \<Rightarrow> Condition list \<times> bool"
  kb_removeCond :: "Condition list \<Rightarrow> string \<Rightarrow> Condition list"
  kb_containsFinalizer :: "string list \<Rightarrow> string \<Rightarrow> bool"
  kb_addFinalizer :: "string list \<Rightarrow> string \<Rightarrow> string list"
  kb_removeFinalizer :: "string list \<Rightarrow> string \<Rightarrow> string list"
  kb_isControlledBy :: "ObjectMeta \<Rightarrow> ObjectMeta \<Rightarrow> bool"
  kb_removeControllerReference :: "ObjectMeta \<Rightarrow> OwnerReference list \<Rightarrow> go_error + OwnerReference list"
  kb_hasOwnerReference :: "OwnerReference list \<Rightarrow> ObjectMeta \<Rightarrow> go_error + bool"
  kb_setOwnerReference :: "ObjectMeta \<Rightarrow> OwnerReference list \<Rightarrow> go_error + OwnerReference list"

definition IgnoreNotFound :: "'k kube \<Rightarrow> go_error \<Rightarrow> err" where
  "IgnoreNotFound kb e = (if kb_isNotFound kb e then None else Some e)"

datatype ctrl_event =
    PatchedRecordSet DNSRecordSet DNSRecordSet
  | PatchedRecordSetStatus DNSRecordSet DNSRecordSet
  | PatchedZone DNSZone DNSZone
  | PatchedZoneStatus DNSZone DNSZone
  | DeletedRecordSet DNSRecordSet
  | AskedZoneLive "string \<times> string" err
  | ListedZone "string \<times> string" "DNSRecordSet list"
  | ProviderEnsured DNSZone DNSRecordSet "RecordSetStatus list" err
  | ProviderDeleted DNSZone DNSRecordSet err
  | ProviderReplacedRRSet string string string err
  | ProviderDeletedRRSet string string string err
  | ProviderEnsuredZone DNSZone err
  | ProviderDeletedZone DNSZone err

subsection \<open>The state of a controller\<close>

record aliasTargetCheck =
  ac_generation :: int
  ac_at :: int

record ('k, 's) ctrl =
  cs_kube :: 'k
  cs_dns :: 's
  cs_checks :: "((string \<times> string) \<times> aliasTargetCheck) list"
  cs_gauge :: "(string \<times> string) list"
  cs_log :: "ctrl_event list"

record ctrl_result =
  res_after :: int
  res_requeue :: bool
  res_err :: err

definition finish :: "('k, 's) ctrl \<Rightarrow> ('k, 's) ctrl \<times> ctrl_result" where
  "finish st = (st, \<lparr>res_after = 0, res_requeue = False, res_err = None\<rparr>)"

definition failWith :: "('k, 's) ctrl \<Rightarrow> err \<Rightarrow> ('k, 's) ctrl \<times> ctrl_result" where
  "failWith st e = (st, \<lparr>res_after = 0, res_requeue = False, res_err = e\<rparr>)"

definition requeueAfter :: "('k, 's) ctrl \<Rightarrow> int \<Rightarrow> ('k, 's) ctrl \<times> ctrl_result" where
  "requeueAfter st delay = (st, \<lparr>res_after = delay, res_requeue = False, res_err = None\<rparr>)"

lemmas result_defs = finish_def failWith_def requeueAfter_def

definition objectKey :: "ObjectMeta \<Rightarrow> string \<times> string" where
  "objectKey m = (m_namespace m, m_name m)"

definition errOf :: "go_error + 'a \<Rightarrow> err" where
  "errOf r = (case r of Inl e \<Rightarrow> Some e | Inr _ \<Rightarrow> None)"

definition readRecordSet :: "'k kube \<Rightarrow> ('k, 's) ctrl \<Rightarrow> string \<times> string \<Rightarrow> ('k, 's) ctrl \<times> (go_error + DNSRecordSet)" where
  "readRecordSet kb st key = (case kb_getRecordSet kb (cs_kube st) key of (k, r) \<Rightarrow> (st\<lparr>cs_kube := k\<rparr>, r))"

definition readZone :: "'k kube \<Rightarrow> ('k, 's) ctrl \<Rightarrow> string \<times> string \<Rightarrow> ('k, 's) ctrl \<times> (go_error + DNSZone)" where
  "readZone kb st key = (case kb_getZone kb (cs_kube st) key of (k, r) \<Rightarrow> (st\<lparr>cs_kube := k\<rparr>, r))"

definition readZoneLive :: "'k kube \<Rightarrow> ('k, 's) ctrl \<Rightarrow> string \<times> string \<Rightarrow> ('k, 's) ctrl \<times> (go_error + DNSZone)" where
  "readZoneLive kb st key =
     (case kb_getZoneLive kb (cs_kube st) key of
     (k, r) \<Rightarrow> (st\<lparr>cs_kube := k, cs_log := cs_log st @ [AskedZoneLive key (errOf r)]\<rparr>, r))"

definition patchRecordSet ::
  "'k kube \<Rightarrow> ('k, 's) ctrl \<Rightarrow> DNSRecordSet \<Rightarrow> DNSRecordSet \<Rightarrow> ('k, 's) ctrl \<times> (go_error + DNSRecordSet)" where
  "patchRecordSet kb st base new =
     (case kb_patchRecordSet kb (cs_kube st) base new of
        (k, r) \<Rightarrow> (st\<lparr>cs_kube := k, cs_log := cs_log st @ [PatchedRecordSet base new]\<rparr>, r))"

definition patchRecordSetStatus ::
  "'k kube \<Rightarrow> ('k, 's) ctrl \<Rightarrow> DNSRecordSet \<Rightarrow> DNSRecordSet \<Rightarrow> ('k, 's) ctrl \<times> (go_error + DNSRecordSet)" where
  "patchRecordSetStatus kb st base new =
     (case kb_patchRecordSetStatus kb (cs_kube st) base new of
        (k, r) \<Rightarrow> (st\<lparr>cs_kube := k, cs_log := cs_log st @ [PatchedRecordSetStatus base new]\<rparr>, r))"

definition patchZone :: "'k kube \<Rightarrow> ('k, 's) ctrl \<Rightarrow> DNSZone \<Rightarrow> DNSZone \<Rightarrow> ('k, 's) ctrl \<times> (go_error + DNSZone)" where
  "patchZone kb st base new =
     (case kb_patchZone kb (cs_kube st) base new of
        (k, r) \<Rightarrow> (st\<lparr>cs_kube := k, cs_log := cs_log st @ [PatchedZone base new]\<rparr>, r))"

definition patchZoneStatus :: "'k kube \<Rightarrow> ('k, 's) ctrl \<Rightarrow> DNSZone \<Rightarrow> DNSZone \<Rightarrow> ('k, 's) ctrl \<times> (go_error + DNSZone)" where
  "patchZoneStatus kb st base new =
     (case kb_patchZoneStatus kb (cs_kube st) base new of
        (k, r) \<Rightarrow> (st\<lparr>cs_kube := k, cs_log := cs_log st @ [PatchedZoneStatus base new]\<rparr>, r))"

definition deleteRecordSet :: "'k kube \<Rightarrow> ('k, 's) ctrl \<Rightarrow> DNSRecordSet \<Rightarrow> ('k, 's) ctrl \<times> err" where
  "deleteRecordSet kb st rs =
     (case kb_deleteRecordSet kb (cs_kube st) rs of
        (k, e) \<Rightarrow> (st\<lparr>cs_kube := k, cs_log := cs_log st @ [DeletedRecordSet rs]\<rparr>, e))"

definition listZone :: "'k kube \<Rightarrow> ('k, 's) ctrl \<Rightarrow> string \<times> string \<Rightarrow> ('k, 's) ctrl \<times> (go_error + DNSRecordSet list)" where
  "listZone kb st key =
     (case kb_listByZone kb (cs_kube st) key of
        (k, Inl e) \<Rightarrow> (st\<lparr>cs_kube := k\<rparr>, Inl e)
      | (k, Inr items) \<Rightarrow> (st\<lparr>cs_kube := k, cs_log := cs_log st @ [ListedZone key items]\<rparr>, Inr items))"

definition mkCondition :: "string \<Rightarrow> ConditionStatus \<Rightarrow> string \<Rightarrow> string \<Rightarrow> int \<Rightarrow> int \<Rightarrow> Condition" where
  "mkCondition typ status reason message generation now =
     \<lparr>c_type = typ, c_status = status, c_reason = reason, c_message = message,
      c_generation = generation, c_transition = now\<rparr>"

subsection \<open>One condition for a record set\<close>

definition messageRecordsPending :: string where
  "messageRecordsPending = ''One or more records not yet programmed''"

definition maxBlockedRecordsInMessage :: nat where "maxBlockedRecordsInMessage = 3"

definition namesBlockingCause :: "string \<Rightarrow> bool" where
  "namesBlockingCause reason \<longleftrightarrow> \<not> (reason = [] \<or> reason = ReasonPending \<or> reason = ReasonProgrammed)"

definition blockedRecordDetail :: "string \<Rightarrow> Condition \<Rightarrow> string" where
  "blockedRecordDetail name cond =
     (if c_message cond = [] then name @ '': '' @ c_reason cond else name @ '': '' @ c_message cond)"

definition joinBlockedDetails :: "string list \<Rightarrow> string" where
  "joinBlockedDetails details =
     (if length details \<le> maxBlockedRecordsInMessage then Join details ''; ''
      else Join (take maxBlockedRecordsInMessage details) ''; '' @ ''; and ''
        @ nat_str (length details - maxBlockedRecordsInMessage) @ '' more'')"

definition statusNameLess :: "RecordSetStatus \<Rightarrow> RecordSetStatus \<Rightarrow> bool" where
  "statusNameLess a b \<longleftrightarrow> st_name a < st_name b"

text \<open>What the loop of \<^verbatim>\<open>aggregateProgrammedStatus\<close> carries: whether all are programmed, the first
  blocking reason, and the details.\<close>

type_synonym aggregate = "bool \<times> string \<times> string list"

definition aggregateStep :: "cond_finder \<Rightarrow> aggregate \<Rightarrow> RecordSetStatus \<Rightarrow> aggregate" where
  "aggregateStep findCond agg st =
     (case agg of (allProgrammed, blockedReason, blockedDetails) \<Rightarrow>
        case findCond (st_conditions st) CondProgrammed of
          None \<Rightarrow> (False, blockedReason, blockedDetails)
        | Some cond \<Rightarrow>
            if c_status cond = ConditionTrue then agg
            else if \<not> namesBlockingCause (c_reason cond) then (False, blockedReason, blockedDetails)
            else (False, if blockedReason = [] then c_reason cond else blockedReason,
                  blockedDetails @ [blockedRecordDetail (st_name st) cond]))"

definition aggregateProgrammedStatus :: "cond_finder \<Rightarrow> RecordSetStatus list \<Rightarrow> bool \<times> string \<times> string" where
  "aggregateProgrammedStatus findCond statuses =
     (case foldl (aggregateStep findCond) (True, [], []) (go_sort statusNameLess statuses) of
        (allProgrammed, blockedReason, blockedDetails) \<Rightarrow>
          if allProgrammed then (True, [], [])
          else if blockedReason = [] then (False, ReasonPending, messageRecordsPending)
          else (False, blockedReason, joinBlockedDetails blockedDetails))"

section \<open>What the libraries promise\<close>

text \<open>
  \<^verbatim>\<open>meta.FindStatusCondition\<close> finds the condition of a type; \<^verbatim>\<open>meta.SetStatusCondition\<close> puts
  a condition in place of the one of its type, keeps the transition time while the status stays,
  reports whether anything changed and touches no other type.
\<close>

definition sameBody :: "Condition \<Rightarrow> Condition \<Rightarrow> bool" where
  "sameBody a b \<longleftrightarrow> c_type a = c_type b \<and> c_status a = c_status b \<and> c_reason a = c_reason b
     \<and> c_message a = c_message b \<and> c_generation a = c_generation b"

definition find_laws :: "cond_finder \<Rightarrow> bool" where
  "find_laws findCond \<longleftrightarrow>
     (\<forall>cs t c. findCond cs t = Some c \<longrightarrow> c \<in> set cs \<and> c_type c = t)
     \<and> (\<forall>cs t. findCond cs t = None \<longrightarrow> t \<notin> c_type ` set cs)"

definition condition_laws :: "'k kube \<Rightarrow> bool" where
  "condition_laws kb \<longleftrightarrow> find_laws (kb_findCond kb)
     \<and> (\<forall>cs c. snd (kb_setCond kb cs c) \<or> fst (kb_setCond kb cs c) = cs)
     \<and> (\<forall>cs c. \<exists>c'. kb_findCond kb (fst (kb_setCond kb cs c)) (c_type c) = Some c' \<and> sameBody c' c)
     \<and> (\<forall>cs c t. t \<noteq> c_type c \<longrightarrow> kb_findCond kb (fst (kb_setCond kb cs c)) t = kb_findCond kb cs t)
     \<and> (\<forall>cs c c'. kb_findCond kb cs (c_type c) = Some c' \<and> sameBody c' c \<longrightarrow> \<not> snd (kb_setCond kb cs c))"

definition finalizer_laws :: "'k kube \<Rightarrow> bool" where
  "finalizer_laws kb \<longleftrightarrow>
     (\<forall>fs f. kb_containsFinalizer kb fs f \<longleftrightarrow> f \<in> set fs)
     \<and> (\<forall>fs f. set (kb_addFinalizer kb fs f) = insert f (set fs))
     \<and> (\<forall>fs f. set (kb_removeFinalizer kb fs f) = set fs - {f})"

text \<open>Functions that do what is promised.\<close>

definition plainSetCond :: "Condition list \<Rightarrow> Condition \<Rightarrow> Condition list \<times> bool" where
  "plainSetCond cs c =
     (case firstOfType cs (c_type c) of
        None \<Rightarrow> (cs @ [c], True)
      | Some old \<Rightarrow>
          if sameBody old c then (cs, False)
          else (map (\<lambda>x. if c_type x = c_type c
                  then c\<lparr>c_transition := if c_status old = c_status c then c_transition old else c_transition c\<rparr> else x) cs, True))"

definition plainAddFinalizer :: "string list \<Rightarrow> string \<Rightarrow> string list" where
  "plainAddFinalizer fs f = (if f \<in> set fs then fs else fs @ [f])"

lemma find_laws_firstOfType [simp]: "find_laws firstOfType"
  by (auto simp: find_laws_def firstOfType_def find_Some_iff find_None_iff)

lemma firstOfType_map_same:
  assumes "firstOfType cs t = Some old" and "c_type c = t"
  shows "firstOfType (map (\<lambda>x. if c_type x = t then c else x) cs) t = Some c"
  using assms by (induction cs) (auto simp: firstOfType_def split: if_splits)

lemma firstOfType_map_other:
  assumes "t' \<noteq> t" and "c_type c = t"
  shows "firstOfType (map (\<lambda>x. if c_type x = t then c else x) cs) t' = firstOfType cs t'"
  using assms by (induction cs) (auto simp: firstOfType_def)

lemma firstOfType_append: "firstOfType (xs @ ys) t = (case firstOfType xs t of None \<Rightarrow> firstOfType ys t | r \<Rightarrow> r)"
  by (induction xs) (auto simp: firstOfType_def)

lemma firstOfType_single [simp]: "firstOfType [c] t = (if c_type c = t then Some c else None)"
  by (simp add: firstOfType_def)

lemma plain_conditions:
  assumes "kb_findCond kb = firstOfType" and "kb_setCond kb = plainSetCond"
  shows "condition_laws kb"
proof -
  have upd: "c_type (c\<lparr>c_transition := x\<rparr>) = c_type c" "sameBody (c\<lparr>c_transition := x\<rparr>) c" for c x
    by (auto simp: sameBody_def)
  have body: "sameBody c c" for c by (simp add: sameBody_def)
  show ?thesis unfolding condition_laws_def assms
  proof (intro conjI allI)
    fix cs c
    show "snd (plainSetCond cs c) \<or> fst (plainSetCond cs c) = cs"
      by (auto simp: plainSetCond_def split: option.splits)
    show "\<exists>c'. firstOfType (fst (plainSetCond cs c)) (c_type c) = Some c' \<and> sameBody c' c"
    proof (cases "firstOfType cs (c_type c)")
      case None
      then show ?thesis by (simp add: plainSetCond_def firstOfType_append sameBody_def)
    next
      case (Some old)
      then show ?thesis using upd by (auto simp: plainSetCond_def firstOfType_map_same)
    qed
  next
    fix cs c t
    show "t \<noteq> c_type c \<longrightarrow> firstOfType (fst (plainSetCond cs c)) t = firstOfType cs t"
    proof (cases "firstOfType cs (c_type c)")
      case None
      then show ?thesis by (simp add: plainSetCond_def firstOfType_append split: option.split)
    next
      case (Some old)
      then show ?thesis using upd by (simp add: plainSetCond_def firstOfType_map_other)
    qed
  qed (auto simp: plainSetCond_def)
qed

lemma plain_finalizers:
  assumes "kb_containsFinalizer kb = (\<lambda>fs f. f \<in> set fs)" and "kb_addFinalizer kb = plainAddFinalizer"
    and "kb_removeFinalizer kb = (\<lambda>fs f. removeAll f fs)"
  shows "finalizer_laws kb"
  using assms by (auto simp: finalizer_laws_def plainAddFinalizer_def)

lemma find_laws_single:
  assumes "find_laws findCond"
  shows "findCond [c] (c_type c) = Some c"
proof (cases "findCond [c] (c_type c)")
  case None
  then show ?thesis using assms unfolding find_laws_def by (metis image_eqI list.set_intros(1))
next
  case (Some c')
  then show ?thesis using assms unfolding find_laws_def by (metis empty_iff empty_set set_ConsD)
qed

section \<open>The aggregate\<close>

definition isProgrammed :: "cond_finder \<Rightarrow> RecordSetStatus \<Rightarrow> bool" where
  "isProgrammed findCond st \<longleftrightarrow>
     (\<exists>c. findCond (st_conditions st) CondProgrammed = Some c \<and> c_status c = ConditionTrue)"

definition blockingCond :: "cond_finder \<Rightarrow> RecordSetStatus \<Rightarrow> Condition option" where
  "blockingCond findCond st =
     (case findCond (st_conditions st) CondProgrammed of
        None \<Rightarrow> None
      | Some c \<Rightarrow> if c_status c \<noteq> ConditionTrue \<and> namesBlockingCause (c_reason c) then Some c else None)"

definition blockingPairs :: "cond_finder \<Rightarrow> RecordSetStatus list \<Rightarrow> (string \<times> Condition) list" where
  "blockingPairs findCond sts =
     List.map_filter (\<lambda>st. map_option (Pair (st_name st)) (blockingCond findCond st)) sts"

lemma blockingPairs_simps [simp]:
  "blockingPairs findCond [] = []"
  "blockingPairs findCond (st # sts) =
     (case blockingCond findCond st of None \<Rightarrow> [] | Some c \<Rightarrow> [(st_name st, c)]) @ blockingPairs findCond sts"
  by (auto simp: blockingPairs_def List.map_filter_simps split: option.splits)

definition aggregateOf :: "cond_finder \<Rightarrow> RecordSetStatus list \<Rightarrow> aggregate \<Rightarrow> aggregate" where
  "aggregateOf findCond sts agg =
     (case agg of (ok, reason, details) \<Rightarrow>
        (ok \<and> (\<forall>st \<in> set sts. isProgrammed findCond st),
         if reason = [] then (case blockingPairs findCond sts of [] \<Rightarrow> [] | (n, c) # _ \<Rightarrow> c_reason c) else reason,
         details @ map (\<lambda>(n, c). blockedRecordDetail n c) (blockingPairs findCond sts)))"

lemma namesBlockingCause_Nil [simp]: "\<not> namesBlockingCause []"
  by (simp add: namesBlockingCause_def)

lemma blockingCond_reason: "blockingCond findCond st = Some c \<Longrightarrow> c_reason c \<noteq> []"
  by (auto simp: blockingCond_def split: option.splits if_splits)

lemma aggregate_fold: "foldl (aggregateStep findCond) agg sts = aggregateOf findCond sts agg"
proof (induction sts arbitrary: agg)
  case Nil
  then show ?case by (simp add: aggregateOf_def split: prod.splits)
next
  case (Cons st sts)
  obtain ok reason details where agg: "agg = (ok, reason, details)" by (cases agg)
  have "aggregateOf findCond sts (aggregateStep findCond agg st) = aggregateOf findCond (st # sts) agg"
  proof (cases "findCond (st_conditions st) CondProgrammed")
    case None
    then show ?thesis
      by (simp add: aggregateOf_def aggregateStep_def isProgrammed_def blockingCond_def agg)
  next
    case (Some c)
    then show ?thesis
      by (cases "c_status c = ConditionTrue"; cases "namesBlockingCause (c_reason c)")
        (auto simp: aggregateOf_def aggregateStep_def isProgrammed_def blockingCond_def agg)
  qed
  then show ?case using Cons.IH by simp
qed

lemma blockingPairs_reason: "p \<in> set (blockingPairs findCond sts) \<Longrightarrow> c_reason (snd p) \<noteq> []"
  by (induction sts) (auto split: option.splits dest: blockingCond_reason [OF sym])

lemma aggregate_all: "fst (aggregateProgrammedStatus findCond sts) \<longleftrightarrow> (\<forall>st \<in> set sts. isProgrammed findCond st)"
  by (auto simp: aggregateProgrammedStatus_def aggregate_fold aggregateOf_def)

lemma statusNameLess_go_less: "go_less statusNameLess"
  by (rule go_less_keyI [where key = st_name]) (simp add: statusNameLess_def)

interpretation sn: go_less statusNameLess by (rule statusNameLess_go_less)

definition blocked :: "cond_finder \<Rightarrow> RecordSetStatus list \<Rightarrow> (string \<times> Condition) list" where
  "blocked findCond sts = blockingPairs findCond (go_sort statusNameLess sts)"

definition blockedMessage :: "(string \<times> Condition) list \<Rightarrow> string" where
  "blockedMessage bs =
     (if length bs \<le> 3 then Join (map (\<lambda>(n, c). blockedRecordDetail n c) bs) ''; ''
      else Join (map (\<lambda>(n, c). blockedRecordDetail n c) (take 3 bs)) ''; '' @ ''; and ''
        @ nat_str (length bs - 3) @ '' more'')"



section \<open>A cluster for examples\<close>

definition errNotFound :: go_error where "errNotFound = WrappedError ''not found'' None"

text \<open>One record set and at most one zone; every patch is stored as asked.\<close>

definition oneSetKube :: "DNSRecordSet \<Rightarrow> DNSZone option \<Rightarrow> unit kube" where
  "oneSetKube rs z =
     \<lparr>kb_isNotFound = (\<lambda>e. e = errNotFound),
      kb_getRecordSet = (\<lambda>k key. (k, if key = objectKey (rs_meta rs) then Inr rs else Inl errNotFound)),
      kb_getZone = (\<lambda>k key. (k, case z of None \<Rightarrow> Inl errNotFound | Some z \<Rightarrow> Inr z)),
      kb_getZoneLive = (\<lambda>k key. (k, case z of None \<Rightarrow> Inl errNotFound | Some z \<Rightarrow> Inr z)),
      kb_getZoneClass = (\<lambda>k key. (k, Inl errNotFound)),
      kb_listByZone = (\<lambda>k key. (k, Inr [rs])),
      kb_listByZoneAndType = (\<lambda>k key t. (k, Inr (filter (\<lambda>r. rs_recordType r = t) [rs]))),
      kb_listWaiting = (\<lambda>k key. (k, Inr [rs])),
      kb_patchRecordSet = (\<lambda>k base new. (k, Inr new)),
      kb_patchRecordSetStatus = (\<lambda>k base new. (k, Inr new)),
      kb_patchZone = (\<lambda>k base new. (k, Inr new)),
      kb_patchZoneStatus = (\<lambda>k base new. (k, Inr new)),
      kb_deleteRecordSet = (\<lambda>k r. (k, None)),
      kb_findCond = firstOfType,
      kb_setCond = plainSetCond,
      kb_removeCond = (\<lambda>cs t. filter (\<lambda>c. c_type c \<noteq> t) cs),
      kb_containsFinalizer = (\<lambda>fs f. f \<in> set fs),
      kb_addFinalizer = plainAddFinalizer,
      kb_removeFinalizer = (\<lambda>fs f. removeAll f fs),
      kb_isControlledBy = (\<lambda>m owner. list_ex (\<lambda>r. owr_uid r = m_uid owner \<and> owr_controller r) (m_ownerRefs m)),
      kb_removeControllerReference = (\<lambda>owner refs. Inr (filter (\<lambda>r. owr_uid r \<noteq> m_uid owner) refs)),
      kb_hasOwnerReference = (\<lambda>refs owner. Inr (list_ex (\<lambda>r. owr_uid r = m_uid owner) refs)),
      kb_setOwnerReference = (\<lambda>owner refs. Inr (refs @ [\<lparr>owr_uid = m_uid owner, owr_controller = False\<rparr>]))\<rparr>"

lemma oneSetKube_laws [simp]: "condition_laws (oneSetKube rs z)" "finalizer_laws (oneSetKube rs z)"
  by (rule plain_conditions; simp add: oneSetKube_def) (rule plain_finalizers; simp add: oneSetKube_def)

end
