(* ===== verification/Alias_Target.thy ===== *)
theory Alias_Target
  imports Kube_Api
begin

text \<open>
  The check that the targets of an ALIAS record set resolve
  (\<^verbatim>\<open>internal/controller/alias_target.go\<close>): when it is due, what it concludes, the metric it
  keeps and the condition it writes. The resolver is a parameter; \<open>cs_gauge\<close> lists the record sets
  whose metric is set.
\<close>

section \<open>Definitions\<close>

definition CondTargetResolved :: string where "CondTargetResolved = ''TargetResolved''"
definition ReasonTargetResolved :: string where "ReasonTargetResolved = ''TargetResolved''"
definition ReasonTargetUnresolved :: string where "ReasonTargetUnresolved = ''TargetUnresolved''"
definition ReasonTargetLookupFailed :: string where "ReasonTargetLookupFailed = ''TargetLookupFailed''"

definition aliasTargetCheckInterval :: int where "aliasTargetCheckInterval = 5 * 60"

text \<open>What a lookup returns: so many addresses, an error that says the name does not exist, or
  another error.\<close>

datatype lookup = Addresses nat | NameNotFound | LookupFailed

type_synonym resolver = "string \<Rightarrow> lookup"

text \<open>How long to wait, and whether the check is due.\<close>

definition due :: "((string \<times> string) \<times> aliasTargetCheck) list \<Rightarrow> string \<times> string \<Rightarrow> int \<Rightarrow> int \<Rightarrow> int \<times> bool" where
  "due checks key generation now =
     (case map_of checks key of
        None \<Rightarrow> (0, True)
      | Some prev \<Rightarrow>
          if ac_generation prev \<noteq> generation then (0, True)
          else let wait = ac_at prev + aliasTargetCheckInterval - now in
            if wait > 0 then (wait, False) else (0, True))"

definition recordCheck :: "string \<times> string \<Rightarrow> int \<Rightarrow> int \<Rightarrow> ('k, 's) ctrl \<Rightarrow> ('k, 's) ctrl" where
  "recordCheck key generation now st =
     st\<lparr>cs_checks := AList.update key \<lparr>ac_generation = generation, ac_at = now\<rparr> (cs_checks st)\<rparr>"

definition forget :: "string \<times> string \<Rightarrow> ('k, 's) ctrl \<Rightarrow> ('k, 's) ctrl" where
  "forget key st = st\<lparr>cs_checks := AList.delete key (cs_checks st), cs_gauge := removeAll key (cs_gauge st)\<rparr>"

text \<open>The targets asked for, in order and each once, and the loop's three outcomes.\<close>

definition aliasTargets :: "DNSRecordSet \<Rightarrow> string list" where
  "aliasTargets rs = first_seen id [] (List.map_filter (\<lambda>rec.
     case re_ALIAS rec of None \<Rightarrow> None
     | Some content \<Rightarrow>
         let target = TrimSuffix (TrimSpace content) ''.'' in
         if target = [] then None else Some (target @ ''.'')) (rs_records rs))"

definition unresolvedTargets :: "resolver \<Rightarrow> DNSRecordSet \<Rightarrow> string list" where
  "unresolvedTargets res rs = filter (\<lambda>t. case res t of Addresses n \<Rightarrow> n = 0 | NameNotFound \<Rightarrow> True | LookupFailed \<Rightarrow> False) (aliasTargets rs)"

definition failedTargets :: "resolver \<Rightarrow> DNSRecordSet \<Rightarrow> string list" where
  "failedTargets res rs = filter (\<lambda>t. res t = LookupFailed) (aliasTargets rs)"

definition aliasTargetCondition :: "resolver \<Rightarrow> int \<Rightarrow> DNSRecordSet \<Rightarrow> Condition" where
  "aliasTargetCondition res now rs =
     (let unresolved = sort_strings (unresolvedTargets res rs);
          failed = sort_strings (failedTargets res rs);
          cond = (\<lambda>status reason message.
            mkCondition CondTargetResolved status reason message (m_generation (rs_meta rs)) now) in
      if length unresolved > 0 then
        cond ConditionFalse ReasonTargetUnresolved
          (''ALIAS target '' @ Join unresolved '', '' @ '' does not resolve to an A or AAAA address, so the name answers SERVFAIL'')
      else if length failed > 0 then
        cond ConditionUnknown ReasonTargetLookupFailed
          (''could not look up ALIAS target '' @ Join failed '', '' @ ''; retrying'')
      else cond ConditionTrue ReasonTargetResolved ''every ALIAS target resolves'')"

definition checkALIASTargets ::
  "'k kube \<Rightarrow> resolver option \<Rightarrow> int \<Rightarrow> ('k, 's) ctrl \<Rightarrow> DNSRecordSet \<Rightarrow> ('k, 's) ctrl \<times> ctrl_result" where
  "checkALIASTargets kb resolver now st rs =
     (let key = objectKey (rs_meta rs); generation = m_generation (rs_meta rs) in
      case resolver of
        None \<Rightarrow> finish st
      | Some res \<Rightarrow>
          if rs_recordType rs \<noteq> RRTypeALIAS then finish (forget key st)
          else
            (case due (cs_checks st) key generation now of
               (wait, False) \<Rightarrow> requeueAfter st wait
             | (_, True) \<Rightarrow>
                 let cond = aliasTargetCondition res now rs;
                     st = recordCheck key generation now st;
                     st = (if c_status cond = ConditionFalse
                           then st\<lparr>cs_gauge := key # removeAll key (cs_gauge st)\<rparr>
                           else st\<lparr>cs_gauge := removeAll key (cs_gauge st)\<rparr>) in
                 case kb_setCond kb (rs_conditions rs) cond of
                   (conditions, True) \<Rightarrow>
                     (case patchRecordSetStatus kb st rs (rs\<lparr>rs_conditions := conditions\<rparr>) of
                        (st, Inl e) \<Rightarrow> failWith st (Some e)
                      | (st, Inr _) \<Rightarrow> requeueAfter st aliasTargetCheckInterval)
                 | (_, False) \<Rightarrow> requeueAfter st aliasTargetCheckInterval))"

section \<open>The check\<close>

lemmas alias_words = CondTargetResolved_def ReasonTargetResolved_def ReasonTargetUnresolved_def
  ReasonTargetLookupFailed_def aliasTargetCheckInterval_def

lemma aliasTargetCondition_status:
  "c_status (aliasTargetCondition res now rs) =
     (if unresolvedTargets res rs \<noteq> [] then ConditionFalse
      else if failedTargets res rs \<noteq> [] then ConditionUnknown else ConditionTrue)"
  "c_type (aliasTargetCondition res now rs) = CondTargetResolved"
  by (auto simp: aliasTargetCondition_def Let_def mkCondition_def sort_strings_def)

lemma unresolved_failed_disjoint: "set (unresolvedTargets res rs) \<inter> set (failedTargets res rs) = {}"
  by (auto simp: unresolvedTargets_def failedTargets_def)

lemma due_bound: "due checks key generation now = (wait, isDue) \<Longrightarrow>
    (isDue \<longleftrightarrow> wait = 0) \<and> 0 \<le> wait"
  by (auto simp: due_def Let_def split: option.splits if_splits)

lemma due_after_record:
  "due (cs_checks (recordCheck key generation at st)) key generation now =
     (if now < at + aliasTargetCheckInterval then (at + aliasTargetCheckInterval - now, False) else (0, True))"
  by (simp add: due_def recordCheck_def update_conv Let_def)

lemma due_after_forget: "due (cs_checks (forget key st)) key generation now = (0, True)"
  by (simp add: due_def forget_def delete_conv')

lemma checkALIASTargets_log:
  assumes "checkALIASTargets kb resolver now st rs = (st', res)"
  shows "cs_dns st' = cs_dns st \<and> (cs_log st' = cs_log st
     \<or> (\<exists>r conditions. resolver = Some r \<and> conditions = fst (kb_setCond kb (rs_conditions rs) (aliasTargetCondition r now rs))
          \<and> cs_log st' = cs_log st @ [PatchedRecordSetStatus rs (rs\<lparr>rs_conditions := conditions\<rparr>)]))"
  using assms
  by (auto simp: checkALIASTargets_def result_defs forget_def recordCheck_def patchRecordSetStatus_def Let_def
      split: option.splits if_splits prod.splits bool.splits sum.splits)

end
