(* ===== verification/RecordSet_Controller.thy ===== *)
theory RecordSet_Controller
  imports Alias_Target
begin

text \<open>
  The controller that programs record sets into the provider
  (\<^verbatim>\<open>internal/controller/dnsrecordset_downstream_controller.go\<close>): its reconcile with every branch,
  the status it writes, the retry delays, and the requests that other objects' events cause. One
  reading of the clock, \<open>now\<close>, serves a whole reconcile. An empty \<open>rs_recordSets\<close> is the nil slice:
  the field is omitted from the stored object when it is empty.
\<close>

section \<open>Definitions\<close>

definition downstreamRSFinalizer :: string where
  "downstreamRSFinalizer = ''dns.networking.miloapis.com/finalize-dnsrecordset-downstream''"

definition unprogrammedRetryBaseDelay :: int where "unprogrammedRetryBaseDelay = 5"
definition unprogrammedRetryMaxDelay :: int where "unprogrammedRetryMaxDelay = 5 * 60"

text \<open>The zero \<^verbatim>\<open>time.Time\<close>, year 1, in Unix seconds.\<close>

definition zeroTime :: int where "zeroTime = - 62135596800"

subsection \<open>Retry delays\<close>

definition retryDelaySince :: "int \<Rightarrow> int \<Rightarrow> int" where
  "retryDelaySince since now =
     (let delay = now - since;
          delay = (if delay < unprogrammedRetryBaseDelay then unprogrammedRetryBaseDelay else delay) in
      if delay > unprogrammedRetryMaxDelay then unprogrammedRetryMaxDelay else delay)"

definition programmedSince :: "'k kube \<Rightarrow> int \<Rightarrow> DNSRecordSet \<Rightarrow> int" where
  "programmedSince kb now rs =
     (case kb_findCond kb (rs_conditions rs) CondProgrammed of Some cond \<Rightarrow> c_transition cond | None \<Rightarrow> now)"

definition conditionTrue :: "Condition option \<Rightarrow> bool" where
  "conditionTrue c = (case c of None \<Rightarrow> False | Some cond \<Rightarrow> c_status cond = ConditionTrue)"

definition latestWaiting :: "'k kube \<Rightarrow> int \<Rightarrow> bool \<times> int \<Rightarrow> RecordSetStatus \<Rightarrow> bool \<times> int" where
  "latestWaiting kb now acc st =
     (let cond = kb_findCond kb (st_conditions st) CondProgrammed in
      if conditionTrue cond then acc
      else
        let since = (case cond of Some c \<Rightarrow> c_transition c | None \<Rightarrow> now) in
        (True, if since > snd acc then since else snd acc))"

text \<open>The delay, if anything waits.\<close>

definition unprogrammedRetryDelay :: "'k kube \<Rightarrow> RecordSetStatus list \<Rightarrow> int \<Rightarrow> int option" where
  "unprogrammedRetryDelay kb statuses now =
     (case foldl (latestWaiting kb now) (False, zeroTime) statuses of
        (waiting, latest) \<Rightarrow> if \<not> waiting then None else Some (retryDelaySince latest now))"

subsection \<open>Status\<close>

definition recordSetProgrammedAtGeneration :: "'k kube \<Rightarrow> DNSRecordSet \<Rightarrow> bool" where
  "recordSetProgrammedAtGeneration kb rs =
     (case kb_findCond kb (rs_conditions rs) CondProgrammed of
        None \<Rightarrow> False
      | Some cond \<Rightarrow> c_status cond = ConditionTrue \<and> c_generation cond = m_generation (rs_meta rs))"

definition programmedCondition :: "'k kube \<Rightarrow> int \<Rightarrow> DNSRecordSet \<Rightarrow> err \<Rightarrow> RecordSetStatus list \<Rightarrow> Condition" where
  "programmedCondition kb now rs e statuses =
     (let generation = m_generation (rs_meta rs) in
      case e of
        Some err \<Rightarrow>
          let reason = (if \<not> IsTransient e then ReasonPDNSError else ReasonPending) in
          mkCondition CondProgrammed ConditionFalse reason (error_text err) generation now
      | None \<Rightarrow>
          (case aggregateProgrammedStatus (kb_findCond kb) statuses of
             (allProgrammed, reason, message) \<Rightarrow>
               if allProgrammed
               then mkCondition CondProgrammed ConditionTrue ReasonProgrammed
                      ''RecordSet is programmed in downstream controller'' generation now
               else mkCondition CondProgrammed ConditionFalse reason message generation now))"

text \<open>The record set after the call is what the server stored when a patch was sent.\<close>

definition updateStatus ::
  "'k kube \<Rightarrow> int \<Rightarrow> ('k, 's) ctrl \<Rightarrow> DNSRecordSet \<Rightarrow> err \<Rightarrow> RecordSetStatus list \<Rightarrow> ('k, 's) ctrl \<times> (go_error + DNSRecordSet)" where
  "updateStatus kb now st rs e statuses =
     (case kb_setCond kb (rs_conditions rs) (programmedCondition kb now rs e statuses) of
        (conditions, condChanged) \<Rightarrow>
          let sorted = go_sort statusNameLess statuses;
              rsChanged = (if rs_recordSets rs = [] then True else rs_recordSets rs \<noteq> sorted);
              new = rs\<lparr>rs_conditions := conditions, rs_recordSets := (if rsChanged then sorted else rs_recordSets rs)\<rparr> in
          if condChanged \<or> rsChanged then patchRecordSetStatus kb st rs new
          else (st, Inr new))"

definition setAcceptedCondition ::
  "'k kube \<Rightarrow> int \<Rightarrow> ('k, 's) ctrl \<Rightarrow> DNSRecordSet \<Rightarrow> ConditionStatus \<Rightarrow> string \<Rightarrow> string \<Rightarrow> ('k, 's) ctrl \<times> err" where
  "setAcceptedCondition kb now st rs status reason message =
     (case kb_setCond kb (rs_conditions rs)
             (mkCondition CondAccepted status reason message (m_generation (rs_meta rs)) now) of
        (_, False) \<Rightarrow> (st, None)
      | (conditions, True) \<Rightarrow>
          (case patchRecordSetStatus kb st rs (rs\<lparr>rs_conditions := conditions\<rparr>) of (st, r) \<Rightarrow> (st, errOf r)))"

subsection \<open>Reconcile\<close>

abbreviation finalizersOf :: "DNSRecordSet \<Rightarrow> string list" where
  "finalizersOf rs \<equiv> m_finalizers (rs_meta rs)"

definition hasFinalizer :: "'k kube \<Rightarrow> DNSRecordSet \<Rightarrow> bool" where
  "hasFinalizer kb rs = kb_containsFinalizer kb (finalizersOf rs) downstreamRSFinalizer"

definition withFinalizers :: "DNSRecordSet \<Rightarrow> string list \<Rightarrow> DNSRecordSet" where
  "withFinalizers rs fs = rs\<lparr>rs_meta := (rs_meta rs)\<lparr>m_finalizers := fs\<rparr>\<rparr>"

definition withOwnerRefs :: "DNSRecordSet \<Rightarrow> OwnerReference list \<Rightarrow> DNSRecordSet" where
  "withOwnerRefs rs refs = rs\<lparr>rs_meta := (rs_meta rs)\<lparr>m_ownerRefs := refs\<rparr>\<rparr>"

text \<open>The zone is not in the cache. An orphan being deleted is released once the API server itself
  says that the zone is gone; any other record set is told to wait.\<close>

definition reconcileMissingZone ::
  "'k kube \<Rightarrow> int \<Rightarrow> ('k, 's) ctrl \<Rightarrow> string \<times> string \<Rightarrow> DNSRecordSet \<Rightarrow> ('k, 's) ctrl \<times> ctrl_result" where
  "reconcileMissingZone kb now st key rs =
     (if m_deleted (rs_meta rs) \<noteq> None \<and> hasFinalizer kb rs then
        (case readZoneLive kb st (m_namespace (rs_meta rs), rs_zoneRef rs) of
           (st, Inr _) \<Rightarrow> requeueAfter st 1
         | (st, Inl zoneErr) \<Rightarrow>
             if \<not> kb_isNotFound kb zoneErr then failWith st (Some zoneErr)
             else
               let new = withFinalizers rs (kb_removeFinalizer kb (finalizersOf rs) downstreamRSFinalizer) in
               (case patchRecordSet kb st rs new of
                  (st, Inl e) \<Rightarrow> if IgnoreNotFound kb e \<noteq> None then failWith st (Some e) else finish (forget key st)
                | (st, Inr _) \<Rightarrow> finish (forget key st)))
      else
        (case setAcceptedCondition kb now st rs ConditionFalse ReasonPending
                (''waiting for DNSZone '' @ go_quote (rs_zoneRef rs)) of
           (st, e) \<Rightarrow> failWith st e))"

text \<open>A record set being deleted: its records go first, the finalizer after.\<close>

definition finalizeRecordSet ::
  "'k kube \<Rightarrow> 's dns_backend \<Rightarrow> ('k, 's) ctrl \<Rightarrow> string \<times> string \<Rightarrow> DNSRecordSet \<Rightarrow> DNSZone \<Rightarrow> ('k, 's) ctrl \<times> ctrl_result" where
  "finalizeRecordSet kb bk st key rs zone =
     (if hasFinalizer kb rs then
        (case bk_DeleteRecordSet bk (cs_dns st) zone rs of
           (s, e) \<Rightarrow>
             let st = st\<lparr>cs_dns := s, cs_log := cs_log st @ [ProviderDeleted zone rs e]\<rparr> in
             if e \<noteq> None then failWith st e
             else
               (case readRecordSet kb st key of
                  (st, Inl e) \<Rightarrow> failWith st (IgnoreNotFound kb e)
                | (st, Inr rs) \<Rightarrow>
                    let new = withFinalizers rs (kb_removeFinalizer kb (finalizersOf rs) downstreamRSFinalizer) in
                    (case patchRecordSet kb st rs new of
                       (st, Inl e) \<Rightarrow> failWith st (Some e)
                     | (st, Inr _) \<Rightarrow> finish (forget key st))))
      else finish st)"

text \<open>Programming, once the metadata of the record set is settled.\<close>

definition programRecordSet ::
  "'k kube \<Rightarrow> 's dns_backend \<Rightarrow> resolver option \<Rightarrow> int \<Rightarrow> ('k, 's) ctrl \<Rightarrow> DNSRecordSet \<Rightarrow> DNSZone \<Rightarrow> ('k, 's) ctrl \<times> ctrl_result" where
  "programRecordSet kb bk resolver now st rs zone =
     (if recordSetProgrammedAtGeneration kb rs then checkALIASTargets kb resolver now st rs
      else
        (case bk_EnsureRecordSet bk (cs_dns st) zone rs of
           (s, statuses, ensureErr) \<Rightarrow>
             let st = st\<lparr>cs_dns := s, cs_log := cs_log st @ [ProviderEnsured zone rs statuses ensureErr]\<rparr> in
             (case updateStatus kb now st rs ensureErr statuses of
                (st, Inl statusErr) \<Rightarrow> failWith st (Some statusErr)
              | (st, Inr rs) \<Rightarrow>
                  if IsTransient ensureErr then failWith st ensureErr
                  else if ensureErr \<noteq> None then requeueAfter st (retryDelaySince (programmedSince kb now rs) now)
                  else
                    (case unprogrammedRetryDelay kb (go_sort statusNameLess statuses) now of
                       Some delay \<Rightarrow> requeueAfter st delay
                     | None \<Rightarrow> checkALIASTargets kb resolver now st rs))))"

text \<open>A record set not being deleted: finalizer, owner reference and Accepted condition, one write
  per reconcile, and then the records.\<close>

definition reconcileLive ::
  "'k kube \<Rightarrow> 's dns_backend \<Rightarrow> resolver option \<Rightarrow> int \<Rightarrow> ('k, 's) ctrl \<Rightarrow> DNSRecordSet \<Rightarrow> DNSZone \<Rightarrow> ('k, 's) ctrl \<times> ctrl_result" where
  "reconcileLive kb bk resolver now st rs zone =
     (let patchMeta = (\<lambda>new. case patchRecordSet kb st rs new of (st, r) \<Rightarrow> failWith st (errOf r)) in
      if \<not> hasFinalizer kb rs then
        patchMeta (withFinalizers rs (kb_addFinalizer kb (finalizersOf rs) downstreamRSFinalizer))
      else if kb_isControlledBy kb (rs_meta rs) (z_meta zone) then
        (case kb_removeControllerReference kb (z_meta zone) (m_ownerRefs (rs_meta rs)) of
           Inl e \<Rightarrow> failWith st (Some e)
         | Inr refs \<Rightarrow> patchMeta (withOwnerRefs rs refs))
      else
        (case kb_hasOwnerReference kb (m_ownerRefs (rs_meta rs)) (z_meta zone) of
           Inl e \<Rightarrow> failWith st (Some e)
         | Inr False \<Rightarrow>
             (case kb_setOwnerReference kb (z_meta zone) (m_ownerRefs (rs_meta rs)) of
                Inl e \<Rightarrow> failWith st (Some e)
              | Inr refs \<Rightarrow> patchMeta (withOwnerRefs rs refs))
         | Inr True \<Rightarrow>
             (case kb_setCond kb (rs_conditions rs)
                     (mkCondition CondAccepted ConditionTrue ReasonAccepted ''RecordSet is accepted for processing''
                        (m_generation (rs_meta rs)) now) of
                (conditions, True) \<Rightarrow>
                  (case patchRecordSetStatus kb st rs (rs\<lparr>rs_conditions := conditions\<rparr>) of
                     (st, r) \<Rightarrow> failWith st (errOf r))
              | (conditions, False) \<Rightarrow>
                  programRecordSet kb bk resolver now st (rs\<lparr>rs_conditions := conditions\<rparr>) zone)))"

definition ReconcileRecordSet ::
  "'k kube \<Rightarrow> 's dns_backend \<Rightarrow> resolver option \<Rightarrow> string \<Rightarrow> int \<Rightarrow> ('k, 's) ctrl \<Rightarrow> string \<times> string \<Rightarrow> ('k, 's) ctrl \<times> ctrl_result" where
  "ReconcileRecordSet kb bk resolver handlerClass now st key =
     (case readRecordSet kb st key of
        (st, Inl e) \<Rightarrow> failWith st (IgnoreNotFound kb e)
      | (st, Inr rs) \<Rightarrow>
          (case readZone kb st (fst key, rs_zoneRef rs) of
             (st, Inl e) \<Rightarrow>
               if kb_isNotFound kb e then reconcileMissingZone kb now st key rs else failWith st (Some e)
           | (st, Inr zone) \<Rightarrow>
               if z_visibility zone = VisibilityPrivate then finish st
               else if z_className zone = [] \<or> z_className zone \<noteq> handlerClass then finish st
               else if m_deleted (rs_meta rs) = None then reconcileLive kb bk resolver now st rs zone
               else finalizeRecordSet kb bk st key rs zone))"

subsection \<open>Requests caused by other objects\<close>

definition unprogrammedRecordSetZone :: "'k kube \<Rightarrow> DNSRecordSet \<Rightarrow> string list" where
  "unprogrammedRecordSetZone kb rs =
     (if list_ex (\<lambda>st. \<not> conditionTrue (kb_findCond kb (st_conditions st) CondProgrammed)) (rs_recordSets rs)
      then [rs_zoneRef rs] else [])"

definition waitsOnAny :: "'k kube \<Rightarrow> DNSRecordSet \<Rightarrow> string \<Rightarrow> string set \<Rightarrow> bool" where
  "waitsOnAny kb rs domain names =
     list_ex (\<lambda>st. \<not> conditionTrue (kb_findCond kb (st_conditions st) CondProgrammed)
       \<and> Qualify (st_name st) domain \<in> names) (rs_recordSets rs)"

definition heldNames :: "DNSRecordSet \<Rightarrow> string list" where
  "heldNames rs = map re_name (rs_records rs) @ map st_name (rs_recordSets rs)"

text \<open>The record sets to reconcile when the holders (the old and the new version of one object)
  change. A list or a zone read that fails is logged: the first gives up, the second wakes all.\<close>

definition recordSetsWaitingOn ::
  "'k kube \<Rightarrow> ('k, 's) ctrl \<Rightarrow> DNSRecordSet list \<Rightarrow> ('k, 's) ctrl \<times> (string \<times> string) list" where
  "recordSetsWaitingOn kb st holders =
     (let held = concat (map heldNames holders) in
      if holders = [] \<or> held = [] then (st, [])
      else
        let holder = last holders; ns = m_namespace (rs_meta holder) in
        (case kb_listWaiting kb (cs_kube st) (ns, rs_zoneRef holder) of
           (k, Inl e) \<Rightarrow> (st\<lparr>cs_kube := k\<rparr>, [])
         | (k, Inr waiting) \<Rightarrow>
             let st = st\<lparr>cs_kube := k\<rparr> in
             if waiting = [] then (st, [])
             else
               (case readZone kb st (ns, rs_zoneRef holder) of
                  (st, r) \<Rightarrow>
                    if (case r of Inl e \<Rightarrow> kb_isNotFound kb e | Inr _ \<Rightarrow> False) then (st, [])
                    else
                      let matchAll = (errOf r \<noteq> None);
                          domain = (case r of Inl e \<Rightarrow> [] | Inr zone \<Rightarrow> z_domainName zone);
                          names = set (map (\<lambda>name. Qualify name domain) held) in
                      (st, map (\<lambda>rs. objectKey (rs_meta rs))
                         (filter (\<lambda>rs. m_name (rs_meta rs) \<noteq> m_name (rs_meta holder)
                            \<and> (matchAll \<or> waitsOnAny kb rs domain names)) waiting)))))"

definition zoneProgrammed :: "'k kube \<Rightarrow> DNSZone \<Rightarrow> bool" where
  "zoneProgrammed kb zone = conditionTrue (kb_findCond kb (z_conditions zone) CondProgrammed)"

datatype zone_event = ZoneCreated DNSZone | ZoneUpdated DNSZone DNSZone | ZoneDeleted DNSZone | ZoneGeneric DNSZone

definition zoneBecameProgrammed :: "'k kube \<Rightarrow> zone_event \<Rightarrow> bool" where
  "zoneBecameProgrammed kb e =
     (case e of ZoneCreated z \<Rightarrow> zoneProgrammed kb z
      | ZoneUpdated old new \<Rightarrow> \<not> zoneProgrammed kb old \<and> zoneProgrammed kb new
      | ZoneDeleted _ \<Rightarrow> False
      | ZoneGeneric _ \<Rightarrow> False)"

text \<open>The fan-out from a zone event: every record set of the zone, by the field index.\<close>

definition recordSetsOfZone ::
  "'k kube \<Rightarrow> ('k, 's) ctrl \<Rightarrow> DNSZone \<Rightarrow> ('k, 's) ctrl \<times> (string \<times> string) list" where
  "recordSetsOfZone kb st zone =
     (case kb_listByZone kb (cs_kube st) (m_namespace (z_meta zone), m_name (z_meta zone)) of
        (k, Inl e) \<Rightarrow> (st\<lparr>cs_kube := k\<rparr>, [])
      | (k, Inr rrs) \<Rightarrow> (st\<lparr>cs_kube := k\<rparr>, map (\<lambda>rs. objectKey (rs_meta rs)) rrs))"

section \<open>Delays\<close>

lemma retryDelaySince_bounds: "5 \<le> retryDelaySince since now \<and> retryDelaySince since now \<le> 300"
  by (simp add: retryDelaySince_def unprogrammedRetryBaseDelay_def unprogrammedRetryMaxDelay_def Let_def)

lemma conditionTrue_isProgrammed:
  "conditionTrue (kb_findCond kb (st_conditions st) CondProgrammed) \<longleftrightarrow> isProgrammed (kb_findCond kb) st"
  by (auto simp: conditionTrue_def isProgrammed_def split: option.splits)

lemma latestWaiting_fold:
  "fst (foldl (latestWaiting kb now) acc sts) \<longleftrightarrow> fst acc \<or> (\<exists>st \<in> set sts. \<not> isProgrammed (kb_findCond kb) st)"
  by (induction sts arbitrary: acc) (auto simp: latestWaiting_def conditionTrue_isProgrammed Let_def)

lemma unprogrammedRetryDelay_None:
  "unprogrammedRetryDelay kb sts now = None \<longleftrightarrow> (\<forall>st \<in> set sts. isProgrammed (kb_findCond kb) st)"
  using latestWaiting_fold [of kb now "(False, zeroTime)" sts]
  by (auto simp: unprogrammedRetryDelay_def split: prod.splits)

lemma unprogrammedRetryDelay_bounds:
  "unprogrammedRetryDelay kb sts now = Some d \<Longrightarrow> 5 \<le> d \<and> d \<le> 300"
  using retryDelaySince_bounds by (auto simp: unprogrammedRetryDelay_def split: prod.splits if_splits)

section \<open>What each part writes\<close>

lemmas kube_calls = readRecordSet_def readZone_def readZoneLive_def patchRecordSet_def patchRecordSetStatus_def

lemma updateStatus_log:
  assumes "updateStatus kb now st rs e statuses = (st', r)"
  shows "cs_dns st' = cs_dns st \<and> cs_checks st' = cs_checks st \<and> (cs_log st' = cs_log st \<or>
    (\<exists>new. cs_log st' = cs_log st @ [PatchedRecordSetStatus rs new]
       \<and> rs_conditions new = fst (kb_setCond kb (rs_conditions rs) (programmedCondition kb now rs e statuses))
       \<and> rs_meta new = rs_meta rs))"
  using assms by (auto simp: updateStatus_def kube_calls Let_def split: prod.splits if_splits)

lemma finalizeRecordSet_log:
  assumes "finalizeRecordSet kb bk st key rs zone = (st', res)"
  shows "cs_log st' = cs_log st
    \<or> (\<exists>s e. bk_DeleteRecordSet bk (cs_dns st) zone rs = (s, e) \<and> cs_log st' = cs_log st @ [ProviderDeleted zone rs e])
    \<or> (\<exists>s rs'. bk_DeleteRecordSet bk (cs_dns st) zone rs = (s, None)
         \<and> cs_log st' = cs_log st @ [ProviderDeleted zone rs None,
             PatchedRecordSet rs' (withFinalizers rs' (kb_removeFinalizer kb (finalizersOf rs') downstreamRSFinalizer))])"
  using assms
  by (auto simp: finalizeRecordSet_def kube_calls result_defs forget_def Let_def split: prod.splits sum.splits if_splits)

lemma reconcileMissingZone_log:
  assumes "reconcileMissingZone kb now st key rs = (st', res)"
  shows "cs_dns st' = cs_dns st \<and>
     (cs_log st' = cs_log st
    \<or> (\<exists>r. cs_log st' = cs_log st @ [AskedZoneLive (m_namespace (rs_meta rs), rs_zoneRef rs) r])
    \<or> (\<exists>conditions. conditions = fst (kb_setCond kb (rs_conditions rs)
           (mkCondition CondAccepted ConditionFalse ReasonPending
             (''waiting for DNSZone '' @ go_quote (rs_zoneRef rs)) (m_generation (rs_meta rs)) now))
         \<and> cs_log st' = cs_log st @ [PatchedRecordSetStatus rs (rs\<lparr>rs_conditions := conditions\<rparr>)])
    \<or> (\<exists>e. kb_isNotFound kb e \<and> m_deleted (rs_meta rs) \<noteq> None
         \<and> cs_log st' = cs_log st @ [AskedZoneLive (m_namespace (rs_meta rs), rs_zoneRef rs) (Some e),
             PatchedRecordSet rs (withFinalizers rs (kb_removeFinalizer kb (finalizersOf rs) downstreamRSFinalizer))]))"
  using assms
  by (auto simp: reconcileMissingZone_def setAcceptedCondition_def kube_calls result_defs forget_def errOf_def Let_def
      split: prod.splits sum.splits if_splits bool.splits)

lemma programRecordSet_programmed:
  assumes "recordSetProgrammedAtGeneration kb rs"
  shows "programRecordSet kb bk resolver now st rs zone = checkALIASTargets kb resolver now st rs"
  using assms by (simp add: programRecordSet_def)

text \<open>A record set that is not programmed is handed to the provider; what follows is the status
  patch and, after success, the ALIAS check.\<close>

definition retried :: "ctrl_result \<Rightarrow> bool" where
  "retried res \<longleftrightarrow> res_err res \<noteq> None \<or> (5 \<le> res_after res \<and> res_after res \<le> 300)"

lemma programRecordSet_run:
  assumes "\<not> recordSetProgrammedAtGeneration kb rs"
    and "programRecordSet kb bk resolver now st rs zone = (st', res)"
    and "bk_EnsureRecordSet bk (cs_dns st) zone rs = (s, statuses, e)"
  obtains st2 r where
    "updateStatus kb now (st\<lparr>cs_dns := s, cs_log := cs_log st @ [ProviderEnsured zone rs statuses e]\<rparr>) rs e statuses = (st2, r)"
    and "st' = st2 \<and> retried res \<or> (\<exists>rs2. r = Inr rs2 \<and> e = None \<and> (\<forall>x \<in> set statuses. isProgrammed (kb_findCond kb) x)
        \<and> checkALIASTargets kb resolver now st2 rs2 = (st', res))"
proof -
  let ?st1 = "st\<lparr>cs_dns := s, cs_log := cs_log st @ [ProviderEnsured zone rs statuses e]\<rparr>"
  obtain st2 r where u: "updateStatus kb now ?st1 rs e statuses = (st2, r)" by fastforce
  have "st' = st2 \<and> retried res \<or> (\<exists>rs2. r = Inr rs2 \<and> e = None \<and> (\<forall>x \<in> set statuses. isProgrammed (kb_findCond kb) x)
        \<and> checkALIASTargets kb resolver now st2 rs2 = (st', res))"
  proof (cases r)
    case (Inl se)
    then show ?thesis using assms u by (auto simp: programRecordSet_def result_defs retried_def)
  next
    case (Inr rs2)
    show ?thesis
    proof (cases "IsTransient e \<or> e \<noteq> None")
      case True
      then show ?thesis using assms u Inr retryDelaySince_bounds
        by (auto simp: programRecordSet_def result_defs retried_def IsTransient_def split: if_splits)
    next
      case False
      then have e: "e = None" by simp
      show ?thesis
      proof (cases "unprogrammedRetryDelay kb (go_sort statusNameLess statuses) now")
        case None
        then have "\<forall>x \<in> set statuses. isProgrammed (kb_findCond kb) x"
          using unprogrammedRetryDelay_None [of kb "go_sort statusNameLess statuses" now] by simp
        with None show ?thesis using assms u Inr e by (simp add: programRecordSet_def IsTransient_def)
      next
        case (Some d)
        with unprogrammedRetryDelay_bounds [OF this] show ?thesis using assms u Inr e
          by (auto simp: programRecordSet_def IsTransient_def result_defs retried_def)
      qed
    qed
  qed
  with u that show ?thesis by blast
qed

text \<open>The events of one reconcile.\<close>

definition eventsOf :: "('k, 's) ctrl \<Rightarrow> ('k, 's) ctrl \<Rightarrow> ctrl_event list" where
  "eventsOf st st' = drop (length (cs_log st)) (cs_log st')"

lemma eventsOf_append [simp]: "cs_log st' = cs_log st @ events \<Longrightarrow> eventsOf st st' = events"
  by (simp add: eventsOf_def)


text \<open>What a reconcile of a record set that is not being deleted does, as one of four.\<close>

lemma reconcileLive_run:
  assumes laws: "finalizer_laws kb" "condition_laws kb"
    and "reconcileLive kb bk resolver now st rs zone = (st', res)"
  shows "(\<exists>new. cs_log st' = cs_log st @ [PatchedRecordSet rs new] \<and> cs_dns st' = cs_dns st
            \<and> set (finalizersOf rs) \<subseteq> set (finalizersOf new))
    \<or> (\<exists>new. cs_log st' = cs_log st @ [PatchedRecordSetStatus rs new] \<and> cs_dns st' = cs_dns st
            \<and> rs_meta new = rs_meta rs
            \<and> kb_findCond kb (rs_conditions new) CondProgrammed = kb_findCond kb (rs_conditions rs) CondProgrammed)
    \<or> (cs_log st' = cs_log st \<and> cs_dns st' = cs_dns st)
    \<or> programRecordSet kb bk resolver now st rs zone = (st', res)"
proof -
  let ?c = "mkCondition CondAccepted ConditionTrue ReasonAccepted ''RecordSet is accepted for processing''
     (m_generation (rs_meta rs)) now"
  have nty: "CondProgrammed \<noteq> c_type ?c" by (simp add: mkCondition_def CondProgrammed_def CondAccepted_def)
  have other: "kb_findCond kb (fst (kb_setCond kb (rs_conditions rs) ?c)) CondProgrammed
      = kb_findCond kb (rs_conditions rs) CondProgrammed"
    using laws(2) nty unfolding condition_laws_def by blast
  have same: "fst (kb_setCond kb (rs_conditions rs) ?c) = rs_conditions rs" if "\<not> snd (kb_setCond kb (rs_conditions rs) ?c)"
    using laws(2) that unfolding condition_laws_def by blast
  obtain conditions changed where sc: "kb_setCond kb (rs_conditions rs) ?c = (conditions, changed)" by fastforce
  have add: "set (kb_addFinalizer kb fs f) = insert f (set fs)" for fs f
    using laws(1) unfolding finalizer_laws_def by blast
  show ?thesis
  proof (cases "hasFinalizer kb rs \<and> \<not> kb_isControlledBy kb (rs_meta rs) (z_meta zone)
      \<and> kb_hasOwnerReference kb (m_ownerRefs (rs_meta rs)) (z_meta zone) = Inr True")
    case True
    then show ?thesis
    proof (cases changed)
      case True
      then show ?thesis using assms(3) \<open>hasFinalizer kb rs \<and> _\<close> sc other
        by (auto simp: reconcileLive_def kube_calls result_defs split: prod.splits)
    next
      case False
      then have "conditions = rs_conditions rs" using same sc by simp
      then show ?thesis using assms(3) \<open>hasFinalizer kb rs \<and> _\<close> sc False by (auto simp: reconcileLive_def)
    qed
  next
    case False
    then show ?thesis using assms(3) add
      by (auto simp: reconcileLive_def kube_calls result_defs withFinalizers_def withOwnerRefs_def Let_def
          split: prod.splits sum.splits bool.splits if_splits)
  qed
qed

lemma ReconcileRecordSet_cases:
  assumes "ReconcileRecordSet kb bk resolver handlerClass now st key = (st', res)"
  obtains (idle) "cs_log st' = cs_log st" "cs_dns st' = cs_dns st"
  | (missing) st1 rs where "cs_log st1 = cs_log st" "cs_dns st1 = cs_dns st"
      "snd (kb_getRecordSet kb (cs_kube st) key) = Inr rs" "reconcileMissingZone kb now st1 key rs = (st', res)"
  | (live) st1 rs zone where "cs_log st1 = cs_log st" "cs_dns st1 = cs_dns st"
      "snd (kb_getRecordSet kb (cs_kube st) key) = Inr rs" "m_deleted (rs_meta rs) = None"
      "z_className zone = handlerClass" "z_visibility zone \<noteq> VisibilityPrivate"
      "reconcileLive kb bk resolver now st1 rs zone = (st', res)"
  | (finalize) st1 rs zone where "cs_log st1 = cs_log st" "cs_dns st1 = cs_dns st"
      "snd (kb_getRecordSet kb (cs_kube st) key) = Inr rs" "m_deleted (rs_meta rs) \<noteq> None"
      "z_className zone = handlerClass" "z_visibility zone \<noteq> VisibilityPrivate"
      "finalizeRecordSet kb bk st1 key rs zone = (st', res)"
proof -
  obtain k1 r1 where g: "kb_getRecordSet kb (cs_kube st) key = (k1, r1)" by fastforce
  show ?thesis
  proof (cases r1)
    case (Inl e)
    with g assms show ?thesis by (intro idle) (auto simp: ReconcileRecordSet_def readRecordSet_def result_defs)
  next
    case (Inr rs)
    let ?st1 = "st\<lparr>cs_kube := k1\<rparr>"
    obtain k2 r2 where z: "kb_getZone kb k1 (fst key, rs_zoneRef rs) = (k2, r2)" by fastforce
    let ?st2 = "st\<lparr>cs_kube := k2\<rparr>"
    have read: "readRecordSet kb st key = (?st1, Inr rs)" "readZone kb ?st1 (fst key, rs_zoneRef rs) = (?st2, r2)"
      using g z Inr by (simp_all add: readRecordSet_def readZone_def)
    show ?thesis
    proof (cases r2)
      case (Inl e)
      show ?thesis
      proof (cases "kb_isNotFound kb e")
        case True
        with assms read Inl have "reconcileMissingZone kb now ?st2 key rs = (st', res)"
          by (simp add: ReconcileRecordSet_def)
        then show ?thesis using g Inr by (intro missing [of ?st2 rs]) simp_all
      next
        case False
        with assms read Inl show ?thesis by (intro idle) (auto simp: ReconcileRecordSet_def result_defs)
      qed
    next
      case (Inr zone)
      let ?skip = "z_visibility zone = VisibilityPrivate \<or> z_className zone = [] \<or> z_className zone \<noteq> handlerClass"
      show ?thesis
      proof (cases ?skip)
        case True
        with assms read Inr show ?thesis
          by (intro idle) (auto simp: ReconcileRecordSet_def result_defs split: if_splits)
      next
        case False
        show ?thesis
        proof (cases "m_deleted (rs_meta rs)")
          case None
          with assms read Inr False have "reconcileLive kb bk resolver now ?st2 rs zone = (st', res)"
            by (auto simp: ReconcileRecordSet_def)
          with g \<open>r1 = Inr rs\<close> False None show ?thesis by (intro live [of ?st2 rs zone]) simp_all
        next
          case (Some t)
          with assms read Inr False have "finalizeRecordSet kb bk ?st2 key rs zone = (st', res)"
            by (auto simp: ReconcileRecordSet_def)
          with g \<open>r1 = Inr rs\<close> False Some show ?thesis by (intro finalize [of ?st2 rs zone]) simp_all
        qed
      qed
    qed
  qed
qed

section \<open>Becoming programmed\<close>

lemma programmedCondition_type [simp]: "c_type (programmedCondition kb now rs e statuses) = CondProgrammed"
  by (simp add: programmedCondition_def mkCondition_def Let_def split: option.splits prod.splits)

lemma programmedCondition_true:
  "c_status (programmedCondition kb now rs e statuses) = ConditionTrue \<longleftrightarrow>
     e = None \<and> (\<forall>st \<in> set statuses. isProgrammed (kb_findCond kb) st)"
proof (cases e)
  case None
  then show ?thesis using aggregate_all [of "kb_findCond kb" statuses]
    by (auto simp: programmedCondition_def mkCondition_def Let_def split: prod.splits)
qed (simp add: programmedCondition_def mkCondition_def Let_def)

definition becameProgrammed :: "'k kube \<Rightarrow> DNSRecordSet \<Rightarrow> DNSRecordSet \<Rightarrow> bool" where
  "becameProgrammed kb base new \<longleftrightarrow>
     recordSetProgrammedAtGeneration kb new \<and> \<not> recordSetProgrammedAtGeneration kb base"

lemma becameProgrammed_same:
  assumes "kb_findCond kb (rs_conditions new) CondProgrammed = kb_findCond kb (rs_conditions base) CondProgrammed"
    and "rs_meta new = rs_meta base"
  shows "\<not> becameProgrammed kb base new"
  using assms by (auto simp: becameProgrammed_def recordSetProgrammedAtGeneration_def split: option.splits)

lemma setCond_other:
  "condition_laws kb \<Longrightarrow> c_type c \<noteq> t \<Longrightarrow> kb_findCond kb (fst (kb_setCond kb cs c)) t = kb_findCond kb cs t"
  unfolding condition_laws_def by metis

lemma setCond_find:
  "condition_laws kb \<Longrightarrow> \<exists>c'. kb_findCond kb (fst (kb_setCond kb cs c)) (c_type c) = Some c' \<and> sameBody c' c"
  unfolding condition_laws_def by blast

lemma updateStatus_became:
  assumes "condition_laws kb"
    and "rs_conditions new = fst (kb_setCond kb (rs_conditions rs) (programmedCondition kb now rs e statuses))"
    and "recordSetProgrammedAtGeneration kb new"
  shows "e = None \<and> (\<forall>st \<in> set statuses. isProgrammed (kb_findCond kb) st)"
proof -
  let ?c = "programmedCondition kb now rs e statuses"
  from setCond_find [OF assms(1), of "rs_conditions rs" ?c] assms(2) obtain c' where
    "kb_findCond kb (rs_conditions new) CondProgrammed = Some c'" "sameBody c' ?c" by auto
  with assms(3) have "c_status ?c = ConditionTrue"
    by (simp add: recordSetProgrammedAtGeneration_def sameBody_def)
  then show ?thesis by (simp add: programmedCondition_true)
qed

lemma checkALIASTargets_became:
  assumes "condition_laws kb" and "checkALIASTargets kb resolver now st rs = (st', res)"
    and "PatchedRecordSetStatus base new \<in> set (eventsOf st st')"
  shows "\<not> becameProgrammed kb base new"
proof -
  from checkALIASTargets_log [OF assms(2)] assms(3) obtain r where
    "base = rs" "new = rs\<lparr>rs_conditions := fst (kb_setCond kb (rs_conditions rs) (aliasTargetCondition r now rs))\<rparr>"
    by (auto simp: eventsOf_def)
  moreover have "c_type (aliasTargetCondition r now rs) \<noteq> CondProgrammed"
    by (simp add: aliasTargetCondition_status CondTargetResolved_def CondProgrammed_def)
  ultimately show ?thesis by (intro becameProgrammed_same) (simp_all add: setCond_other [OF assms(1)])
qed

lemma eventsOf_cong: "cs_log st1 = cs_log st \<Longrightarrow> eventsOf st1 st' = eventsOf st st'"
  by (simp add: eventsOf_def)

lemma program_became:
  assumes laws: "condition_laws kb"
    and run: "programRecordSet kb bk resolver now st rs zone = (st', res)"
    and patched: "PatchedRecordSetStatus base new \<in> set (eventsOf st st')"
    and became: "becameProgrammed kb base new"
  shows "\<exists>statuses. bk_EnsureRecordSet bk (cs_dns st) zone rs = (cs_dns st', statuses, None)
     \<and> base = rs \<and> (\<forall>x \<in> set statuses. isProgrammed (kb_findCond kb) x)"
proof (cases "recordSetProgrammedAtGeneration kb rs")
  case True
  with run have "checkALIASTargets kb resolver now st rs = (st', res)" by (simp add: programRecordSet_programmed)
  with checkALIASTargets_became [OF laws _ patched] became show ?thesis by blast
next
  case False
  obtain s statuses e where ens: "bk_EnsureRecordSet bk (cs_dns st) zone rs = (s, statuses, e)" by (metis prod_cases3)
  let ?st1 = "st\<lparr>cs_dns := s, cs_log := cs_log st @ [ProviderEnsured zone rs statuses e]\<rparr>"
  from programRecordSet_run [OF False run ens] obtain st2 r where
    u: "updateStatus kb now ?st1 rs e statuses = (st2, r)"
    and cont: "st' = st2 \<and> retried res \<or> (\<exists>rs2. r = Inr rs2 \<and> e = None \<and> (\<forall>x \<in> set statuses. isProgrammed (kb_findCond kb) x)
        \<and> checkALIASTargets kb resolver now st2 rs2 = (st', res))" .
  from updateStatus_log [OF u] have dns: "cs_dns st2 = s"
    and log2: "cs_log st2 = cs_log st @ [ProviderEnsured zone rs statuses e] \<or>
      (\<exists>new. cs_log st2 = cs_log st @ [ProviderEnsured zone rs statuses e, PatchedRecordSetStatus rs new]
         \<and> rs_conditions new = fst (kb_setCond kb (rs_conditions rs) (programmedCondition kb now rs e statuses)))"
    by auto
  have dns': "cs_dns st' = s" using cont dns checkALIASTargets_log by fastforce
  have "PatchedRecordSetStatus base new \<in> set (eventsOf st st2)"
  proof (cases "st' = st2")
    case False
    with cont obtain rs2 where al: "checkALIASTargets kb resolver now st2 rs2 = (st', res)" by blast
    from checkALIASTargets_became [OF laws al] became have "PatchedRecordSetStatus base new \<notin> set (eventsOf st2 st')" by blast
    moreover have "set (eventsOf st st') \<subseteq> set (eventsOf st st2) \<union> set (eventsOf st2 st')"
      using log2 checkALIASTargets_log [OF al] by (auto simp: eventsOf_def)
    ultimately show ?thesis using patched by blast
  qed (use patched in simp)
  then have "base = rs" and "rs_conditions new = fst (kb_setCond kb (rs_conditions rs) (programmedCondition kb now rs e statuses))"
    using log2 by (auto simp: eventsOf_def)
  with updateStatus_became [OF laws] became ens dns' show ?thesis by (auto simp: becameProgrammed_def)
qed

lemma live_became:
  assumes laws: "finalizer_laws kb" "condition_laws kb"
    and run: "reconcileLive kb bk resolver now st rs zone = (st', res)"
    and patched: "PatchedRecordSetStatus base new \<in> set (eventsOf st st')"
    and became: "becameProgrammed kb base new"
  shows "\<exists>statuses. bk_EnsureRecordSet bk (cs_dns st) zone rs = (cs_dns st', statuses, None)
     \<and> base = rs \<and> (\<forall>x \<in> set statuses. isProgrammed (kb_findCond kb) x)"
  using reconcileLive_run [OF laws run]
proof (elim disjE exE conjE)
  fix new'
  assume "cs_log st' = cs_log st @ [PatchedRecordSetStatus rs new']" "rs_meta new' = rs_meta rs"
    and "kb_findCond kb (rs_conditions new') CondProgrammed = kb_findCond kb (rs_conditions rs) CondProgrammed"
  then show ?thesis using patched became becameProgrammed_same by auto
next
  assume "programRecordSet kb bk resolver now st rs zone = (st', res)"
  then show ?thesis using program_became [OF laws(2) _ patched became] by blast
qed (use patched in auto)

lemma missing_became:
  assumes "condition_laws kb" and "reconcileMissingZone kb now st key rs = (st', res)"
    and "PatchedRecordSetStatus base new \<in> set (eventsOf st st')"
  shows "\<not> becameProgrammed kb base new"
proof -
  from reconcileMissingZone_log [OF assms(2)] assms(3) have
    "base = rs" "new = rs\<lparr>rs_conditions := fst (kb_setCond kb (rs_conditions rs)
        (mkCondition CondAccepted ConditionFalse ReasonPending
           (''waiting for DNSZone '' @ go_quote (rs_zoneRef rs)) (m_generation (rs_meta rs)) now))\<rparr>"
    by auto
  then show ?thesis
    by (intro becameProgrammed_same) (simp_all add: setCond_other [OF assms(1)] mkCondition_def CondProgrammed_def CondAccepted_def)
qed

lemma ReconcileRecordSet_became:
  assumes laws: "finalizer_laws kb" "condition_laws kb"
    and run: "ReconcileRecordSet kb bk resolver handlerClass now st key = (st', res)"
    and patched: "PatchedRecordSetStatus base new \<in> set (eventsOf st st')"
    and became: "becameProgrammed kb base new"
  shows "\<exists>zone statuses. z_className zone = handlerClass
     \<and> bk_EnsureRecordSet bk (cs_dns st) zone base = (cs_dns st', statuses, None)
     \<and> (\<forall>x \<in> set statuses. isProgrammed (kb_findCond kb) x)"
  using run
proof (cases rule: ReconcileRecordSet_cases)
  case idle
  then show ?thesis using patched by (simp add: eventsOf_def)
next
  case (missing st1 rs)
  then show ?thesis using missing_became [OF laws(2)] patched became eventsOf_cong by metis
next
  case (live st1 rs zone)
  then show ?thesis using live_became [OF laws live(7)] patched became by (metis eventsOf_cong)
next
  case (finalize st1 rs zone)
  then show ?thesis using finalizeRecordSet_log [OF finalize(7)] patched by auto
qed

section \<open>Letting go\<close>

lemma withFinalizers_of [simp]: "finalizersOf (withFinalizers rs fs) = fs"
  by (simp add: withFinalizers_def)

definition releases :: "DNSRecordSet \<Rightarrow> DNSRecordSet \<Rightarrow> bool" where
  "releases base new \<longleftrightarrow>
     downstreamRSFinalizer \<in> set (finalizersOf base) \<and> downstreamRSFinalizer \<notin> set (finalizersOf new)"

lemma program_no_meta:
  assumes "programRecordSet kb bk resolver now st rs zone = (st', res)"
  shows "PatchedRecordSet base new \<notin> set (eventsOf st st')"
proof (cases "recordSetProgrammedAtGeneration kb rs")
  case True
  with assms have "checkALIASTargets kb resolver now st rs = (st', res)" by (simp add: programRecordSet_programmed)
  from checkALIASTargets_log [OF this] show ?thesis by (auto simp: eventsOf_def)
next
  case False
  obtain s statuses e where ens: "bk_EnsureRecordSet bk (cs_dns st) zone rs = (s, statuses, e)" by (metis prod_cases3)
  from programRecordSet_run [OF False assms ens] obtain st2 r where
    u: "updateStatus kb now (st\<lparr>cs_dns := s, cs_log := cs_log st @ [ProviderEnsured zone rs statuses e]\<rparr>) rs e statuses = (st2, r)"
    and cont: "st' = st2 \<and> retried res \<or> (\<exists>rs2. r = Inr rs2 \<and> e = None \<and> (\<forall>x \<in> set statuses. isProgrammed (kb_findCond kb) x)
        \<and> checkALIASTargets kb resolver now st2 rs2 = (st', res))" .
  from updateStatus_log [OF u] have "cs_log st2 = cs_log st @ [ProviderEnsured zone rs statuses e] \<or>
      (\<exists>new. cs_log st2 = cs_log st @ [ProviderEnsured zone rs statuses e, PatchedRecordSetStatus rs new])"
    by auto
  moreover from cont have "cs_log st' = cs_log st2 \<or> (\<exists>rs2 new. cs_log st' = cs_log st2 @ [PatchedRecordSetStatus rs2 new])"
  proof
    assume "\<exists>rs2. r = Inr rs2 \<and> e = None \<and> (\<forall>x \<in> set statuses. isProgrammed (kb_findCond kb) x)
        \<and> checkALIASTargets kb resolver now st2 rs2 = (st', res)"
    then obtain rs2 where "checkALIASTargets kb resolver now st2 rs2 = (st', res)" by blast
    from checkALIASTargets_log [OF this] show ?thesis by blast
  qed blast
  ultimately show ?thesis by (auto simp: eventsOf_def)
qed

lemma live_no_release:
  assumes laws: "finalizer_laws kb" "condition_laws kb"
    and run: "reconcileLive kb bk resolver now st rs zone = (st', res)"
    and patched: "PatchedRecordSet base new \<in> set (eventsOf st st')"
  shows "\<not> releases base new"
  using reconcileLive_run [OF laws run]
proof (elim disjE exE conjE)
  assume "programRecordSet kb bk resolver now st rs zone = (st', res)"
  with program_no_meta patched show ?thesis by blast
qed (use patched in \<open>auto simp: releases_def\<close>)

lemma ReconcileRecordSet_release:
  assumes laws: "finalizer_laws kb" "condition_laws kb"
    and run: "ReconcileRecordSet kb bk resolver handlerClass now st key = (st', res)"
    and patched: "PatchedRecordSet base new \<in> set (eventsOf st st')"
    and release: "releases base new"
  shows "(\<exists>e. kb_isNotFound kb e \<and> m_deleted (rs_meta base) \<noteq> None
            \<and> eventsOf st st' = [AskedZoneLive (m_namespace (rs_meta base), rs_zoneRef base) (Some e), PatchedRecordSet base new])
    \<or> (\<exists>zone rs s. z_className zone = handlerClass \<and> snd (kb_getRecordSet kb (cs_kube st) key) = Inr rs
            \<and> m_deleted (rs_meta rs) \<noteq> None \<and> bk_DeleteRecordSet bk (cs_dns st) zone rs = (s, None)
            \<and> eventsOf st st' = [ProviderDeleted zone rs None, PatchedRecordSet base new])"
  using run
proof (cases rule: ReconcileRecordSet_cases)
  case idle
  then show ?thesis using patched by (simp add: eventsOf_def)
next
  case (missing st1 rs)
  then show ?thesis using reconcileMissingZone_log [OF missing(4)] patched by auto
next
  case (live st1 rs zone)
  then show ?thesis using live_no_release [OF laws live(7)] patched release by (metis eventsOf_cong)
next
  case (finalize st1 rs zone)
  then show ?thesis using finalizeRecordSet_log [OF finalize(7)] patched by auto
qed

lemma isProgrammed_not_failed:
  assumes "condition_laws kb" and "isProgrammed (kb_findCond kb) st"
  shows "\<not> failedStatus st"
proof
  assume "failedStatus st"
  then obtain c where c: "st_conditions st = [c]" "c_status c = ConditionFalse" by (auto simp: failedStatus_def)
  from assms(2) obtain c' where c': "kb_findCond kb [c] CondProgrammed = Some c'" "c_status c' = ConditionTrue"
    unfolding isProgrammed_def c(1) by blast
  from assms(1) c'(1) have "c' \<in> set [c]" unfolding condition_laws_def find_laws_def by blast
  with c c'(2) show False by simp
qed

section \<open>A cluster for examples\<close>

definition startCtrl :: "'s \<Rightarrow> (unit, 's) ctrl" where
  "startCtrl s = \<lparr>cs_kube = (), cs_dns = s, cs_checks = [], cs_gauge = [], cs_log = []\<rparr>"

text \<open>A record set that is finalized, owned and accepted, and the same one being deleted.\<close>

definition aReadySet :: DNSRecordSet where
  "aReadySet = aRecordSet\<lparr>rs_meta := (aMeta ''web'')\<lparr>m_finalizers := [downstreamRSFinalizer],
       m_ownerRefs := [\<lparr>owr_uid = m_uid (z_meta aZone), owr_controller = False\<rparr>]\<rparr>,
     rs_conditions := [mkCondition CondAccepted ConditionTrue ReasonAccepted ''RecordSet is accepted for processing''
       (m_generation (aMeta ''web'')) 3]\<rparr>"

definition aDyingSet :: DNSRecordSet where
  "aDyingSet = aReadySet\<lparr>rs_meta := (rs_meta aReadySet)\<lparr>m_deleted := Some 5\<rparr>\<rparr>"

abbreviation servingBackend :: "pdns_request list dns_backend" where
  "servingBackend \<equiv> pdnsBackend (serving_env [aHeldRRset]) firstOfType 7 ''2024010100''"

section \<open>Properties\<close>

text \<open>
  C4: Programmed means served. When a reconcile writes a status that says a record set is
  programmed at its generation, and it was not before, then for every entry the record set
  declares, either the zone that PowerDNS returned in this reconcile already held this object's
  RRset for the name, or PowerDNS accepted in this reconcile a patch carrying the change built for
  it.
\<close>

theorem programmed_means_served:
  assumes laws: "finalizer_laws kb" "condition_laws kb"
    and run: "ReconcileRecordSet kb (pdnsBackend env (kb_findCond kb) now today) resolver handlerClass now st key = (st', res)"
    and patched: "PatchedRecordSetStatus base new \<in> set (eventsOf st st')"
    and became: "becameProgrammed kb base new"
  shows "\<exists>(zone :: DNSZone) s1 existing log. z_className zone = handlerClass
    \<and> getPDNSZoneRRSets env (cs_dns st) (z_domainName zone) = (s1, Inr existing)
    \<and> trace env s1 log (cs_dns st')
    \<and> (\<forall>e \<in> set (rs_records base). upToDate (z_domainName zone) base existing (re_name e)
         \<or> acceptedIn (z_domainName zone) [changeFor now today (z_domainName zone) base existing (re_name e)] log)"
proof -
  from ReconcileRecordSet_became [OF laws run patched became] obtain zone statuses where zone: "z_className zone = handlerClass"
    and ens: "bk_EnsureRecordSet (pdnsBackend env (kb_findCond kb) now today) (cs_dns st) zone base = (cs_dns st', statuses, None)"
    and all: "\<forall>x \<in> set statuses. isProgrammed (kb_findCond kb) x" by blast
  from ens obtain er where er: "EnsureRecordSet env (cs_dns st) (kb_findCond kb) now today zone base = (cs_dns st', er)"
    "statuses = er_statuses er" "er_err er = None" by (auto simp: pdnsBackend_def split: prod.splits)
  from er(1,3) obtain s1 existing where read: "getPDNSZoneRRSets env (cs_dns st) (z_domainName zone) = (s1, Inr existing)"
    and rest: "ensureRead env s1 (kb_findCond kb) now today (z_domainName zone) base existing = (cs_dns st', er)"
    by (auto simp: EnsureRecordSet_def split: prod.splits sum.splits)
  from ensureRead_outcome [OF rest] obtain log where names: "map st_name (er_statuses er) = owners base"
    and log: "trace env s1 log (cs_dns st')"
    and each: "\<And>i. i < length (owners base) \<Longrightarrow> if programmed (er_statuses er ! i)
        then upToDate (z_domainName zone) base existing (owners base ! i)
             \<or> acceptedIn (z_domainName zone) [changeFor now today (z_domainName zone) base existing (owners base ! i)] log
        else failedStatus (er_statuses er ! i) \<and> \<not> upToDate (z_domainName zone) base existing (owners base ! i)" by blast
  have "upToDate (z_domainName zone) base existing (re_name e)
      \<or> acceptedIn (z_domainName zone) [changeFor now today (z_domainName zone) base existing (re_name e)] log"
    if "e \<in> set (rs_records base)" for e
  proof -
    from that have "re_name e \<in> set (owners base)" by simp
    then obtain i where i: "i < length (owners base)" "owners base ! i = re_name e" unfolding in_set_conv_nth by blast
    have "length (er_statuses er) = length (owners base)" using names by (metis length_map)
    then have "er_statuses er ! i \<in> set statuses" using i(1) er(2) by simp
    with all have "\<not> failedStatus (er_statuses er ! i)" using isProgrammed_not_failed [OF laws(2)] by blast
    with each [OF i(1)] i(2) show ?thesis by (auto split: if_splits)
  qed
  with zone read log show ?thesis by blast
qed

abbreviation anEnsureRun :: "(unit, pdns_request list) ctrl \<times> ctrl_result" where
  "anEnsureRun \<equiv> ReconcileRecordSet (oneSetKube aReadySet (Some aZone)) servingBackend None (z_className aZone) 7
     (startCtrl []) (objectKey (rs_meta aReadySet))"

lemma anEnsureRun_patch:
  "\<exists>new. PatchedRecordSetStatus aReadySet new \<in> set (eventsOf (startCtrl []) (fst anEnsureRun))
     \<and> becameProgrammed (oneSetKube aReadySet (Some aZone)) aReadySet new"
proof -
  have "case eventsOf (startCtrl []) (fst anEnsureRun) of
      [_, PatchedRecordSetStatus base new] \<Rightarrow> base = aReadySet \<and> becameProgrammed (oneSetKube aReadySet (Some aZone)) base new
    | _ \<Rightarrow> False" by code_simp
  then show ?thesis by (auto simp: neq_Nil_conv split: list.splits ctrl_event.splits)
qed

theorem programmed_means_served_witness:
  "\<exists>(zone :: DNSZone) s1 existing log. getPDNSZoneRRSets (serving_env [aHeldRRset]) [] (z_domainName zone) = (s1, Inr existing)
    \<and> trace (serving_env [aHeldRRset]) s1 log (cs_dns (fst anEnsureRun))
    \<and> (\<forall>e \<in> set (rs_records aReadySet). upToDate (z_domainName zone) aReadySet existing (re_name e)
         \<or> acceptedIn (z_domainName zone) [changeFor 7 ''2024010100'' (z_domainName zone) aReadySet existing (re_name e)] log)"
proof -
  let ?kb = "oneSetKube aReadySet (Some aZone)"
  obtain new where new: "PatchedRecordSetStatus aReadySet new \<in> set (eventsOf (startCtrl []) (fst anEnsureRun))"
    "becameProgrammed ?kb aReadySet new" using anEnsureRun_patch by blast
  have find: "firstOfType = kb_findCond ?kb" by (simp add: oneSetKube_def)
  have run: "ReconcileRecordSet ?kb (pdnsBackend (serving_env [aHeldRRset]) (kb_findCond ?kb) 7 ''2024010100'') None
      (z_className aZone) 7 (startCtrl []) (objectKey (rs_meta aReadySet)) = (fst anEnsureRun, snd anEnsureRun)"
    unfolding find by simp
  from programmed_means_served [OF oneSetKube_laws(2,1) run new] show ?thesis by (simp add: startCtrl_def) blast
qed

text \<open>
  C5: A record set is let go only when its records are gone. A reconcile that takes the
  controller's finalizer off an object either has just been told by the API server, not by the
  cache, that the zone does not exist, or has just run the deletion for the record set being
  deleted, and then PowerDNS has no such zone or accepted the delete of every RRset of the zone
  that carries the record set's ownership.
\<close>

theorem released_after_cleanup:
  assumes laws: "finalizer_laws kb" "condition_laws kb"
    and run: "ReconcileRecordSet kb (pdnsBackend env findCond now today) resolver handlerClass now st key = (st', res)"
    and patched: "PatchedRecordSet base new \<in> set (eventsOf st st')"
    and release: "releases base new"
  shows "(\<exists>e. kb_isNotFound kb e \<and> m_deleted (rs_meta base) \<noteq> None
        \<and> eventsOf st st' = [AskedZoneLive (m_namespace (rs_meta base), rs_zoneRef base) (Some e), PatchedRecordSet base new])
    \<or> (\<exists>zone rs s1 r. eventsOf st st' = [ProviderDeleted zone rs None, PatchedRecordSet base new]
        \<and> snd (kb_getRecordSet kb (cs_kube st) key) = Inr rs \<and> m_deleted (rs_meta rs) \<noteq> None
        \<and> getPDNSZoneRRSets env (cs_dns st) (z_domainName zone) = (s1, r)
        \<and> (case r of Inl e \<Rightarrow> isZoneNotFound e
           | Inr existing \<Rightarrow> \<exists>log s'. trace env s1 log s' \<and>
               (\<forall>(key, rr) \<in> set existing. rrsetOwnerRef rr = recordSetOwnerRef rs \<longrightarrow>
                  acceptedIn (z_domainName zone) [newDeleteRRSet (k_name key) (k_typ key)] log)))"
  using ReconcileRecordSet_release [OF laws run patched release]
proof (elim disjE exE conjE)
  fix zone rs s
  assume events: "eventsOf st st' = [ProviderDeleted zone rs None, PatchedRecordSet base new]"
    and rs: "snd (kb_getRecordSet kb (cs_kube st) key) = Inr rs" "m_deleted (rs_meta rs) \<noteq> None"
    and del: "bk_DeleteRecordSet (pdnsBackend env findCond now today) (cs_dns st) zone rs = (s, None)"
  from del obtain pruned where run: "DeleteRecordSet env (cs_dns st) zone rs = (s, pruned, None)"
    by (auto simp: pdnsBackend_def split: prod.splits)
  obtain s1 r where read: "getPDNSZoneRRSets env (cs_dns st) (z_domainName zone) = (s1, r)" by fastforce
  have "case r of Inl e \<Rightarrow> isZoneNotFound e
      | Inr existing \<Rightarrow> \<exists>log s'. trace env s1 log s' \<and>
          (\<forall>(key, rr) \<in> set existing. rrsetOwnerRef rr = recordSetOwnerRef rs \<longrightarrow>
             acceptedIn (z_domainName zone) [newDeleteRRSet (k_name key) (k_typ key)] log)"
  proof (cases r)
    case (Inl e)
    with run read show ?thesis by (auto simp: DeleteRecordSet_def split: if_splits)
  next
    case (Inr existing)
    with DeleteRecordSet_run [OF _ run] read show ?thesis by fastforce
  qed
  with events rs read show ?thesis by blast
qed blast

abbreviation aDeleteRun :: "(unit, pdns_request list) ctrl \<times> ctrl_result" where
  "aDeleteRun \<equiv> ReconcileRecordSet (oneSetKube aDyingSet (Some aZone)) servingBackend None (z_className aZone) 7
     (startCtrl []) (objectKey (rs_meta aDyingSet))"

theorem released_after_cleanup_witness:
  "\<exists>zone rs new. eventsOf (startCtrl []) (fst aDeleteRun) = [ProviderDeleted zone rs None, PatchedRecordSet aDyingSet new]
     \<and> releases aDyingSet new"
proof -
  have "list_ex (\<lambda>e. case e of PatchedRecordSet base new \<Rightarrow> base = aDyingSet \<and> releases base new | _ \<Rightarrow> False)
      (eventsOf (startCtrl []) (fst aDeleteRun))"
    and asked: "\<not> list_ex (\<lambda>e. case e of AskedZoneLive _ _ \<Rightarrow> True | _ \<Rightarrow> False) (eventsOf (startCtrl []) (fst aDeleteRun))"
    by code_simp+
  then obtain ev where ev: "ev \<in> set (eventsOf (startCtrl []) (fst aDeleteRun))"
    "case ev of PatchedRecordSet base new \<Rightarrow> base = aDyingSet \<and> releases base new | _ \<Rightarrow> False"
    unfolding list_ex_iff by blast
  from ev(2) obtain new where "ev = PatchedRecordSet aDyingSet new" "releases aDyingSet new" by (cases ev) simp_all
  with ev(1) have new: "PatchedRecordSet aDyingSet new \<in> set (eventsOf (startCtrl []) (fst aDeleteRun))"
    "releases aDyingSet new" by simp_all
  have first: "AskedZoneLive key e \<notin> set (eventsOf (startCtrl []) (fst aDeleteRun))" for key e
    using asked unfolding list_ex_iff by fastforce
  have run: "aDeleteRun = (fst aDeleteRun, snd aDeleteRun)" by simp
  from released_after_cleanup [OF oneSetKube_laws(2,1) run new] first new(2) show ?thesis by fastforce
qed

lemma program_retries:
  assumes "programRecordSet kb bk resolver now st rs zone = (st', res)"
    and "ProviderEnsured z r statuses e \<in> set (eventsOf st st')"
  shows "retried res \<or> e = None \<and> (\<forall>x \<in> set statuses. isProgrammed (kb_findCond kb) x)"
proof (cases "recordSetProgrammedAtGeneration kb rs")
  case True
  with assms(1) have "checkALIASTargets kb resolver now st rs = (st', res)" by (simp add: programRecordSet_programmed)
  from checkALIASTargets_log [OF this] assms(2) show ?thesis by (auto simp: eventsOf_def)
next
  case False
  obtain s statuses' e' where ens: "bk_EnsureRecordSet bk (cs_dns st) zone rs = (s, statuses', e')" by (metis prod_cases3)
  from programRecordSet_run [OF False assms(1) ens] obtain st2 r where
    u: "updateStatus kb now (st\<lparr>cs_dns := s, cs_log := cs_log st @ [ProviderEnsured zone rs statuses' e']\<rparr>) rs e' statuses' = (st2, r)"
    and cont: "st' = st2 \<and> retried res \<or> (\<exists>rs2. r = Inr rs2 \<and> e' = None \<and> (\<forall>x \<in> set statuses'. isProgrammed (kb_findCond kb) x)
        \<and> checkALIASTargets kb resolver now st2 rs2 = (st', res))" .
  show ?thesis
  proof (cases "retried res")
    case False
    with cont obtain rs2 where e': "e' = None" "\<forall>x \<in> set statuses'. isProgrammed (kb_findCond kb) x"
      and al: "checkALIASTargets kb resolver now st2 rs2 = (st', res)" by blast
    from updateStatus_log [OF u] checkALIASTargets_log [OF al] assms(2) have "statuses = statuses' \<and> e = e'"
      by (auto simp: eventsOf_def)
    with e' show ?thesis by blast
  qed blast
qed

text \<open>
  C23: No record set is forgotten. When a reconcile handed a record set to the provider, then it
  either returns an error, which the work queue retries, or asks to be run again in between five
  seconds and five minutes, or every name was programmed without an error.
\<close>

theorem unprogrammed_is_retried:
  assumes laws: "finalizer_laws kb" "condition_laws kb"
    and run: "ReconcileRecordSet kb bk resolver handlerClass now st key = (st', res)"
    and ensured: "ProviderEnsured zone rs statuses e \<in> set (eventsOf st st')"
  shows "res_err res \<noteq> None \<or> (5 \<le> res_after res \<and> res_after res \<le> 300)
    \<or> e = None \<and> (\<forall>x \<in> set statuses. isProgrammed (kb_findCond kb) x)"
proof -
  have "retried res \<or> e = None \<and> (\<forall>x \<in> set statuses. isProgrammed (kb_findCond kb) x)"
    using run
  proof (cases rule: ReconcileRecordSet_cases)
    case (missing st1 rs')
    then show ?thesis using reconcileMissingZone_log [OF missing(4)] ensured by (auto simp: eventsOf_def)
  next
    case (live st1 rs' zone')
    then have "ProviderEnsured zone rs statuses e \<in> set (eventsOf st1 st')" using ensured by (simp add: eventsOf_def)
    from reconcileLive_run [OF laws live(7)] show ?thesis
    proof (elim disjE)
      assume "programRecordSet kb bk resolver now st1 rs' zone' = (st', res)"
      from program_retries [OF this \<open>ProviderEnsured zone rs statuses e \<in> set (eventsOf st1 st')\<close>] show ?thesis .
    qed (use \<open>ProviderEnsured zone rs statuses e \<in> set (eventsOf st1 st')\<close> in auto)
  next
    case (finalize st1 rs' zone')
    then show ?thesis using finalizeRecordSet_log [OF finalize(7)] ensured by (auto simp: eventsOf_def)
  qed (use ensured in \<open>simp add: eventsOf_def\<close>)
  then show ?thesis by (auto simp: retried_def)
qed

text \<open>A provider that rejects every record set for good.\<close>

definition rejecting :: "unit dns_backend" where
  "rejecting = \<lparr>bk_EnsureZone = (\<lambda>s z c. (s, None)), bk_DeleteZone = (\<lambda>s z. (s, None)),
     bk_GetZoneNameservers = (\<lambda>z c. []), bk_EnsureRecordSet = (\<lambda>s z r. (s, [], Some (ApiError 422 ''no''))),
     bk_DeleteRecordSet = (\<lambda>s z r. (s, None)), bk_ReplaceRRSet = (\<lambda>s _ _ _ _ _ _ _ _. (s, None)),
     bk_DeleteRRSet = (\<lambda>s _ _ _. (s, None))\<rparr>"

theorem unprogrammed_is_retried_witness:
  "5 \<le> res_after (snd (ReconcileRecordSet (oneSetKube aReadySet (Some aZone)) rejecting None (z_className aZone) 7
      (startCtrl ()) (objectKey (rs_meta aReadySet))))"
proof -
  let ?run = "ReconcileRecordSet (oneSetKube aReadySet (Some aZone)) rejecting None (z_className aZone) 7
      (startCtrl ()) (objectKey (rs_meta aReadySet))"
  have "list_ex (\<lambda>ev. case ev of ProviderEnsured zone rs statuses e \<Rightarrow> e \<noteq> None | _ \<Rightarrow> False)
      (eventsOf (startCtrl ()) (fst ?run))" and no: "res_err (snd ?run) = None" by code_simp+
  then obtain ev where ev: "ev \<in> set (eventsOf (startCtrl ()) (fst ?run))"
    "case ev of ProviderEnsured zone rs statuses e \<Rightarrow> e \<noteq> None | _ \<Rightarrow> False" unfolding list_ex_iff by blast
  from ev(2) obtain zone rs statuses e where "ev = ProviderEnsured zone rs statuses e" and e: "e \<noteq> None"
    by (cases ev) simp_all
  with ev(1) have ensured: "ProviderEnsured zone rs statuses e \<in> set (eventsOf (startCtrl ()) (fst ?run))" by simp
  have run: "?run = (fst ?run, snd ?run)" by simp
  from unprogrammed_is_retried [OF oneSetKube_laws(2,1) run ensured] no e show ?thesis by blast
qed

text \<open>
  C39: When a name is given up, exactly those who wait for it are woken. Let the field index return
  the record sets of the namespace that it files under the zone. A change of a record set that declares
  or reports some name requests the other record sets of its zone that have a name, not programmed,
  which is the same owner name as one the changed object declares in its spec or reports in its status.
  When the zone cannot be read, names cannot be compared and every record set of the zone with a name
  not programmed is requested; when the zone is gone, none is.
\<close>

theorem recordSetsWaitingOn_exact:
  assumes held: "h0 \<in> set holders" "rs_records h0 \<noteq> [] \<or> rs_recordSets h0 \<noteq> []"
    and index: "kb_listWaiting kb (cs_kube st) (m_namespace (rs_meta (last holders)), rs_zoneRef (last holders))
        = (k, Inr (filter (\<lambda>rs. m_namespace (rs_meta rs) = m_namespace (rs_meta (last holders))
            \<and> rs_zoneRef (last holders) \<in> set (unprogrammedRecordSetZone kb rs)) cluster))"
    and zone: "kb_getZone kb k (m_namespace (rs_meta (last holders)), rs_zoneRef (last holders)) = (k', got)"
  shows "set (snd (recordSetsWaitingOn kb st holders)) =
    {objectKey (rs_meta rs) | rs. rs \<in> set cluster
       \<and> m_namespace (rs_meta rs) = m_namespace (rs_meta (last holders)) \<and> rs_zoneRef rs = rs_zoneRef (last holders)
       \<and> m_name (rs_meta rs) \<noteq> m_name (rs_meta (last holders))
       \<and> (\<exists>x \<in> set (rs_recordSets rs). \<not> isProgrammed (kb_findCond kb) x
            \<and> (case got of
                 Inl e \<Rightarrow> \<not> kb_isNotFound kb e
               | Inr zone \<Rightarrow> \<exists>h \<in> set holders. \<exists>name \<in> re_name ` set (rs_records h) \<union> st_name ` set (rs_recordSets h).
                   Qualify (st_name x) (z_domainName zone) = Qualify name (z_domainName zone)))}"
proof -
  let ?holder = "last holders"
  let ?ws = "filter (\<lambda>rs. m_namespace (rs_meta rs) = m_namespace (rs_meta ?holder)
            \<and> rs_zoneRef ?holder \<in> set (unprogrammedRecordSetZone kb rs)) cluster"
  let ?names = "\<lambda>domain. (\<lambda>name. Qualify name domain) ` set (concat (map heldNames holders))"
  have some: "holders \<noteq> []" "concat (map heldNames holders) \<noteq> []" using held by (auto simp: heldNames_def)
  have run: "set (snd (recordSetsWaitingOn kb st holders)) =
      (\<lambda>rs. objectKey (rs_meta rs)) ` {rs \<in> set ws. m_name (rs_meta rs) \<noteq> m_name (rs_meta ?holder)
         \<and> (case got of Inl e \<Rightarrow> \<not> kb_isNotFound kb e | Inr zone \<Rightarrow> waitsOnAny kb rs (z_domainName zone) (?names (z_domainName zone)))}"
    if "kb_listWaiting kb (cs_kube st) (m_namespace (rs_meta ?holder), rs_zoneRef ?holder) = (k, Inr ws)" for ws
    using that zone some
    by (cases ws; cases got) (auto simp: recordSetsWaitingOn_def readZone_def errOf_def Let_def simp del: set_concat concat_eq_Nil_conv)
  have filed: "rs_zoneRef ?holder \<in> set (unprogrammedRecordSetZone kb rs) \<longleftrightarrow>
      rs_zoneRef rs = rs_zoneRef ?holder \<and> (\<exists>x \<in> set (rs_recordSets rs). \<not> isProgrammed (kb_findCond kb) x)" for rs
    by (auto simp: unprogrammedRecordSetZone_def conditionTrue_isProgrammed list_ex_iff)
  have waits: "waitsOnAny kb rs domain (?names domain) \<longleftrightarrow>
      (\<exists>x \<in> set (rs_recordSets rs). \<not> isProgrammed (kb_findCond kb) x
        \<and> (\<exists>h \<in> set holders. \<exists>name \<in> re_name ` set (rs_records h) \<union> st_name ` set (rs_recordSets h).
             Qualify (st_name x) domain = Qualify name domain))" for rs domain
  proof -
    have "q \<in> ?names domain \<longleftrightarrow> (\<exists>h \<in> set holders. \<exists>name \<in> re_name ` set (rs_records h) \<union> st_name ` set (rs_recordSets h).
        q = Qualify name domain)" for q
      by (auto simp: heldNames_def simp del: Un_iff)
    then show ?thesis unfolding waitsOnAny_def by (simp only: conditionTrue_isProgrammed list_ex_iff)
  qed
  have "rs \<in> set ?ws \<and> m_name (rs_meta rs) \<noteq> m_name (rs_meta ?holder)
      \<and> (case got of Inl e \<Rightarrow> \<not> kb_isNotFound kb e | Inr zone \<Rightarrow> waitsOnAny kb rs (z_domainName zone) (?names (z_domainName zone)))
    \<longleftrightarrow> rs \<in> set cluster \<and> m_namespace (rs_meta rs) = m_namespace (rs_meta ?holder) \<and> rs_zoneRef rs = rs_zoneRef ?holder
      \<and> m_name (rs_meta rs) \<noteq> m_name (rs_meta ?holder)
      \<and> (\<exists>x \<in> set (rs_recordSets rs). \<not> isProgrammed (kb_findCond kb) x
            \<and> (case got of
                 Inl e \<Rightarrow> \<not> kb_isNotFound kb e
               | Inr zone \<Rightarrow> \<exists>h \<in> set holders. \<exists>name \<in> re_name ` set (rs_records h) \<union> st_name ` set (rs_recordSets h).
                   Qualify (st_name x) (z_domainName zone) = Qualify name (z_domainName zone)))" for rs
    unfolding waits set_filter mem_Collect_eq filed by (cases got) (simp_all only: sum.case, blast+)
  then show ?thesis unfolding run [OF index] by blast
qed

definition aWaitingSet :: DNSRecordSet where
  "aWaitingSet = aRecordSet\<lparr>rs_meta := aMeta ''other'', rs_recordSets := [\<lparr>st_name = ''API'', st_conditions = []\<rparr>]\<rparr>"

theorem recordSetsWaitingOn_exact_witness:
  "set (snd (recordSetsWaitingOn (oneSetKube aWaitingSet (Some aZone)) (startCtrl ()) [aRecordSet]))
     = {objectKey (rs_meta aWaitingSet)}"
proof -
  let ?kb = "oneSetKube aWaitingSet (Some aZone)"
  have this_one: "aRecordSet \<in> set [aRecordSet]" by simp
  have declares: "rs_records aRecordSet \<noteq> [] \<or> rs_recordSets aRecordSet \<noteq> []" by code_simp
  have facts:
    "kb_listWaiting ?kb (cs_kube (startCtrl ())) (m_namespace (rs_meta (last [aRecordSet])), rs_zoneRef (last [aRecordSet]))
        = ((), Inr (filter (\<lambda>rs. m_namespace (rs_meta rs) = m_namespace (rs_meta (last [aRecordSet]))
            \<and> rs_zoneRef (last [aRecordSet]) \<in> set (unprogrammedRecordSetZone ?kb rs)) [aWaitingSet]))"
    by code_simp
  have read: "kb_getZone ?kb () (m_namespace (rs_meta (last [aRecordSet])), rs_zoneRef (last [aRecordSet])) = ((), Inr aZone)"
    by code_simp
  have other: "m_namespace (rs_meta aWaitingSet) = m_namespace (rs_meta aRecordSet)"
    "rs_zoneRef aWaitingSet = rs_zoneRef aRecordSet" "m_name (rs_meta aWaitingSet) \<noteq> m_name (rs_meta aRecordSet)"
    "Qualify ''API'' (z_domainName aZone) = Qualify ''api'' (z_domainName aZone)"
    "map re_name (rs_records aRecordSet) = [''api'']" "rs_recordSets aRecordSet = []" "rs_recordSets aWaitingSet = [\<lparr>st_name = ''API'', st_conditions = []\<rparr>]" by code_simp+
  have "\<not> isProgrammed (kb_findCond ?kb) \<lparr>st_name = ''API'', st_conditions = []\<rparr>"
    by (simp add: isProgrammed_def oneSetKube_def firstOfType_def)
  moreover have "re_name ` set (rs_records aRecordSet) = {''api''}" by (metis other(5) image_set list.set(1,2))
  ultimately show ?thesis using recordSetsWaitingOn_exact [OF this_one declares facts read] other by auto
qed

text \<open>
  Writing a status twice writes it once. When the cluster stored the first status patch as it
  was sent, reporting the same outcome again, at any later time, sends no second patch. The
  statuses of a record set are kept sorted by name and its metadata and spec are never touched.
\<close>

theorem updateStatus_idempotent:
  assumes laws: "condition_laws kb"
    and stored: "\<And>k base new. snd (kb_patchRecordSetStatus kb k base new) = Inr new"
    and first: "updateStatus kb now st rs e statuses = (st', Inr rs')" and some: "statuses \<noteq> []"
  shows "updateStatus kb now' st' rs' e statuses = (st', Inr rs')
    \<and> rs_recordSets rs' = go_sort statusNameLess statuses \<and> rs_meta rs' = rs_meta rs \<and> rs_records rs' = rs_records rs"
proof -
  let ?c = "programmedCondition kb now rs e statuses"
  have rs': "rs' = rs\<lparr>rs_conditions := fst (kb_setCond kb (rs_conditions rs) ?c), rs_recordSets := go_sort statusNameLess statuses\<rparr>"
  proof (cases "snd (kb_setCond kb (rs_conditions rs) ?c) \<or> rs_recordSets rs = [] \<or> rs_recordSets rs \<noteq> go_sort statusNameLess statuses")
    case True
    with first show ?thesis
      using stored by (auto simp: updateStatus_def patchRecordSetStatus_def Let_def split: prod.splits if_splits) (metis Inr_inject snd_conv)+
  next
    case False
    with first show ?thesis by (auto simp: updateStatus_def Let_def split: prod.splits if_splits)
  qed
  have "sameBody (programmedCondition kb now rs e statuses) (programmedCondition kb now' rs' e statuses)"
    unfolding rs' by (simp add: programmedCondition_def mkCondition_def sameBody_def Let_def split: option.splits prod.splits)
  moreover obtain c' where "kb_findCond kb (rs_conditions rs') CondProgrammed = Some c'" "sameBody c' ?c"
    using setCond_find [OF laws, of "rs_conditions rs" ?c] unfolding rs' by auto
  ultimately have "\<not> snd (kb_setCond kb (rs_conditions rs') (programmedCondition kb now' rs' e statuses))"
    using laws unfolding condition_laws_def by (auto simp: sameBody_def)
  then have "kb_setCond kb (rs_conditions rs') (programmedCondition kb now' rs' e statuses) = (rs_conditions rs', False)"
    using laws unfolding condition_laws_def by (metis (full_types) prod.collapse)
  moreover have "rs_recordSets rs' = go_sort statusNameLess statuses" by (simp add: rs')
  moreover from this have "rs'\<lparr>rs_conditions := rs_conditions rs', rs_recordSets := rs_recordSets rs'\<rparr> = rs'" by simp
  ultimately have "updateStatus kb now' st' rs' e statuses = (st', Inr rs')"
    using some by (simp add: updateStatus_def Let_def)
  then show ?thesis by (simp add: rs')
qed

theorem updateStatus_idempotent_witness:
  "\<exists>st' rs'. updateStatus (oneSetKube aReadySet (Some aZone)) 7 (startCtrl ()) aReadySet None [recordSetCreatedStatus 7 ''api''] = (st', Inr rs')
     \<and> updateStatus (oneSetKube aReadySet (Some aZone)) 9 st' rs' None [recordSetCreatedStatus 7 ''api''] = (st', Inr rs')
     \<and> length (cs_log st') = 1"
proof -
  let ?kb = "oneSetKube aReadySet (Some aZone)"
  let ?u = "updateStatus ?kb 7 (startCtrl ()) aReadySet None [recordSetCreatedStatus 7 ''api'']"
  have "length (cs_log (fst ?u)) = 1" and "case snd ?u of Inl _ \<Rightarrow> False | Inr _ \<Rightarrow> True" by code_simp+
  then obtain st' rs' where u: "?u = (st', Inr rs')" "length (cs_log st') = 1"
    by (cases ?u; cases "snd ?u") auto
  have "snd (kb_patchRecordSetStatus ?kb k base new) = Inr new" for k base new by (simp add: oneSetKube_def)
  from updateStatus_idempotent [OF oneSetKube_laws(1) this u(1), of 9] u show ?thesis by simp
qed

end
