(* ===== verification/Zone_Controller.thy ===== *)
theory Zone_Controller
  imports RecordSet_Controller
begin

text \<open>
  The controller that keeps zones in the provider
  (\<^verbatim>\<open>internal/controller/dnszone_downstream_controller.go\<close>): finalizer, deletion that waits for the
  zone's record sets, the Accepted condition, the provider's zone, and the status that follows.
\<close>

section \<open>Definitions\<close>

definition downstreamZoneFinalizer :: string where
  "downstreamZoneFinalizer = ''dns.networking.miloapis.com/finalize-dnszone-downstream''"

definition zoneHasFinalizer :: "'k kube \<Rightarrow> DNSZone \<Rightarrow> bool" where
  "zoneHasFinalizer kb zone = kb_containsFinalizer kb (m_finalizers (z_meta zone)) downstreamZoneFinalizer"

definition zoneWithFinalizers :: "DNSZone \<Rightarrow> string list \<Rightarrow> DNSZone" where
  "zoneWithFinalizers zone fs = zone\<lparr>z_meta := (z_meta zone)\<lparr>m_finalizers := fs\<rparr>\<rparr>"

text \<open>The errors of the single deletes are only logged.\<close>

fun deleteRecordSets :: "'k kube \<Rightarrow> ('k, 's) ctrl \<Rightarrow> DNSRecordSet list \<Rightarrow> ('k, 's) ctrl" where
  "deleteRecordSets kb st [] = st"
| "deleteRecordSets kb st (rs # rest) = deleteRecordSets kb (fst (deleteRecordSet kb st rs)) rest"

definition finalizeZone ::
  "'k kube \<Rightarrow> 's dns_backend \<Rightarrow> ('k, 's) ctrl \<Rightarrow> DNSZone \<Rightarrow> ('k, 's) ctrl \<times> ctrl_result" where
  "finalizeZone kb bk st zone =
     (if zoneHasFinalizer kb zone then
        (case listZone kb st (objectKey (z_meta zone)) of
           (st, Inl e) \<Rightarrow> failWith st (Some e)
         | (st, Inr items) \<Rightarrow>
             if length items > 0 then
               (deleteRecordSets kb st items, \<lparr>res_after = 0, res_requeue = True, res_err = None\<rparr>)
             else
               (case bk_DeleteZone bk (cs_dns st) zone of
                  (s, e) \<Rightarrow>
                    let st = st\<lparr>cs_dns := s, cs_log := cs_log st @ [ProviderDeletedZone zone e]\<rparr> in
                    if e \<noteq> None then failWith st e
                    else if \<not> zoneHasFinalizer kb zone then finish st
                    else
                      (case patchZone kb st zone (zoneWithFinalizers zone
                              (kb_removeFinalizer kb (m_finalizers (z_meta zone)) downstreamZoneFinalizer)) of
                         (st, r) \<Rightarrow> failWith st (errOf r))))
      else finish st)"

text \<open>Once the zone is in the provider: its nameservers, and the Programmed condition.\<close>

definition reportZone ::
  "'k kube \<Rightarrow> 's dns_backend \<Rightarrow> int \<Rightarrow> ('k, 's) ctrl \<Rightarrow> DNSZone \<Rightarrow> DNSZoneClass \<Rightarrow> ('k, 's) ctrl \<times> ctrl_result" where
  "reportZone kb bk now st zone zc =
     (let base = zone; desiredNS = bk_GetZoneNameservers bk zone zc;
          currentNS = NormalizeStringSlice (z_nameservers zone);
          nsStep = (if length desiredNS > 0 \<and> currentNS \<noteq> desiredNS
                    then patchZoneStatus kb st base (zone\<lparr>z_nameservers := desiredNS\<rparr>) else (st, Inr zone)) in
      case nsStep of
        (st, Inl e) \<Rightarrow> failWith st (Some e)
      | (st, Inr zone) \<Rightarrow>
          (case kb_setCond kb (z_conditions zone)
                  (mkCondition CondProgrammed ConditionTrue ReasonProgrammed ''Zone Programmed'' (m_generation (z_meta zone)) now) of
             (conditions, True) \<Rightarrow>
               (case patchZoneStatus kb st base (zone\<lparr>z_conditions := conditions\<rparr>) of (st, r) \<Rightarrow> failWith st (errOf r))
           | (conditions, False) \<Rightarrow> finish st))"

definition reconcileLiveZone ::
  "'k kube \<Rightarrow> 's dns_backend \<Rightarrow> int \<Rightarrow> ('k, 's) ctrl \<Rightarrow> DNSZone \<Rightarrow> DNSZoneClass \<Rightarrow> ('k, 's) ctrl \<times> ctrl_result" where
  "reconcileLiveZone kb bk now st zone zc =
     (if \<not> zoneHasFinalizer kb zone then
        (case patchZone kb st zone (zoneWithFinalizers zone
                (kb_addFinalizer kb (m_finalizers (z_meta zone)) downstreamZoneFinalizer)) of
           (st, r) \<Rightarrow> failWith st (errOf r))
      else
        (case kb_setCond kb (z_conditions zone)
                (mkCondition CondAccepted ConditionTrue ReasonAccepted ''Zone Accepted'' (m_generation (z_meta zone)) now) of
           (conditions, True) \<Rightarrow>
             (case patchZoneStatus kb st zone (zone\<lparr>z_conditions := conditions\<rparr>) of (st, r) \<Rightarrow> failWith st (errOf r))
         | (conditions, False) \<Rightarrow>
             let zone = zone\<lparr>z_conditions := conditions\<rparr> in
             (case bk_EnsureZone bk (cs_dns st) zone zc of
                (s, e) \<Rightarrow>
                  let st = st\<lparr>cs_dns := s, cs_log := cs_log st @ [ProviderEnsuredZone zone e]\<rparr> in
                  if e \<noteq> None then failWith st e else reportZone kb bk now st zone zc)))"

definition ReconcileZone ::
  "'k kube \<Rightarrow> 's dns_backend \<Rightarrow> string \<Rightarrow> int \<Rightarrow> ('k, 's) ctrl \<Rightarrow> string \<times> string \<Rightarrow> ('k, 's) ctrl \<times> ctrl_result" where
  "ReconcileZone kb bk handlerClass now st key =
     (case readZone kb st key of
        (st, Inl e) \<Rightarrow> failWith st (IgnoreNotFound kb e)
      | (st, Inr zone) \<Rightarrow>
          if z_visibility zone = VisibilityPrivate then finish st
          else if z_className zone = [] \<or> z_className zone \<noteq> handlerClass then finish st
          else
            (case kb_getZoneClass kb (cs_kube st) (z_className zone) of
               (k, Inl e) \<Rightarrow> failWith (st\<lparr>cs_kube := k\<rparr>) (IgnoreNotFound kb e)
             | (k, Inr zc) \<Rightarrow>
                 if m_deleted (z_meta zone) = None then reconcileLiveZone kb bk now (st\<lparr>cs_kube := k\<rparr>) zone zc
                 else finalizeZone kb bk (st\<lparr>cs_kube := k\<rparr>) zone))"

section \<open>What a reconcile writes\<close>

lemma deleteRecordSets_log:
  "cs_log (deleteRecordSets kb st rss) = cs_log st @ map DeletedRecordSet rss \<and> cs_dns (deleteRecordSets kb st rss) = cs_dns st"
  by (induction rss arbitrary: st) (auto simp: deleteRecordSet_def split: prod.splits)

lemmas zone_calls = patchZone_def patchZoneStatus_def listZone_def

lemma finalizeZone_log:
  assumes "finalizeZone kb bk st zone = (st', res)"
  shows "cs_log st' = cs_log st
    \<or> (\<exists>items. items \<noteq> [] \<and> cs_log st' = cs_log st @ ListedZone (objectKey (z_meta zone)) items # map DeletedRecordSet items
         \<and> res_requeue res)
    \<or> (\<exists>s e. bk_DeleteZone bk (cs_dns st) zone = (s, Some e)
         \<and> cs_log st' = cs_log st @ [ListedZone (objectKey (z_meta zone)) [], ProviderDeletedZone zone (Some e)])
    \<or> (bk_DeleteZone bk (cs_dns st) zone = (cs_dns st', None)
         \<and> cs_log st' = cs_log st @ [ListedZone (objectKey (z_meta zone)) [], ProviderDeletedZone zone None,
             PatchedZone zone (zoneWithFinalizers zone (kb_removeFinalizer kb (m_finalizers (z_meta zone)) downstreamZoneFinalizer))])"
  using assms
  by (auto simp: finalizeZone_def zone_calls result_defs deleteRecordSets_log Let_def
      split: prod.splits sum.splits if_splits)

text \<open>The status patches after the provider has the zone are on top of what was read, and only add
  nameservers and the condition.\<close>

lemma reportZone_log:
  assumes "reportZone kb bk now st zone zc = (st', res)"
  shows "cs_dns st' = cs_dns st \<and> (\<exists>events. cs_log st' = cs_log st @ events
     \<and> (\<forall>ev \<in> set events. \<exists>new. ev = PatchedZoneStatus zone new))"
  using assms
  by (auto simp: reportZone_def zone_calls result_defs Let_def split: prod.splits sum.splits if_splits bool.splits)

lemma reconcileLiveZone_log:
  assumes laws: "finalizer_laws kb" "condition_laws kb"
    and "reconcileLiveZone kb bk now st zone zc = (st', res)"
  shows "(\<exists>new. cs_log st' = cs_log st @ [PatchedZone zone new] \<and> set (m_finalizers (z_meta zone)) \<subseteq> set (m_finalizers (z_meta new)))
    \<or> (\<exists>new. cs_log st' = cs_log st @ [PatchedZoneStatus zone new]
         \<and> kb_findCond kb (z_conditions new) CondProgrammed = kb_findCond kb (z_conditions zone) CondProgrammed)
    \<or> (\<exists>s e. bk_EnsureZone bk (cs_dns st) zone zc = (s, Some e) \<and> cs_log st' = cs_log st @ [ProviderEnsuredZone zone (Some e)])
    \<or> (\<exists>events. bk_EnsureZone bk (cs_dns st) zone zc = (cs_dns st', None)
         \<and> cs_log st' = cs_log st @ ProviderEnsuredZone zone None # events
         \<and> (\<forall>ev \<in> set events. \<exists>new. ev = PatchedZoneStatus zone new))"
proof (cases "zoneHasFinalizer kb zone")
  case False
  have "set (kb_addFinalizer kb fs f) = insert f (set fs)" for fs f using laws(1) unfolding finalizer_laws_def by blast
  with False assms(3) show ?thesis
    by (auto simp: reconcileLiveZone_def zoneWithFinalizers_def zone_calls result_defs split: prod.splits)
next
  case True
  let ?c = "mkCondition CondAccepted ConditionTrue ReasonAccepted ''Zone Accepted'' (m_generation (z_meta zone)) now"
  obtain conditions changed where sc: "kb_setCond kb (z_conditions zone) ?c = (conditions, changed)" by fastforce
  have other: "kb_findCond kb conditions CondProgrammed = kb_findCond kb (z_conditions zone) CondProgrammed"
    using setCond_other [OF laws(2), of ?c CondProgrammed "z_conditions zone"] sc
    by (simp add: mkCondition_def CondAccepted_def CondProgrammed_def)
  show ?thesis
  proof (cases changed)
    case True
    with \<open>zoneHasFinalizer kb zone\<close> sc assms(3) other show ?thesis
      by (auto simp: reconcileLiveZone_def zone_calls result_defs split: prod.splits)
  next
    case False
    then have "conditions = rs" if "rs = z_conditions zone" for rs
      using laws(2) sc that unfolding condition_laws_def by (metis fst_conv snd_conv)
    then have same: "zone\<lparr>z_conditions := conditions\<rparr> = zone" by simp
    obtain s e where ez: "bk_EnsureZone bk (cs_dns st) zone zc = (s, e)" by fastforce
    let ?st1 = "st\<lparr>cs_dns := s, cs_log := cs_log st @ [ProviderEnsuredZone zone e]\<rparr>"
    show ?thesis
    proof (cases e)
      case None
      then have "reportZone kb bk now ?st1 zone zc = (st', res)"
        using \<open>zoneHasFinalizer kb zone\<close> sc assms(3) False ez same by (simp add: reconcileLiveZone_def)
      from reportZone_log [OF this] None ez show ?thesis by auto
    next
      case (Some er)
      then show ?thesis using \<open>zoneHasFinalizer kb zone\<close> sc assms(3) False ez same
        by (auto simp: reconcileLiveZone_def result_defs)
    qed
  qed
qed

lemma ReconcileZone_cases:
  assumes "ReconcileZone kb bk handlerClass now st key = (st', res)"
  obtains (idle) "cs_log st' = cs_log st" "cs_dns st' = cs_dns st"
  | (live) st1 zone zc where "cs_log st1 = cs_log st" "cs_dns st1 = cs_dns st"
      "snd (kb_getZone kb (cs_kube st) key) = Inr zone" "m_deleted (z_meta zone) = None"
      "reconcileLiveZone kb bk now st1 zone zc = (st', res)"
  | (finalize) st1 zone where "cs_log st1 = cs_log st" "cs_dns st1 = cs_dns st"
      "snd (kb_getZone kb (cs_kube st) key) = Inr zone" "m_deleted (z_meta zone) \<noteq> None"
      "finalizeZone kb bk st1 zone = (st', res)"
proof -
  obtain k1 r1 where g: "kb_getZone kb (cs_kube st) key = (k1, r1)" by fastforce
  show ?thesis
  proof (cases r1)
    case (Inl e)
    with g assms show ?thesis by (intro idle) (auto simp: ReconcileZone_def readZone_def result_defs)
  next
    case (Inr zone)
    obtain k2 r2 where c: "kb_getZoneClass kb k1 (z_className zone) = (k2, r2)" by fastforce
    let ?st2 = "st\<lparr>cs_kube := k2\<rparr>"
    have run: "z_visibility zone = VisibilityPrivate \<or> z_className zone = [] \<or> z_className zone \<noteq> handlerClass \<or> r2 = Inl e
        \<Longrightarrow> cs_log st' = cs_log st \<and> cs_dns st' = cs_dns st" for e
      using assms g c Inr by (auto simp: ReconcileZone_def readZone_def result_defs split: if_splits)
    show ?thesis
    proof (cases "z_visibility zone = VisibilityPrivate \<or> z_className zone = [] \<or> z_className zone \<noteq> handlerClass \<or> (\<exists>e. r2 = Inl e)")
      case True
      with run idle show ?thesis by blast
    next
      case False
      then obtain zc where zc: "r2 = Inr zc" by (cases r2) auto
      show ?thesis
      proof (cases "m_deleted (z_meta zone)")
        case None
        with assms g c Inr zc False have "reconcileLiveZone kb bk now ?st2 zone zc = (st', res)"
          by (auto simp: ReconcileZone_def readZone_def)
        with g Inr None show ?thesis by (intro live [of ?st2 zone zc]) simp_all
      next
        case (Some t)
        with assms g c Inr zc False have "finalizeZone kb bk ?st2 zone = (st', res)"
          by (auto simp: ReconcileZone_def readZone_def)
        with g Inr Some show ?thesis by (intro finalize [of ?st2 zone]) simp_all
      qed
    qed
  qed
qed

definition releasesZone :: "DNSZone \<Rightarrow> DNSZone \<Rightarrow> bool" where
  "releasesZone base new \<longleftrightarrow> downstreamZoneFinalizer \<in> set (m_finalizers (z_meta base))
     \<and> downstreamZoneFinalizer \<notin> set (m_finalizers (z_meta new))"

lemma ReconcileZone_release:
  assumes laws: "finalizer_laws kb" "condition_laws kb"
    and run: "ReconcileZone kb bk handlerClass now st key = (st', res)"
    and patched: "PatchedZone base new \<in> set (eventsOf st st')" and release: "releasesZone base new"
  shows "m_deleted (z_meta base) \<noteq> None \<and> bk_DeleteZone bk (cs_dns st) base = (cs_dns st', None)
    \<and> eventsOf st st' = [ListedZone (objectKey (z_meta base)) [], ProviderDeletedZone base None, PatchedZone base new]"
  using run
proof (cases rule: ReconcileZone_cases)
  case (live st1 zone zc)
  from reconcileLiveZone_log [OF laws live(5)] live(1) patched release show ?thesis
    by (fastforce simp: eventsOf_def releasesZone_def)
next
  case (finalize st1 zone)
  from finalizeZone_log [OF finalize(5)] finalize(1,2,4) patched show ?thesis by (auto simp: eventsOf_def)
qed (use patched in \<open>simp add: eventsOf_def\<close>)

lemma ReconcileZone_programmed:
  assumes laws: "finalizer_laws kb" "condition_laws kb"
    and run: "ReconcileZone kb bk handlerClass now st key = (st', res)"
    and patched: "PatchedZoneStatus base new \<in> set (eventsOf st st')"
    and became: "zoneProgrammed kb new" "\<not> zoneProgrammed kb base"
  shows "\<exists>zc. bk_EnsureZone bk (cs_dns st) base zc = (cs_dns st', None)"
  using run
proof (cases rule: ReconcileZone_cases)
  case (live st1 zone zc)
  from reconcileLiveZone_log [OF laws live(5)] show ?thesis
  proof (elim disjE exE conjE)
    fix new'
    assume "cs_log st' = cs_log st1 @ [PatchedZoneStatus zone new']"
      "kb_findCond kb (z_conditions new') CondProgrammed = kb_findCond kb (z_conditions zone) CondProgrammed"
    then show ?thesis using live(1) patched became by (simp add: eventsOf_def zoneProgrammed_def)
  next
    fix events
    assume "bk_EnsureZone bk (cs_dns st1) zone zc = (cs_dns st', None)"
      "cs_log st' = cs_log st1 @ ProviderEnsuredZone zone None # events"
      "\<forall>ev \<in> set events. \<exists>new. ev = PatchedZoneStatus zone new"
    then show ?thesis using live(1,2) patched by (auto simp: eventsOf_def)
  qed (use live(1) patched in \<open>auto simp: eventsOf_def\<close>)
next
  case (finalize st1 zone)
  from finalizeZone_log [OF finalize(5)] finalize(1) patched show ?thesis by (auto simp: eventsOf_def)
qed (use patched in \<open>simp add: eventsOf_def\<close>)

section \<open>Properties\<close>

lemma DeleteZone_done:
  assumes "DeleteZone env s zone = (s', None)" and "z_domainName zone \<noteq> []"
  shows "\<exists>s1 resp. send env s1 (DeleteReq (zone_path (z_domainName zone))) = (s', Inr resp)
    \<and> resp_status resp \<in> {200, 204, 404}"
  using assms by (auto simp: DeleteZone_def split: prod.splits option.splits sum.splits if_splits)

text \<open>
  C8: A zone is let go last. A reconcile that takes the controller's finalizer off a zone is of a
  zone being deleted, has just seen that no record set refers to the zone, and has had the zone
  deleted: PowerDNS answered the DELETE of the zone as done or as not found. The zone was read before: either
  PowerDNS did not have it, or the request went out only after every commented RRset of the read
  was cleared by a patch PowerDNS accepted. A zone that could not be read is not let go.
\<close>

theorem zone_released_last:
  assumes laws: "finalizer_laws kb" "condition_laws kb"
    and run: "ReconcileZone kb (pdnsBackend env findCond now today) handlerClass now st key = (st', res)"
    and patched: "PatchedZone base new \<in> set (eventsOf st st')" and release: "releasesZone base new"
    and named: "z_domainName base \<noteq> []"
  shows "m_deleted (z_meta base) \<noteq> None
    \<and> eventsOf st st' = [ListedZone (objectKey (z_meta base)) [], ProviderDeletedZone base None, PatchedZone base new]
    \<and> (\<exists>s1 resp. send env s1 (DeleteReq (zone_path (z_domainName base))) = (cs_dns st', Inr resp)
         \<and> resp_status resp \<in> {200, 204, 404})
    \<and> (case getPDNSZoneRRSets env (cs_dns st) (z_domainName base) of
         (s0, Inl failure) \<Rightarrow> isZoneNotFound failure
       | (s0, Inr existing) \<Rightarrow>
           (\<exists>log s1 a. trace env s0 log s1 \<and> send env s1 (DeleteReq (zone_path (z_domainName base))) = (cs_dns st', a)
              \<and> (\<forall>rr \<in> snd ` set existing. commentsOf rr \<noteq> [] \<longrightarrow>
                   (\<exists>x \<in> set log. accepted (snd x) \<and> (\<exists>ws. fst x = PatchReq (zone_path (z_domainName base)) ws
                      \<and> clearWire (zr_name rr) (zr_type rr) \<in> set ws)))))"
proof -
  from ReconcileZone_release [OF laws run patched release] have del: "m_deleted (z_meta base) \<noteq> None"
    and events: "eventsOf st st' = [ListedZone (objectKey (z_meta base)) [], ProviderDeletedZone base None, PatchedZone base new]"
    and dz: "DeleteZone env (cs_dns st) base = (cs_dns st', None)" by (simp_all add: pdnsBackend_def)
  have "\<exists>log s1 a. trace env s0 log s1 \<and> send env s1 (DeleteReq (zone_path (z_domainName base))) = (cs_dns st', a)
            \<and> (\<forall>rr \<in> snd ` set existing. commentsOf rr \<noteq> [] \<longrightarrow>
                 (\<exists>x \<in> set log. accepted (snd x) \<and> (\<exists>ws. fst x = PatchReq (zone_path (z_domainName base)) ws
                    \<and> clearWire (zr_name rr) (zr_type rr) \<in> set ws)))"
    if "getPDNSZoneRRSets env (cs_dns st) (z_domainName base) = (s0, Inr existing)" for s0 existing
    using DeleteZone_run [OF dz named that] by blast
  moreover have "isZoneNotFound failure" if "getPDNSZoneRRSets env (cs_dns st) (z_domainName base) = (s0, Inl failure)" for s0 failure
    using DeleteZone_unread [OF dz named that] by (simp split: if_splits)
  ultimately have "case getPDNSZoneRRSets env (cs_dns st) (z_domainName base) of
         (s0, Inl failure) \<Rightarrow> isZoneNotFound failure
       | (s0, Inr existing) \<Rightarrow>
           (\<exists>log s1 a. trace env s0 log s1 \<and> send env s1 (DeleteReq (zone_path (z_domainName base))) = (cs_dns st', a)
              \<and> (\<forall>rr \<in> snd ` set existing. commentsOf rr \<noteq> [] \<longrightarrow>
                   (\<exists>x \<in> set log. accepted (snd x) \<and> (\<exists>ws. fst x = PatchReq (zone_path (z_domainName base)) ws
                      \<and> clearWire (zr_name rr) (zr_type rr) \<in> set ws))))"
    by (simp split: prod.splits sum.splits)
  with del events DeleteZone_done [OF dz named] show ?thesis by blast
qed

definition aDyingZone :: DNSZone where
  "aDyingZone = aZone\<lparr>z_meta := (aMeta ''z'')\<lparr>m_deleted := Some 5, m_finalizers := [downstreamZoneFinalizer]\<rparr>\<rparr>"

definition emptyZoneKube :: "DNSZone \<Rightarrow> unit kube" where
  "emptyZoneKube z = (oneSetKube aRecordSet (Some z))\<lparr>kb_getZoneClass := (\<lambda>k name. (k, Inr aClass)),
     kb_listByZone := (\<lambda>k key. (k, Inr []))\<rparr>"

lemma emptyZoneKube_laws [simp]: "condition_laws (emptyZoneKube z)" "finalizer_laws (emptyZoneKube z)"
  by (rule plain_conditions; simp add: emptyZoneKube_def oneSetKube_def)
    (rule plain_finalizers; simp add: emptyZoneKube_def oneSetKube_def)

abbreviation aZoneRun :: "DNSZone \<Rightarrow> (unit, pdns_request list) ctrl \<times> ctrl_result" where
  "aZoneRun z \<equiv> ReconcileZone (emptyZoneKube z) servingBackend ''pdns'' 7 (startCtrl []) (''ns'', ''z'')"

theorem zone_released_last_witness:
  "\<exists>log s1 a. trace (serving_env [aHeldRRset]) [GetZoneReq ''example.com.''] log s1
     \<and> send (serving_env [aHeldRRset]) s1 (DeleteReq ''example.com.'') = (cs_dns (fst (aZoneRun aDyingZone)), a)
     \<and> (\<exists>x \<in> set log. accepted (snd x) \<and> (\<exists>ws. fst x = PatchReq ''example.com.'' ws
          \<and> clearWire ''www.example.com.'' ''A'' \<in> set ws))"
proof -
  have "case cs_log (fst (aZoneRun aDyingZone)) of
      [_, _, PatchedZone base new] \<Rightarrow> base = aDyingZone \<and> releasesZone base new | _ \<Rightarrow> False" by code_simp
  then obtain new where new: "PatchedZone aDyingZone new \<in> set (eventsOf (startCtrl []) (fst (aZoneRun aDyingZone)))"
    "releasesZone aDyingZone new"
    by (auto simp: eventsOf_def startCtrl_def neq_Nil_conv split: list.splits ctrl_event.split_asm)
  have run: "aZoneRun aDyingZone = (fst (aZoneRun aDyingZone), snd (aZoneRun aDyingZone))" by simp
  have named: "z_domainName aDyingZone \<noteq> []" by (simp add: aDyingZone_def aZone_def)
  have read: "getPDNSZoneRRSets (serving_env [aHeldRRset]) (cs_dns (startCtrl [])) (z_domainName aDyingZone)
      = ([GetZoneReq ''example.com.''], Inr (indexRRSets [aHeldRRset]))"
    and idx: "indexRRSets [aHeldRRset] = [(\<lparr>k_name = ''www.example.com.'', k_typ = ''A''\<rparr>, aHeldRRset)]"
    and held: "commentsOf aHeldRRset \<noteq> []" "zr_name aHeldRRset = ''www.example.com.''" "zr_type aHeldRRset = ''A''"
      "zone_path (z_domainName aDyingZone) = ''example.com.''" by code_simp+
  from zone_released_last [OF emptyZoneKube_laws(2,1) run new named] read show ?thesis
    using held by (auto simp: idx)
qed

text \<open>
  C25: A zone says it is programmed only when PowerDNS has it. A reconcile that writes
  Programmed=True to a zone that did not say so has read the zone from PowerDNS, and either found it
  or was told that it does not exist and created it without an error.
\<close>

theorem zone_programmed_exists:
  assumes laws: "finalizer_laws kb" "condition_laws kb"
    and run: "ReconcileZone kb (pdnsBackend env findCond now today) handlerClass now st key = (st', res)"
    and patched: "PatchedZoneStatus base new \<in> set (eventsOf st st')"
    and became: "zoneProgrammed kb new" "\<not> zoneProgrammed kb base"
  shows "\<exists>s1 found zc. GetZone env (cs_dns st) (z_domainName base) = (s1, found)
    \<and> (case found of Inr name \<Rightarrow> cs_dns st' = s1
       | Inl e \<Rightarrow> isZoneNotFound e
           \<and> CreateZone env s1 (z_domainName base) (GetZoneNameservers base zc) = (cs_dns st', None))"
proof -
  from ReconcileZone_programmed [OF laws run patched became] obtain zc where
    ez: "EnsureZone env (cs_dns st) base zc = (cs_dns st', None)" by (auto simp: pdnsBackend_def)
  obtain s1 found where g: "GetZone env (cs_dns st) (z_domainName base) = (s1, found)" by fastforce
  with ez have "case found of Inr name \<Rightarrow> cs_dns st' = s1
       | Inl e \<Rightarrow> isZoneNotFound e \<and> CreateZone env s1 (z_domainName base) (GetZoneNameservers base zc) = (cs_dns st', None)"
    by (auto simp: EnsureZone_def split: sum.splits if_splits)
  with g show ?thesis by blast
qed

definition anAcceptedZone :: DNSZone where
  "anAcceptedZone = aZone\<lparr>z_meta := (aMeta ''z'')\<lparr>m_finalizers := [downstreamZoneFinalizer]\<rparr>,
     z_nameservers := [''ns1.example.net.'', ''ns2.example.net''],
     z_conditions := [mkCondition CondAccepted ConditionTrue ReasonAccepted ''Zone Accepted'' 1 3]\<rparr>"

theorem zone_programmed_exists_witness:
  "\<exists>s1 name. GetZone (serving_env [aHeldRRset]) [] ''example.com'' = (s1, Inr name)
     \<and> cs_dns (fst (aZoneRun anAcceptedZone)) = s1"
proof -
  let ?kb = "emptyZoneKube anAcceptedZone"
  have "list_ex (\<lambda>ev. case ev of PatchedZoneStatus base new \<Rightarrow> base = anAcceptedZone \<and> zoneProgrammed ?kb new | _ \<Rightarrow> False)
      (eventsOf (startCtrl []) (fst (aZoneRun anAcceptedZone)))" by code_simp
  then obtain ev where ev: "ev \<in> set (eventsOf (startCtrl []) (fst (aZoneRun anAcceptedZone)))"
    "case ev of PatchedZoneStatus base new \<Rightarrow> base = anAcceptedZone \<and> zoneProgrammed ?kb new | _ \<Rightarrow> False"
    unfolding list_ex_iff by blast
  from ev(2) obtain new where "ev = PatchedZoneStatus anAcceptedZone new" and new: "zoneProgrammed ?kb new"
    by (cases ev) simp_all
  with ev(1) have patched: "PatchedZoneStatus anAcceptedZone new \<in> set (eventsOf (startCtrl []) (fst (aZoneRun anAcceptedZone)))"
    by simp
  have old: "\<not> zoneProgrammed ?kb anAcceptedZone"
    and found: "case snd (GetZone (serving_env [aHeldRRset]) [] ''example.com'') of Inl _ \<Rightarrow> False | Inr _ \<Rightarrow> True"
    by code_simp+
  have run: "aZoneRun anAcceptedZone = (fst (aZoneRun anAcceptedZone), snd (aZoneRun anAcceptedZone))" by simp
  have dom: "z_domainName anAcceptedZone = ''example.com''" "cs_dns (startCtrl []) = []"
    by (simp_all add: anAcceptedZone_def aZone_def startCtrl_def)
  from zone_programmed_exists [OF emptyZoneKube_laws(2,1) run patched new old] found show ?thesis
    unfolding dom by (auto split: sum.splits)
qed

end
