(* ===== verification/Rdata_Text.thy ===== *)
theory Rdata_Text
  imports Pdns_Content
begin

text \<open>
  The text layer of record data in the command line plugin (\<^verbatim>\<open>internal/cmd/dns/rdata\<close>): the
  tokenizer of presentation format and the quoting of character-strings (\<^verbatim>\<open>token.go\<close>), the two
  forms of TXT data (\<^verbatim>\<open>txt.go\<close>) and TTLs (\<^verbatim>\<open>ttl.go\<close>). Strings are byte strings. The loops
  over an index are recursions over the rest of the string. Machine integers of 64 bits wrap where
  the code lets them; \<^verbatim>\<open>time.ParseDuration\<close>, which computes in floating point, is a parameter.
\<close>

section \<open>Definitions\<close>

subsection \<open>Errors\<close>

text \<open>The message, the remedy, and whether the error stands for \<^verbatim>\<open>ErrTTLRange\<close>.\<close>

record rdata_error =
  e_msg :: string
  e_fix :: string
  e_ttlRange :: bool

definition errf :: "string \<Rightarrow> rdata_error" where
  "errf msg = \<lparr>e_msg = msg, e_fix = [], e_ttlRange = False\<rparr>"

definition fixf :: "string \<Rightarrow> string \<Rightarrow> rdata_error" where
  "fixf fix msg = \<lparr>e_msg = msg, e_fix = fix, e_ttlRange = False\<rparr>"

subsection \<open>Tokens\<close>

abbreviation dquote :: char where "dquote \<equiv> CHR 0x22"
abbreviation bslash :: char where "bslash \<equiv> CHR 0x5C"

record token =
  tk_text :: string
  tk_quoted :: bool
  tk_start :: nat
  tk_raw :: string

definition hostToken :: "token \<Rightarrow> string" where
  "hostToken tok = (if tk_quoted tok then tk_text tok else tk_raw tok)"

definition isSpace :: "char \<Rightarrow> bool" where
  "isSpace c \<longleftrightarrow> c = CHR 0x20 \<or> c = CHR 0x09 \<or> c = CHR 0x0D \<or> c = CHR 0x0A"

text \<open>The escape at the head of the string: the byte it denotes and the bytes it takes up.\<close>

definition unescapeAt :: "string \<Rightarrow> char \<times> nat" where
  "unescapeAt s =
     (case s of
        _ # d1 # d2 # d3 # _ \<Rightarrow>
          if is_digit d1 \<and> is_digit d2 \<and> is_digit d3
             \<and> digit_val d1 * 100 + digit_val d2 * 10 + digit_val d3 \<le> 255
          then (char_of (digit_val d1 * 100 + digit_val d2 * 10 + digit_val d3), 4)
          else (d1, 2)
      | _ # d1 # _ \<Rightarrow> (d1, 2)
      | _ \<Rightarrow> (CHR 0x00, 2))"

lemma unescapeAt_pos: "0 < snd (unescapeAt s)"
  by (auto simp: unescapeAt_def split: list.splits)

text \<open>Inside quotes: the text up to the closing quote, and what follows it.\<close>

function scanQuoted :: "string \<Rightarrow> (string \<times> string) option" where
  "scanQuoted [] = None"
| "scanQuoted (c # cs) =
     (if c = bslash \<and> cs \<noteq> [] then
        (case unescapeAt (c # cs) of (ch, n) \<Rightarrow>
           map_option (\<lambda>(text, rest). (ch # text, rest)) (scanQuoted (drop n (c # cs))))
      else if c = dquote then Some ([], cs)
      else map_option (\<lambda>(text, rest). (c # text, rest)) (scanQuoted cs))"
  by pat_completeness auto
termination
proof (relation "measure length")
  fix c cs ch n
  assume "(ch, n) = unescapeAt (c # cs)"
  then have "0 < n" using unescapeAt_pos by (metis snd_conv)
  then show "(drop n (c # cs), c # cs) \<in> measure length" by simp
qed auto

text \<open>Outside quotes: the text up to white space.\<close>

function scanBare :: "string \<Rightarrow> string \<times> string" where
  "scanBare [] = ([], [])"
| "scanBare (c # cs) =
     (if isSpace c then ([], c # cs)
      else if c = bslash \<and> cs \<noteq> [] then
        (case unescapeAt (c # cs) of (ch, n) \<Rightarrow>
           case scanBare (drop n (c # cs)) of (text, rest) \<Rightarrow> (ch # text, rest))
      else case scanBare cs of (text, rest) \<Rightarrow> (c # text, rest))"
  by pat_completeness auto
termination
proof (relation "measure length")
  fix c cs ch n
  assume "(ch, n) = unescapeAt (c # cs)"
  then have "0 < n" using unescapeAt_pos by (metis snd_conv)
  then show "(drop n (c # cs), c # cs) \<in> measure length" by simp
qed auto

lemma scanQuoted_length: "scanQuoted s = Some (tx, rest) \<Longrightarrow> length rest < length s"
proof (induction s arbitrary: tx rest rule: scanQuoted.induct)
  case (2 c cs)
  show ?case
  proof (cases "c = bslash \<and> cs \<noteq> []")
    case True
    obtain ch n where u: "unescapeAt (c # cs) = (ch, n)" by fastforce
    then have "0 < n" using unescapeAt_pos by (metis snd_conv)
    from 2 True u obtain t where "scanQuoted (drop n (c # cs)) = Some (t, rest)" by (auto split: prod.splits)
    from 2(1) [OF True u [symmetric] this] \<open>0 < n\<close> show ?thesis by auto
  next
    case False
    with 2 show ?thesis by (fastforce split: if_splits)
  qed
qed simp

lemma scanBare_length: "length (snd (scanBare s)) \<le> length s"
proof (induction s rule: scanBare.induct)
  case (2 c cs)
  obtain ch n where u: "unescapeAt (c # cs) = (ch, n)" by fastforce
  show ?case
  proof (cases "isSpace c")
    case False
    show ?thesis
    proof (cases "c = bslash \<and> cs \<noteq> []")
      case True
      with 2(1) [OF False True u [symmetric]] u False show ?thesis by (auto split: prod.splits)
    next
      case False
      with 2(2) [OF \<open>\<not> isSpace c\<close> False] \<open>\<not> isSpace c\<close> show ?thesis by (auto split: prod.splits)
    qed
  qed simp
qed simp

lemma scanBare_less: "s \<noteq> [] \<Longrightarrow> \<not> isSpace (hd s) \<Longrightarrow> length (snd (scanBare s)) < length s"
proof (cases s)
  case (Cons c cs)
  assume a: "\<not> isSpace (hd s)"
  obtain ch n where u: "unescapeAt (c # cs) = (ch, n)" by fastforce
  then have n: "0 < n" using unescapeAt_pos by (metis snd_conv)
  have l: "length (snd (scanBare (drop n (c # cs)))) < Suc (length cs)"
    using scanBare_length [of "drop n (c # cs)"] n by (simp add: le_less_trans)
  have l2: "length (snd (scanBare cs)) < Suc (length cs)" using scanBare_length [of cs] by simp
  show ?thesis using a Cons u l l2 by (auto split: prod.splits)
qed simp

lemma scanQuoted_less: "scanQuoted (tl (dropWhile isSpace s)) = Some (tx, rest) \<Longrightarrow> length rest < length s"
  using scanQuoted_length length_dropWhile_le [of isSpace s] by fastforce

lemma scanBare_less_drop:
  assumes "(tx, rest) = scanBare (dropWhile isSpace s)" and "dropWhile isSpace s \<noteq> []"
  shows "length rest < length s"
proof -
  have "\<not> isSpace (hd (dropWhile isSpace s))" using assms(2) hd_dropWhile by blast
  from scanBare_less [OF assms(2) this] have "length rest < length (dropWhile isSpace s)"
    using assms(1) by (metis snd_conv)
  then show ?thesis using length_dropWhile_le [of isSpace s] by simp
qed

function tokens_from :: "bool \<Rightarrow> nat \<Rightarrow> string \<Rightarrow> token list option" where
  "tokens_from comments pos s =
     (let spaces = length (takeWhile isSpace s); s = dropWhile isSpace s; start = pos + spaces in
      if s = [] then Some []
      else if hd s = dquote then
        (case scanQuoted (tl s) of
           None \<Rightarrow> None
         | Some (text, rest) \<Rightarrow>
             let n = length s - length rest in
             map_option (\<lambda>ts. \<lparr>tk_text = text, tk_quoted = True, tk_start = start, tk_raw = take n s\<rparr> # ts)
               (tokens_from comments (start + n) rest))
      else if comments \<and> hd s = CHR '';'' then Some []
      else
        (case scanBare s of
           (text, rest) \<Rightarrow>
             let n = length s - length rest in
             map_option (\<lambda>ts. \<lparr>tk_text = text, tk_quoted = False, tk_start = start, tk_raw = take n s\<rparr> # ts)
               (tokens_from comments (start + n) rest)))"
  by pat_completeness auto
termination
  by (relation "measure (\<lambda>(comments, pos, s). length s)") (auto dest: scanQuoted_less scanBare_less_drop)

declare tokens_from.simps [simp del]

definition tokenize :: "string \<Rightarrow> bool \<Rightarrow> rdata_error + token list" where
  "tokenize s comments =
     (case tokens_from comments 0 s of
        None \<Rightarrow> Inl (errf (''unterminated quoted string in '' @ go_quote s))
      | Some ts \<Rightarrow> Inr ts)"

text \<open>A byte inside a character-string.\<close>

definition quoteTXT_char :: "char \<Rightarrow> string" where
  "quoteTXT_char c =
     (let n = of_char c :: nat in
      if c = bslash \<or> c = dquote \<or> c = CHR '';'' then [bslash, c]
      else if n < 32 \<or> n = 127 then [bslash, digit_char (n div 100), digit_char (n div 10 mod 10), digit_char (n mod 10)]
      else [c])"

definition quoteTXT :: "string \<Rightarrow> string" where
  "quoteTXT s = dquote # concat (map quoteTXT_char s) @ [dquote]"

fun chunk255 :: "string \<Rightarrow> string list" where
  "chunk255 s = (if length s \<le> 255 then [s] else take 255 s # chunk255 (drop 255 s))"

declare chunk255.simps [simp del]

subsection \<open>TXT data\<close>

definition decodeTXTStrings :: "string \<Rightarrow> rdata_error + string" where
  "decodeTXTStrings v =
     (case tokenize v False of
        Inl e \<Rightarrow> Inl e
      | Inr toks \<Rightarrow>
          if toks = [] then Inl (errf (''TXT value '' @ go_quote v @ '' has no content''))
          else if \<not> list_all tk_quoted toks then
            Inl (fixf ''quote the whole value, or every character-string in it''
                  (''TXT value '' @ go_quote v @ '' mixes quoted and unquoted text''))
          else Inr (concat (map tk_text toks)))"

definition txtLogical :: "string \<Rightarrow> string" where
  "txtLogical s =
     (if \<not> HasPrefix s [dquote] then s
      else case decodeTXTStrings s of Inl _ \<Rightarrow> s | Inr decoded \<Rightarrow> decoded)"

definition parseTXTValue :: "string \<Rightarrow> rdata_error + string" where
  "parseTXTValue v = (if \<not> HasPrefix v [dquote] then Inr v else decodeTXTStrings v)"

definition renderTXT :: "string \<Rightarrow> string" where
  "renderTXT content = Join (map quoteTXT (chunk255 (txtLogical content))) '' ''"

definition TXTContentForAPI :: "string \<Rightarrow> string" where "TXTContentForAPI content = renderTXT content"
definition TXTContentFromAPI :: "string \<Rightarrow> string" where "TXTContentFromAPI stored = txtLogical stored"

definition EntryForAPI :: "RRType \<Rightarrow> RecordEntry \<Rightarrow> RecordEntry" where
  "EntryForAPI t e =
     (if t = RRTypeTXT \<and> re_TXT e \<noteq> None then e\<lparr>re_TXT := map_option TXTContentForAPI (re_TXT e)\<rparr> else e)"

definition EntryFromAPI :: "RRType \<Rightarrow> RecordEntry \<Rightarrow> RecordEntry" where
  "EntryFromAPI t e =
     (if t = RRTypeTXT \<and> re_TXT e \<noteq> None then e\<lparr>re_TXT := map_option TXTContentFromAPI (re_TXT e)\<rparr> else e)"

subsection \<open>TTLs\<close>

definition MaxTTL :: int where "MaxTTL = 2147483647"

definition ttlUnits :: "(char \<times> int) list" where
  "ttlUnits = [(CHR ''w'', 604800), (CHR ''d'', 86400), (CHR ''h'', 3600), (CHR ''m'', 60), (CHR ''s'', 1)]"

definition unitSeconds :: "char \<Rightarrow> int option" where
  "unitSeconds c = map_of ttlUnits c"

text \<open>Arithmetic on \<^verbatim>\<open>int64\<close>.\<close>

definition int64 :: "int \<Rightarrow> int" where
  "int64 x = (x + 2 ^ 63) mod 2 ^ 64 - 2 ^ 63"

definition badTTL :: "string \<Rightarrow> rdata_error" where
  "badTTL orig = fixf (''give TTL in seconds ('' @ [dquote] @ ''300'' @ [dquote] @ '') or as a duration (''
     @ [dquote] @ ''5m'' @ [dquote] @ '', '' @ [dquote] @ ''1h'' @ [dquote] @ '', '' @ [dquote] @ ''1d'' @ [dquote]
     @ ''), or '' @ [dquote] @ ''auto'' @ [dquote]) (''invalid TTL '' @ go_quote orig)"

definition rangeTTL :: "string \<Rightarrow> rdata_error" where
  "rangeTTL msg = \<lparr>e_msg = msg, e_fix = [], e_ttlRange = True\<rparr>"

definition tooLargeTTL :: "string \<Rightarrow> rdata_error" where
  "tooLargeTTL orig = rangeTTL (''TTL '' @ go_quote orig @ '' exceeds the maximum of '' @ int_str MaxTTL @ '' seconds'')"

text \<open>The loop over the units of a compound TTL.\<close>

function ttlLoop :: "string \<Rightarrow> int \<Rightarrow> string \<Rightarrow> rdata_error + int" where
  "ttlLoop orig acc v =
     (if v = [] then Inr acc
      else
        let ds = takeWhile is_digit v; rest = dropWhile is_digit v in
        if ds = [] \<or> rest = [] then Inl (badTTL orig)
        else
          (case unitSeconds (hd rest) of
             None \<Rightarrow> Inl (badTTL orig)
           | Some factor \<Rightarrow>
               (case ParseInt64 ds of
                  None \<Rightarrow> Inl (badTTL orig)
                | Some n \<Rightarrow>
                    let acc = int64 (acc + int64 (n * factor)) in
                    if acc > MaxTTL then Inl (tooLargeTTL orig) else ttlLoop orig acc (tl rest))))"
  by pat_completeness auto
termination
proof (relation "measure (\<lambda>(orig, acc, v). length v)")
  fix orig :: string and acc acc' n factor :: int and v ds rest
  assume "v \<noteq> []" "rest = dropWhile is_digit v" "\<not> (ds = [] \<or> rest = [])"
  then have "length rest \<le> length v" "rest \<noteq> []" by (auto simp: length_dropWhile_le)
  then show "((orig, acc', tl rest), orig, acc, v) \<in> measure (\<lambda>(orig, acc, v). length v)"
    by (cases rest) auto
qed simp

declare ttlLoop.simps [simp del]

definition trimPrefix :: "string \<Rightarrow> string \<Rightarrow> string" where
  "trimPrefix s p = (if HasPrefix s p then drop (length p) s else s)"

definition parseTTLSeconds :: "(string \<Rightarrow> int option) \<Rightarrow> string \<Rightarrow> string \<Rightarrow> rdata_error + int" where
  "parseTTLSeconds parseDuration v orig =
     (case ParseInt64 v of
        Some n \<Rightarrow> Inr n
      | None \<Rightarrow>
          if Contains v ''.'' then
            (case parseDuration v of
               None \<Rightarrow> Inl (badTTL orig)
             | Some d \<Rightarrow>
                 if d mod 10 ^ 9 \<noteq> 0 then Inl (errf (''TTL '' @ go_quote orig @ '' is not a whole number of seconds''))
                 else Inr (d div 10 ^ 9))
          else
            let neg = HasPrefix v ''-''; v = trimPrefix (trimPrefix v ''-'') ''+'' in
            (case ttlLoop orig 0 v of Inl e \<Rightarrow> Inl e | Inr t \<Rightarrow> Inr (if neg then - t else t)))"

definition checkTTLRange :: "int \<Rightarrow> string \<Rightarrow> rdata_error option" where
  "checkTTLRange secs orig =
     (if secs < 0 then Some (rangeTTL (''TTL '' @ go_quote orig @ '' is negative''))
      else if secs > MaxTTL then Some (tooLargeTTL orig) else None)"

definition ParseTTLSeconds :: "(string \<Rightarrow> int option) \<Rightarrow> string \<Rightarrow> rdata_error + int" where
  "ParseTTLSeconds parseDuration s =
     (case parseTTLSeconds parseDuration (ToLower (TrimSpace s)) s of
        Inl e \<Rightarrow> Inl e
      | Inr secs \<Rightarrow> (case checkTTLRange secs s of Some e \<Rightarrow> Inl e | None \<Rightarrow> Inr secs))"

definition ParseTTL :: "(string \<Rightarrow> int option) \<Rightarrow> string \<Rightarrow> rdata_error + int option" where
  "ParseTTL parseDuration s =
     (let v = ToLower (TrimSpace s) in
      if v = [] \<or> v = ''auto'' then Inr None
      else
        (case parseTTLSeconds parseDuration v s of
           Inl e \<Rightarrow> Inl e
         | Inr secs \<Rightarrow> (case checkTTLRange secs s of Some e \<Rightarrow> Inl e | None \<Rightarrow> Inr (Some secs))))"

definition FormatSeconds :: "int \<Rightarrow> string" where
  "FormatSeconds secs =
     (if secs > 0 then
        (case find (\<lambda>(suffix, u). secs mod u = 0) ttlUnits of
           Some (suffix, u) \<Rightarrow> int_str (secs div u) @ [suffix]
         | None \<Rightarrow> int_str secs @ ''s'')
      else int_str secs @ ''s'')"

definition FormatTTL :: "int option \<Rightarrow> string" where
  "FormatTTL ttl = (case ttl of None \<Rightarrow> ''Auto'' | Some t \<Rightarrow> FormatSeconds t)"

section \<open>Character-strings\<close>

lemma is_digit_iff: "is_digit c \<longleftrightarrow> 48 \<le> (of_char c :: nat) \<and> (of_char c :: nat) \<le> 57"
  by (simp add: is_digit_def less_eq_char_def)

lemma char_eq_iff: "c = d \<longleftrightarrow> (of_char c :: nat) = of_char d"
  by simp

lemma scanQuoted_escape:
  "cs \<noteq> [] \<Longrightarrow> unescapeAt (bslash # cs) = (ch, n) \<Longrightarrow>
     scanQuoted (bslash # cs) = map_option (\<lambda>(tx, rest). (ch # tx, rest)) (scanQuoted (drop n (bslash # cs)))"
  by simp

lemma scanQuoted_close: "scanQuoted (dquote # cs) = Some ([], cs)"
  by simp

lemma scanQuoted_plain:
  "c \<noteq> bslash \<Longrightarrow> c \<noteq> dquote \<Longrightarrow> scanQuoted (c # cs) = map_option (\<lambda>(tx, rest). (c # tx, rest)) (scanQuoted cs)"
  by simp

declare scanQuoted.simps [simp del] scanBare.simps [simp del]

lemma scanQuoted_char: "scanQuoted (quoteTXT_char c @ s) = map_option (\<lambda>(tx, rest). (c # tx, rest)) (scanQuoted s)"
proof -
  define n where "n = (of_char c :: nat)"
  have n: "n < 256" unfolding n_def by (rule of_char_bound)
  consider (special) "c = bslash \<or> c = dquote \<or> c = CHR '';''"
    | (control) "\<not> (c = bslash \<or> c = dquote \<or> c = CHR '';'')" "n < 32 \<or> n = 127"
    | (plain) "\<not> (c = bslash \<or> c = dquote \<or> c = CHR '';'')" "\<not> (n < 32 \<or> n = 127)" by blast
  then show ?thesis
  proof cases
    case special
    then have "\<not> is_digit c" by (auto simp: is_digit_iff)
    then have u: "unescapeAt (bslash # c # s) = (c, 2)" by (auto simp: unescapeAt_def split: list.splits)
    from special have "quoteTXT_char c = [bslash, c]" by (auto simp: quoteTXT_char_def)
    with scanQuoted_escape [OF _ u] show ?thesis by simp
  next
    case control
    let ?ds = "[digit_char (n div 100), digit_char (n div 10 mod 10), digit_char (n mod 10)]"
    from control have q: "quoteTXT_char c = bslash # ?ds" by (simp add: quoteTXT_char_def n_def [symmetric])
    have "n div 100 \<le> 255 div 100" by (rule div_le_mono) (use n in linarith)
    then have d: "n div 100 < 10" "n div 10 mod 10 < 10" "n mod 10 < 10" by auto
    have "n div 100 = n div 10 div 10" using div_mult2_eq [of n 10 10] by simp
    then have v: "n div 100 * 100 + n div 10 mod 10 * 10 + n mod 10 = n"
      using div_mult_mod_eq [of "n div 10" 10] div_mult_mod_eq [of n 10] by linarith
    have "char_of n = c" by (simp add: n_def)
    with n have u: "unescapeAt (bslash # (?ds @ s)) = (c, 4)" by (simp add: unescapeAt_def d v)
    have "scanQuoted (bslash # (?ds @ s)) = map_option (\<lambda>(tx, rest). (c # tx, rest)) (scanQuoted (drop 4 (bslash # (?ds @ s))))"
      by (rule scanQuoted_escape [OF _ u]) simp
    then show ?thesis by (simp add: q)
  next
    case plain
    then have "quoteTXT_char c = [c]" by (simp add: quoteTXT_char_def n_def [symmetric])
    with plain(1) scanQuoted_plain [of c s] show ?thesis by simp
  qed
qed

lemma scanQuoted_body: "scanQuoted (concat (map quoteTXT_char s) @ dquote # rest) = Some (s, rest)"
proof (induction s)
  case Nil
  then show ?case by (simp add: scanQuoted_close)
next
  case (Cons c s)
  then show ?case using scanQuoted_char [of c "concat (map quoteTXT_char s) @ dquote # rest"] by simp
qed

lemma isSpace_dquote [simp]: "\<not> isSpace dquote" by (simp add: isSpace_def)

lemma tokens_quoted:
  "tokens_from comments pos (quoteTXT s @ rest) =
     map_option (\<lambda>ts. \<lparr>tk_text = s, tk_quoted = True, tk_start = pos, tk_raw = quoteTXT s\<rparr> # ts)
       (tokens_from comments (pos + length (quoteTXT s)) rest)"
proof -
  have "scanQuoted (concat (map quoteTXT_char s) @ dquote # rest) = Some (s, rest)" by (rule scanQuoted_body)
  then show ?thesis by (subst tokens_from.simps) (simp add: quoteTXT_def Let_def)
qed

lemma tokens_space: "isSpace c \<Longrightarrow> tokens_from comments pos (c # s) = tokens_from comments (Suc pos) s"
  by (auto simp: tokens_from.simps [of comments pos "c # s"] tokens_from.simps [of comments "Suc pos" s] Let_def
      split: option.split prod.split)

lemma tokens_Nil [simp]: "tokens_from comments pos [] = Some []"
  by (subst tokens_from.simps) (simp add: Let_def)

lemma tokens_strings:
  "\<exists>ts. tokens_from False pos (Join (map quoteTXT ss) '' '') = Some ts \<and> map tk_text ts = ss \<and> list_all tk_quoted ts"
proof (induction ss arbitrary: pos rule: induct_list012)
  case (2 s)
  let ?t = "\<lparr>tk_text = s, tk_quoted = True, tk_start = pos, tk_raw = quoteTXT s\<rparr>"
  have "tokens_from False pos (Join (map quoteTXT [s]) '' '') = Some [?t]"
    using tokens_quoted [of False pos s "[]"] by (simp only: append_Nil2 tokens_Nil list.map Join.simps option.map)
  then show ?case by (intro exI [of _ "[?t]"]) simp
next
  case (3 s s' ss)
  let ?rest = "Join (map quoteTXT (s' # ss)) '' ''"
  let ?p = "Suc (pos + length (quoteTXT s))"
  from 3(2) [of ?p] obtain ts where all: "tokens_from False ?p ?rest = Some ts \<and> map tk_text ts = s' # ss \<and> list_all tk_quoted ts"
    by (rule exE)
  note ts = all [THEN conjunct1] all [THEN conjunct2, THEN conjunct1] all [THEN conjunct2, THEN conjunct2]
  let ?t = "\<lparr>tk_text = s, tk_quoted = True, tk_start = pos, tk_raw = quoteTXT s\<rparr>"
  have join: "Join (map quoteTXT (s # s' # ss)) '' '' = quoteTXT s @ CHR '' '' # ?rest" by simp
  have sp: "isSpace (CHR '' '')" by (simp add: isSpace_def)
  have "tokens_from False pos (Join (map quoteTXT (s # s' # ss)) '' '') = Some (?t # ts)"
    unfolding join tokens_quoted tokens_space [OF sp] ts(1) by simp
  then show ?case using ts(2,3) by (intro exI [of _ "?t # ts"]) simp
qed simp

lemma concat_chunk255: "concat (chunk255 s) = s"
proof (induction s rule: chunk255.induct)
  case (1 s)
  then show ?case by (cases "length s \<le> 255") (simp_all add: chunk255.simps [of s])
qed

lemma chunk255_nonempty [simp]: "chunk255 s \<noteq> []"
  by (simp add: chunk255.simps [of s])

lemma length_chunk255: "p \<in> set (chunk255 s) \<Longrightarrow> length p \<le> 255"
proof (induction s rule: chunk255.induct)
  case (1 s)
  then show ?case by (cases "length s \<le> 255") (auto simp: chunk255.simps [of s])
qed

lemma decode_strings: "ss \<noteq> [] \<Longrightarrow> decodeTXTStrings (Join (map quoteTXT ss) '' '') = Inr (concat ss)"
proof -
  assume "ss \<noteq> []"
  obtain ts where "tokens_from False 0 (Join (map quoteTXT ss) '' '') = Some ts" "map tk_text ts = ss" "list_all tk_quoted ts"
    using tokens_strings [of 0 ss] by blast
  with \<open>ss \<noteq> []\<close> show ?thesis by (auto simp: decodeTXTStrings_def tokenize_def)
qed

lemma Join_quoteTXT_ends:
  assumes "ss \<noteq> []"
  shows "2 \<le> length (Join (map quoteTXT ss) '' '') \<and> hd (Join (map quoteTXT ss) '' '') = dquote
    \<and> last (Join (map quoteTXT ss) '' '') = dquote"
  using assms
proof (induction ss rule: induct_list012)
  case (3 s s' ss)
  then show ?case by (auto simp: quoteTXT_def)
qed (auto simp: quoteTXT_def)

lemma HasPrefix_hd: "HasPrefix s [c] \<longleftrightarrow> s \<noteq> [] \<and> hd s = c"
  by (cases s) auto

lemma txtLogical_renderTXT: "txtLogical (renderTXT s) = txtLogical s"
proof -
  let ?ss = "chunk255 (txtLogical s)"
  have "HasPrefix (renderTXT s) [dquote]"
    using Join_quoteTXT_ends [of ?ss] by (auto simp: renderTXT_def HasPrefix_hd)
  moreover have "decodeTXTStrings (renderTXT s) = Inr (txtLogical s)"
    by (simp add: renderTXT_def decode_strings concat_chunk255)
  ultimately show ?thesis by (simp add: txtLogical_def [of "renderTXT s"])
qed

text \<open>
  C35: TXT data survives the way to PowerDNS and back. The stored form of a TXT value decodes to the
  logical value, encoding it again changes nothing, every character-string in it is at most 255
  bytes, and the PowerDNS client writes it exactly as it is stored. A value that does not begin
  with a quote is its own logical value, whatever bytes it holds.
\<close>

theorem TXT_roundtrip:
  "TXTContentFromAPI (TXTContentForAPI s) = txtLogical s
   \<and> TXTContentForAPI (TXTContentForAPI s) = TXTContentForAPI s
   \<and> quoteIfNeeded (TXTContentForAPI s) = TXTContentForAPI s
   \<and> (\<exists>ss. TXTContentForAPI s = Join (map quoteTXT ss) '' '' \<and> concat ss = txtLogical s \<and> list_all (\<lambda>p. length p \<le> 255) ss)
   \<and> (HasPrefix s [dquote] \<or> txtLogical s = s)"
proof (intro conjI)
  show "TXTContentFromAPI (TXTContentForAPI s) = txtLogical s"
    by (simp add: TXTContentFromAPI_def TXTContentForAPI_def txtLogical_renderTXT)
  show "TXTContentForAPI (TXTContentForAPI s) = TXTContentForAPI s"
    by (simp add: TXTContentForAPI_def renderTXT_def [of "renderTXT s"] txtLogical_renderTXT) (simp add: renderTXT_def)
  show "quoteIfNeeded (TXTContentForAPI s) = TXTContentForAPI s"
    using Join_quoteTXT_ends [of "chunk255 (txtLogical s)"]
    by (simp add: quoteIfNeeded_def TXTContentForAPI_def renderTXT_def)
  show "\<exists>ss. TXTContentForAPI s = Join (map quoteTXT ss) '' '' \<and> concat ss = txtLogical s \<and> list_all (\<lambda>p. length p \<le> 255) ss"
    using length_chunk255 by (intro exI [of _ "chunk255 (txtLogical s)"])
      (auto simp: TXTContentForAPI_def renderTXT_def concat_chunk255 list_all_iff)
  show "HasPrefix s [dquote] \<or> txtLogical s = s" by (simp add: txtLogical_def)
qed

section \<open>TTLs\<close>

lemma int64_small: "- (2 ^ 63) \<le> x \<Longrightarrow> x < 2 ^ 63 \<Longrightarrow> int64 x = x"
  by (simp add: int64_def)

lemma Contains_char: "Contains s [c] \<longleftrightarrow> c \<in> set s"
  by (induction s) (auto simp: HasPrefix_hd)

lemma TrimSpace_id: "(\<And>c. c \<in> set s \<Longrightarrow> \<not> is_space c) \<Longrightarrow> TrimSpace s = s"
proof -
  assume s: "\<And>c. c \<in> set s \<Longrightarrow> \<not> is_space c"
  have id: "\<forall>c \<in> set xs. \<not> is_space c \<Longrightarrow> dropWhile is_space xs = xs" for xs by (cases xs) auto
  have "dropWhile is_space s = s" by (rule id) (use s in blast)
  moreover have "dropWhile is_space (rev s) = rev s" by (rule id) (use s in auto)
  ultimately show ?thesis by (simp add: TrimSpace_def)
qed

lemma to_lower_digit: "is_digit c \<Longrightarrow> to_lower_char c = c"
  by (auto simp: to_lower_char_def is_digit_iff less_eq_char_def)

lemma ToLower_nat_str [simp]: "ToLower (nat_str k) = nat_str k"
  using nat_str_digits [of k] to_lower_digit by (auto simp: ToLower_def list_all_iff intro: map_idI)

definition ttlText :: "nat \<Rightarrow> char \<Rightarrow> string" where
  "ttlText k u = nat_str k @ [u]"

lemma unit_chars: "unitSeconds u = Some f \<Longrightarrow> u \<in> {CHR ''w'', CHR ''d'', CHR ''h'', CHR ''m'', CHR ''s''} \<and> f \<in> {604800, 86400, 3600, 60, 1}"
  by (auto simp: unitSeconds_def ttlUnits_def split: if_splits)

lemma ParseInt64_unit:
  assumes "unitSeconds u = Some f"
  shows "ParseInt64 (ttlText k u) = None"
proof -
  obtain c cs where n: "nat_str k = c # cs" by (cases "nat_str k") auto
  then have "is_digit c" using nat_str_digits [of k] by simp
  then have "c \<noteq> CHR ''-''" "c \<noteq> CHR ''+''" by (auto simp: is_digit_iff)
  moreover have "\<not> is_digit u" using unit_chars [OF assms] by (auto simp: is_digit_iff)
  ultimately show ?thesis by (simp add: ParseInt64_def ttlText_def n parse_nat_def)
qed

lemma ParseInt64_nat_str: "k < 2 ^ 63 \<Longrightarrow> ParseInt64 (nat_str k) = Some (int k)"
  using ParseInt64_int_str [of "int k"] by (simp add: int_str_def)

lemma ttlLoop_unit:
  assumes u: "unitSeconds u = Some f" and small: "int k * f \<le> MaxTTL"
  shows "ttlLoop orig 0 (ttlText k u) = Inr (int k * f)"
proof -
  have f: "1 \<le> f" "f \<le> 604800" and nd: "\<not> is_digit u" using unit_chars [OF u] by (auto simp: is_digit_iff)
  have k: "int k \<le> int k * f" using f by (simp add: mult_le_cancel_left1)
  then have "int k < 2 ^ 63" using small by (simp add: MaxTTL_def)
  then have p: "ParseInt64 (nat_str k) = Some (int k)" by (intro ParseInt64_nat_str) simp
  have t: "takeWhile is_digit (ttlText k u) = nat_str k" "dropWhile is_digit (ttlText k u) = [u]"
    using nat_str_digits [of k] nd by (simp_all add: ttlText_def list_all_iff)
  have ne: "ttlText k u \<noteq> []" by (simp add: ttlText_def)
  have i: "int64 (0 + int64 (int k * f)) = int k * f"
    using small k f by (simp add: int64_small MaxTTL_def)
  have last: "ttlLoop orig x [] = Inr x" for x by (simp add: ttlLoop.simps [of orig x "[]"])
  show ?thesis
    by (simp add: ttlLoop.simps [of orig 0 "ttlText k u"] t ne u p i [simplified] last small [unfolded not_less [symmetric]] Let_def)
qed

lemma parseTTLSeconds_unit:
  assumes "unitSeconds u = Some f" and "int k * f \<le> MaxTTL"
  shows "parseTTLSeconds pd (ttlText k u) orig = Inr (int k * f)"
proof -
  have all: "is_digit c \<or> c = u" if "c \<in> set (ttlText k u)" for c
    using that nat_str_digits [of k] by (auto simp: ttlText_def list_all_iff)
  have "CHR ''.'' \<notin> set (ttlText k u)" using all [of "CHR ''.''"] unit_chars [OF assms(1)] by (auto simp: is_digit_iff)
  moreover have "is_digit (hd (ttlText k u))" "ttlText k u \<noteq> []" using hd_nat_str_digit [of k] by (simp_all add: ttlText_def)
  then have "hd (ttlText k u) \<noteq> CHR ''-''" "hd (ttlText k u) \<noteq> CHR ''+''" by (auto simp: is_digit_iff)
  ultimately show ?thesis
    using ttlLoop_unit [OF assms] ParseInt64_unit [OF assms(1)]
    by (simp add: parseTTLSeconds_def Contains_char HasPrefix_hd trimPrefix_def Let_def)
qed

lemma FormatSeconds_form:
  assumes "0 \<le> secs"
  shows "\<exists>k u f. FormatSeconds secs = ttlText k u \<and> unitSeconds u = Some f \<and> int k * f = secs"
proof (cases "secs > 0")
  case True
  have "find (\<lambda>(suffix, u). secs mod u = 0) ttlUnits \<noteq> None" by (simp add: find_None_iff ttlUnits_def)
  then obtain u f where uf: "find (\<lambda>(suffix, u). secs mod u = 0) ttlUnits = Some (u, f)" by auto
  then have mem: "(u, f) \<in> set ttlUnits" and m: "secs mod f = 0" by (auto dest: find_SomeD)
  from mem have unit: "unitSeconds u = Some f" "f > 0" by (auto simp: unitSeconds_def ttlUnits_def)
  have "FormatSeconds secs = ttlText (nat (secs div f)) u"
    using True uf unit(2) by (simp add: FormatSeconds_def ttlText_def int_str_def pos_imp_zdiv_nonneg_iff not_less)
  moreover have "int (nat (secs div f)) * f = secs"
    using True unit(2) m by (simp add: pos_imp_zdiv_nonneg_iff) (metis add.right_neutral div_mult_mod_eq)
  ultimately show ?thesis using unit by blast
next
  case False
  with assms have "FormatSeconds secs = ttlText 0 (CHR ''s'')" by (simp add: FormatSeconds_def ttlText_def int_str_def)
  with False assms show ?thesis by (intro exI [of _ 0] exI [of _ "CHR ''s''"] exI [of _ 1]) (simp add: unitSeconds_def ttlUnits_def)
qed

lemma ttlText_normal:
  assumes "unitSeconds u = Some f"
  shows "ToLower (TrimSpace (ttlText k u)) = ttlText k u"
proof -
  have "\<not> is_space c" if "c \<in> set (ttlText k u)" for c
    using that nat_str_no_space [of c k] unit_chars [OF assms] by (auto simp: ttlText_def is_space_def)
  then have "TrimSpace (ttlText k u) = ttlText k u" by (rule TrimSpace_id)
  moreover have "to_lower_char u = u" using unit_chars [OF assms] by (auto simp: to_lower_char_def)
  ultimately show ?thesis by (simp add: ttlText_def) (simp add: ToLower_def)
qed

lemma FormatSeconds_parse:
  assumes n: "0 \<le> n" "n \<le> MaxTTL"
  shows "ToLower (TrimSpace (FormatSeconds n)) = FormatSeconds n \<and> parseTTLSeconds pd (FormatSeconds n) orig = Inr n
    \<and> checkTTLRange n orig = None \<and> FormatSeconds n \<noteq> [] \<and> FormatSeconds n \<noteq> ''auto''"
proof -
  from FormatSeconds_form [OF n(1)] obtain k u f where f: "FormatSeconds n = ttlText k u" "unitSeconds u = Some f" "int k * f = n" by blast
  have "is_digit (hd (ttlText k u))" "ttlText k u \<noteq> []" using hd_nat_str_digit [of k] by (simp_all add: ttlText_def)
  then have "ttlText k u \<noteq> ''auto''" by (auto simp: is_digit_iff)
  with f n ttlText_normal [OF f(2)] parseTTLSeconds_unit [OF f(2), of k pd orig] \<open>ttlText k u \<noteq> []\<close> show ?thesis
    by (simp add: checkTTLRange_def)
qed

text \<open>
  A TTL that is shown can be typed back. Every TTL from 0 to 2147483647, and the absent one,
  parses back from its display to itself, whatever \<^verbatim>\<open>time.ParseDuration\<close> does; and every TTL that
  parses at all is in that range.
\<close>

theorem TTL_roundtrip:
  "(\<forall>t. (case t of None \<Rightarrow> True | Some n \<Rightarrow> 0 \<le> n \<and> n \<le> MaxTTL) \<longrightarrow> ParseTTL pd (FormatTTL t) = Inr t)
   \<and> (\<forall>n. 0 \<le> n \<and> n \<le> MaxTTL \<longrightarrow> ParseTTLSeconds pd (FormatSeconds n) = Inr n)
   \<and> (\<forall>s n. ParseTTL pd s = Inr (Some n) \<longrightarrow> 0 \<le> n \<and> n \<le> MaxTTL)"
proof (intro conjI allI impI)
  fix t :: "int option"
  assume ok: "case t of None \<Rightarrow> True | Some n \<Rightarrow> 0 \<le> n \<and> n \<le> MaxTTL"
  show "ParseTTL pd (FormatTTL t) = Inr t"
  proof (cases t)
    case None
    have "ToLower (TrimSpace ''Auto'') = ''auto''" by code_simp
    with None show ?thesis by (simp add: ParseTTL_def FormatTTL_def)
  next
    case (Some n)
    with ok FormatSeconds_parse [of n] show ?thesis by (simp add: ParseTTL_def FormatTTL_def Let_def)
  qed
next
  fix n
  assume "0 \<le> n \<and> n \<le> MaxTTL"
  with FormatSeconds_parse [of n] show "ParseTTLSeconds pd (FormatSeconds n) = Inr n" by (simp add: ParseTTLSeconds_def)
next
  fix s n
  assume "ParseTTL pd s = Inr (Some n)"
  then show "0 \<le> n" "n \<le> MaxTTL"
    by (auto simp: ParseTTL_def checkTTLRange_def Let_def split: if_splits sum.splits)
qed

theorem TTL_roundtrip_witness:
  "ParseTTL (\<lambda>_. None) (FormatTTL (Some 5400)) = Inr (Some 5400) \<and> FormatTTL (Some 5400) = ''90m''"
proof -
  have "FormatTTL (Some 5400) = ''90m''" by code_simp
  moreover have "case Some 5400 of None \<Rightarrow> True | Some n \<Rightarrow> 0 \<le> n \<and> n \<le> MaxTTL" by (simp add: MaxTTL_def)
  then have "ParseTTL (\<lambda>_. None) (FormatTTL (Some 5400)) = Inr (Some 5400)"
    using TTL_roundtrip [of "\<lambda>_. None"] by blast
  ultimately show ?thesis by simp
qed

text \<open>The check inside the loop does not keep a compound TTL from overflowing: one factor is enough
  to wrap around 64 bits and come back into the range.\<close>

lemma ParseTTL_wraps: "ParseTTL (\<lambda>_. None) ''30500568904944w'' = Inr (Some 579584)"
  by code_simp

end
