(* ===== verification/Go_Netip.thy ===== *)
theory Go_Netip
  imports Go_Prelude
begin

text \<open>
  \<^verbatim>\<open>netip.ParseAddr\<close> and \<^verbatim>\<open>Addr.String\<close> of the Go library, as far as record data uses them: an
  IPv4 address is its four octets, an IPv6 address its eight groups and its zone.
\<close>

section \<open>Definitions\<close>

datatype ip_addr = IPv4 "nat list" | IPv6 "nat list" string

definition Is4 :: "ip_addr \<Rightarrow> bool" where
  "Is4 a = (case a of IPv4 _ \<Rightarrow> True | IPv6 _ _ \<Rightarrow> False)"

definition addrZone :: "ip_addr \<Rightarrow> string" where
  "addrZone a = (case a of IPv4 _ \<Rightarrow> [] | IPv6 _ zone \<Rightarrow> zone)"

text \<open>\<^verbatim>\<open>strings.Split\<close> on one byte.\<close>

fun Split :: "char \<Rightarrow> string \<Rightarrow> string list" where
  "Split sep [] = [[]]"
| "Split sep (c # s) = (if c = sep then [] # Split sep s else (c # hd (Split sep s)) # tl (Split sep s))"

text \<open>An octet: digits, no leading zero, at most 255.\<close>

definition parseOctet :: "string \<Rightarrow> nat option" where
  "parseOctet s =
     (if list_all is_digit s \<and> s \<noteq> [] \<and> (length s > 1 \<longrightarrow> hd s \<noteq> CHR ''0'') \<and> digits_val s \<le> 255
      then Some (digits_val s) else None)"

definition parseIPv4 :: "string \<Rightarrow> nat list option" where
  "parseIPv4 s =
     (let parts = map parseOctet (Split (CHR ''.'') s) in
      if length parts = 4 \<and> list_all (\<lambda>p. p \<noteq> None) parts then Some (map the parts) else None)"

definition hexVal :: "char \<Rightarrow> nat option" where
  "hexVal c =
     (if is_digit c then Some (digit_val c)
      else if CHR ''a'' \<le> c \<and> c \<le> CHR ''f'' then Some (of_char c - 87)
      else if CHR ''A'' \<le> c \<and> c \<le> CHR ''F'' then Some (of_char c - 55)
      else None)"

text \<open>
  The groups of an IPv6 address after its zone and a leading \<open>::\<close> are cut off. \<open>gs\<close> are the groups
  read, \<open>ell\<close> the place of \<open>::\<close> among them; the fuel is the eight groups there can be.
\<close>

fun parseGroups :: "nat \<Rightarrow> nat list \<Rightarrow> nat option \<Rightarrow> string \<Rightarrow> (nat list \<times> nat option \<times> string) option" where
  "parseGroups 0 gs ell s = Some (gs, ell, s)"
| "parseGroups (Suc n) gs ell s =
     (let ds = takeWhile (\<lambda>c. hexVal c \<noteq> None) s; rest = dropWhile (\<lambda>c. hexVal c \<noteq> None) s in
      if length ds > 4 \<or> ds = [] then None
      else if rest \<noteq> [] \<and> hd rest = CHR ''.'' then
        (if ell = None \<and> length gs \<noteq> 6 \<or> length gs > 6 then None
         else case parseIPv4 s of
           Some [a, b, c, d] \<Rightarrow> Some (gs @ [a * 256 + b, c * 256 + d], ell, [])
         | _ \<Rightarrow> None)
      else
        let gs = gs @ [foldl (\<lambda>acc c. 16 * acc + the (hexVal c)) 0 ds] in
        if rest = [] then Some (gs, ell, [])
        else if hd rest \<noteq> CHR '':'' \<or> tl rest = [] then None
        else if hd (tl rest) = CHR '':'' then
          (if ell \<noteq> None then None
           else if tl (tl rest) = [] then Some (gs, Some (length gs), [])
           else parseGroups n gs (Some (length gs)) (tl (tl rest)))
        else parseGroups n gs ell (tl rest))"

definition parseIPv6 :: "string \<Rightarrow> ip_addr option" where
  "parseIPv6 s =
     (let addr = takeWhile (\<lambda>c. c \<noteq> CHR ''%'') s; after = dropWhile (\<lambda>c. c \<noteq> CHR ''%'') s; zone = tl after in
      if after \<noteq> [] \<and> zone = [] then None
      else
        let lead = HasPrefix addr ''::''; rest = (if lead then drop 2 addr else addr) in
        if lead \<and> rest = [] then Some (IPv6 (replicate 8 0) zone)
        else
          (case parseGroups 8 [] (if lead then Some 0 else None) rest of
             None \<Rightarrow> None
           | Some (gs, ell, left) \<Rightarrow>
               if left \<noteq> [] then None
               else if length gs < 8 then
                 (case ell of None \<Rightarrow> None
                  | Some p \<Rightarrow> Some (IPv6 (take p gs @ replicate (8 - length gs) 0 @ drop p gs) zone))
               else if ell \<noteq> None then None else Some (IPv6 gs zone)))"

definition ParseAddr :: "string \<Rightarrow> ip_addr option" where
  "ParseAddr s =
     (case find (\<lambda>c. c = CHR ''.'' \<or> c = CHR '':'' \<or> c = CHR ''%'') s of
        None \<Rightarrow> None
      | Some c \<Rightarrow>
          if c = CHR ''.'' then map_option IPv4 (parseIPv4 s)
          else if c = CHR '':'' then parseIPv6 s else None)"

fun hex_str :: "nat \<Rightarrow> string" where
  "hex_str n = (if n < 16 then [hex_char n] else hex_str (n div 16) @ [hex_char (n mod 16)])"

declare hex_str.simps [simp del]

definition ipv4_str :: "nat list \<Rightarrow> string" where
  "ipv4_str os = Join (map nat_str os) ''.''"

text \<open>The zeros at the head of a list of groups, and the first longest run of them.\<close>

definition zerosAt :: "nat list \<Rightarrow> nat \<Rightarrow> nat" where
  "zerosAt gs i = length (takeWhile (\<lambda>g. g = 0) (drop i gs))"

definition longestRun :: "nat list \<Rightarrow> nat \<times> nat" where
  "longestRun gs = foldl (\<lambda>(p, n) i. if zerosAt gs i > n then (i, zerosAt gs i) else (p, n)) (0, 1) [0..<length gs]"

definition ipv6_str :: "nat list \<Rightarrow> string" where
  "ipv6_str gs =
     (if take 6 gs = [0, 0, 0, 0, 0, 65535] then
        ''::ffff:'' @ ipv4_str [gs ! 6 div 256, gs ! 6 mod 256, gs ! 7 div 256, gs ! 7 mod 256]
      else case longestRun gs of (p, n) \<Rightarrow>
        if n < 2 then Join (map hex_str gs) '':''
        else Join (map hex_str (take p gs)) '':'' @ ''::'' @ Join (map hex_str (drop (p + n) gs)) '':'')"

definition addr_String :: "ip_addr \<Rightarrow> string" where
  "addr_String a =
     (case a of IPv4 os \<Rightarrow> ipv4_str os
      | IPv6 gs zone \<Rightarrow> ipv6_str gs @ (if zone = [] then [] else CHR ''%'' # zone))"

section \<open>Facts\<close>

lemma Split_nonempty [simp]: "Split sep s \<noteq> []"
  by (cases s) auto

lemma parseIPv4_octets: "parseIPv4 s = Some os \<Longrightarrow> length os = 4 \<and> (\<forall>x \<in> set os. x \<le> 255)"
  by (fastforce simp: parseIPv4_def parseOctet_def Let_def list_all_iff split: if_splits)

lemma ParseAddr_examples:
  "ParseAddr ''192.0.2.7'' = Some (IPv4 [192, 0, 2, 7])"
  "ParseAddr ''192.0.2.07'' = None"
  "ParseAddr ''2001:db8::1'' = Some (IPv6 [0x2001, 0xdb8, 0, 0, 0, 0, 0, 1] [])"
  "ParseAddr ''fe80::1%eth0'' = Some (IPv6 [0xfe80, 0, 0, 0, 0, 0, 0, 1] ''eth0'')"
  "ParseAddr ''::ffff:192.0.2.1'' = Some (IPv6 [0, 0, 0, 0, 0, 65535, 49152, 513] [])"
  "ParseAddr ''1::2::3'' = None"
  "map_option addr_String (ParseAddr ''2001:DB8:0:0:1:0:0:1'') = Some ''2001:db8::1:0:0:1''"
  by code_simp+

end
