(* ===== verification/Rdata_Value.thy ===== *)
theory Rdata_Value
  imports Rdata_Text Go_Netip
begin

text \<open>
  Record values in the command line plugin (\<^verbatim>\<open>internal/cmd/dns/rdata\<close>): record types
  (\<^verbatim>\<open>types.go\<close>), reading a value in presentation format (\<^verbatim>\<open>parse.go\<close>), writing it
  (\<^verbatim>\<open>render.go\<close>), the identity of a value (\<^verbatim>\<open>key.go\<close>) and its named fields
  (\<^verbatim>\<open>fields.go\<close>). SVCB parameter maps are association lists with distinct keys; \<open>today\<close> is the
  date that the default SOA serial begins with.
\<close>

section \<open>Definitions\<close>

abbreviation dq :: "string \<Rightarrow> string" where "dq s \<equiv> [dquote] @ s @ [dquote]"

definition emDash :: string where "emDash = [CHR 0xE2, CHR 0x80, CHR 0x94]"

definition quoteStr :: "string \<Rightarrow> string" where "quoteStr s = dq s"

subsection \<open>Types\<close>

definition supportedTypes :: "RRType list" where
  "supportedTypes = [RRTypeA, RRTypeAAAA, RRTypeALIAS, RRTypeCNAME, RRTypeTXT, RRTypeMX, RRTypeSRV, RRTypeCAA,
     RRTypeNS, RRTypeSOA, RRTypePTR, RRTypeTLSA, RRTypeHTTPS, RRTypeSVCB]"

definition typeList :: string where "typeList = Join supportedTypes '', ''"

definition ParseRRType :: "string \<Rightarrow> rdata_error + RRType" where
  "ParseRRType s =
     (case find (\<lambda>t. t = ToUpper (TrimSpace s)) supportedTypes of
        Some t \<Rightarrow> Inr t
      | None \<Rightarrow> Inl (errf (''unsupported record type '' @ go_quote s @ '', must be one of '' @ typeList)))"

definition IsStructured :: "RRType \<Rightarrow> bool" where
  "IsStructured t \<longleftrightarrow> t \<in> set [RRTypeMX, RRTypeSRV, RRTypeCAA, RRTypeTLSA, RRTypeHTTPS, RRTypeSVCB, RRTypeSOA]"

definition IsSingleValued :: "RRType \<Rightarrow> bool" where
  "IsSingleValued t \<longleftrightarrow> t \<in> set [RRTypeCNAME, RRTypeALIAS, RRTypeSOA]"

definition allFields :: "(RRType \<times> string \<times> (RecordEntry \<Rightarrow> bool)) list" where
  "allFields =
     [(RRTypeA, ''a'', \<lambda>e. re_A e \<noteq> None), (RRTypeAAAA, ''aaaa'', \<lambda>e. re_AAAA e \<noteq> None),
      (RRTypeALIAS, ''alias'', \<lambda>e. re_ALIAS e \<noteq> None), (RRTypeCNAME, ''cname'', \<lambda>e. re_CNAME e \<noteq> None),
      (RRTypeTXT, ''txt'', \<lambda>e. re_TXT e \<noteq> None), (RRTypeMX, ''mx'', \<lambda>e. re_MX e \<noteq> None),
      (RRTypeSRV, ''srv'', \<lambda>e. re_SRV e \<noteq> None), (RRTypeCAA, ''caa'', \<lambda>e. re_CAA e \<noteq> None),
      (RRTypeNS, ''ns'', \<lambda>e. re_NS e \<noteq> None), (RRTypeSOA, ''soa'', \<lambda>e. re_SOA e \<noteq> None),
      (RRTypePTR, ''ptr'', \<lambda>e. re_PTR e \<noteq> None), (RRTypeTLSA, ''tlsa'', \<lambda>e. re_TLSA e \<noteq> None),
      (RRTypeHTTPS, ''https'', \<lambda>e. re_HTTPS e \<noteq> None), (RRTypeSVCB, ''svcb'', \<lambda>e. re_SVCB e \<noteq> None)]"

definition setFields :: "RecordEntry \<Rightarrow> string list" where
  "setFields e = map (\<lambda>(t, json, isSet). json) (filter (\<lambda>(t, json, isSet). isSet e) allFields)"

definition jsonFieldFor :: "RRType \<Rightarrow> string" where
  "jsonFieldFor t =
     (case find (\<lambda>(t', json, isSet). t' = t) allFields of Some (_, json, _) \<Rightarrow> json | None \<Rightarrow> ToLower t)"

definition sortedKeys :: "(string \<times> string) list \<Rightarrow> string list" where
  "sortedKeys m = sort_strings (map fst m)"

definition paramOf :: "(string \<times> string) list \<Rightarrow> string \<Rightarrow> string" where
  "paramOf m k = (case map_of m k of Some v \<Rightarrow> v | None \<Rightarrow> [])"

subsection \<open>Rendering\<close>

definition qualify :: "string \<Rightarrow> string" where
  "qualify s = (let s = TrimSpace s in if s = [] \<or> HasSuffix s ''.'' then s else s @ ''.'')"

definition renderSerial :: "string \<Rightarrow> 32 word \<Rightarrow> string" where
  "renderSerial today serial = (if serial \<noteq> 0 then u_str serial else today @ ''01'')"

definition effective :: "32 word \<Rightarrow> 32 word \<Rightarrow> 32 word" where
  "effective v def = (if v = 0 then def else v)"

definition soaDefaultRefresh :: "32 word" where "soaDefaultRefresh = 10800"
definition soaDefaultRetry :: "32 word" where "soaDefaultRetry = 3600"
definition soaDefaultExpire :: "32 word" where "soaDefaultExpire = 604800"
definition soaDefaultMinimum :: "32 word" where "soaDefaultMinimum = 3600"

definition paramKeyRank :: "string \<Rightarrow> nat" where
  "paramKeyRank k =
     (if k = ''alpn'' then 10 else if k = ''no-default-alpn'' then 20 else if k = ''port'' then 30
      else if k = ''esnikeys'' \<or> k = ''ech'' then 40 else if k = ''ipv4hint'' then 50
      else if k = ''ipv6hint'' then 60 else 1000)"

definition paramFlagKeys :: "string list" where "paramFlagKeys = [''no-default-alpn'']"
definition paramUnquotedCSV :: "string list" where
  "paramUnquotedCSV = [''alpn'', ''ipv4hint'', ''ipv6hint'', ''port'']"

definition renderParam :: "(string \<times> string) list \<Rightarrow> string \<Rightarrow> string option" where
  "renderParam m k =
     (let v = TrimSpace (paramOf m k) in
      if k \<in> set paramFlagKeys then Some k
      else if v = [] then None
      else if k \<in> set paramUnquotedCSV then Some (k @ ''='' @ v)
      else Some (k @ ''='' @ quoteTXT v))"

definition renderSVCBParams :: "(string \<times> string) list \<Rightarrow> string" where
  "renderSVCBParams m =
     (if m = [] then []
      else Join (List.map_filter (renderParam m)
             (go_sort (\<lambda>a b. paramKeyRank a < paramKeyRank b) (sortedKeys m))) '' '')"

definition renderSVCB :: "HTTPSRecordSpec \<Rightarrow> string" where
  "renderSVCB s =
     (let t = TrimSpace (https_target s);
          t = (if t = ''.'' then t else if t = [] then ''.'' else qualify t);
          p = renderSVCBParams (https_params s) in
      if https_priority s = 0 then u_str (https_priority s) @ '' '' @ t
      else if p \<noteq> [] then u_str (https_priority s) @ '' '' @ t @ '' '' @ p
      else u_str (https_priority s) @ '' '' @ t)"

definition renderSOA :: "string \<Rightarrow> SOARecordSpec \<Rightarrow> string" where
  "renderSOA today s =
     Join [qualify (soa_mname s), qualify (soa_rname s), renderSerial today (soa_serial s),
       u_str (effective (soa_refresh s) soaDefaultRefresh), u_str (effective (soa_retry s) soaDefaultRetry),
       u_str (effective (soa_expire s) soaDefaultExpire), u_str (effective (soa_ttl s) soaDefaultMinimum)] '' ''"

text \<open>A field that is absent renders as nothing.\<close>

definition rendered :: "('a \<Rightarrow> string) \<Rightarrow> 'a option \<Rightarrow> string" where
  "rendered f v = (case v of None \<Rightarrow> [] | Some x \<Rightarrow> f x)"

definition Render :: "string \<Rightarrow> RRType \<Rightarrow> RecordEntry \<Rightarrow> string" where
  "Render today t e =
     (if t = RRTypeA then rendered TrimSpace (re_A e)
      else if t = RRTypeAAAA then rendered TrimSpace (re_AAAA e)
      else if t = RRTypeCNAME then rendered qualify (re_CNAME e)
      else if t = RRTypeALIAS then rendered qualify (re_ALIAS e)
      else if t = RRTypeNS then rendered qualify (re_NS e)
      else if t = RRTypePTR then rendered qualify (re_PTR e)
      else if t = RRTypeTXT then rendered renderTXT (re_TXT e)
      else if t = RRTypeMX then
        rendered (\<lambda>mx. u_str (mx_preference mx) @ '' '' @ qualify (mx_exchange mx)) (re_MX e)
      else if t = RRTypeSRV then
        rendered (\<lambda>s. Join [u_str (srv_priority s), u_str (srv_weight s), u_str (srv_port s), qualify (srv_target s)] '' '') (re_SRV e)
      else if t = RRTypeCAA then
        rendered (\<lambda>c. Join [u_str (caa_flag c), caa_tag c, quoteTXT (caa_value c)] '' '') (re_CAA e)
      else if t = RRTypeTLSA then
        rendered (\<lambda>x. Join [u_str (tlsa_usage x), u_str (tlsa_selector x), u_str (tlsa_matchingType x), tlsa_certData x] '' '') (re_TLSA e)
      else if t = RRTypeHTTPS then rendered renderSVCB (re_HTTPS e)
      else if t = RRTypeSVCB then rendered renderSVCB (re_SVCB e)
      else if t = RRTypeSOA then rendered (renderSOA today) (re_SOA e)
      else [])"

subsection \<open>Parsing\<close>

definition checkIPv4 :: "string \<Rightarrow> rdata_error option" where
  "checkIPv4 v =
     (if (case ParseAddr v of None \<Rightarrow> True | Some a \<Rightarrow> \<not> Is4 a) then
        Some (fixf (''an A record holds a single IPv4 address, as in '' @ dq ''203.0.113.10'')
          (go_quote v @ '' is not a valid IPv4 address''))
      else None)"

definition checkIPv6 :: "string \<Rightarrow> rdata_error option" where
  "checkIPv6 v =
     (if (case ParseAddr v of None \<Rightarrow> True | Some a \<Rightarrow> Is4 a \<or> addrZone a \<noteq> []) then
        Some (fixf (''an AAAA record holds a single IPv6 address, as in '' @ dq ''2001:db8::1'')
          (go_quote v @ '' is not a valid IPv6 address''))
      else None)"

definition parseUint16 :: "string \<Rightarrow> string \<Rightarrow> rdata_error + 16 word" where
  "parseUint16 field s =
     (case ParseUint 16 s of
        None \<Rightarrow> Inl (errf (field @ '' '' @ go_quote s @ '' is not a number between 0 and 65535''))
      | Some u \<Rightarrow> Inr (of_nat u))"

definition parseUint8 :: "string \<Rightarrow> string \<Rightarrow> rdata_error + 8 word" where
  "parseUint8 field s =
     (case ParseUint 8 s of
        None \<Rightarrow> Inl (errf (field @ '' '' @ go_quote s @ '' is not a number between 0 and 255''))
      | Some u \<Rightarrow> Inr (of_nat u))"

definition soaDefaultText :: "string \<Rightarrow> string" where
  "soaDefaultText field =
     (if field = ''serial'' then ''today'' @ [CHR 0x27] @ ''s date plus 01'' else if field = ''refresh'' then ''10800''
      else if field = ''retry'' then ''3600'' else if field = ''expire'' then ''604800''
      else if field = ''minimum'' then ''3600'' else ''the backend default'')"

definition parseSOAUint32 :: "string \<Rightarrow> string \<Rightarrow> rdata_error + 32 word" where
  "parseSOAUint32 field s =
     (case ParseUint 32 s of
        None \<Rightarrow> Inl (errf (''SOA '' @ field @ '' '' @ go_quote s @ '' is not a number between 0 and 4294967295''))
      | Some u \<Rightarrow>
          if u = 0 then
            Inl (fixf (''the API cannot express a literal 0 for this field '' @ emDash
                @ '' omit it to accept the backend default ('' @ soaDefaultText field @ ''), or give a non-zero value'')
              (''SOA '' @ field @ '' may not be 0''))
          else Inr (of_nat u))"

definition arity :: "nat \<Rightarrow> nat option \<Rightarrow> string" where
  "arity lo hi =
     (case hi of None \<Rightarrow> ''at least '' @ nat_str lo
      | Some hi \<Rightarrow> if lo = hi then nat_str lo else nat_str lo @ '' to '' @ nat_str hi)"

definition fields :: "RRType \<Rightarrow> string \<Rightarrow> nat \<Rightarrow> nat option \<Rightarrow> string \<Rightarrow> rdata_error + token list" where
  "fields t v lo hi grammar =
     (case tokenize v False of
        Inl e \<Rightarrow> Inl e
      | Inr toks \<Rightarrow>
          if length toks < lo \<or> (case hi of None \<Rightarrow> False | Some hi \<Rightarrow> length toks > hi) then
            Inl (fixf (''the presentation format for '' @ t @ '' is '' @ quoteStr grammar @ '', or use the named flags'')
              (t @ '' record value '' @ go_quote v @ '' has '' @ nat_str (length toks) @ '' fields, expected '' @ arity lo hi))
          else Inr toks)"

text \<open>\<^verbatim>\<open>strings.Cut\<close> at the first equals sign.\<close>

definition cutEq :: "string \<Rightarrow> string \<times> string \<times> bool" where
  "cutEq s = (let k = takeWhile (\<lambda>c. c \<noteq> CHR ''='') s; rest = dropWhile (\<lambda>c. c \<noteq> CHR ''='') s in
     if rest = [] then (s, [], False) else (k, tl rest, True))"

definition paramKeyChar :: "char \<Rightarrow> bool" where
  "paramKeyChar c \<longleftrightarrow> CHR ''a'' \<le> c \<and> c \<le> CHR ''z'' \<or> is_digit c \<or> c = CHR ''-'' \<or> c = CHR ''_''"

definition parseParam :: "string \<Rightarrow> rdata_error + string \<times> string" where
  "parseParam s =
     (case cutEq s of (k, v, found) \<Rightarrow>
        let k = ToLower (TrimSpace k) in
        if k = [] then
          Inl (fixf (''parameters are written key=value, as in '' @ dq ''alpn=h3,h2'')
            (''service parameter '' @ go_quote s @ '' has an empty key''))
        else
          (case find (\<lambda>c. \<not> paramKeyChar c) k of
             Some c \<Rightarrow> Inl (errf (''service parameter key '' @ go_quote k @ '' contains an invalid character '' @ go_quote [c]))
           | None \<Rightarrow>
               if \<not> found then Inr (k, [])
               else if length v \<ge> 2 \<and> HasPrefix v [dquote] \<and> HasSuffix v [dquote] then
                 (case tokenize v False of
                    Inl e \<Rightarrow> Inl e
                  | Inr inner \<Rightarrow>
                      if length inner = 1 \<and> tk_quoted (inner ! 0) then Inr (k, tk_text (inner ! 0)) else Inr (k, v))
               else Inr (k, v)))"

fun parseParams :: "RRType \<Rightarrow> (string \<times> string) list \<Rightarrow> token list \<Rightarrow> rdata_error + (string \<times> string) list" where
  "parseParams t m [] = Inr m"
| "parseParams t m (tok # toks) =
     (case parseParam (tk_text tok) of
        Inl e \<Rightarrow> Inl e
      | Inr (k, v) \<Rightarrow>
          if k \<in> fst ` set m then Inl (errf (t @ '' parameter '' @ go_quote k @ '' is set more than once''))
          else parseParams t (m @ [(k, v)]) toks)"

definition parseSVCB :: "RRType \<Rightarrow> string \<Rightarrow> rdata_error + HTTPSRecordSpec" where
  "parseSVCB t v =
     (case fields t v 2 None ''<priority> <target> [key=value ...]'' of
        Inl e \<Rightarrow> Inl e
      | Inr toks \<Rightarrow>
          (case parseUint16 (t @ '' priority'') (tk_text (toks ! 0)) of
             Inl e \<Rightarrow> Inl e
           | Inr prio \<Rightarrow>
               (case parseParams t [] (drop 2 toks) of
                  Inl e \<Rightarrow> Inl e
                | Inr m \<Rightarrow> Inr \<lparr>https_priority = prio, https_target = ToLower (hostToken (toks ! 1)), https_params = m\<rparr>)))"

fun parseSOANumbers :: "string list \<Rightarrow> token list \<Rightarrow> rdata_error + 32 word list" where
  "parseSOANumbers [] toks = Inr []"
| "parseSOANumbers (n # names) toks =
     (case parseSOAUint32 n (tk_text (hd toks)) of
        Inl e \<Rightarrow> Inl e
      | Inr u \<Rightarrow> (case parseSOANumbers names (tl toks) of Inl e \<Rightarrow> Inl e | Inr us \<Rightarrow> Inr (u # us)))"

definition parseSOA :: "string \<Rightarrow> rdata_error + SOARecordSpec" where
  "parseSOA v =
     (case tokenize v False of
        Inl e \<Rightarrow> Inl e
      | Inr toks \<Rightarrow>
          if length toks \<noteq> 2 \<and> length toks \<noteq> 7 then
            Inl (fixf (''the presentation format for SOA is ''
                @ dq ''<mname> <rname> <serial> <refresh> <retry> <expire> <minimum>'' @ ''; give just ''
                @ dq ''<mname> <rname>'' @ '' to accept the backend defaults'')
              (''SOA record value '' @ go_quote v @ '' has '' @ nat_str (length toks) @ '' fields, expected 2 or 7''))
          else
            let spec = \<lparr>soa_mname = ToLower (hostToken (toks ! 0)), soa_rname = ToLower (hostToken (toks ! 1)),
                  soa_serial = 0, soa_refresh = 0, soa_retry = 0, soa_expire = 0, soa_ttl = 0\<rparr> in
            if length toks = 2 then Inr spec
            else
              (case parseSOANumbers [''serial'', ''refresh'', ''retry'', ''expire'', ''minimum''] (drop 2 toks) of
                 Inl e \<Rightarrow> Inl e
               | Inr vals \<Rightarrow>
                   Inr (spec\<lparr>soa_serial := vals ! 0, soa_refresh := vals ! 1, soa_retry := vals ! 2,
                     soa_expire := vals ! 3, soa_ttl := vals ! 4\<rparr>)))"

text \<open>Going on after an operation that may fail.\<close>

definition bindE :: "rdata_error + 'a \<Rightarrow> ('a \<Rightarrow> rdata_error + 'b) \<Rightarrow> rdata_error + 'b" where
  "bindE r f = (case r of Inl e \<Rightarrow> Inl e | Inr x \<Rightarrow> f x)"

definition orFail :: "'e option \<Rightarrow> 'a \<Rightarrow> 'e + 'a" where
  "orFail e x = (case e of Some e \<Rightarrow> Inl e | None \<Rightarrow> Inr x)"

definition parseMX :: "string \<Rightarrow> rdata_error + MXRecordSpec" where
  "parseMX v =
     bindE (fields RRTypeMX v 2 (Some 2) ''<preference> <exchange>'') (\<lambda>toks.
     bindE (parseUint16 ''MX preference'' (tk_text (toks ! 0))) (\<lambda>pref.
     Inr \<lparr>mx_preference = pref, mx_exchange = ToLower (hostToken (toks ! 1))\<rparr>))"

definition parseSRV :: "string \<Rightarrow> rdata_error + SRVRecordSpec" where
  "parseSRV v =
     bindE (fields RRTypeSRV v 4 (Some 4) ''<priority> <weight> <port> <target>'') (\<lambda>toks.
     bindE (parseUint16 ''SRV priority'' (tk_text (toks ! 0))) (\<lambda>prio.
     bindE (parseUint16 ''SRV weight'' (tk_text (toks ! 1))) (\<lambda>weight.
     bindE (parseUint16 ''SRV port'' (tk_text (toks ! 2))) (\<lambda>port.
     Inr \<lparr>srv_priority = prio, srv_weight = weight, srv_port = port, srv_target = ToLower (hostToken (toks ! 3))\<rparr>))))"

definition parseCAA :: "string \<Rightarrow> rdata_error + CAARecordSpec" where
  "parseCAA v =
     bindE (fields RRTypeCAA v 3 (Some 3) ''<flag> <tag> <value>'') (\<lambda>toks.
     bindE (parseUint8 ''CAA flag'' (tk_text (toks ! 0))) (\<lambda>flag.
     Inr \<lparr>caa_flag = flag, caa_tag = ToLower (tk_text (toks ! 1)), caa_value = tk_text (toks ! 2)\<rparr>))"

definition parseTLSA :: "string \<Rightarrow> rdata_error + TLSARecordSpec" where
  "parseTLSA v =
     bindE (fields RRTypeTLSA v 4 None ''<usage> <selector> <matchingType> <certData>'') (\<lambda>toks.
     bindE (parseUint8 ''TLSA usage'' (tk_text (toks ! 0))) (\<lambda>usage.
     bindE (parseUint8 ''TLSA selector'' (tk_text (toks ! 1))) (\<lambda>sel.
     bindE (parseUint8 ''TLSA matching type'' (tk_text (toks ! 2))) (\<lambda>mt.
     Inr \<lparr>tlsa_usage = usage, tlsa_selector = sel, tlsa_matchingType = mt,
          tlsa_certData = concat (map tk_text (drop 3 toks))\<rparr>))))"

text \<open>Only the field of the type is set; name and TTL are the caller's.\<close>

definition ParseValue :: "RRType \<Rightarrow> string \<Rightarrow> rdata_error + RecordEntry" where
  "ParseValue t val =
     (let v = TrimSpace val; e = emptyEntry [] in
      if v = [] then Inl (errf (t @ '' record value must not be empty''))
      else if t = RRTypeA then orFail (checkIPv4 v) (e\<lparr>re_A := Some v\<rparr>)
      else if t = RRTypeAAAA then orFail (checkIPv6 v) (e\<lparr>re_AAAA := Some v\<rparr>)
      else if t = RRTypeCNAME then Inr (e\<lparr>re_CNAME := Some (ToLower v)\<rparr>)
      else if t = RRTypeALIAS then Inr (e\<lparr>re_ALIAS := Some (ToLower v)\<rparr>)
      else if t = RRTypeNS then Inr (e\<lparr>re_NS := Some (ToLower v)\<rparr>)
      else if t = RRTypePTR then Inr (e\<lparr>re_PTR := Some (ToLower v)\<rparr>)
      else if t = RRTypeTXT then bindE (parseTXTValue v) (\<lambda>s. Inr (e\<lparr>re_TXT := Some s\<rparr>))
      else if t = RRTypeMX then bindE (parseMX v) (\<lambda>s. Inr (e\<lparr>re_MX := Some s\<rparr>))
      else if t = RRTypeSRV then bindE (parseSRV v) (\<lambda>s. Inr (e\<lparr>re_SRV := Some s\<rparr>))
      else if t = RRTypeCAA then bindE (parseCAA v) (\<lambda>s. Inr (e\<lparr>re_CAA := Some s\<rparr>))
      else if t = RRTypeTLSA then bindE (parseTLSA v) (\<lambda>s. Inr (e\<lparr>re_TLSA := Some s\<rparr>))
      else if t = RRTypeHTTPS then bindE (parseSVCB t v) (\<lambda>s. Inr (e\<lparr>re_HTTPS := Some s\<rparr>))
      else if t = RRTypeSVCB then bindE (parseSVCB t v) (\<lambda>s. Inr (e\<lparr>re_SVCB := Some s\<rparr>))
      else if t = RRTypeSOA then bindE (parseSOA v) (\<lambda>s. Inr (e\<lparr>re_SOA := Some s\<rparr>))
      else Inl (errf (''unsupported record type '' @ go_quote t @ '', must be one of '' @ typeList)))"

subsection \<open>Identity\<close>

definition canonHost :: "string \<Rightarrow> string" where
  "canonHost s = (let s = ToLower (TrimSpace s) in if s = ''.'' then ''.'' else TrimSuffix s ''.'')"

definition canonIP :: "string \<Rightarrow> string" where
  "canonIP s = (case ParseAddr (TrimSpace s) of None \<Rightarrow> ToLower (TrimSpace s) | Some addr \<Rightarrow> addr_String addr)"

definition svcbKey :: "HTTPSRecordSpec \<Rightarrow> string" where
  "svcbKey s =
     (let target = canonHost (https_target s); target = (if target = [] then ''.'' else target) in
      u_str (https_priority s) @ ''|'' @ target @
      (if https_priority s \<noteq> 0 then
         concat (map (\<lambda>k. ''|'' @ k @ ''='' @ TrimSpace (paramOf (https_params s) k)) (sortedKeys (https_params s)))
       else []))"

definition soaKey :: "SOARecordSpec \<Rightarrow> string" where
  "soaKey s =
     Join [''SOA'', canonHost (soa_mname s), canonHost (soa_rname s),
       u_str (effective (soa_refresh s) soaDefaultRefresh), u_str (effective (soa_retry s) soaDefaultRetry),
       u_str (effective (soa_expire s) soaDefaultExpire), u_str (effective (soa_ttl s) soaDefaultMinimum)] ''|''"

definition Key :: "RRType \<Rightarrow> RecordEntry \<Rightarrow> string" where
  "Key t e =
     (if t = RRTypeA then rendered (\<lambda>c. ''A|'' @ canonIP c) (re_A e)
      else if t = RRTypeAAAA then rendered (\<lambda>c. ''AAAA|'' @ canonIP c) (re_AAAA e)
      else if t = RRTypeCNAME then rendered (\<lambda>c. ''CNAME|'' @ canonHost c) (re_CNAME e)
      else if t = RRTypeALIAS then rendered (\<lambda>c. ''ALIAS|'' @ canonHost c) (re_ALIAS e)
      else if t = RRTypeNS then rendered (\<lambda>c. ''NS|'' @ canonHost c) (re_NS e)
      else if t = RRTypePTR then rendered (\<lambda>c. ''PTR|'' @ canonHost c) (re_PTR e)
      else if t = RRTypeTXT then rendered (\<lambda>c. ''TXT|'' @ txtLogical c) (re_TXT e)
      else if t = RRTypeMX then
        rendered (\<lambda>mx. Join [''MX'', u_str (mx_preference mx), canonHost (mx_exchange mx)] ''|'') (re_MX e)
      else if t = RRTypeSRV then
        rendered (\<lambda>s. Join [''SRV'', u_str (srv_priority s), u_str (srv_weight s), u_str (srv_port s), canonHost (srv_target s)] ''|'') (re_SRV e)
      else if t = RRTypeCAA then
        rendered (\<lambda>c. Join [''CAA'', u_str (caa_flag c), ToLower (caa_tag c), caa_value c] ''|'') (re_CAA e)
      else if t = RRTypeTLSA then
        rendered (\<lambda>x. Join [''TLSA'', u_str (tlsa_usage x), u_str (tlsa_selector x), u_str (tlsa_matchingType x),
          ToUpper (TrimSpace (tlsa_certData x))] ''|'') (re_TLSA e)
      else if t = RRTypeHTTPS then rendered (\<lambda>s. ''HTTPS|'' @ svcbKey s) (re_HTTPS e)
      else if t = RRTypeSVCB then rendered (\<lambda>s. ''SVCB|'' @ svcbKey s) (re_SVCB e)
      else if t = RRTypeSOA then rendered soaKey (re_SOA e)
      else [])"

definition Equal :: "RRType \<Rightarrow> RecordEntry \<Rightarrow> RecordEntry \<Rightarrow> bool" where
  "Equal t a b = (let ka = Key t a in if ka = [] then False else ka = Key t b)"

subsection \<open>Named fields\<close>

definition soaNumField :: "32 word \<Rightarrow> string \<Rightarrow> string" where
  "soaNumField v def = (if v = 0 then def @ '' (default)'' else u_str v)"

definition svcbFields :: "HTTPSRecordSpec \<Rightarrow> (string \<times> string) list" where
  "svcbFields s =
     (let target = TrimSpace (https_target s);
          target = (if target = [] then ''.'' else target);
          target = (if target \<noteq> ''.'' then qualify target else target);
          mode = (if https_priority s = 0 then ''alias'' else ''service'') in
      [(''Priority'', u_str (https_priority s) @ '' ('' @ mode @ '' mode)''), (''Target'', target)]
      @ (if https_priority s \<noteq> 0
         then map (\<lambda>k. (''Param '' @ k, paramOf (https_params s) k)) (sortedKeys (https_params s)) else []))"

definition txtFields :: "string \<Rightarrow> (string \<times> string) list" where
  "txtFields content =
     (let data = txtLogical content; parts = chunk255 data in
      (''Data'', data) # (if length parts > 1 then [(''Strings'', nat_str (length parts) @ '' (chunked at 255 bytes)'')] else []))"

definition fieldsOf :: "('a \<Rightarrow> (string \<times> string) list) \<Rightarrow> 'a option \<Rightarrow> (string \<times> string) list" where
  "fieldsOf f v = (case v of None \<Rightarrow> [] | Some x \<Rightarrow> f x)"

definition Fields_of :: "string \<Rightarrow> RRType \<Rightarrow> RecordEntry \<Rightarrow> (string \<times> string) list" where
  "Fields_of today t e =
     (if t = RRTypeA then fieldsOf (\<lambda>c. [(''Address'', c)]) (re_A e)
      else if t = RRTypeAAAA then fieldsOf (\<lambda>c. [(''Address'', c)]) (re_AAAA e)
      else if t = RRTypeCNAME then fieldsOf (\<lambda>c. [(''Target'', qualify c)]) (re_CNAME e)
      else if t = RRTypeALIAS then fieldsOf (\<lambda>c. [(''Target'', qualify c)]) (re_ALIAS e)
      else if t = RRTypeNS then fieldsOf (\<lambda>c. [(''Nameserver'', qualify c)]) (re_NS e)
      else if t = RRTypePTR then fieldsOf (\<lambda>c. [(''Target'', qualify c)]) (re_PTR e)
      else if t = RRTypeTXT then fieldsOf txtFields (re_TXT e)
      else if t = RRTypeMX then
        fieldsOf (\<lambda>mx. [(''Preference'', u_str (mx_preference mx)), (''Exchange'', qualify (mx_exchange mx))]) (re_MX e)
      else if t = RRTypeSRV then
        fieldsOf (\<lambda>s. [(''Priority'', u_str (srv_priority s)), (''Weight'', u_str (srv_weight s)),
          (''Port'', u_str (srv_port s)), (''Target'', qualify (srv_target s))]) (re_SRV e)
      else if t = RRTypeCAA then
        fieldsOf (\<lambda>c. [(''Flag'', u_str (caa_flag c)), (''Tag'', caa_tag c), (''Value'', caa_value c)]) (re_CAA e)
      else if t = RRTypeTLSA then
        fieldsOf (\<lambda>x. [(''Usage'', u_str (tlsa_usage x)), (''Selector'', u_str (tlsa_selector x)),
          (''Matching type'', u_str (tlsa_matchingType x)), (''Certificate data'', tlsa_certData x)]) (re_TLSA e)
      else if t = RRTypeHTTPS then fieldsOf svcbFields (re_HTTPS e)
      else if t = RRTypeSVCB then fieldsOf svcbFields (re_SVCB e)
      else if t = RRTypeSOA then
        fieldsOf (\<lambda>s. [(''Primary nameserver'', qualify (soa_mname s)), (''Responsible party'', qualify (soa_rname s)),
          (''Serial'', soaNumField (soa_serial s) (renderSerial today 0)),
          (''Refresh'', soaNumField (soa_refresh s) (u_str soaDefaultRefresh)),
          (''Retry'', soaNumField (soa_retry s) (u_str soaDefaultRetry)),
          (''Expire'', soaNumField (soa_expire s) (u_str soaDefaultExpire)),
          (''Minimum TTL'', soaNumField (soa_ttl s) (u_str soaDefaultMinimum))]) (re_SOA e)
      else [])"

end
