(* ===== verification/Rdata_Validate.thy ===== *)
theory Rdata_Validate
  imports Rdata_Value
begin

text \<open>
  What the command line plugin accepts (\<^verbatim>\<open>internal/cmd/dns/rdata\<close>): owner names
  (\<^verbatim>\<open>name.go\<close>), host names (\<^verbatim>\<open>hostname.go\<close>), and the validation of entries and of whole
  record sets with its warnings (\<^verbatim>\<open>validate.go\<close>). The properties tie it to the PowerDNS client:
  what is accepted is written as it is shown.
\<close>

section \<open>Definitions\<close>

subsection \<open>Owner names\<close>

definition IsApex :: "string \<Rightarrow> bool" where
  "IsApex name \<longleftrightarrow> name = ''@'' \<or> name = []"

definition FQDN :: "string \<Rightarrow> string \<Rightarrow> string" where
  "FQDN name zone =
     (let zone = TrimSuffix (ToLower (TrimSpace zone)) ''.''; name = ToLower (TrimSpace name) in
      if IsApex name then zone @ ''.''
      else if HasSuffix name ''.'' then name
      else name @ ''.'' @ zone @ ''.'')"

definition IsApexIn :: "string \<Rightarrow> string \<Rightarrow> bool" where
  "IsApexIn name zone \<longleftrightarrow> FQDN name zone = FQDN ''@'' zone"

definition isLetter :: "char \<Rightarrow> bool" where
  "isLetter c \<longleftrightarrow> (let lower = to_lower_char c in CHR ''a'' \<le> lower \<and> lower \<le> CHR ''z'')"

text \<open>The pattern of an owner name.\<close>

definition namePattern :: "string \<Rightarrow> bool" where
  "namePattern s \<longleftrightarrow> s = ''@'' \<or> s \<noteq> [] \<and>
     list_all (\<lambda>c. isLetter c \<or> is_digit c \<or> c = CHR ''*'' \<or> c = CHR ''.'' \<or> c = CHR ''_'' \<or> c = CHR ''-'') s"

definition maxNameLength :: nat where "maxNameLength = 253"

definition checkOwnerLabel :: "string \<Rightarrow> nat \<Rightarrow> string \<Rightarrow> rdata_error option" where
  "checkOwnerLabel orig i l =
     (if l = [] then Some (errf (''record name '' @ go_quote orig @ '' has an empty label''))
      else if length l > 63 then Some (errf (''record name '' @ go_quote orig @ '' has a label longer than 63 characters''))
      else if CHR ''*'' \<in> set l then
        (if l \<noteq> ''*'' then
           Some (fixf (''a wildcard must be a whole label, as in '' @ dq ''*'' @ '' or '' @ dq ''*.dev'')
             (''record name '' @ go_quote orig @ '' has a partial wildcard label '' @ go_quote l))
         else if i \<noteq> 0 then
           Some (fixf (''a wildcard must be the leftmost label, as in '' @ dq ''*.dev'')
             (''record name '' @ go_quote orig @ '' has a wildcard that is not the leftmost label''))
         else None)
      else None)"

text \<open>The first error of a list of checks.\<close>

fun firstErr :: "'e option list \<Rightarrow> 'e option" where
  "firstErr [] = None"
| "firstErr (e # es) = (case e of Some e \<Rightarrow> Some e | None \<Rightarrow> firstErr es)"

definition checkOwnerLabels :: "string \<Rightarrow> string \<Rightarrow> rdata_error option" where
  "checkOwnerLabels orig bare =
     (if length bare > maxNameLength then
        Some (errf (''record name '' @ go_quote orig @ '' is '' @ nat_str (length bare) @ '' characters, the maximum is '' @ nat_str maxNameLength))
      else
        let labels = Split (CHR ''.'') bare in
        firstErr (map (\<lambda>(i, l). checkOwnerLabel orig i l) (enumerate 0 labels)))"

text \<open>The normalised name and the warnings.\<close>

definition NormalizeNameWithWarnings :: "string \<Rightarrow> string \<Rightarrow> rdata_error + string \<times> string list" where
  "NormalizeNameWithWarnings name zone =
     (let zone = TrimSuffix (ToLower (TrimSpace zone)) ''.''; raw = TrimSpace name; lower = ToLower raw in
      if IsApex lower then Inr (''@'', [])
      else if list_ex (\<lambda>c. c = CHR '' '' \<or> c = CHR 0x09) raw then
        Inl (errf (''record name '' @ go_quote name @ '' contains whitespace''))
      else if \<not> namePattern lower then
        Inl (fixf (''names may contain letters, digits, '' @ dq ''-'' @ '', '' @ dq ''_'' @ '', '' @ dq ''.'' @ '' and ''
            @ dq ''*'' @ '', or be '' @ dq ''@'' @ '' for the apex'')
          (''record name '' @ go_quote name @ '' is not a valid owner name''))
      else
        let absolute = HasSuffix lower ''.''; bare = TrimSuffix lower ''.'' in
        if bare = [] then Inr (''@'', [])
        else
          (case checkOwnerLabels name bare of
             Some e \<Rightarrow> Inl e
           | None \<Rightarrow>
               if absolute then
                 (if zone = [] then Inr (bare @ ''.'', [])
                  else if bare = zone then Inr (''@'', [])
                  else if HasSuffix bare (''.'' @ zone) then Inr (TrimSuffix bare (''.'' @ zone), [])
                  else Inr (bare @ ''.'', [''name '' @ quoteStr (bare @ ''.'') @ '' is outside zone '' @ quoteStr zone
                         @ '' '' @ emDash @ '' the DNS backend will reject it as out-of-zone'']))
               else if zone \<noteq> [] \<and> bare = zone then
                 Inl (fixf (''names are relative to the zone '' @ emDash @ '' use '' @ dq ''@'' @ '' for the apex'')
                   (''record name '' @ go_quote name @ '' is the zone itself''))
               else if zone \<noteq> [] \<and> HasSuffix bare (''.'' @ zone) then
                 Inl (fixf (''names are relative to the zone '' @ emDash @ '' use '' @ quoteStr (TrimSuffix bare (''.'' @ zone))
                     @ '', or '' @ quoteStr (bare @ ''.'') @ '' with a trailing dot to force an absolute name'')
                   (''record name '' @ go_quote name @ '' already includes the zone domain''))
               else if zone \<noteq> [] \<and> length bare + 1 + length zone > maxNameLength then
                 Inl (errf (''record name '' @ go_quote name @ '' is too long for zone '' @ go_quote zone
                   @ '', the maximum total length is '' @ nat_str maxNameLength))
               else Inr (bare, [])))"

definition NormalizeName :: "string \<Rightarrow> string \<Rightarrow> rdata_error + string" where
  "NormalizeName name zone = bindE (NormalizeNameWithWarnings name zone) (\<lambda>(out, _). Inr out)"

subsection \<open>Host names\<close>

definition strictHost :: bool where "strictHost = False"
definition relaxedHost :: bool where "relaxedHost = True"

text \<open>Labels are split at dots that no backslash precedes.\<close>

fun splitLabels :: "string \<Rightarrow> string \<Rightarrow> string list" where
  "splitLabels b [] = [b]"
| "splitLabels b [c] = (if c = CHR ''.'' then [b, []] else [b @ [c]])"
| "splitLabels b (c # d # s) =
     (if c = bslash then splitLabels (b @ [c, d]) s
      else if c = CHR ''.'' then b # splitLabels [] (d # s)
      else splitLabels (b @ [c]) (d # s))"

definition splitDNSLabels :: "string \<Rightarrow> string list" where
  "splitDNSLabels name = splitLabels [] name"

fun checkLabelChars :: "string \<Rightarrow> string \<Rightarrow> bool \<Rightarrow> string \<Rightarrow> rdata_error option" where
  "checkLabelChars field whole underscores [] = None"
| "checkLabelChars field whole underscores (c # s) =
     (if c = bslash \<and> s \<noteq> [] then checkLabelChars field whole underscores (tl s)
      else if isLetter c \<or> is_digit c \<or> c = CHR ''-'' then checkLabelChars field whole underscores s
      else if c = CHR ''_'' \<and> underscores then checkLabelChars field whole underscores s
      else if c = CHR ''_'' then
        Some (fixf ''only CNAME, ALIAS, PTR and SRV targets may contain underscores''
          (field @ '' '' @ go_quote whole @ '' contains an underscore, which is not allowed in a host name''))
      else Some (errf (field @ '' '' @ go_quote whole @ '' contains an invalid character '' @ go_quote [c])))"

definition checkLabel :: "string \<Rightarrow> string \<Rightarrow> string \<Rightarrow> bool \<Rightarrow> rdata_error option" where
  "checkLabel field whole label underscores =
     (if label = [] then Some (errf (field @ '' '' @ go_quote whole @ '' has an empty label''))
      else if length label > 63 then Some (errf (field @ '' '' @ go_quote whole @ '' has a label longer than 63 characters''))
      else if hd label = CHR ''-'' \<or> last label = CHR ''-'' then
        Some (errf (field @ '' '' @ go_quote whole @ '' has a label that starts or ends with a hyphen''))
      else checkLabelChars field whole underscores label)"

definition checkHostname :: "string \<Rightarrow> string \<Rightarrow> bool \<Rightarrow> rdata_error option" where
  "checkHostname field h underscores =
     (if h = [] then Some (errf (field @ '' must not be empty''))
      else
        let name = TrimSuffix h ''.'' in
        if name = [] then Some (errf (field @ '' '' @ go_quote h @ '' is the DNS root, which is not a valid host name here''))
        else if length name > maxNameLength then
          Some (errf (field @ '' '' @ go_quote h @ '' is '' @ nat_str (length name) @ '' characters, the maximum is '' @ nat_str maxNameLength))
        else firstErr (map (\<lambda>label. checkLabel field h label underscores) (splitDNSLabels name)))"

definition requireFQDN :: "string \<Rightarrow> string \<Rightarrow> string \<Rightarrow> rdata_error option" where
  "requireFQDN field val zone =
     (if HasSuffix val ''.'' then None
      else
        let lead = ''targets are absolute, not zone-relative '' @ emDash @ '' '';
            fix = (if length (splitDNSLabels val) > 1 then lead @ ''did you mean '' @ quoteStr (val @ ''.'') @ ''?''
                   else if zone \<noteq> [] then
                     lead @ ''did you mean '' @ quoteStr (val @ ''.'' @ TrimSuffix (ToLower zone) ''.'' @ ''.'') @ ''?''
                   else lead @ ''add a trailing dot'') in
        Some (fixf fix (field @ '' '' @ go_quote val @ '' is not a fully qualified domain name'')))"

definition checkTargetHost :: "string \<Rightarrow> string \<Rightarrow> string \<Rightarrow> bool \<Rightarrow> bool \<Rightarrow> rdata_error option" where
  "checkTargetHost field val zone underscores allowRoot =
     (let v = TrimSpace val in
      if v = [] then Some (errf (field @ '' must not be empty''))
      else if v = ''@'' then
        Some (fixf (''write the target out in full, as in '' @ dq ''example.com.'')
          (field @ '' may not be '' @ go_quote v @ '' '' @ emDash @ '' the zone apex has no shorthand inside rdata''))
      else if v = ''.'' then (if allowRoot then None else Some (errf (field @ '' may not be the DNS root '' @ go_quote v)))
      else firstErr [checkHostname field v underscores, requireFQDN field v zone])"

subsection \<open>Entries\<close>

definition validateName :: "RRType \<Rightarrow> string \<Rightarrow> string \<Rightarrow> rdata_error option" where
  "validateName t name zone =
     (if name = [] then Some (fixf (''use '' @ dq ''@'' @ '' for the zone apex'') ''record name is empty'')
      else
        let checked =
          (if zone \<noteq> [] then
             (case NormalizeNameWithWarnings name zone of
                Inl e \<Rightarrow> Inl e
              | Inr (norm, warns) \<Rightarrow>
                  if warns \<noteq> [] then
                    Inl (fixf (''remove it, or use a name inside '' @ quoteStr (TrimSuffix (ToLower zone) ''.'') @ '' '' @ emDash
                        @ '' the DNS backend rejects the entire record set when one name is out of zone'')
                      (''record name '' @ go_quote name @ '' is outside zone '' @ go_quote zone))
                  else Inr (IsApex norm))
           else if \<not> namePattern name then Inl (errf (''record name '' @ go_quote name @ '' is not a valid owner name''))
           else if \<not> IsApex name then orFail (checkOwnerLabels name (TrimSuffix name ''.'')) False
           else Inr True) in
        case checked of
          Inl e \<Rightarrow> Some e
        | Inr apex \<Rightarrow>
            if t = RRTypeCNAME \<and> apex then
              Some (fixf ''use an ALIAS record, which resolves at the apex the way a CNAME cannot''
                ''a CNAME record may not exist at the zone apex'')
            else if t = RRTypeSOA \<and> \<not> apex then
              Some (fixf (''use '' @ dq ''@'' @ '' '' @ emDash @ '' a zone has exactly one SOA, at its apex'')
                (''an SOA record may not exist at '' @ go_quote name))
            else None)"

definition validateTTL :: "int option \<Rightarrow> rdata_error option" where
  "validateTTL ttl = (case ttl of None \<Rightarrow> None | Some n \<Rightarrow> checkTTLRange n (int_str n))"

definition validateTypedField :: "RRType \<Rightarrow> RecordEntry \<Rightarrow> rdata_error option" where
  "validateTypedField t e =
     (let set = setFields e; want = jsonFieldFor t in
      case set of
        [] \<Rightarrow> Some (fixf (''set the '' @ quoteStr want @ '' field, or change the record type to match the value you have'')
               (''record '' @ go_quote (re_name e) @ '' of type '' @ t @ '' has no '' @ t @ '' value''))
      | [f] \<Rightarrow>
          if f = want then None
          else
            let otherName = (case ParseRRType f of Inr other \<Rightarrow> other | Inl _ \<Rightarrow> f) in
            Some (fixf (''the value must match the record type '' @ emDash @ '' either write it as '' @ t
                @ '' data, or create it as a '' @ otherName @ '' record instead'')
              (''record '' @ go_quote (re_name e) @ '' of type '' @ t @ '' carries '' @ otherName
                @ '' data, which the DNS backend silently discards''))
      | _ \<Rightarrow> Some (fixf (''a record entry holds exactly one value '' @ emDash @ '' set only '' @ quoteStr want)
               (''record '' @ go_quote (re_name e) @ '' of type '' @ t @ '' sets '' @ nat_str (length set)
                 @ '' type-specific fields ('' @ Join set '', '' @ '')'')))"

definition maxTXTLength :: nat where "maxTXTLength = 2048"

definition validateTXT :: "string \<Rightarrow> rdata_error option" where
  "validateTXT raw =
     (let content = txtLogical raw in
      if content = [] then Some (errf ''TXT data must not be empty'')
      else if length content > maxTXTLength then
        Some (errf (''TXT data is '' @ nat_str (length content) @ '' bytes, the maximum is '' @ nat_str maxTXTLength))
      else None)"

definition validateCAA :: "CAARecordSpec \<Rightarrow> rdata_error option" where
  "validateCAA c =
     (if caa_tag c = [] then Some (errf ''CAA tag must not be empty'')
      else if \<not> list_all (\<lambda>x. CHR ''a'' \<le> x \<and> x \<le> CHR ''z'' \<or> is_digit x) (caa_tag c) then
        Some (fixf (''tags are lowercase letters and digits, usually '' @ dq ''issue'' @ '', '' @ dq ''issuewild'' @ '' or '' @ dq ''iodef'')
          (''CAA tag '' @ go_quote (caa_tag c) @ '' must match [a-z0-9]+''))
      else if TrimSpace (caa_value c) = [] then Some (errf ''CAA value must not be empty'')
      else if list_ex (\<lambda>x. x = dquote \<or> x = CHR 0x0A \<or> x = bslash) (caa_value c) then
        Some (errf (''CAA value '' @ go_quote (caa_value c) @ '' contains a quote, newline or backslash, which the DNS backend cannot encode''))
      else None)"

definition isHex :: "char \<Rightarrow> bool" where
  "isHex c \<longleftrightarrow> hexVal c \<noteq> None"

definition validateTLSA :: "TLSARecordSpec \<Rightarrow> rdata_error option" where
  "validateTLSA t =
     (if tlsa_usage t > 3 then
        Some (fixf ''usage is 0 (PKIX-TA), 1 (PKIX-EE), 2 (DANE-TA) or 3 (DANE-EE)''
          (''TLSA usage '' @ u_str (tlsa_usage t) @ '' is out of range''))
      else if tlsa_selector t > 1 then
        Some (fixf ''selector is 0 (full certificate) or 1 (subject public key info)''
          (''TLSA selector '' @ u_str (tlsa_selector t) @ '' is out of range''))
      else if tlsa_matchingType t > 2 then
        Some (fixf ''matching type is 0 (exact), 1 (SHA-256) or 2 (SHA-512)''
          (''TLSA matching type '' @ u_str (tlsa_matchingType t) @ '' is out of range''))
      else if tlsa_certData t = [] then Some (errf ''TLSA certificate data must not be empty'')
      else if \<not> list_all isHex (tlsa_certData t) then
        Some (errf (''TLSA certificate data '' @ go_quote (tlsa_certData t) @ '' is not hexadecimal''))
      else if length (tlsa_certData t) mod 2 \<noteq> 0 then
        Some (errf (''TLSA certificate data has an odd number of hex digits ('' @ nat_str (length (tlsa_certData t)) @ '')''))
      else if tlsa_matchingType t = 1 \<and> length (tlsa_certData t) \<noteq> 64 then
        Some (fixf ''a SHA-256 digest is 64 hex digits''
          (''TLSA matching type 1 needs a SHA-256 digest, got '' @ nat_str (length (tlsa_certData t)) @ '' hex digits''))
      else if tlsa_matchingType t = 2 \<and> length (tlsa_certData t) \<noteq> 128 then
        Some (fixf ''a SHA-512 digest is 128 hex digits''
          (''TLSA matching type 2 needs a SHA-512 digest, got '' @ nat_str (length (tlsa_certData t)) @ '' hex digits''))
      else None)"

definition validateParam :: "RRType \<Rightarrow> (string \<times> string) list \<Rightarrow> string \<Rightarrow> rdata_error option" where
  "validateParam t m k =
     (if k \<noteq> ToLower k then Some (errf (t @ '' parameter key '' @ go_quote k @ '' must be lowercase''))
      else
        let v = paramOf m k in
        if list_ex (\<lambda>c. c = CHR '' '' \<or> c = CHR 0x09 \<or> c = CHR 0x0A) v then
          Some (fixf (''parameter values are written without spaces, as in '' @ dq ''alpn=h3,h2'')
            (t @ '' parameter '' @ go_quote k @ '' has a value containing whitespace''))
        else if k \<notin> set paramFlagKeys \<and> TrimSpace v = [] then
          Some (fixf (''write it as '' @ quoteStr (k @ ''=value'') @ '', or drop it'')
            (t @ '' parameter '' @ go_quote k @ '' has no value''))
        else None)"

definition validateSVCB :: "RRType \<Rightarrow> HTTPSRecordSpec \<Rightarrow> string \<Rightarrow> rdata_error option" where
  "validateSVCB t s zone =
     (let target = TrimSpace (https_target s) in
      if target = [] then
        Some (fixf (''use '' @ dq ''.'' @ '' for service mode at this owner name, or a fully qualified target'') (t @ '' target must not be empty''))
      else
        let hostErr = (if target \<noteq> ''.'' then
              firstErr [checkHostname (t @ '' target'') target relaxedHost, requireFQDN (t @ '' target'') target zone] else None) in
        if hostErr \<noteq> None then hostErr
        else if https_priority s = 0 then
          (if target = ''.'' then
             Some (fixf ''give the alias target, or use a priority of 1 or more for service mode''
               (t @ '' priority 0 selects alias mode, which needs a real target rather than '' @ go_quote ''.''))
           else if length (https_params s) > 0 then
             Some (fixf ''drop the parameters, or use a priority of 1 or more for service mode''
               (t @ '' priority 0 selects alias mode, which carries no parameters '' @ emDash @ '' ''
                 @ Join (sortedKeys (https_params s)) '', '' @ '' would be discarded''))
           else None)
        else firstErr (map (validateParam t (https_params s)) (sortedKeys (https_params s))))"

definition validateSOA :: "SOARecordSpec \<Rightarrow> string \<Rightarrow> rdata_error option" where
  "validateSOA s zone =
     (case checkTargetHost ''SOA mname'' (soa_mname s) zone strictHost False of
        Some e \<Rightarrow> Some e
      | None \<Rightarrow>
          let rname = TrimSpace (soa_rname s) in
          if rname = [] then Some (errf ''SOA rname must not be empty'')
          else if CHR ''@'' \<in> set rname then
            Some (fixf (''write the address in dot notation '' @ emDash @ '' '' @ dq ''admin@example.com'' @ '' becomes '' @ dq ''admin.example.com.'')
              (''SOA rname '' @ go_quote (soa_rname s) @ '' contains '' @ dq ''@''))
          else
            (case checkHostname ''SOA rname'' rname relaxedHost of
               Some e \<Rightarrow> Some e
             | None \<Rightarrow>
                 if length (splitDNSLabels (TrimSuffix rname ''.'')) < 3 then
                   Some (fixf (''it is a mailbox in dot notation, as in '' @ dq ''hostmaster.example.com.'')
                     (''SOA rname '' @ go_quote (soa_rname s) @ '' is not a mailbox address''))
                 else requireFQDN ''SOA rname'' rname zone))"

definition validateMX :: "MXRecordSpec \<Rightarrow> string \<Rightarrow> rdata_error option" where
  "validateMX mx zone =
     (if TrimSpace (mx_exchange mx) = ''.'' then
        (if mx_preference mx \<noteq> 0 then
           Some (fixf (''a null MX is written '' @ dq ''0 .'')
             (''MX exchange '' @ dq ''.'' @ '' declares that the domain accepts no mail, so its preference must be 0, not ''
               @ u_str (mx_preference mx)))
         else None)
      else checkTargetHost ''MX exchange'' (mx_exchange mx) zone strictHost False)"

text \<open>The field of the type is set by then: \<open>validateTypedField\<close> comes first.\<close>

definition validated :: "('a \<Rightarrow> rdata_error option) \<Rightarrow> 'a option \<Rightarrow> rdata_error option" where
  "validated f v = (case v of None \<Rightarrow> None | Some x \<Rightarrow> f x)"

definition validateValue :: "RRType \<Rightarrow> RecordEntry \<Rightarrow> string \<Rightarrow> rdata_error option" where
  "validateValue t e zone =
     (if t = RRTypeA then validated (\<lambda>c. checkIPv4 (TrimSpace c)) (re_A e)
      else if t = RRTypeAAAA then validated (\<lambda>c. checkIPv6 (TrimSpace c)) (re_AAAA e)
      else if t = RRTypeCNAME then validated (\<lambda>c. checkTargetHost ''CNAME target'' c zone relaxedHost False) (re_CNAME e)
      else if t = RRTypeALIAS then validated (\<lambda>c. checkTargetHost ''ALIAS target'' c zone relaxedHost False) (re_ALIAS e)
      else if t = RRTypeNS then validated (\<lambda>c. checkTargetHost ''NS content'' c zone strictHost False) (re_NS e)
      else if t = RRTypePTR then validated (\<lambda>c. checkTargetHost ''PTR content'' c zone relaxedHost False) (re_PTR e)
      else if t = RRTypeTXT then validated validateTXT (re_TXT e)
      else if t = RRTypeMX then validated (\<lambda>mx. validateMX mx zone) (re_MX e)
      else if t = RRTypeSRV then validated (\<lambda>s. checkTargetHost ''SRV target'' (srv_target s) zone relaxedHost True) (re_SRV e)
      else if t = RRTypeCAA then validated validateCAA (re_CAA e)
      else if t = RRTypeTLSA then validated validateTLSA (re_TLSA e)
      else if t = RRTypeHTTPS then validated (\<lambda>s. validateSVCB t s zone) (re_HTTPS e)
      else if t = RRTypeSVCB then validated (\<lambda>s. validateSVCB t s zone) (re_SVCB e)
      else if t = RRTypeSOA then validated (\<lambda>s. validateSOA s zone) (re_SOA e)
      else None)"

definition ValidateInZone :: "RRType \<Rightarrow> RecordEntry \<Rightarrow> string \<Rightarrow> rdata_error option" where
  "ValidateInZone t e zone =
     (case ParseRRType t of
        Inl err \<Rightarrow> Some err
      | Inr _ \<Rightarrow>
          firstErr [validateName t (re_name e) zone, validateTTL (re_ttl e), validateTypedField t e, validateValue t e zone])"

definition Validate :: "RRType \<Rightarrow> RecordEntry \<Rightarrow> rdata_error option" where
  "Validate t e = ValidateInZone t e []"

subsection \<open>Record sets\<close>

text \<open>The state of an owner: how many values it has, and their identities.\<close>

type_synonym owner_states = "(string \<times> nat \<times> string list) list"

definition singleValuedFix :: "RRType \<Rightarrow> string" where
  "singleValuedFix t =
     (if t = RRTypeCNAME then ''a name may have exactly one CNAME (RFC 1034) '' @ emDash @ '' use several A or ALIAS records instead''
      else if t = RRTypeSOA then ''keep one value '' @ emDash @ '' the DNS backend writes the last and discards the rest''
      else ''keep one value '' @ emDash @ '' the DNS backend writes the first and discards the rest'')"

fun checkOwners :: "string \<Rightarrow> RRType \<Rightarrow> string \<Rightarrow> owner_states \<Rightarrow> RecordEntry list \<Rightarrow> rdata_error option" where
  "checkOwners today t zone owners [] = None"
| "checkOwners today t zone owners (e # es) =
     (let owner = FQDN (re_name e) zone;
          (count, seen) = (case map_of owners owner of Some st \<Rightarrow> st | None \<Rightarrow> (0, []));
          count = count + 1; k = Key t e in
      if IsSingleValued t \<and> count > 1 then
        Some (fixf (singleValuedFix t)
          (t @ '' record '' @ go_quote (re_name e) @ '' has '' @ nat_str count @ '' values but is single-valued''))
      else if k \<in> set seen then
        Some (fixf (''remove the duplicate '' @ emDash @ '' PowerDNS rejects the whole record set when a value repeats'')
          (t @ '' record '' @ go_quote (re_name e) @ '' has a duplicate value '' @ go_quote (Render today t e)))
      else checkOwners today t zone (AList.update owner (count, k # seen) owners) es)"

definition ValidateEntriesInZone :: "string \<Rightarrow> RRType \<Rightarrow> RecordEntry list \<Rightarrow> string \<Rightarrow> rdata_error option" where
  "ValidateEntriesInZone today t entries zone =
     (if entries = [] then Some (errf (''a '' @ t @ '' record set needs at least one value''))
      else
        (case firstErr (map (\<lambda>e. ValidateInZone t e zone) entries) of
           Some e \<Rightarrow> Some e
         | None \<Rightarrow> checkOwners today t zone [] entries))"

definition ValidateEntries :: "string \<Rightarrow> RRType \<Rightarrow> RecordEntry list \<Rightarrow> rdata_error option" where
  "ValidateEntries today t entries = ValidateEntriesInZone today t entries []"

subsection \<open>Warnings\<close>

definition knownCAATags :: "string list" where
  "knownCAATags = [''issue'', ''issuewild'', ''iodef'', ''issuemail'', ''contactemail'', ''contactphone'']"

definition knownSVCBKeys :: "string list" where
  "knownSVCBKeys = [''mandatory'', ''alpn'', ''no-default-alpn'', ''port'', ''ipv4hint'', ''ech'', ''ipv6hint'',
     ''dohpath'', ''ohttp'', ''esnikeys'']"

definition svcbGenericKey :: "string \<Rightarrow> bool" where
  "svcbGenericKey k \<longleftrightarrow> HasPrefix k ''key'' \<and> list_all is_digit (drop 3 k) \<and> 1 \<le> length k - 3 \<and> length k - 3 \<le> 5"

definition caaWarnings :: "CAARecordSpec \<Rightarrow> string list" where
  "caaWarnings c =
     (if caa_tag c \<notin> set knownCAATags then
        [''CAA tag '' @ go_quote (caa_tag c)
          @ '' is not one of the tags defined by RFC 8659/8657 (issue, issuewild, iodef, issuemail, contactemail, contactphone)'']
      else [])
     @ (if caa_flag c \<noteq> 0 \<and> caa_flag c \<noteq> 128 then
          [''CAA flag '' @ u_str (caa_flag c) @ '' is unusual '' @ emDash @ '' 0 (non-critical) and 128 (critical) are the defined values'']
        else [])"

definition svcbWarnings :: "RRType \<Rightarrow> HTTPSRecordSpec \<Rightarrow> string list" where
  "svcbWarnings t s =
     map (\<lambda>k. t @ '' parameter '' @ go_quote k @ '' is not a registered service parameter key'')
       (filter (\<lambda>k. k \<notin> set knownSVCBKeys \<and> \<not> svcbGenericKey k) (sortedKeys (https_params s)))"

definition soaTimerWarning :: "string \<Rightarrow> 32 word \<Rightarrow> 32 word \<Rightarrow> string list" where
  "soaTimerWarning name v low =
     (if v \<noteq> 0 \<and> v < low then
        [''SOA '' @ name @ '' '' @ u_str v @ '' is below the recommended minimum of '' @ u_str low @ '' seconds'']
      else [])"

definition soaWarnings :: "SOARecordSpec \<Rightarrow> string list" where
  "soaWarnings s = soaTimerWarning ''refresh'' (soa_refresh s) 1200 @ soaTimerWarning ''retry'' (soa_retry s) 600
     @ soaTimerWarning ''expire'' (soa_expire s) 604800"

definition isControl :: "char \<Rightarrow> bool" where
  "isControl c \<longleftrightarrow> (of_char c :: nat) < 32 \<or> of_char c = (127::nat)"

definition txtWarnings :: "string \<Rightarrow> string list" where
  "txtWarnings content =
     (let data = txtLogical content; i = length (takeWhile (\<lambda>c. \<not> isControl c) data) in
      if i < length data then
        [''TXT data contains a control character at byte '' @ nat_str i @ '' '' @ emDash @ '' it is written as a ''
          @ [bslash] @ ''DDD escape and round-trips, but a newline here is usually a paste accident'']
      else [])"

definition entryWarnings :: "RRType \<Rightarrow> RecordEntry \<Rightarrow> string list" where
  "entryWarnings t e =
     (let missing = (t = RRTypeCAA \<and> re_CAA e = None \<or> t = RRTypeHTTPS \<and> re_HTTPS e = None
            \<or> t = RRTypeSVCB \<and> re_SVCB e = None \<or> t = RRTypeSOA \<and> re_SOA e = None) in
      if missing then []
      else
        (if t = RRTypeCAA then (case re_CAA e of Some c \<Rightarrow> caaWarnings c | None \<Rightarrow> [])
         else if t = RRTypeSRV then
           (case re_SRV e of Some s \<Rightarrow> if srv_port s = 0 then [''SRV port 0 is reserved '' @ emDash @ '' set the port the service listens on''] else [] | None \<Rightarrow> [])
         else if t = RRTypeHTTPS then (case re_HTTPS e of Some s \<Rightarrow> svcbWarnings t s | None \<Rightarrow> [])
         else if t = RRTypeSVCB then (case re_SVCB e of Some s \<Rightarrow> svcbWarnings t s | None \<Rightarrow> [])
         else if t = RRTypeSOA then (case re_SOA e of Some s \<Rightarrow> soaWarnings s | None \<Rightarrow> [])
         else [])
        @ (if t = RRTypeTXT then (case re_TXT e of Some c \<Rightarrow> txtWarnings c | None \<Rightarrow> []) else [])
        @ (if re_ttl e = Some 0 then [''TTL 0 disables caching entirely, which most resolvers treat as a very short TTL''] else []))"

text \<open>Per owner, the first TTL and whether its disagreement was reported.\<close>

fun ttlWarnings :: "string \<Rightarrow> (string \<times> int option \<times> bool) list \<Rightarrow> RecordEntry list \<Rightarrow> string list" where
  "ttlWarnings zone owners [] = []"
| "ttlWarnings zone owners (e # es) =
     (let owner = FQDN (re_name e) zone in
      case map_of owners owner of
        None \<Rightarrow> ttlWarnings zone ((owner, re_ttl e, False) # owners) es
      | Some (first, warned) \<Rightarrow>
          if \<not> warned \<and> FormatTTL first \<noteq> FormatTTL (re_ttl e) then
            (''values for '' @ go_quote (re_name e) @ '' disagree on TTL ('' @ FormatTTL first @ '' and '' @ FormatTTL (re_ttl e)
               @ '') '' @ emDash @ '' the DNS backend applies the first one, '' @ FormatTTL first @ '', to the whole record set'')
            # ttlWarnings zone (AList.update owner (first, True) owners) es
          else ttlWarnings zone owners es)"

definition WarningsInZone :: "RRType \<Rightarrow> string \<Rightarrow> RecordEntry list \<Rightarrow> string list" where
  "WarningsInZone t zone entries =
     concat (map (entryWarnings t) entries) @ (if length entries > 1 then ttlWarnings zone [] entries else [])"

section \<open>What is shown is what is written\<close>

subsection \<open>Quoting\<close>

text \<open>Bytes that the two ways of quoting treat alike.\<close>

definition plainChar :: "char \<Rightarrow> bool" where
  "plainChar c \<longleftrightarrow> c \<noteq> dquote \<and> c \<noteq> bslash \<and> \<not> isControl c"

lemma escape_plain: "list_all plainChar s \<Longrightarrow> prev \<noteq> Some bslash \<Longrightarrow> escape_from prev s = concat (map quoteTXT_char s)"
proof (induction s arbitrary: prev)
  case (Cons c s)
  from Cons.prems have c: "c \<noteq> dquote" "c \<noteq> bslash" "\<not> isControl c" by (auto simp: plainChar_def)
  have q: "quoteTXT_char c = (if c = CHR '';'' then [bslash, c] else [c])"
    using c by (auto simp: quoteTXT_char_def isControl_def Let_def)
  have "escape_from (Some c) s = concat (map quoteTXT_char s)" using Cons c by auto
  then show ?case using Cons.prems(2) q by auto
qed simp

lemma quoteTXT_plain: "list_all plainChar s \<Longrightarrow> quoteIfNeeded s = quoteTXT s"
proof -
  assume a: "list_all plainChar s"
  then have "\<not> (2 \<le> length s \<and> hd s = dquote \<and> last s = dquote)"
    by (cases s) (auto simp: plainChar_def)
  then have "quoteIfNeeded s = dquote # escapeTXTContent s @ [dquote]" unfolding quoteIfNeeded_def by (rule if_not_P)
  then show ?thesis using escape_plain [OF a, of None] by (simp add: quoteTXT_def escapeTXTContent_def)
qed

lemma qualify_eq: "qualify s = qualifyIfNeeded (TrimSpace s)"
  by (simp add: qualify_def qualifyIfNeeded_def Let_def HasSuffix_last)

subsection \<open>Parameters\<close>

lemma paramKeyRank_eq: "paramKeyRank = svcbKeyRank"
  by (rule ext) (simp add: paramKeyRank_def svcbKeyRank_def)

lemma insert_rank_ordered:
  assumes "svcb.ordered L" and "\<forall>y \<in> set L. x \<le> y"
  shows "svcb.ordered (insert_by (\<lambda>a b. svcbKeyRank a < svcbKeyRank b) x L)"
  using assms
proof (induction L)
  case (Cons y L)
  show ?case
  proof (cases "svcbKeyRank y < svcbKeyRank x")
    case True
    have "set (insert_by (\<lambda>a b. svcbKeyRank a < svcbKeyRank b) x L) = insert x (set L)"
      by (metis mset_insert_by set_mset_add_mset_insert set_mset_mset)
    moreover have "\<not> svcbKeyLess x y" using True by (simp add: svcbKeyLess_def)
    moreover have "svcb.ordered (insert_by (\<lambda>a b. svcbKeyRank a < svcbKeyRank b) x L)" using Cons by simp
    ultimately show ?thesis using Cons.prems(1) True by simp
  next
    case False
    have yx: "\<not> svcbKeyLess y x" using False Cons.prems(2) by (simp add: svcbKeyLess_def not_less)
    have "\<not> svcbKeyLess z x" if "z \<in> set L" for z
    proof -
      have "\<not> svcbKeyLess z y" using Cons.prems(1) that by simp
      then have "svcbKeyRank y \<le> svcbKeyRank z" by (auto simp: svcbKeyLess_def split: if_splits)
      moreover have "x \<le> z" using Cons.prems(2) that by simp
      ultimately show ?thesis using False by (simp add: svcbKeyLess_def not_less)
    qed
    with yx False Cons.prems(1) show ?thesis by simp
  qed
qed simp

lemma rank_sort_ordered: "sorted xs \<Longrightarrow> svcb.ordered (go_sort (\<lambda>a b. svcbKeyRank a < svcbKeyRank b) xs)"
proof (induction xs)
  case (Cons x xs)
  then have "svcb.ordered (go_sort (\<lambda>a b. svcbKeyRank a < svcbKeyRank b) xs)"
    and "\<forall>y \<in> set (go_sort (\<lambda>a b. svcbKeyRank a < svcbKeyRank b) xs). x \<le> y" by auto
  from insert_rank_ordered [OF this] show ?case by (simp add: go_sort_def)
qed simp

lemma param_order:
  "go_sort (\<lambda>a b. paramKeyRank a < paramKeyRank b) (sortedKeys m) = go_sort svcbKeyLess (map fst m)"
proof (rule svcb.go_sort_unique [symmetric])
  show "svcb.ordered (go_sort (\<lambda>a b. paramKeyRank a < paramKeyRank b) (sortedKeys m))"
    unfolding paramKeyRank_eq sortedKeys_def by (rule rank_sort_ordered) (rule sorted_sort_strings)
  show "mset (go_sort (\<lambda>a b. paramKeyRank a < paramKeyRank b) (sortedKeys m)) = mset (map fst m)"
    by (simp add: sortedKeys_def sort_strings_def)
  show "x = y" if "\<not> svcbKeyLess x y" "\<not> svcbKeyLess y x" for x y using that svcbKeyLess_total by blast
qed

definition plainParams :: "(string \<times> string) list \<Rightarrow> bool" where
  "plainParams m \<longleftrightarrow> list_all (\<lambda>(k, v). list_all plainChar v) m"

lemma set_TrimSpace: "set (TrimSpace s) \<subseteq> set s"
  unfolding TrimSpace_def by (auto dest!: set_dropWhileD)

lemma renderParam_eq: "plainParams m \<Longrightarrow> renderParam m = svcbPart m"
proof (rule ext)
  fix k
  assume "plainParams m"
  then have "list_all plainChar (paramOf m k)"
    by (cases "map_of m k") (auto simp: plainParams_def paramOf_def list_all_iff dest!: map_of_SomeD)
  then have "list_all plainChar (TrimSpace (paramOf m k))" using set_TrimSpace by (auto simp: list_all_iff)
  then show "renderParam m k = svcbPart m k"
    by (simp add: renderParam_def svcbPart_def paramOf_def [symmetric] paramFlagKeys_def svcbFlagKeys_def
        paramUnquotedCSV_def svcbUnquotedCSV_def quoteTXT_plain Let_def)
qed

lemma renderSVCB_eq:
  "plainParams (https_params s) \<Longrightarrow> renderSVCB s = encodeSvcbLine (https_priority s) (https_target s) (https_params s)"
  by (simp add: renderSVCB_def encodeSvcbLine_def renderSVCBParams_def encodeSvcbParams_def param_order
      renderParam_eq u_str_def qualify_eq Let_def)

subsection \<open>Entries\<close>

lemma firstErr_None [simp]: "firstErr es = None \<longleftrightarrow> (\<forall>e \<in> set es. e = None)"
  by (induction es) (auto split: option.splits)

lemma checkTargetHost_nonempty: "checkTargetHost field val zone u r = None \<Longrightarrow> TrimSpace val \<noteq> []"
  by (auto simp: checkTargetHost_def Let_def)

lemma ParseAddr_Nil [simp]: "ParseAddr [] = None" by (simp add: ParseAddr_def)

lemma checkIP_nonempty: "checkIPv4 v = None \<or> checkIPv6 v = None \<Longrightarrow> v \<noteq> []"
  by (auto simp: checkIPv4_def checkIPv6_def)

lemma setFields_iff: "f \<in> set (setFields e) \<longleftrightarrow> (\<exists>(t, json, isSet) \<in> set allFields. json = f \<and> isSet e)"
  by (force simp: setFields_def)

lemma typed_field:
  assumes "validateTypedField t e = None"
  shows "jsonFieldFor t \<in> set (setFields e)"
  using assms by (auto simp: validateTypedField_def Let_def split: list.splits if_splits)

text \<open>Whether the two ways of quoting agree on the value; all other types need no quoting.\<close>

definition plainValue :: "RRType \<Rightarrow> RecordEntry \<Rightarrow> bool" where
  "plainValue t e \<longleftrightarrow>
     (t = RRTypeCAA \<longrightarrow> (case re_CAA e of Some c \<Rightarrow> list_all (\<lambda>x. \<not> isControl x) (caa_value c) | None \<Rightarrow> True))
     \<and> (t = RRTypeHTTPS \<longrightarrow> (case re_HTTPS e of Some s \<Rightarrow> plainParams (https_params s) | None \<Rightarrow> True))
     \<and> (t = RRTypeSVCB \<longrightarrow> (case re_SVCB e of Some s \<Rightarrow> plainParams (https_params s) | None \<Rightarrow> True))"

lemma validateCAA_plain:
  assumes "validateCAA c = None" and "list_all (\<lambda>x. \<not> isControl x) (caa_value c)"
  shows "quoteIfNeeded (caa_value c) = quoteTXT (caa_value c)"
proof (rule quoteTXT_plain)
  from assms show "list_all plainChar (caa_value c)"
    by (auto simp: validateCAA_def list_all_iff list_ex_iff plainChar_def split: if_splits)
qed

lemma renderSOA_eq: "renderSOA today s = soaLine today s"
  by (simp add: renderSOA_def soaLine_def renderSerial_def qualify_eq effective_def orDefault_def soaDefaultRefresh_def
      soaDefaultRetry_def soaDefaultExpire_def soaDefaultMinimum_def Let_def)

lemma TrimSpace_renderTXT [simp]: "TrimSpace (renderTXT s) = renderTXT s"
proof -
  have e: "renderTXT s \<noteq> []" "hd (renderTXT s) = dquote" "last (renderTXT s) = dquote"
    using Join_quoteTXT_ends [of "chunk255 (txtLogical s)"] by (auto simp: renderTXT_def)
  have ns: "\<not> is_space dquote" by (simp add: is_space_def)
  have id: "xs \<noteq> [] \<Longrightarrow> \<not> is_space (hd xs) \<Longrightarrow> dropWhile is_space xs = xs" for xs by (cases xs) auto
  have "dropWhile is_space (renderTXT s) = renderTXT s" using e ns by (intro id) auto
  moreover have "dropWhile is_space (rev (renderTXT s)) = rev (renderTXT s)" using e ns by (intro id) (auto simp: hd_rev)
  ultimately show ?thesis by (simp add: TrimSpace_def)
qed

lemmas entry_defs = appendRecord_def Render_def validateValue_def rendered_def validated_def addNonEmpty_def addSingle_def
  addLine_def EntryForAPI_def qualify_eq Let_def

lemma field_set:
  "validateTypedField RRTypeA e = None \<Longrightarrow> \<exists>x. re_A e = Some x"
  "validateTypedField RRTypeAAAA e = None \<Longrightarrow> \<exists>x. re_AAAA e = Some x"
  "validateTypedField RRTypeALIAS e = None \<Longrightarrow> \<exists>x. re_ALIAS e = Some x"
  "validateTypedField RRTypeCNAME e = None \<Longrightarrow> \<exists>x. re_CNAME e = Some x"
  "validateTypedField RRTypeTXT e = None \<Longrightarrow> \<exists>x. re_TXT e = Some x"
  "validateTypedField RRTypeMX e = None \<Longrightarrow> \<exists>x. re_MX e = Some x"
  "validateTypedField RRTypeSRV e = None \<Longrightarrow> \<exists>x. re_SRV e = Some x"
  "validateTypedField RRTypeCAA e = None \<Longrightarrow> \<exists>x. re_CAA e = Some x"
  "validateTypedField RRTypeNS e = None \<Longrightarrow> \<exists>x. re_NS e = Some x"
  "validateTypedField RRTypeSOA e = None \<Longrightarrow> \<exists>x. re_SOA e = Some x"
  "validateTypedField RRTypePTR e = None \<Longrightarrow> \<exists>x. re_PTR e = Some x"
  "validateTypedField RRTypeTLSA e = None \<Longrightarrow> \<exists>x. re_TLSA e = Some x"
  "validateTypedField RRTypeHTTPS e = None \<Longrightarrow> \<exists>x. re_HTTPS e = Some x"
  "validateTypedField RRTypeSVCB e = None \<Longrightarrow> \<exists>x. re_SVCB e = Some x"
  using typed_field [of _ e] by (auto simp: setFields_iff allFields_def jsonFieldFor_def dest!: typed_field)

lemma valid_entry_written:
  assumes sup: "t \<in> set supportedTypes" and valid: "ValidateInZone t e zone = None" and plain: "plainValue t e"
  shows "appendRecord today t (EntryForAPI t e) [] = [mkRecord (Render today t e)]"
proof -
  from valid have field: "validateTypedField t e = None" and val: "validateValue t e zone = None"
    by (auto simp: ValidateInZone_def split: sum.splits simp del: firstErr.simps)
  consider "t = RRTypeA" | "t = RRTypeAAAA" | "t = RRTypeALIAS" | "t = RRTypeCNAME" | "t = RRTypeTXT" | "t = RRTypeMX"
    | "t = RRTypeSRV" | "t = RRTypeCAA" | "t = RRTypeNS" | "t = RRTypeSOA" | "t = RRTypePTR" | "t = RRTypeTLSA"
    | "t = RRTypeHTTPS" | "t = RRTypeSVCB"
    using sup unfolding supportedTypes_def list.set insert_iff empty_iff by satx
  then show ?thesis
  proof cases
    case 1
    with field field_set(1) [of e] obtain x where x: "re_A e = Some x" by auto
    with 1 val checkIP_nonempty [of "TrimSpace x"] show ?thesis by (simp add: entry_defs)
  next
    case 2
    with field field_set(2) [of e] obtain x where x: "re_AAAA e = Some x" by auto
    with 2 val checkIP_nonempty [of "TrimSpace x"] show ?thesis by (simp add: entry_defs)
  next
    case 3
    with field field_set(3) [of e] obtain x where x: "re_ALIAS e = Some x" by auto
    with 3 val checkTargetHost_nonempty have "TrimSpace x \<noteq> []" by (auto simp: validateValue_def validated_def)
    with 3 x show ?thesis by (simp add: entry_defs qualifyIfNeeded_def)
  next
    case 4
    with field field_set(4) [of e] obtain x where x: "re_CNAME e = Some x" by auto
    with 4 val checkTargetHost_nonempty have "TrimSpace x \<noteq> []" by (auto simp: validateValue_def validated_def)
    with 4 x show ?thesis by (simp add: entry_defs qualifyIfNeeded_def)
  next
    case 5
    with field field_set(5) [of e] obtain x where x: "re_TXT e = Some x" by auto
    have "renderTXT x \<noteq> []" using Join_quoteTXT_ends [of "chunk255 (txtLogical x)"] by (auto simp: renderTXT_def)
    moreover have "quoteIfNeeded (renderTXT x) = renderTXT x"
      using Join_quoteTXT_ends [of "chunk255 (txtLogical x)"] by (simp add: quoteIfNeeded_def renderTXT_def)
    ultimately show ?thesis using 5 x by (simp add: entry_defs TXTContentForAPI_def)
  next
    case 6
    with field field_set(6) [of e] obtain x where x: "re_MX e = Some x" by auto
    with 6 val have "validateMX x zone = None" by (simp add: validateValue_def validated_def)
    then have "TrimSpace (mx_exchange x) \<noteq> []"
      using checkTargetHost_nonempty by (auto simp: validateMX_def split: if_splits)
    with 6 x show ?thesis by (simp add: entry_defs)
  next
    case 7
    with field field_set(7) [of e] obtain x where x: "re_SRV e = Some x" by auto
    with 7 val checkTargetHost_nonempty have "TrimSpace (srv_target x) \<noteq> []" by (auto simp: validateValue_def validated_def)
    with 7 x show ?thesis by (simp add: entry_defs srvLine_def)
  next
    case 8
    with field field_set(8) [of e] obtain x where x: "re_CAA e = Some x" by auto
    with 8 val plain have "quoteIfNeeded (caa_value x) = quoteTXT (caa_value x)"
      by (intro validateCAA_plain) (simp_all add: validateValue_def validated_def plainValue_def)
    with 8 x show ?thesis by (simp add: entry_defs caaLine_def)
  next
    case 9
    with field field_set(9) [of e] obtain x where x: "re_NS e = Some x" by auto
    with 9 val checkTargetHost_nonempty have "TrimSpace x \<noteq> []" by (auto simp: validateValue_def validated_def)
    with 9 x show ?thesis by (simp add: entry_defs)
  next
    case 10
    with field field_set(10) [of e] obtain x where x: "re_SOA e = Some x" by auto
    with 10 show ?thesis by (simp add: entry_defs renderSOA_eq)
  next
    case 11
    with field field_set(11) [of e] obtain x where x: "re_PTR e = Some x" by auto
    with 11 val checkTargetHost_nonempty have "TrimSpace x \<noteq> []" by (auto simp: validateValue_def validated_def)
    with 11 x show ?thesis by (simp add: entry_defs)
  next
    case 12
    with field field_set(12) [of e] obtain x where x: "re_TLSA e = Some x" by auto
    with 12 show ?thesis by (simp add: entry_defs tlsaLine_def)
  next
    case 13
    with field field_set(13) [of e] obtain x where x: "re_HTTPS e = Some x" by auto
    with 13 plain have "plainParams (https_params x)" by (simp add: plainValue_def)
    with 13 x show ?thesis by (simp add: entry_defs renderSVCB_eq)
  next
    case 14
    with field field_set(14) [of e] obtain x where x: "re_SVCB e = Some x" by auto
    with 14 plain have "plainParams (https_params x)" by (simp add: plainValue_def)
    with 14 x show ?thesis by (simp add: entry_defs renderSVCB_eq)
  qed
qed

subsection \<open>Record sets\<close>

text \<open>A zone and a name as the API stores them: no spaces around, no dot after the zone.\<close>

definition apiZone :: "string \<Rightarrow> bool" where
  "apiZone zone \<longleftrightarrow> zone \<noteq> [] \<and> TrimSpace zone = zone \<and> \<not> HasSuffix zone ''.''"

lemma FQDN_Qualify:
  assumes "apiZone zone" and "TrimSpace name = name"
  shows "FQDN name zone = Qualify name zone"
proof -
  have "\<not> HasSuffix (ToLower zone) ''.''" using assms(1) by (auto simp: apiZone_def HasSuffix_last)
  then have "TrimSuffix (ToLower zone) ''.'' = ToLower zone" by (simp add: TrimSuffix_def)
  with assms show ?thesis
    by (auto simp: FQDN_def Qualify_def IsApex_def apiZone_def HasSuffix_last Let_def)
qed

lemma checkOwners_single:
  assumes "checkOwners today t zone owners es = None" and "IsSingleValued t"
  shows "distinct (map (\<lambda>e. FQDN (re_name e) zone) es)
    \<and> (\<forall>e \<in> set es. \<forall>count seen. map_of owners (FQDN (re_name e) zone) = Some (count, seen) \<longrightarrow> count = 0)"
  using assms
proof (induction es arbitrary: owners)
  case (Cons e es)
  let ?owner = "FQDN (re_name e) zone"
  obtain count seen where st: "(case map_of owners ?owner of Some st \<Rightarrow> st | None \<Rightarrow> (0, [])) = (count, seen)" by fastforce
  with Cons.prems have zero: "count = 0"
    and rest: "checkOwners today t zone (AList.update ?owner (1, Key t e # seen) owners) es = None"
    by (auto simp: Let_def split: if_splits)
  from Cons.IH [OF rest Cons.prems(2)] have d: "distinct (map (\<lambda>e. FQDN (re_name e) zone) es)"
    and z: "\<And>x c s. x \<in> set es \<Longrightarrow> map_of (AList.update ?owner (1, Key t e # seen) owners) (FQDN (re_name x) zone) = Some (c, s) \<Longrightarrow> c = 0"
    by auto
  have fresh: "FQDN (re_name x) zone \<noteq> ?owner" if "x \<in> set es" for x
    using z [OF that, of 1] by (auto simp: map_of_update)
  have "c = 0" if "x \<in> set (e # es)" "map_of owners (FQDN (re_name x) zone) = Some (c, s)" for x c s
  proof (cases "x = e")
    case True
    with that st zero show ?thesis by simp
  next
    case False
    with that have "x \<in> set es" by simp
    with that z [OF this] fresh [OF this] show ?thesis by (simp add: map_of_update)
  qed
  then show ?case using d fresh [THEN not_sym] by (auto simp del: not_None_eq)
qed simp

lemma emptyEntry_name [simp]: "re_name (emptyEntry n) = n"
  by (simp add: emptyEntry_def)

lemma EntryForAPI_name [simp]: "re_name (EntryForAPI t e) = re_name e"
  by (simp add: EntryForAPI_def)

lemma entriesAt_map: "entriesAt zone name (map (EntryForAPI t) es) = map (EntryForAPI t) (entriesAt zone name es)"
  by (simp add: entriesAt_def filter_map o_def)

lemma set_dedupeRecords:
  assumes "inj_on rec_content (set rs)"
  shows "set (dedupeRecords rs) = set rs"
proof -
  have "rec_content ` set (first_seen rec_content [] rs) = rec_content ` set rs"
    by (simp add: first_seen_map flip: set_map)
  then have "set (first_seen rec_content [] rs) = set rs"
    by (rule inj_on_image_eq_iff [OF assms set_first_seen subset_refl, THEN iffD1])
  then show ?thesis by (simp add: dedupeRecords_eq)
qed

lemma single_types: "IsSingleValued t \<longleftrightarrow> singleValued t"
  by (simp add: IsSingleValued_def singleValued_def)

lemma valid_records:
  assumes sup: "t \<in> set supportedTypes" and es: "\<forall>e \<in> set es. ValidateInZone t e zone = None \<and> plainValue t e"
    and one: "singleValued t \<longrightarrow> length es \<le> 1"
  shows "set (recordsAt today t (map (EntryForAPI t) es)) = (\<lambda>e. mkRecord (Render today t e)) ` set es"
proof -
  have w: "appendRecord today t (EntryForAPI t e) [] = [mkRecord (Render today t e)]" if "e \<in> set es" for e
    using valid_entry_written [OF sup] es that by blast
  show ?thesis
  proof (cases "singleValued t")
    case True
    with one consider "es = []" | e where "es = [e]" by (cases es) auto
    then show ?thesis using w by cases (auto simp: recordsAt_def)
  next
    case False
    then show ?thesis using w by (auto simp: recordsAt_concat o_def)
  qed
qed

lemma valid_zone_entries:
  assumes "ValidateEntriesInZone today t entries zone = None"
  shows "\<forall>e \<in> set entries. ValidateInZone t e zone = None" and "checkOwners today t zone [] entries = None"
  using assms by (auto simp: ValidateEntriesInZone_def firstErr_None split: if_splits option.splits simp del: firstErr.simps)

lemma one_per_owner:
  assumes "checkOwners today t zone [] es = None" and "IsSingleValued t"
    and api: "apiZone zone" and "\<forall>e \<in> set es. TrimSpace (re_name e) = re_name e"
  shows "length (entriesAt zone name es) \<le> 1"
proof -
  have "map (\<lambda>e. Qualify (re_name e) zone) es = map (\<lambda>e. FQDN (re_name e) zone) es"
    using assms by (simp add: FQDN_Qualify)
  with checkOwners_single [OF assms(1,2)] have d: "distinct (map (\<lambda>e. Qualify (re_name e) zone) es)"
    by (simp only:)
  have "set (map (\<lambda>e. Qualify (re_name e) zone) (entriesAt zone name es)) \<subseteq> {name}" by (auto simp: entriesAt_def)
  moreover have own: "distinct (map (\<lambda>e. Qualify (re_name e) zone) (entriesAt zone name es))"
    using d unfolding entriesAt_def by (rule distinct_map_filter)
  ultimately have "card (set (map (\<lambda>e. Qualify (re_name e) zone) (entriesAt zone name es))) \<le> 1"
    using card_mono [of "{name}"] by simp
  with distinct_card [OF own] show ?thesis by simp
qed



subsection \<open>Where the rendered and the written value differ\<close>

text \<open>The values that \<^const>\<open>plainValue\<close> sets aside: a control character in a CAA value and a
  backslash in an SVCB parameter pass the validation and are then written to the server in
  another spelling than the one \<^const>\<open>Render\<close> shows.\<close>

lemma caa_control_char:
  "let e = (emptyEntry ''@'')\<lparr>re_CAA := Some \<lparr>caa_flag = 0, caa_tag = ''issue'', caa_value = ''a'' @ [CHR 0x09] @ ''b''\<rparr>\<rparr>
   in ValidateInZone ''CAA'' e ''example.com'' = None
    \<and> Render today ''CAA'' e = ''0 issue '' @ [dquote] @ ''a'' @ [bslash] @ ''009b'' @ [dquote]
    \<and> appendRecord today ''CAA'' (EntryForAPI ''CAA'' e) []
      = [mkRecord (''0 issue '' @ [dquote] @ ''a'' @ [CHR 0x09] @ ''b'' @ [dquote])]"
  by code_simp

lemma svcb_backslash:
  "let e = (emptyEntry ''@'')\<lparr>re_SVCB := Some \<lparr>https_priority = 1, https_target = ''svc.example.com.'',
         https_params = [(''key7'', ''a'' @ [bslash] @ ''b'')]\<rparr>\<rparr>
   in ValidateInZone ''SVCB'' e ''example.com'' = None
    \<and> Render today ''SVCB'' e = ''1 svc.example.com. key7='' @ [dquote] @ ''a'' @ [bslash, bslash] @ ''b'' @ [dquote]
    \<and> appendRecord today ''SVCB'' (EntryForAPI ''SVCB'' e) []
      = [mkRecord (''1 svc.example.com. key7='' @ [dquote] @ ''a'' @ [bslash] @ ''b'' @ [dquote])]"
  by code_simp

text \<open>\<^const>\<open>FQDN\<close> and \<^const>\<open>Qualify\<close> part ways on a zone written with its final dot.\<close>

lemma FQDN_dotted_zone:
  "FQDN ''www'' ''example.com.'' = ''www.example.com.'' \<and> Qualify ''www'' ''example.com.'' = ''www.example.com..''"
  by code_simp

text \<open>A type in lower case passes \<^const>\<open>ParseRRType\<close>, and the value is then not checked at all.\<close>

lemma lower_case_type_unchecked:
  "ValidateInZone ''a'' ((emptyEntry ''www'')\<lparr>re_A := Some ''not an address''\<rparr>) ''example.com'' = None"
  by code_simp

end
