(* ===== verification/Display.thy ===== *)
theory Display
  imports Owner_Name
begin

text \<open>
  Record sets put into words for the activity feed (\<^verbatim>\<open>internal/display\<close>): the annotations that
  name a record set and its value (\<^verbatim>\<open>display.go\<close>), and the change between two versions of it
  (\<^verbatim>\<open>activity.go\<close>). An annotation map is an association list; a nil map is the empty one. The
  maps the code ranges over are only used through their keys, and \<^verbatim>\<open>orderNames\<close> makes the result
  independent of the order of the iteration, which here is the order of first occurrence.
\<close>

section \<open>Definitions\<close>

subsection \<open>Names and values\<close>

definition AnnotationDisplayName :: string where
  "AnnotationDisplayName = ''dns.networking.miloapis.com/display-name''"
definition AnnotationDisplayValue :: string where
  "AnnotationDisplayValue = ''dns.networking.miloapis.com/display-value''"

definition UniqueRecordNames :: "RecordEntry list \<Rightarrow> string list" where
  "UniqueRecordNames records = first_seen id [] (map re_name records)"

definition nonEmptyOf :: "(RecordEntry \<Rightarrow> string option) \<Rightarrow> RecordEntry list \<Rightarrow> string list" where
  "nonEmptyOf f records =
     List.map_filter (\<lambda>r. case f r of Some v \<Rightarrow> if v \<noteq> [] then Some v else None | None \<Rightarrow> None) records"

definition ExtractIPAddresses :: "RRType \<Rightarrow> RecordEntry list \<Rightarrow> string list" where
  "ExtractIPAddresses t records =
     (if t = RRTypeA then nonEmptyOf re_A records
      else if t = RRTypeAAAA then nonEmptyOf re_AAAA records else [])"

definition firstValue :: "(RecordEntry \<Rightarrow> string option) \<Rightarrow> RecordEntry list \<Rightarrow> string" where
  "firstValue f records =
     (case records of [] \<Rightarrow> [] | r # _ \<Rightarrow> (case f r of Some v \<Rightarrow> v | None \<Rightarrow> []))"

definition ExtractCNAMETarget :: "RRType \<Rightarrow> RecordEntry list \<Rightarrow> string" where
  "ExtractCNAMETarget t records = (if t \<noteq> RRTypeCNAME then [] else firstValue re_CNAME records)"

definition ExtractMXHosts :: "RRType \<Rightarrow> RecordEntry list \<Rightarrow> string" where
  "ExtractMXHosts t records =
     (if t \<noteq> RRTypeMX then []
      else Join (List.map_filter (\<lambda>r. case re_MX r of
               Some mx \<Rightarrow> if mx_exchange mx \<noteq> [] then Some (nat_str (unat (mx_preference mx)) @ '' '' @ mx_exchange mx) else None
             | None \<Rightarrow> None) records) '', '')"

definition BuildFQDN :: "string \<Rightarrow> string \<Rightarrow> string" where
  "BuildFQDN recordName zoneDomainName =
     (if recordName = ''@'' then zoneDomainName else recordName @ ''.'' @ zoneDomainName)"

definition ComputeDisplayName :: "RecordEntry list \<Rightarrow> string \<Rightarrow> string" where
  "ComputeDisplayName records zoneDomainName =
     Join (map (\<lambda>name. BuildFQDN name zoneDomainName) (UniqueRecordNames records)) '', ''"

definition shorten :: "string \<Rightarrow> string" where
  "shorten result = (if length result > 200 then take (200 - 3) result @ ''...'' else result)"

definition srvText :: "SRVRecordSpec \<Rightarrow> string" where
  "srvText s = nat_str (unat (srv_priority s)) @ '' '' @ nat_str (unat (srv_weight s)) @ '' ''
     @ nat_str (unat (srv_port s)) @ '' '' @ srv_target s"

definition ComputeDisplayValue :: "RRType \<Rightarrow> RecordEntry list \<Rightarrow> string" where
  "ComputeDisplayValue t records =
     (if t = RRTypeA \<or> t = RRTypeAAAA then shorten (Join (ExtractIPAddresses t records) '', '')
      else if t = RRTypeCNAME then ExtractCNAMETarget t records
      else if t = RRTypeALIAS then firstValue re_ALIAS records
      else if t = RRTypeMX then shorten (ExtractMXHosts t records)
      else if t = RRTypeTXT then
        (case records of [] \<Rightarrow> []
         | r # _ \<Rightarrow> (case re_TXT r of None \<Rightarrow> []
             | Some content \<Rightarrow>
                 if length content > 60 then [CHR 0x22] @ take 57 content @ ''...'' @ [CHR 0x22]
                 else [CHR 0x22] @ content @ [CHR 0x22]))
      else if t = RRTypeNS then shorten (Join (nonEmptyOf re_NS records) '', '')
      else if t = RRTypeSRV then shorten (Join (List.map_filter (\<lambda>r. map_option srvText (re_SRV r)) records) '', '')
      else if length records > 1 then nat_str (length records) @ '' records'' else ''(see details)'')"

subsection \<open>Annotations\<close>

definition annotation :: "DNSRecordSet \<Rightarrow> string \<Rightarrow> string" where
  "annotation rs key = (case map_of (m_annotations (rs_meta rs)) key of Some v \<Rightarrow> v | None \<Rightarrow> [])"

definition withAnnotations :: "DNSRecordSet \<Rightarrow> (string \<times> string) list \<Rightarrow> DNSRecordSet" where
  "withAnnotations rs as = rs\<lparr>rs_meta := (rs_meta rs)\<lparr>m_annotations := as\<rparr>\<rparr>"

definition annotate :: "string \<Rightarrow> string \<Rightarrow> DNSRecordSet \<Rightarrow> DNSRecordSet" where
  "annotate key v rs = withAnnotations rs (AList.update key v (m_annotations (rs_meta rs)))"

definition unannotate :: "string \<Rightarrow> DNSRecordSet \<Rightarrow> DNSRecordSet" where
  "unannotate key rs = withAnnotations rs (AList.delete key (m_annotations (rs_meta rs)))"

definition EnsureAnnotations :: "DNSRecordSet \<Rightarrow> string \<Rightarrow> DNSRecordSet \<times> bool" where
  "EnsureAnnotations rs zoneDomainName =
     (let expectedDisplayName = ComputeDisplayName (rs_records rs) zoneDomainName;
          expectedDisplayValue = ComputeDisplayValue (rs_recordType rs) (rs_records rs) in
      if annotation rs AnnotationDisplayName = expectedDisplayName
         \<and> annotation rs AnnotationDisplayValue = expectedDisplayValue then (rs, False)
      else (annotate AnnotationDisplayValue expectedDisplayValue
              (annotate AnnotationDisplayName expectedDisplayName rs), True))"

subsection \<open>Changes\<close>

definition AnnotationActivityChange :: string where
  "AnnotationActivityChange = ''dns.networking.miloapis.com/activity-change''"
definition AnnotationActivityName :: string where
  "AnnotationActivityName = ''dns.networking.miloapis.com/activity-name''"
definition AnnotationActivityValue :: string where
  "AnnotationActivityValue = ''dns.networking.miloapis.com/activity-value''"

definition ActivityChangeAdded :: string where "ActivityChangeAdded = ''added''"
definition ActivityChangeRemoved :: string where "ActivityChangeRemoved = ''removed''"
definition ActivityChangeUpdated :: string where "ActivityChangeUpdated = ''updated''"

record ActivityDiff =
  ad_change :: string
  ad_name :: string
  ad_value :: string

definition noDiff :: ActivityDiff where "noDiff = \<lparr>ad_change = [], ad_name = [], ad_value = []\<rparr>"

definition subsetForNames :: "RecordEntry list \<Rightarrow> string list \<Rightarrow> RecordEntry list" where
  "subsetForNames records names = filter (\<lambda>r. re_name r \<in> set names) records"

definition signatureForName :: "DNSRecordSet \<Rightarrow> string \<Rightarrow> string" where
  "signatureForName rs name = ComputeDisplayValue (rs_recordType rs) (subsetForNames (rs_records rs) [name])"

definition displayValueForNames :: "DNSRecordSet \<Rightarrow> string list \<Rightarrow> string" where
  "displayValueForNames rs names =
     (if names = [] then [] else ComputeDisplayValue (rs_recordType rs) (subsetForNames (rs_records rs) names))"

definition fqdnsForNames :: "string list \<Rightarrow> string \<Rightarrow> string" where
  "fqdnsForNames names zoneDomainName = Join (map (\<lambda>name. BuildFQDN name zoneDomainName) names) '', ''"

fun takeWanted :: "string list \<Rightarrow> string list \<Rightarrow> string list \<times> string list" where
  "takeWanted want [] = ([], want)"
| "takeWanted want (n # ns) =
     (if n \<in> set want then (case takeWanted (removeAll n want) ns of (out, rest) \<Rightarrow> (n # out, rest))
      else takeWanted want ns)"

definition orderNames :: "string list \<Rightarrow> string list \<Rightarrow> string list" where
  "orderNames preferredOrder selected =
     (if selected = [] then []
      else case takeWanted selected preferredOrder of
        (out, want) \<Rightarrow> out @ fst (takeWanted want selected))"

definition dedupePreserveOrder :: "string list \<Rightarrow> string list" where
  "dedupePreserveOrder names = first_seen id [] names"

definition intersectNames :: "string list \<Rightarrow> string list \<Rightarrow> string list" where
  "intersectNames names available = filter (\<lambda>n. n \<in> set available) names"

definition changedNames :: "DNSRecordSet \<Rightarrow> DNSRecordSet \<Rightarrow> string list \<times> string list \<times> string list" where
  "changedNames oldRS newRS =
     (let oldNames = UniqueRecordNames (rs_records oldRS); newNames = UniqueRecordNames (rs_records newRS) in
      (orderNames newNames (filter (\<lambda>n. n \<notin> set oldNames) newNames),
       orderNames oldNames (filter (\<lambda>n. n \<notin> set newNames) oldNames),
       orderNames newNames (filter (\<lambda>n. n \<in> set oldNames \<and> signatureForName oldRS n \<noteq> signatureForName newRS n) newNames)))"

definition ComputeActivityDiff :: "DNSRecordSet option \<Rightarrow> DNSRecordSet option \<Rightarrow> string \<Rightarrow> ActivityDiff" where
  "ComputeActivityDiff old new zoneDomainName =
     (case (old, new) of
        (Some oldRS, Some newRS) \<Rightarrow>
          (case changedNames oldRS newRS of (added, removed, updated) \<Rightarrow>
             if added \<noteq> [] \<and> removed = [] \<and> updated = [] then
               \<lparr>ad_change = ActivityChangeAdded, ad_name = fqdnsForNames added zoneDomainName,
                ad_value = displayValueForNames newRS added\<rparr>
             else if removed \<noteq> [] \<and> added = [] \<and> updated = [] then
               \<lparr>ad_change = ActivityChangeRemoved, ad_name = fqdnsForNames removed zoneDomainName,
                ad_value = displayValueForNames oldRS removed\<rparr>
             else if updated \<noteq> [] \<and> added = [] \<and> removed = [] then
               \<lparr>ad_change = ActivityChangeUpdated, ad_name = fqdnsForNames updated zoneDomainName,
                ad_value = displayValueForNames newRS updated\<rparr>
             else if added = [] \<and> removed = [] \<and> updated = [] then noDiff
             else
               let affected = dedupePreserveOrder (added @ removed @ updated);
                   src = (if rs_records newRS = [] then oldRS else newRS) in
               \<lparr>ad_change = ActivityChangeUpdated, ad_name = fqdnsForNames affected zoneDomainName,
                ad_value = displayValueForNames src (intersectNames affected (UniqueRecordNames (rs_records src)))\<rparr>)
      | _ \<Rightarrow> noDiff)"

definition clearKey :: "string \<Rightarrow> DNSRecordSet \<times> bool \<Rightarrow> DNSRecordSet \<times> bool" where
  "clearKey key = (\<lambda>(rs, changed).
     if map_of (m_annotations (rs_meta rs)) key \<noteq> None then (unannotate key rs, True) else (rs, changed))"

definition ClearActivityAnnotations :: "DNSRecordSet \<Rightarrow> DNSRecordSet \<times> bool" where
  "ClearActivityAnnotations rs =
     foldl (\<lambda>acc key. clearKey key acc) (rs, False)
       [AnnotationActivityChange, AnnotationActivityName, AnnotationActivityValue]"

definition stampKey :: "string \<Rightarrow> string \<Rightarrow> DNSRecordSet \<times> bool \<Rightarrow> DNSRecordSet \<times> bool" where
  "stampKey key v = (\<lambda>(rs, changed). if annotation rs key \<noteq> v then (annotate key v rs, True) else (rs, changed))"

definition EnsureActivityAnnotations :: "DNSRecordSet \<Rightarrow> DNSRecordSet option \<Rightarrow> string \<Rightarrow> DNSRecordSet \<times> bool" where
  "EnsureActivityAnnotations rs old zoneDomainName =
     (let diff = ComputeActivityDiff old (Some rs) zoneDomainName in
      if ad_change diff = [] then ClearActivityAnnotations rs
      else stampKey AnnotationActivityValue (ad_value diff)
             (stampKey AnnotationActivityName (ad_name diff)
               (stampKey AnnotationActivityChange (ad_change diff) (rs, False))))"

section \<open>Lemmas\<close>

lemma map_of_annotate [simp]:
  "map_of (m_annotations (rs_meta (annotate key v rs))) k
     = (if k = key then Some v else map_of (m_annotations (rs_meta rs)) k)"
  by (simp add: annotate_def withAnnotations_def map_of_update)

lemma annotation_annotate [simp]: "annotation (annotate key v rs) k = (if k = key then v else annotation rs k)"
  by (simp add: annotation_def)

lemma annotate_body [simp]:
  "rs_records (annotate key v rs) = rs_records rs" "rs_recordType (annotate key v rs) = rs_recordType rs"
  "rs_zoneRef (annotate key v rs) = rs_zoneRef rs"
  by (simp_all add: annotate_def withAnnotations_def)

text \<open>Stamping twice changes nothing the second time.\<close>

lemma EnsureAnnotations_idem:
  "snd (EnsureAnnotations (fst (EnsureAnnotations rs zone)) zone) = False"
  by (simp add: EnsureAnnotations_def Let_def AnnotationDisplayName_def AnnotationDisplayValue_def)

lemma takeWanted_filter:
  assumes "distinct ns"
  shows "takeWanted want ns = (filter (\<lambda>n. n \<in> set want) ns, filter (\<lambda>n. n \<notin> set ns) want)"
  using assms
proof (induction ns arbitrary: want)
  case (Cons n ns)
  have "filter (\<lambda>m. m \<in> set want \<and> m \<noteq> n) ns = filter (\<lambda>m. m \<in> set want) ns"
    using Cons.prems by (intro filter_cong) auto
  moreover have "filter (\<lambda>m. m \<notin> set ns) (removeAll n want) = filter (\<lambda>m. m \<noteq> n \<and> m \<notin> set ns) want"
    by (simp add: removeAll_filter_not_eq conj_commute) (metis (no_types, lifting))
  moreover have "filter (\<lambda>m. m \<notin> set ns) want = filter (\<lambda>m. m \<noteq> n \<and> m \<notin> set ns) want" if "n \<notin> set want"
    using that by (intro filter_cong) auto
  ultimately show ?case using Cons by (simp add: conj_commute)
qed simp

lemma orderNames_filter:
  assumes "distinct pref" and "set sel \<subseteq> set pref"
  shows "orderNames pref sel = filter (\<lambda>n. n \<in> set sel) pref"
proof -
  have "filter (\<lambda>n. n \<notin> set pref) sel = []" using assms(2) by (auto simp: filter_empty_conv)
  moreover have "fst (takeWanted [] ns) = []" for ns by (induction ns) simp_all
  ultimately show ?thesis using assms(1) by (simp add: orderNames_def takeWanted_filter)
qed

text \<open>A change of a CAA value is no change to \<^const>\<open>ComputeActivityDiff\<close>: the value shown for such a
  record set is always \<^verbatim>\<open>(see details)\<close>.\<close>

lemma changed_value_not_reported:
  fixes old new :: DNSRecordSet
  assumes "rs_recordType old = RRTypeCAA" and "rs_recordType new = RRTypeCAA"
    and "map re_name (rs_records old) = map re_name (rs_records new)"
  shows "ComputeActivityDiff (Some old) (Some new) zone = noDiff"
proof -
  have len: "length (subsetForNames (rs_records old) ns) = length (subsetForNames (rs_records new) ns)" for ns
  proof -
    have "length (filter (\<lambda>n. n \<in> set ns) (map re_name (rs_records old)))
        = length (filter (\<lambda>n. n \<in> set ns) (map re_name (rs_records new)))" using assms(3) by simp
    then show ?thesis by (simp add: subsetForNames_def filter_map o_def)
  qed
  then have "signatureForName old n = signatureForName new n" for n
    using assms(1,2) by (simp add: signatureForName_def ComputeDisplayValue_def)
  then show ?thesis using assms(3)
    by (simp add: ComputeActivityDiff_def changedNames_def UniqueRecordNames_def orderNames_def Let_def)
qed

end
