(* ===== verification/Admission.thy ===== *)
theory Admission
  imports Display Pdns_Errors
begin

text \<open>
  Admission of record sets (\<^verbatim>\<open>internal/webhook\<close>): the validating webhook, which refuses ALIAS
  records at wildcard names and owner names that another record set holds, and the mutating one,
  which stamps the annotations of \<^verbatim>\<open>internal/display\<close>. The cluster is a lookup of zones and a
  list of the record sets of a namespace, both of which may fail. A refusal is the list of the field
  errors of the invalid object, each with the index of the record it is about.
\<close>

section \<open>Definitions\<close>

record field_error =
  fe_index :: nat
  fe_value :: string
  fe_detail :: string

record webhook_client =
  wc_getZone :: "string \<times> string \<Rightarrow> go_error + DNSZone"
  wc_isNotFound :: "go_error \<Rightarrow> bool"
  wc_listRecordSets :: "string \<Rightarrow> go_error + DNSRecordSet list"

subsection \<open>Whose cluster\<close>

definition ParentNameExtraKey :: string where "ParentNameExtraKey = ''iam.miloapis.com/parent-name''"
definition ParentTypeExtraKey :: string where "ParentTypeExtraKey = ''iam.miloapis.com/parent-type''"

definition clusterNameFromExtra :: "(string \<times> string list) list \<Rightarrow> string" where
  "clusterNameFromExtra extra =
     (case map_of extra ParentTypeExtraKey of
        Some (parentType # _) \<Rightarrow>
          if parentType \<noteq> ''Project'' then []
          else (case map_of extra ParentNameExtraKey of Some (parentName # _) \<Rightarrow> parentName | _ \<Rightarrow> [])
      | _ \<Rightarrow> [])"

text \<open>The manager, if there is one, finds a cluster by its name or fails.\<close>

definition clusterClient ::
  "string option \<Rightarrow> (string \<Rightarrow> go_error + webhook_client) option \<Rightarrow> webhook_client \<Rightarrow> webhook_client" where
  "clusterClient cluster mgr local =
     (case mgr of
        None \<Rightarrow> local
      | Some getCluster \<Rightarrow>
          (case cluster of
             None \<Rightarrow> local
           | Some clusterName \<Rightarrow>
               if clusterName = [] then local
               else case getCluster clusterName of
                 Inr cl \<Rightarrow> cl
               | Inl _ \<Rightarrow>
                   if HasPrefix clusterName ''/'' then local
                   else (case getCluster (''/'' @ clusterName) of Inr cl \<Rightarrow> cl | Inl _ \<Rightarrow> local)))"

subsection \<open>Wildcards\<close>

definition isWildcardName :: "string \<Rightarrow> bool" where
  "isWildcardName name \<longleftrightarrow> name = ''*'' \<or> HasPrefix name ''*.''"

definition refuseWildcardAlias :: "DNSRecordSet option \<Rightarrow> DNSRecordSet \<Rightarrow> field_error list" where
  "refuseWildcardAlias oldRS rs =
     (if rs_recordType rs \<noteq> RRTypeALIAS then []
      else
        let stored = (case oldRS of
              Some old \<Rightarrow> if rs_recordType old = RRTypeALIAS then map re_name (rs_records old) else []
            | None \<Rightarrow> []) in
        map (\<lambda>(i, rec). \<lparr>fe_index = i, fe_value = re_name rec,
              fe_detail = ''ALIAS records cannot be used at wildcard names; use a CNAME for '' @ go_quote (re_name rec)\<rparr>)
          (filter (\<lambda>(i, rec). isWildcardName (re_name rec) \<and> re_name rec \<notin> set stored)
            (enumerate 0 (rs_records rs))))"

subsection \<open>Claims\<close>

text \<open>\<^verbatim>\<open>typesShareName\<close>: whether record sets of two types contend for one owner name.\<close>

definition typesShareName :: "RRType \<Rightarrow> RRType \<Rightarrow> bool" where
  "typesShareName a b \<longleftrightarrow> a = b \<or> a = RRTypeCNAME \<or> b = RRTypeCNAME"

record ownerClaim =
  oc_recordIndex :: nat
  oc_ownerName :: string

definition addClaim :: "string \<Rightarrow> (string \<times> ownerClaim) list \<Rightarrow> nat \<times> RecordEntry \<Rightarrow> (string \<times> ownerClaim) list" where
  "addClaim zoneDomainName claims = (\<lambda>(i, rec).
     if re_name rec = [] then claims
     else let k = Qualify (re_name rec) zoneDomainName in
       if map_of claims k \<noteq> None then claims
       else claims @ [(k, \<lparr>oc_recordIndex = i, oc_ownerName = re_name rec\<rparr>)])"

definition newOwnerClaims :: "DNSRecordSet \<Rightarrow> string \<Rightarrow> (string \<times> ownerClaim) list" where
  "newOwnerClaims rs zoneDomainName = foldl (addClaim zoneDomainName) [] (enumerate 0 (rs_records rs))"

definition firstClaimant :: "DNSRecordSet \<Rightarrow> DNSRecordSet \<Rightarrow> DNSRecordSet" where
  "firstClaimant a b =
     (if m_created (rs_meta a) = m_created (rs_meta b) then
        (if m_name (rs_meta a) \<le> m_name (rs_meta b) then a else b)
      else if m_created (rs_meta a) < m_created (rs_meta b) then a else b)"

definition noteHolder ::
  "string \<Rightarrow> (string \<times> ownerClaim) list \<Rightarrow> DNSRecordSet \<Rightarrow> (string \<times> DNSRecordSet) list \<Rightarrow> RecordEntry \<Rightarrow> (string \<times> DNSRecordSet) list" where
  "noteHolder zoneDomainName claims other holders rec =
     (let k = Qualify (re_name rec) zoneDomainName in
      if map_of claims k = None then holders
      else case map_of holders k of
        None \<Rightarrow> AList.update k other holders
      | Some held \<Rightarrow> if firstClaimant held other = other then AList.update k other holders else holders)"

definition contends :: "DNSRecordSet \<Rightarrow> DNSRecordSet \<Rightarrow> bool" where
  "contends rs other \<longleftrightarrow> \<not> (m_name (rs_meta other) = m_name (rs_meta rs) \<or> m_deleted (rs_meta other) \<noteq> None)
     \<and> \<not> (rs_zoneRef other \<noteq> rs_zoneRef rs \<or> \<not> typesShareName (rs_recordType other) (rs_recordType rs))"

definition findHolders ::
  "string \<Rightarrow> (string \<times> ownerClaim) list \<Rightarrow> DNSRecordSet \<Rightarrow> DNSRecordSet list \<Rightarrow> (string \<times> DNSRecordSet) list" where
  "findHolders zoneDomainName claims rs items =
     foldl (\<lambda>holders other. if contends rs other
         then foldl (noteHolder zoneDomainName claims other) holders (rs_records other) else holders) [] items"

definition claimIndexLess :: "(string \<times> ownerClaim) list \<Rightarrow> string \<Rightarrow> string \<Rightarrow> bool" where
  "claimIndexLess claims a b \<longleftrightarrow>
     (case (map_of claims a, map_of claims b) of
        (Some x, Some y) \<Rightarrow> oc_recordIndex x < oc_recordIndex y | _ \<Rightarrow> False)"

definition claimError :: "DNSRecordSet \<Rightarrow> (string \<times> ownerClaim) list \<Rightarrow> (string \<times> DNSRecordSet) list \<Rightarrow> string \<Rightarrow> field_error" where
  "claimError rs claims holders k =
     (case (map_of claims k, map_of holders k) of
        (Some claim, Some holder) \<Rightarrow>
          let reason = (if rs_recordType holder \<noteq> rs_recordType rs
                then ''a CNAME cannot share its name with any other record type, so this record would never be published''
                else ''a name is held by one DNSRecordSet only, so this record would never be published'') in
          \<lparr>fe_index = oc_recordIndex claim, fe_value = oc_ownerName claim,
           fe_detail = ''owner name '' @ go_quote k @ '' is already claimed by DNSRecordSet '' @ go_quote (m_name (rs_meta holder))
             @ '' for record type '' @ rs_recordType holder @ '' in zone '' @ go_quote (rs_zoneRef rs) @ ''; '' @ reason\<rparr>
      | _ \<Rightarrow> \<lparr>fe_index = 0, fe_value = [], fe_detail = []\<rparr>)"

definition openClaims :: "DNSRecordSet option \<Rightarrow> DNSRecordSet \<Rightarrow> string \<Rightarrow> (string \<times> ownerClaim) list" where
  "openClaims oldRS rs domain =
     (let claims = newOwnerClaims rs domain in
      case oldRS of
        Some old \<Rightarrow>
          if rs_recordType old = rs_recordType rs \<and> rs_zoneRef old = rs_zoneRef rs
          then foldl (\<lambda>cs rec. AList.delete (Qualify (re_name rec) domain) cs) claims (rs_records old)
          else claims
      | None \<Rightarrow> claims)"

definition refuseClaimedOwnerNames :: "webhook_client \<Rightarrow> DNSRecordSet option \<Rightarrow> DNSRecordSet \<Rightarrow> field_error list" where
  "refuseClaimedOwnerNames cl oldRS rs =
     (if rs_zoneRef rs = [] \<or> rs_records rs = [] then []
      else case wc_getZone cl (m_namespace (rs_meta rs), rs_zoneRef rs) of
        Inl _ \<Rightarrow> []
      | Inr zone \<Rightarrow>
          let claims = openClaims oldRS rs (z_domainName zone) in
          if claims = [] then []
          else case wc_listRecordSets cl (m_namespace (rs_meta rs)) of
            Inl _ \<Rightarrow> []
          | Inr items \<Rightarrow>
              let holders = findHolders (z_domainName zone) claims rs items in
              if holders = [] then []
              else map (claimError rs claims holders) (go_sort (claimIndexLess claims) (map fst holders)))"

subsection \<open>The webhooks\<close>

definition ValidateCreate :: "webhook_client \<Rightarrow> DNSRecordSet \<Rightarrow> field_error list" where
  "ValidateCreate cl rs =
     (let errs = refuseWildcardAlias None rs in
      if errs \<noteq> [] then errs else refuseClaimedOwnerNames cl None rs)"

definition ValidateUpdate :: "webhook_client \<Rightarrow> DNSRecordSet \<Rightarrow> DNSRecordSet \<Rightarrow> field_error list" where
  "ValidateUpdate cl oldRS newRS =
     (let errs = refuseWildcardAlias (Some oldRS) newRS in
      if errs \<noteq> [] then errs else refuseClaimedOwnerNames cl (Some oldRS) newRS)"

definition ValidateDelete :: "DNSRecordSet \<Rightarrow> field_error list" where
  "ValidateDelete rs = []"

text \<open>\<open>oldObject\<close> is the old object of the request as the decoder reads it: nothing on a create, or
  when it cannot be decoded.\<close>

definition Default :: "webhook_client \<Rightarrow> DNSRecordSet option \<Rightarrow> DNSRecordSet \<Rightarrow> go_error + DNSRecordSet" where
  "Default cl oldObject rs =
     (if rs_zoneRef rs = [] then Inr rs
      else case wc_getZone cl (m_namespace (rs_meta rs), rs_zoneRef rs) of
        Inl e \<Rightarrow>
          if wc_isNotFound cl e then Inr rs
          else Inl (WrappedError (''getting DNSZone '' @ m_namespace (rs_meta rs) @ ''/'' @ rs_zoneRef rs @ '': '' @ error_text e) (Some e))
      | Inr zone \<Rightarrow>
          let rs = fst (EnsureAnnotations rs (z_domainName zone)) in
          Inr (case oldObject of
                 None \<Rightarrow> fst (ClearActivityAnnotations rs)
               | Some old \<Rightarrow> fst (EnsureActivityAnnotations rs (Some old) (z_domainName zone))))"

subsection \<open>The record sets of a namespace over time\<close>

definition ownerNamesOf :: "string \<Rightarrow> DNSRecordSet \<Rightarrow> string set" where
  "ownerNamesOf domain rs = (\<lambda>rec. Qualify (re_name rec) domain) ` set (rs_records rs)"

text \<open>What the API server lets happen to the record sets of the namespace \<open>ns\<close>: creations and updates
  the webhook admits against the list as it is, marks for deletion, and removals. A record set
  names its records (the API demands it) and a zone of the namespace.\<close>

definition wellFormed :: "(string \<Rightarrow> DNSZone option) \<Rightarrow> string \<Rightarrow> DNSRecordSet \<Rightarrow> bool" where
  "wellFormed zones ns rs \<longleftrightarrow> m_namespace (rs_meta rs) = ns \<and> rs_zoneRef rs \<noteq> [] \<and> zones (rs_zoneRef rs) \<noteq> None
     \<and> (\<forall>rec \<in> set (rs_records rs). re_name rec \<noteq> [])"

definition markDeleted :: "int \<Rightarrow> DNSRecordSet \<Rightarrow> DNSRecordSet" where
  "markDeleted t rs = rs\<lparr>rs_meta := (rs_meta rs)\<lparr>m_deleted := Some t\<rparr>\<rparr>"

inductive admission_step ::
  "(DNSRecordSet list \<Rightarrow> webhook_client) \<Rightarrow> (string \<Rightarrow> DNSZone option) \<Rightarrow> string \<Rightarrow> DNSRecordSet list \<Rightarrow> DNSRecordSet list \<Rightarrow> bool"
  for client zones ns where
  created: "\<lbrakk>wellFormed zones ns rs; m_deleted (rs_meta rs) = None;
      m_name (rs_meta rs) \<notin> (\<lambda>x. m_name (rs_meta x)) ` set sets; ValidateCreate (client sets) rs = []\<rbrakk>
    \<Longrightarrow> admission_step client zones ns sets (rs # sets)"
| updated: "\<lbrakk>wellFormed zones ns new; m_name (rs_meta new) = m_name (rs_meta old); m_deleted (rs_meta new) = m_deleted (rs_meta old);
      ValidateUpdate (client (before @ old # behind)) old new = []\<rbrakk>
    \<Longrightarrow> admission_step client zones ns (before @ old # behind) (before @ new # behind)"
| marked: "ValidateDelete rs = [] \<Longrightarrow>
    admission_step client zones ns (before @ rs # behind) (before @ markDeleted t rs # behind)"
| removed: "admission_step client zones ns (before @ rs # behind) (before @ behind)"

text \<open>The client reads the namespace as it is.\<close>

definition reads_namespace :: "(DNSRecordSet list \<Rightarrow> webhook_client) \<Rightarrow> (string \<Rightarrow> DNSZone option) \<Rightarrow> string \<Rightarrow> bool" where
  "reads_namespace client zones ns \<longleftrightarrow>
     (\<forall>sets. wc_listRecordSets (client sets) ns = Inr sets
       \<and> (\<forall>z zone. zones z = Some zone \<longrightarrow> wc_getZone (client sets) (ns, z) = Inr zone))"

text \<open>No two live record sets contend for a name.\<close>

definition disjointNames :: "(string \<Rightarrow> DNSZone option) \<Rightarrow> DNSRecordSet \<Rightarrow> DNSRecordSet \<Rightarrow> bool" where
  "disjointNames zones a b \<longleftrightarrow>
     (contends a b \<and> m_deleted (rs_meta a) = None \<longrightarrow>
        (case zones (rs_zoneRef a) of None \<Rightarrow> True
         | Some zone \<Rightarrow> ownerNamesOf (z_domainName zone) a \<inter> ownerNamesOf (z_domainName zone) b = {}))"

definition uncontested :: "(string \<Rightarrow> DNSZone option) \<Rightarrow> DNSRecordSet list \<Rightarrow> bool" where
  "uncontested zones sets \<longleftrightarrow> distinct (map (\<lambda>x. m_name (rs_meta x)) sets)
     \<and> (\<forall>a \<in> set sets. \<forall>b \<in> set sets. disjointNames zones a b)"

section \<open>Lemmas\<close>

lemma fst_claims:
  assumes "\<forall>rec \<in> set records. re_name rec \<noteq> []"
  shows "fst ` set (foldl (addClaim domain) claims (enumerate i records))
    = fst ` set claims \<union> (\<lambda>rec. Qualify (re_name rec) domain) ` set records"
  using assms
proof (induction records arbitrary: claims i)
  case (Cons rec records)
  have "fst ` set (addClaim domain claims (i, rec)) = fst ` set claims \<union> {Qualify (re_name rec) domain}"
    using Cons.prems by (auto simp: addClaim_def Let_def map_of_eq_None_iff)
  with Cons show ?case by auto
qed simp

lemma fst_deletes:
  "fst ` set (foldl (\<lambda>cs rec. AList.delete (Qualify (re_name rec) domain) cs) claims records)
    = fst ` set claims - (\<lambda>rec. Qualify (re_name rec) domain) ` set records"
proof (induction records arbitrary: claims)
  case (Cons rec records)
  have "fst ` set (AList.delete k claims) = fst ` set claims - {k}" for k
    by (metis AList.delete_keys set_map set_removeAll)
  with Cons show ?case by auto
qed simp

definition openNames :: "DNSRecordSet option \<Rightarrow> DNSRecordSet \<Rightarrow> string \<Rightarrow> string set" where
  "openNames oldRS rs domain = ownerNamesOf domain rs
     - (case oldRS of Some old \<Rightarrow>
          if rs_recordType old = rs_recordType rs \<and> rs_zoneRef old = rs_zoneRef rs then ownerNamesOf domain old else {}
        | None \<Rightarrow> {})"

lemma fst_openClaims:
  assumes "\<forall>rec \<in> set (rs_records rs). re_name rec \<noteq> []"
  shows "fst ` set (openClaims oldRS rs domain) = openNames oldRS rs domain"
  using assms fst_claims [of "rs_records rs" domain "[]" 0]
  by (auto simp: openClaims_def newOwnerClaims_def openNames_def ownerNamesOf_def fst_deletes Let_def split: option.splits)

lemma fst_noteHolder:
  "fst ` set (noteHolder domain claims other holders rec)
    = fst ` set holders \<union> (if Qualify (re_name rec) domain \<in> fst ` set claims then {Qualify (re_name rec) domain} else {})"
proof -
  have "insert k (fst ` set holders) = fst ` set holders" if "map_of holders k = Some x" for k x
    using map_of_SomeD [OF that] by (force simp: insert_absorb)
  then show ?thesis
    by (simp add: noteHolder_def Let_def dom_update map_of_eq_None_iff split: option.split)
qed

lemma fst_noteHolders:
  "fst ` set (foldl (noteHolder domain claims other) holders records)
    = fst ` set holders \<union> ((\<lambda>rec. Qualify (re_name rec) domain) ` set records \<inter> fst ` set claims)"
  by (induction records arbitrary: holders) (auto simp: fst_noteHolder)

lemma fst_findHolders:
  "fst ` set (findHolders domain claims rs items)
    = (\<Union>other \<in> {x \<in> set items. contends rs x}. ownerNamesOf domain other) \<inter> fst ` set claims"
proof -
  have "fst ` set (foldl (\<lambda>holders other. if contends rs other
         then foldl (noteHolder domain claims other) holders (rs_records other) else holders) holders items)
    = fst ` set holders \<union> ((\<Union>other \<in> {x \<in> set items. contends rs x}. ownerNamesOf domain other) \<inter> fst ` set claims)" for holders
    by (induction items arbitrary: holders) (auto simp: fst_noteHolders ownerNamesOf_def)
  from this [of "[]"] show ?thesis by (simp add: findHolders_def)
qed

text \<open>The webhook refuses exactly the record sets that claim a name a contending record set holds.\<close>

lemma refuseClaimedOwnerNames_iff:
  assumes "wellFormed zones ns rs" and "zones (rs_zoneRef rs) = Some zone"
    and "wc_getZone cl (ns, rs_zoneRef rs) = Inr zone" and "wc_listRecordSets cl ns = Inr items"
  shows "refuseClaimedOwnerNames cl oldRS rs = [] \<longleftrightarrow>
    (\<forall>other \<in> set items. contends rs other \<longrightarrow> ownerNamesOf (z_domainName zone) other \<inter> openNames oldRS rs (z_domainName zone) = {})"
proof -
  let ?d = "z_domainName zone"
  have keys: "fst ` set (openClaims oldRS rs ?d) = openNames oldRS rs ?d"
    using assms(1) by (intro fst_openClaims) (simp add: wellFormed_def)
  have held: "findHolders ?d (openClaims oldRS rs ?d) rs items = [] \<longleftrightarrow>
      (\<forall>other \<in> set items. contends rs other \<longrightarrow> ownerNamesOf ?d other \<inter> openNames oldRS rs ?d = {})"
  proof -
    have "findHolders ?d (openClaims oldRS rs ?d) rs items = [] \<longleftrightarrow> fst ` set (findHolders ?d (openClaims oldRS rs ?d) rs items) = {}"
      by simp
    then show ?thesis unfolding fst_findHolders keys by blast
  qed
  show ?thesis
  proof (cases "rs_records rs = []")
    case True
    then show ?thesis by (simp add: refuseClaimedOwnerNames_def openNames_def ownerNamesOf_def)
  next
    case False
    have "openClaims oldRS rs ?d = [] \<Longrightarrow> openNames oldRS rs ?d = {}" using keys by simp
    with False assms held show ?thesis
      by (auto simp: refuseClaimedOwnerNames_def wellFormed_def Let_def)
  qed
qed

lemma contends_sym: "contends a b \<Longrightarrow> m_deleted (rs_meta a) = None \<Longrightarrow> contends b a"
  by (auto simp: contends_def typesShareName_def)

lemma disjointNames_sym: "disjointNames zones a b \<Longrightarrow> disjointNames zones b a"
  unfolding disjointNames_def contends_def typesShareName_def by (auto split: option.splits)

lemma uncontested_replace:
  assumes "uncontested zones (before @ old # behind)" and "m_name (rs_meta new) = m_name (rs_meta old)"
    and "\<forall>b \<in> set (before @ behind). disjointNames zones new b"
  shows "uncontested zones (before @ new # behind)"
proof -
  have "disjointNames zones new new" by (simp add: disjointNames_def contends_def)
  with assms show ?thesis
    by (auto simp: uncontested_def dest: disjointNames_sym)
qed

lemma admitted_disjoint:
  assumes reads: "reads_namespace client zones ns" and wf: "wellFormed zones ns rs"
    and ok: "refuseClaimedOwnerNames (client sets) oldRS rs = []"
    and held: "\<And>zone. zones (rs_zoneRef rs) = Some zone \<Longrightarrow> contends rs b \<Longrightarrow> m_deleted (rs_meta rs) = None \<Longrightarrow>
      ownerNamesOf (z_domainName zone) b \<inter> (ownerNamesOf (z_domainName zone) rs - openNames oldRS rs (z_domainName zone)) = {}"
    and b: "b \<in> set sets"
  shows "disjointNames zones rs b"
proof -
  obtain zone where zone: "zones (rs_zoneRef rs) = Some zone" using wf by (auto simp: wellFormed_def)
  have "contends rs b \<longrightarrow> ownerNamesOf (z_domainName zone) b \<inter> openNames oldRS rs (z_domainName zone) = {}"
    using ok refuseClaimedOwnerNames_iff [OF wf zone] reads zone b by (simp add: reads_namespace_def)
  with held [OF zone] zone show ?thesis by (simp add: disjointNames_def) blast
qed

lemma uncontested_step:
  assumes step: "admission_step client zones ns sets sets'" and reads: "reads_namespace client zones ns"
    and inv: "uncontested zones sets"
  shows "uncontested zones sets'"
  using step inv
proof cases
  case (created rs)
  have "disjointNames zones rs b" if "b \<in> set sets" for b
    using created that by (intro admitted_disjoint [OF reads, of rs sets None])
      (auto simp: ValidateCreate_def openNames_def Let_def split: if_splits)
  moreover have "disjointNames zones rs rs" by (simp add: disjointNames_def contends_def)
  ultimately show ?thesis using inv created by (auto simp: uncontested_def dest: disjointNames_sym)
next
  case (updated new old before behind)
  have apart: "disjointNames zones new b" if b: "b \<in> set (before @ behind)" for b
  proof (rule admitted_disjoint [OF reads, of new sets "Some old"])
    show "refuseClaimedOwnerNames (client sets) (Some old) new = []"
      using updated by (auto simp: ValidateUpdate_def Let_def split: if_splits)
    show "b \<in> set sets" using b updated by auto
    fix zone assume zone: "zones (rs_zoneRef new) = Some zone" and live: "contends new b" "m_deleted (rs_meta new) = None"
    show "ownerNamesOf (z_domainName zone) b \<inter> (ownerNamesOf (z_domainName zone) new - openNames (Some old) new (z_domainName zone)) = {}"
    proof (cases "rs_recordType old = rs_recordType new \<and> rs_zoneRef old = rs_zoneRef new")
      case True
      then have "contends old b" using live(1) updated by (simp add: contends_def)
      moreover have "disjointNames zones old b" using inv b updated by (auto simp: uncontested_def)
      ultimately have "ownerNamesOf (z_domainName zone) old \<inter> ownerNamesOf (z_domainName zone) b = {}"
        using True zone live(2) updated by (simp add: disjointNames_def)
      then show ?thesis using True by (auto simp: openNames_def)
    qed (auto simp: openNames_def)
  qed (use updated in simp)
  have "uncontested zones (before @ old # behind)" using inv updated(1) by simp
  then show ?thesis unfolding updated(2)
    by (rule uncontested_replace [OF _ updated(4)]) (use apart in blast)
next
  case (marked rs before behind t)
  have gone: "disjointNames zones (markDeleted t rs) b" for b by (simp add: disjointNames_def markDeleted_def)
  have "uncontested zones (before @ rs # behind)" using inv marked(1) by simp
  then show ?thesis unfolding marked(2)
    by (rule uncontested_replace) (use gone in \<open>simp_all add: markDeleted_def\<close>)
next
  case (removed before rs behind)
  then show ?thesis using inv by (auto simp: uncontested_def)
qed

lemma reachable_uncontested:
  assumes "reads_namespace client zones ns" and "(admission_step client zones ns)\<^sup>*\<^sup>* [] sets"
  shows "uncontested zones sets"
  using assms(2)
proof induction
  case base
  show ?case by (simp add: uncontested_def)
next
  case (step y z)
  then show ?case using uncontested_step [OF _ assms(1)] by blast
qed

section \<open>Properties\<close>


definition aSet :: "string \<Rightarrow> string \<Rightarrow> DNSRecordSet" where
  "aSet name owner =
     \<lparr>rs_meta = \<lparr>m_namespace = ''ns'', m_name = name, m_uid = name, m_generation = 1, m_created = 0, m_deleted = None,
        m_finalizers = [], m_labels = [], m_annotations = [], m_ownerRefs = []\<rparr>,
      rs_zoneRef = ''z'', rs_recordType = RRTypeA,
      rs_records = [(emptyEntry owner)\<lparr>re_A := Some ''192.0.2.1''\<rparr>], rs_conditions = [], rs_recordSets = []\<rparr>"

definition exampleZone :: DNSZone where
  "exampleZone = \<lparr>z_meta = rs_meta (aSet ''z'' []), z_domainName = ''example.com'', z_className = ''c'',
     z_visibility = VisibilityPublic, z_nameservers = [], z_recordCount = 0, z_conditions = [], z_domainRef = None\<rparr>"

definition exactClient :: "DNSRecordSet list \<Rightarrow> webhook_client" where
  "exactClient sets = \<lparr>wc_getZone = (\<lambda>_. Inr exampleZone), wc_isNotFound = (\<lambda>_. True), wc_listRecordSets = (\<lambda>_. Inr sets)\<rparr>"


end
