(* ===== verification/Downstream.thy ===== *)
theory Downstream
  imports Kube_Api Display
begin

text \<open>
  Objects mirrored into another cluster (\<^verbatim>\<open>internal/downstreamclient\<close>,
  \<^verbatim>\<open>internal/controller/downstream_termination.go\<close>, \<^verbatim>\<open>upstream_cluster.go\<close>): the namespace a
  mirror lives in, the anchor that owns it and the annotations that lead back to the original, the
  requests those annotations give, and the refusals of a namespace that is going away. The state of a
  replicator is the two clusters and a ghost log of what it did. Kubernetes, its client and its
  helper libraries are parameters.
\<close>

section \<open>Definitions\<close>

subsection \<open>The two clusters\<close>

record Namespace =
  ns_uid :: string
  ns_deleted :: "int option"

record ConfigMap =
  cm_meta :: ObjectMeta
  cm_data :: "(string \<times> string) list"

text \<open>A Domain of the network services API: its name, the domain name it stands for, its conditions
  and the nameservers the registrar publishes.\<close>

record Domain =
  dm_name :: string
  dm_domainName :: string
  dm_conditions :: "Condition list"
  dm_nameservers :: "Nameserver list"

datatype operation = OperationNone | OperationCreated | OperationUpdated

text \<open>
  The upstream client beyond \<open>kube\<close>, and the downstream one. \<open>CreateOrPatch\<close> of controllerutil takes
  the create call of the client it is given, the key and the function that brings the object into the
  desired state; that function may itself talk to the cluster.
\<close>

record 'u up_client =
  uc_getNamespace :: "'u \<Rightarrow> string \<Rightarrow> 'u \<times> (go_error + Namespace)"
  uc_createRecordSet :: "'u \<Rightarrow> DNSRecordSet \<Rightarrow> 'u \<times> err"
  uc_listDomains :: "'u \<Rightarrow> string \<Rightarrow> 'u \<times> (go_error + Domain list)"
  uc_listDomainsByName :: "'u \<Rightarrow> string \<Rightarrow> string \<Rightarrow> 'u \<times> (go_error + Domain list)"
  uc_createDomain :: "'u \<Rightarrow> string \<Rightarrow> Domain \<Rightarrow> 'u \<times> err"
  uc_setControllerReference :: "ObjectMeta \<Rightarrow> OwnerReference list \<Rightarrow> go_error + OwnerReference list"
  uc_verified :: "Condition list \<Rightarrow> bool"
  uc_gvkForKind :: "string \<Rightarrow> go_error + string \<times> string"

record 'd down_client =
  dc_isNotFound :: "go_error \<Rightarrow> bool"
  dc_isAlreadyExists :: "go_error \<Rightarrow> bool"
  dc_isForbidden :: "go_error \<Rightarrow> bool"
  dc_namespaceTerminating :: "go_error \<Rightarrow> bool"
  dc_getNamespace :: "'d \<Rightarrow> string \<Rightarrow> 'd \<times> (go_error + Namespace)"
  dc_createNamespace :: "'d \<Rightarrow> string \<Rightarrow> 'd \<times> err"
  dc_createOrUpdateNamespace :: "'d \<Rightarrow> string \<Rightarrow> ((string \<times> string) list \<Rightarrow> (string \<times> string) list) \<Rightarrow> 'd \<times> err"
  dc_getConfigMap :: "'d \<Rightarrow> string \<times> string \<Rightarrow> 'd \<times> (go_error + ConfigMap)"
  dc_createConfigMap :: "'d \<Rightarrow> ConfigMap \<Rightarrow> 'd \<times> (go_error + ConfigMap)"
  dc_patchConfigMap :: "'d \<Rightarrow> ConfigMap \<Rightarrow> ConfigMap \<Rightarrow> 'd \<times> err"
  dc_deleteConfigMap :: "'d \<Rightarrow> ConfigMap \<Rightarrow> 'd \<times> err"
  dc_getZone :: "'d \<Rightarrow> string \<times> string \<Rightarrow> 'd \<times> (go_error + DNSZone)"
  dc_createZone :: "'d \<Rightarrow> DNSZone \<Rightarrow> 'd \<times> err"
  dc_createOrPatchZone :: "('d \<Rightarrow> DNSZone \<Rightarrow> 'd \<times> err) \<Rightarrow> 'd \<Rightarrow> string \<times> string \<Rightarrow>
     ('d \<Rightarrow> DNSZone \<Rightarrow> 'd \<times> (go_error + DNSZone)) \<Rightarrow> 'd \<times> operation \<times> err"
  dc_getRecordSet :: "'d \<Rightarrow> string \<times> string \<Rightarrow> 'd \<times> (go_error + DNSRecordSet)"
  dc_createRecordSet :: "'d \<Rightarrow> DNSRecordSet \<Rightarrow> 'd \<times> err"
  dc_createOrPatchRecordSet :: "('d \<Rightarrow> DNSRecordSet \<Rightarrow> 'd \<times> err) \<Rightarrow> 'd \<Rightarrow> string \<times> string \<Rightarrow>
     ('d \<Rightarrow> DNSRecordSet \<Rightarrow> 'd \<times> (go_error + DNSRecordSet)) \<Rightarrow> 'd \<times> operation \<times> err"
  dc_deleteRecordSet :: "'d \<Rightarrow> DNSRecordSet \<Rightarrow> 'd \<times> err"
  dc_setOwnerReference :: "ObjectMeta \<Rightarrow> OwnerReference list \<Rightarrow> go_error + OwnerReference list"

text \<open>What a replicator does, in order. A read of a mirror that fails is noted with the error.\<close>

datatype repl_event =
    UpPatchedRecordSet DNSRecordSet DNSRecordSet
  | UpPatchedRecordSetStatus DNSRecordSet DNSRecordSet
  | UpPatchedZone DNSZone DNSZone
  | UpPatchedZoneStatus DNSZone DNSZone
  | UpCreatedRecordSet DNSRecordSet err
  | UpCreatedDomain string err
  | ListedDomains string "Domain list"
  | ReadZone "string \<times> string" "go_error + DNSZone"
  | MirroredZone "string \<times> string" DNSZone err
  | MirroredRecordSet "string \<times> string" DNSRecordSet err
  | ReadMirrorZone "string \<times> string" "go_error + DNSZone"
  | ReadMirrorRecordSet "string \<times> string" "go_error + DNSRecordSet"
  | DeletedMirrorRecordSet DNSRecordSet err
  | DroppedAnchor ObjectMeta err
  | ClaimedDomain string string "go_error + bool"
  | FreedDomain string string err
  | Emitted string string string

record ('u, 'd) replica =
  rp_up :: 'u
  rp_down :: 'd
  rp_log :: "repl_event list"

record repl_result =
  rr_after :: int
  rr_err :: err

definition replDone :: "('u, 'd) replica \<Rightarrow> ('u, 'd) replica \<times> repl_result" where
  "replDone st = (st, \<lparr>rr_after = 0, rr_err = None\<rparr>)"

definition replFail :: "('u, 'd) replica \<Rightarrow> err \<Rightarrow> ('u, 'd) replica \<times> repl_result" where
  "replFail st e = (st, \<lparr>rr_after = 0, rr_err = e\<rparr>)"

definition replAfter :: "('u, 'd) replica \<Rightarrow> int \<Rightarrow> ('u, 'd) replica \<times> repl_result" where
  "replAfter st seconds = (st, \<lparr>rr_after = seconds, rr_err = None\<rparr>)"

definition logged :: "repl_event \<Rightarrow> ('u, 'd) replica \<Rightarrow> ('u, 'd) replica" where
  "logged ev st = st\<lparr>rp_log := rp_log st @ [ev]\<rparr>"

lemmas repl_result_defs = replDone_def replFail_def replAfter_def

definition upstreamRecordSet :: "'u kube \<Rightarrow> ('u, 'd) replica \<Rightarrow> string \<times> string \<Rightarrow> ('u, 'd) replica \<times> (go_error + DNSRecordSet)" where
  "upstreamRecordSet kb st key = (case kb_getRecordSet kb (rp_up st) key of (u, r) \<Rightarrow> (st\<lparr>rp_up := u\<rparr>, r))"

definition upstreamZone :: "'u kube \<Rightarrow> ('u, 'd) replica \<Rightarrow> string \<times> string \<Rightarrow> ('u, 'd) replica \<times> (go_error + DNSZone)" where
  "upstreamZone kb st key =
     (case kb_getZone kb (rp_up st) key of (u, r) \<Rightarrow> (logged (ReadZone key r) (st\<lparr>rp_up := u\<rparr>), r))"

definition upPatchRecordSet :: "'u kube \<Rightarrow> ('u, 'd) replica \<Rightarrow> DNSRecordSet \<Rightarrow> DNSRecordSet \<Rightarrow> ('u, 'd) replica \<times> (go_error + DNSRecordSet)" where
  "upPatchRecordSet kb st base new =
     (case kb_patchRecordSet kb (rp_up st) base new of
        (u, r) \<Rightarrow> (logged (UpPatchedRecordSet base new) (st\<lparr>rp_up := u\<rparr>), r))"

definition upPatchRecordSetStatus :: "'u kube \<Rightarrow> ('u, 'd) replica \<Rightarrow> DNSRecordSet \<Rightarrow> DNSRecordSet \<Rightarrow> ('u, 'd) replica \<times> (go_error + DNSRecordSet)" where
  "upPatchRecordSetStatus kb st base new =
     (case kb_patchRecordSetStatus kb (rp_up st) base new of
        (u, r) \<Rightarrow> (logged (UpPatchedRecordSetStatus base new) (st\<lparr>rp_up := u\<rparr>), r))"

definition upPatchZone :: "'u kube \<Rightarrow> ('u, 'd) replica \<Rightarrow> DNSZone \<Rightarrow> DNSZone \<Rightarrow> ('u, 'd) replica \<times> (go_error + DNSZone)" where
  "upPatchZone kb st base new =
     (case kb_patchZone kb (rp_up st) base new of
        (u, r) \<Rightarrow> (logged (UpPatchedZone base new) (st\<lparr>rp_up := u\<rparr>), r))"

definition upPatchZoneStatus :: "'u kube \<Rightarrow> ('u, 'd) replica \<Rightarrow> DNSZone \<Rightarrow> DNSZone \<Rightarrow> ('u, 'd) replica \<times> (go_error + DNSZone)" where
  "upPatchZoneStatus kb st base new =
     (case kb_patchZoneStatus kb (rp_up st) base new of
        (u, r) \<Rightarrow> (logged (UpPatchedZoneStatus base new) (st\<lparr>rp_up := u\<rparr>), r))"

definition mirrorRecordSetAt :: "'d down_client \<Rightarrow> ('u, 'd) replica \<Rightarrow> string \<times> string \<Rightarrow> ('u, 'd) replica \<times> (go_error + DNSRecordSet)" where
  "mirrorRecordSetAt dc st key =
     (case dc_getRecordSet dc (rp_down st) key of (d, r) \<Rightarrow> (logged (ReadMirrorRecordSet key r) (st\<lparr>rp_down := d\<rparr>), r))"

definition mirrorZoneAt :: "'d down_client \<Rightarrow> ('u, 'd) replica \<Rightarrow> string \<times> string \<Rightarrow> ('u, 'd) replica \<times> (go_error + DNSZone)" where
  "mirrorZoneAt dc st key =
     (case dc_getZone dc (rp_down st) key of (d, r) \<Rightarrow> (logged (ReadMirrorZone key r) (st\<lparr>rp_down := d\<rparr>), r))"

subsection \<open>A cluster that is not there\<close>

definition unregisteredClusterRequeueAfter :: int where "unregisteredClusterRequeueAfter = 10"

text \<open>\<open>notFound\<close> is whether the error is \<^verbatim>\<open>multicluster.ErrClusterNotFound\<close>, \<open>synced\<close> what the provider
  says of itself, if it says anything.\<close>

definition getClusterErrorResult :: "bool \<Rightarrow> bool option \<Rightarrow> ('u, 'd) replica \<Rightarrow> go_error \<Rightarrow> ('u, 'd) replica \<times> repl_result" where
  "getClusterErrorResult notFound synced st e =
     (if \<not> notFound then replFail st (Some e)
      else case synced of
        None \<Rightarrow> replFail st (Some e)
      | Some True \<Rightarrow> replFail st (Some e)
      | Some False \<Rightarrow> replAfter st unregisteredClusterRequeueAfter)"

subsection \<open>Termination\<close>

definition errDownstreamTerminating :: go_error where
  "errDownstreamTerminating = PlainError ''downstream resource or namespace is terminating''"

definition checkDownstreamNamespace :: "'d down_client \<Rightarrow> 'd \<Rightarrow> string \<Rightarrow> 'd \<times> err" where
  "checkDownstreamNamespace dc d name =
     (case dc_getNamespace dc d name of
        (d, Inl e) \<Rightarrow> if \<not> dc_isNotFound dc e then (d, Some e) else (d, None)
      | (d, Inr namespace) \<Rightarrow> if ns_deleted namespace \<noteq> None then (d, Some errDownstreamTerminating) else (d, None))"

definition downstreamTerminationError :: "'d down_client \<Rightarrow> go_error \<Rightarrow> go_error" where
  "downstreamTerminationError dc e =
     (if dc_isForbidden dc e \<and> dc_namespaceTerminating dc e then errDownstreamTerminating else e)"

subsection \<open>The mapped namespace\<close>

definition UpstreamOwnerClusterNameAnnotation :: string where
  "UpstreamOwnerClusterNameAnnotation = ''meta.datumapis.com/upstream-cluster-name''"
definition UpstreamOwnerGroupAnnotation :: string where
  "UpstreamOwnerGroupAnnotation = ''meta.datumapis.com/upstream-group''"
definition UpstreamOwnerKindAnnotation :: string where
  "UpstreamOwnerKindAnnotation = ''meta.datumapis.com/upstream-kind''"
definition UpstreamOwnerNameAnnotation :: string where
  "UpstreamOwnerNameAnnotation = ''meta.datumapis.com/upstream-name''"
definition UpstreamOwnerNamespaceAnnotation :: string where
  "UpstreamOwnerNamespaceAnnotation = ''meta.datumapis.com/upstream-namespace''"

lemmas owner_annotation_defs =
  UpstreamOwnerClusterNameAnnotation_def UpstreamOwnerGroupAnnotation_def UpstreamOwnerKindAnnotation_def
  UpstreamOwnerNameAnnotation_def UpstreamOwnerNamespaceAnnotation_def

text \<open>\<^verbatim>\<open>strings.ReplaceAll\<close> of one byte by another.\<close>

definition replaceByte :: "char \<Rightarrow> char \<Rightarrow> string \<Rightarrow> string" where
  "replaceByte a b s = map (\<lambda>c. if c = a then b else c) s"

definition encodedCluster :: "string \<Rightarrow> string" where
  "encodedCluster clusterName = ''cluster-'' @ replaceByte (CHR ''/'') (CHR ''_'') clusterName"

definition annotationIn :: "(string \<times> string) list \<Rightarrow> string \<Rightarrow> string" where
  "annotationIn as key = (case map_of as key of Some v \<Rightarrow> v | None \<Rightarrow> [])"

definition wrapf :: "string \<Rightarrow> go_error \<Rightarrow> go_error" where
  "wrapf msg e = WrappedError (msg @ '': '' @ error_text e) (Some e)"

text \<open>Where the mirror of an object lives: its own name, in the namespace named by the UID of its
  namespace.\<close>

definition ObjectMetaFromUpstreamObject ::
  "'u up_client \<Rightarrow> 'u \<Rightarrow> ObjectMeta \<Rightarrow> 'u \<times> (go_error + (string \<times> string) \<times> (string \<times> string) list)" where
  "ObjectMetaFromUpstreamObject uc u obj =
     (case uc_getNamespace uc u (m_namespace obj) of
        (u, Inl e) \<Rightarrow> (u, Inl (wrapf ''failed to get downstream namespace name''
           (wrapf ''failed to get downstream namespace'' (wrapf ''failed to get upstream namespace'' e))))
      | (u, Inr namespace) \<Rightarrow>
          (u, Inr ((''ns-'' @ ns_uid namespace, m_name obj), [(UpstreamOwnerNamespaceAnnotation, m_namespace obj)])))"

definition ensureDownstreamNamespace ::
  "'d down_client \<Rightarrow> string \<Rightarrow> 'd \<Rightarrow> string \<Rightarrow> (string \<times> string) list \<Rightarrow> 'd \<times> err" where
  "ensureDownstreamNamespace dc clusterName d namespace annotations =
     (case dc_createOrUpdateNamespace dc d namespace (\<lambda>as.
         let as = AList.update UpstreamOwnerClusterNameAnnotation (encodedCluster clusterName) as in
         case map_of annotations UpstreamOwnerNamespaceAnnotation of
           Some v \<Rightarrow> AList.update UpstreamOwnerNamespaceAnnotation v as | None \<Rightarrow> as) of
        (d, None) \<Rightarrow> (d, None)
      | (d, Some e) \<Rightarrow> (d, Some (wrapf ''failed to ensure downstream namespace'' e)))"

text \<open>\<^verbatim>\<open>mappedNamespaceClient.Create\<close>, for the objects the replicators create through it.\<close>

definition mappedCreate ::
  "'d down_client \<Rightarrow> string \<Rightarrow> ('a \<Rightarrow> ObjectMeta) \<Rightarrow> ('d \<Rightarrow> 'a \<Rightarrow> 'd \<times> err) \<Rightarrow> 'd \<Rightarrow> 'a \<Rightarrow> 'd \<times> err" where
  "mappedCreate dc clusterName meta create d obj =
     (case ensureDownstreamNamespace dc clusterName d (m_namespace (meta obj)) (m_annotations (meta obj)) of
        (d, Some e) \<Rightarrow> (d, Some (wrapf ''failed to ensure downstream namespace'' e))
      | (d, None) \<Rightarrow> create d obj)"

definition emptyMeta :: ObjectMeta where
  "emptyMeta = \<lparr>m_namespace = [], m_name = [], m_uid = [], m_generation = 0, m_created = - 62135596800,
     m_deleted = None, m_finalizers = [], m_labels = [], m_annotations = [], m_ownerRefs = []\<rparr>"

definition anchorName :: "ObjectMeta \<Rightarrow> string" where
  "anchorName owner = ''anchor-'' @ m_uid owner"

definition anchorAnnotations :: "string \<Rightarrow> string \<times> string \<Rightarrow> ObjectMeta \<Rightarrow> (string \<times> string) list" where
  "anchorAnnotations clusterName gvk owner =
     [(UpstreamOwnerClusterNameAnnotation, encodedCluster clusterName), (UpstreamOwnerGroupAnnotation, fst gvk),
      (UpstreamOwnerKindAnnotation, snd gvk), (UpstreamOwnerNameAnnotation, m_name owner),
      (UpstreamOwnerNamespaceAnnotation, m_namespace owner)]"

text \<open>The anchor of an owner, created when there is none.\<close>

definition ensureAnchor ::
  "'d down_client \<Rightarrow> string \<Rightarrow> 'd \<Rightarrow> string \<Rightarrow> ObjectMeta \<Rightarrow> (string \<times> string) list \<Rightarrow> 'd \<times> (go_error + ConfigMap)" where
  "ensureAnchor dc clusterName d namespace owner annotations =
     (let fresh = \<lparr>cm_meta = emptyMeta\<lparr>m_namespace := namespace, m_name := anchorName owner, m_annotations := annotations\<rparr>,
            cm_data = []\<rparr>;
          make = (\<lambda>d. case ensureDownstreamNamespace dc clusterName d namespace annotations of
              (d, Some e) \<Rightarrow> (d, Inl (wrapf ''failed creating anchor configmap'' (wrapf ''failed to ensure downstream namespace'' e)))
            | (d, None) \<Rightarrow>
                (case dc_createConfigMap dc d fresh of
                   (d, Inl e) \<Rightarrow> (d, Inl (wrapf ''failed creating anchor configmap'' e))
                 | (d, Inr cm) \<Rightarrow> (d, Inr cm))) in
      case dc_getConfigMap dc d (namespace, anchorName owner) of
        (d, Inl e) \<Rightarrow> if \<not> dc_isNotFound dc e then (d, Inl (wrapf ''failed listing configmaps'' e)) else make d
      | (d, Inr cm) \<Rightarrow> if m_created (cm_meta cm) = m_created emptyMeta then make d else (d, Inr cm))"

definition SetControllerReference ::
  "'u up_client \<Rightarrow> 'd down_client \<Rightarrow> string \<Rightarrow> string \<Rightarrow> 'd \<Rightarrow> ObjectMeta \<Rightarrow> ObjectMeta \<Rightarrow> 'd \<times> (go_error + ObjectMeta)" where
  "SetControllerReference uc dc clusterName kind d owner controlled =
     (if m_namespace owner = [] \<or> m_namespace controlled = []
      then (d, Inl (PlainError ''cluster scoped resource controllers are not supported''))
      else case uc_gvkForKind uc kind of
        Inl e \<Rightarrow> (d, Inl e)
      | Inr gvk \<Rightarrow>
          let annotations = anchorAnnotations clusterName gvk owner in
          case ensureAnchor dc clusterName d (m_namespace controlled) owner annotations of
            (d, Inl e) \<Rightarrow> (d, Inl e)
          | (d, Inr anchor) \<Rightarrow>
              (case dc_setOwnerReference dc (cm_meta anchor) (m_ownerRefs controlled) of
                 Inl e \<Rightarrow> (d, Inl (wrapf ''failed setting anchor owner reference'' e))
               | Inr refs \<Rightarrow>
                   (d, Inr (controlled\<lparr>m_ownerRefs := refs,
                      m_annotations := foldl (\<lambda>as (k, v). AList.update k v as) (m_annotations controlled) annotations\<rparr>))))"

definition DeleteAnchorForObject ::
  "'u up_client \<Rightarrow> 'd down_client \<Rightarrow> ('u, 'd) replica \<Rightarrow> ObjectMeta \<Rightarrow> ('u, 'd) replica \<times> err" where
  "DeleteAnchorForObject uc dc st owner =
     (case ObjectMetaFromUpstreamObject uc (rp_up st) owner of
        (u, Inl e) \<Rightarrow> let e = wrapf ''failed to get downstream object metadata'' e in
           (logged (DroppedAnchor owner (Some e)) (st\<lparr>rp_up := u\<rparr>), Some e)
      | (u, Inr (key, _)) \<Rightarrow>
          (case dc_getConfigMap dc (rp_down st) (fst key, anchorName owner) of
             (d, Inl e) \<Rightarrow>
               let r = (if dc_isNotFound dc e then None else Some (wrapf ''failed listing configmaps'' e)) in
               (logged (DroppedAnchor owner r) (st\<lparr>rp_up := u, rp_down := d\<rparr>), r)
           | (d, Inr cm) \<Rightarrow>
               (case dc_deleteConfigMap dc d cm of
                  (d, r) \<Rightarrow> (logged (DroppedAnchor owner r) (st\<lparr>rp_up := u, rp_down := d\<rparr>), r))))"

subsection \<open>Events of a mirror wake the original\<close>

record upstream_request =
  ur_cluster :: string
  ur_namespace :: string
  ur_name :: string

definition TrimPrefix :: "string \<Rightarrow> string \<Rightarrow> string" where
  "TrimPrefix s p = (if HasPrefix s p then drop (length p) s else s)"

definition upstreamClusterName :: "string \<Rightarrow> string" where
  "upstreamClusterName encoded =
     TrimPrefix (replaceByte (CHR ''_'') (CHR ''/'') (TrimPrefix encoded ''cluster-'')) ''/''"

definition upstreamOwnerMeta :: "ObjectMeta \<Rightarrow> (string \<times> string) list" where
  "upstreamOwnerMeta obj =
     (if annotationIn (m_annotations obj) UpstreamOwnerKindAnnotation \<noteq> [] then m_annotations obj
      else if annotationIn (m_labels obj) UpstreamOwnerKindAnnotation \<noteq> [] then m_labels obj
      else [])"

definition getOwnerReconcileRequest :: "string \<times> string \<Rightarrow> ObjectMeta \<Rightarrow> upstream_request option" where
  "getOwnerReconcileRequest groupKind obj =
     (let meta = upstreamOwnerMeta obj in
      if annotationIn meta UpstreamOwnerKindAnnotation = snd groupKind \<and> annotationIn meta UpstreamOwnerGroupAnnotation = fst groupKind
      then Some \<lparr>ur_cluster = upstreamClusterName (annotationIn meta UpstreamOwnerClusterNameAnnotation),
             ur_namespace = annotationIn meta UpstreamOwnerNamespaceAnnotation,
             ur_name = annotationIn meta UpstreamOwnerNameAnnotation\<rparr>
      else None)"

definition newEvents :: "('u, 'd) replica \<Rightarrow> ('u, 'd) replica \<Rightarrow> repl_event list" where
  "newEvents st st' = drop (length (rp_log st)) (rp_log st')"

section \<open>Lemmas\<close>

lemma newEvents_append [simp]: "rp_log st' = rp_log st @ evs \<Longrightarrow> newEvents st st' = evs"
  by (simp add: newEvents_def)

lemma logged_simps [simp]:
  "rp_log (logged ev st) = rp_log st @ [ev]" "rp_up (logged ev st) = rp_up st" "rp_down (logged ev st) = rp_down st"
  by (simp_all add: logged_def)

lemma map_of_updates:
  assumes "distinct (map fst kvs)"
  shows "map_of (foldl (\<lambda>as (k, v). AList.update k v as) as kvs) key
    = (case map_of kvs key of Some v \<Rightarrow> Some v | None \<Rightarrow> map_of as key)"
  using assms
proof (induction kvs arbitrary: as)
  case (Cons kv kvs)
  obtain k v where kv: "kv = (k, v)" by fastforce
  have "map_of kvs k = None" using Cons.prems kv by (simp add: map_of_eq_None_iff)
  with Cons kv show ?case by (auto simp: map_of_update split: option.split)
qed simp

lemma TrimPrefix_append [simp]: "TrimPrefix (p @ s) p = s"
  by (simp add: TrimPrefix_def HasPrefix_append)

lemma upstreamClusterName_encoded:
  assumes "CHR ''_'' \<notin> set clusterName" and "\<not> HasPrefix clusterName ''/''"
  shows "upstreamClusterName (encodedCluster clusterName) = clusterName"
proof -
  have "replaceByte (CHR ''_'') (CHR ''/'') (replaceByte (CHR ''/'') (CHR ''_'') clusterName) = clusterName"
    using assms(1) by (induction clusterName) (auto simp: replaceByte_def)
  then show ?thesis using assms(2) unfolding upstreamClusterName_def encodedCluster_def TrimPrefix_append
    by (simp add: TrimPrefix_def)
qed

text \<open>C31: A change of a mirror wakes its original.  Whatever the mirror's metadata was before, once
  \<^const>\<open>SetControllerReference\<close> has succeeded the request that an event of the mirror gives is the
  cluster, namespace and name of the owner, for a cluster name that has no underscore and does not
  begin with a slash.\<close>

theorem mirror_wakes_owner:
  assumes "SetControllerReference uc dc clusterName kind d owner controlled = (d', Inr meta)"
    and "uc_gvkForKind uc kind = Inr gvk" and "snd gvk \<noteq> []"
    and "CHR ''_'' \<notin> set clusterName" and "\<not> HasPrefix clusterName ''/''"
  shows "getOwnerReconcileRequest gvk meta
    = Some \<lparr>ur_cluster = clusterName, ur_namespace = m_namespace owner, ur_name = m_name owner\<rparr>"
proof -
  have dist: "distinct (map fst (anchorAnnotations clusterName gvk owner))"
    by (simp add: anchorAnnotations_def owner_annotation_defs)
  have "m_annotations meta = foldl (\<lambda>as (k, v). AList.update k v as) (m_annotations controlled) (anchorAnnotations clusterName gvk owner)"
    using assms(1,2) by (auto simp: SetControllerReference_def Let_def split: if_splits prod.splits sum.splits)
  then have "annotationIn (m_annotations meta) key = (case map_of (anchorAnnotations clusterName gvk owner) key of
      Some v \<Rightarrow> v | None \<Rightarrow> annotationIn (m_annotations controlled) key)" for key
    by (simp add: annotationIn_def map_of_updates [OF dist] split: option.split)
  then show ?thesis using assms(3) upstreamClusterName_encoded [OF assms(4,5)]
    by (simp add: getOwnerReconcileRequest_def upstreamOwnerMeta_def Let_def anchorAnnotations_def owner_annotation_defs)
qed

text \<open>Clusters that hold still: the upstream one answers with the given domains, the downstream one
  with the given mirrors and configuration maps, and writes are accepted.\<close>

definition found :: "'a option \<Rightarrow> go_error + 'a" where
  "found r = (case r of Some x \<Rightarrow> Inr x | None \<Rightarrow> Inl errNotFound)"

definition stillUp :: "Domain list \<Rightarrow> unit up_client" where
  "stillUp domains = \<lparr>uc_getNamespace = (\<lambda>u _. (u, Inr \<lparr>ns_uid = ''42'', ns_deleted = None\<rparr>)),
     uc_createRecordSet = (\<lambda>u _. (u, None)), uc_listDomains = (\<lambda>u _. (u, Inr domains)),
     uc_listDomainsByName = (\<lambda>u _ name. (u, Inr (filter (\<lambda>d. dm_domainName d = name) domains))),
     uc_createDomain = (\<lambda>u _ _. (u, None)), uc_setControllerReference = (\<lambda>m refs. Inr (\<lparr>owr_uid = m_uid m, owr_controller = True\<rparr> # refs)),
     uc_verified = list_ex (\<lambda>c. c_type c = ''Verified'' \<and> c_status c = ConditionTrue),
     uc_gvkForKind = (\<lambda>kind. Inr (''dns.networking.miloapis.com'', kind))\<rparr>"

definition zoneAt :: "string \<times> string \<Rightarrow> DNSZone" where
  "zoneAt key = \<lparr>z_meta = emptyMeta\<lparr>m_namespace := fst key, m_name := snd key\<rparr>, z_domainName = [], z_className = [],
     z_visibility = VisibilityPublic, z_nameservers = [], z_recordCount = 0, z_conditions = [], z_domainRef = None\<rparr>"

definition recordSetAt :: "string \<times> string \<Rightarrow> DNSRecordSet" where
  "recordSetAt key = \<lparr>rs_meta = emptyMeta\<lparr>m_namespace := fst key, m_name := snd key\<rparr>, rs_zoneRef = [], rs_recordType = [],
     rs_records = [], rs_conditions = [], rs_recordSets = []\<rparr>"

definition createOrPatch :: "('d \<Rightarrow> 'a \<Rightarrow> 'd \<times> err) \<Rightarrow> 'a \<Rightarrow> 'a option \<Rightarrow> 'd \<Rightarrow> ('d \<Rightarrow> 'a \<Rightarrow> 'd \<times> (go_error + 'a)) \<Rightarrow> 'd \<times> operation \<times> err" where
  "createOrPatch create fresh held d mutate =
     (case held of
        Some x \<Rightarrow> (case mutate d x of (d, Inl e) \<Rightarrow> (d, OperationNone, Some e) | (d, Inr _) \<Rightarrow> (d, OperationUpdated, None))
      | None \<Rightarrow> (case mutate d fresh of
            (d, Inl e) \<Rightarrow> (d, OperationNone, Some e)
          | (d, Inr x) \<Rightarrow> (case create d x of (d, Some e) \<Rightarrow> (d, OperationNone, Some e) | (d, None) \<Rightarrow> (d, OperationCreated, None))))"

definition quietDown :: "DNSZone option \<Rightarrow> DNSRecordSet option \<Rightarrow> ConfigMap option \<Rightarrow> 'd down_client" where
  "quietDown zone rs cm = \<lparr>dc_isNotFound = (\<lambda>e. e = errNotFound), dc_isAlreadyExists = (\<lambda>_. False), dc_isForbidden = (\<lambda>_. False),
     dc_namespaceTerminating = (\<lambda>_. False), dc_getNamespace = (\<lambda>d _. (d, Inr \<lparr>ns_uid = ''7'', ns_deleted = None\<rparr>)),
     dc_createNamespace = (\<lambda>d _. (d, None)), dc_createOrUpdateNamespace = (\<lambda>d _ _. (d, None)),
     dc_getConfigMap = (\<lambda>d _. (d, found cm)), dc_createConfigMap = (\<lambda>d c. (d, Inr c)), dc_patchConfigMap = (\<lambda>d _ _. (d, None)),
     dc_deleteConfigMap = (\<lambda>d _. (d, None)), dc_getZone = (\<lambda>d _. (d, found zone)), dc_createZone = (\<lambda>d _. (d, None)),
     dc_createOrPatchZone = (\<lambda>create d key mutate. createOrPatch create (zoneAt key) zone d mutate),
     dc_getRecordSet = (\<lambda>d _. (d, found rs)), dc_createRecordSet = (\<lambda>d _. (d, None)),
     dc_createOrPatchRecordSet = (\<lambda>create d key mutate. createOrPatch create (recordSetAt key) rs d mutate),
     dc_deleteRecordSet = (\<lambda>d _. (d, None)), dc_setOwnerReference = (\<lambda>m refs. Inr (\<lparr>owr_uid = m_uid m, owr_controller = False\<rparr> # refs))\<rparr>"

abbreviation stillDown :: "DNSZone option \<Rightarrow> DNSRecordSet option \<Rightarrow> ConfigMap option \<Rightarrow> unit down_client" where
  "stillDown \<equiv> quietDown"

definition metaNamed :: "string \<Rightarrow> string \<Rightarrow> ObjectMeta" where
  "metaNamed namespace name = emptyMeta\<lparr>m_namespace := namespace, m_name := name, m_uid := ''u1''\<rparr>"

theorem mirror_wakes_owner_witness:
  "case SetControllerReference (stillUp []) (stillDown None None None) ''org/project'' ''DNSZone'' ()
      (metaNamed ''default'' ''shop'') (metaNamed ''ns-42'' ''shop'') of
     (_, Inr meta) \<Rightarrow> getOwnerReconcileRequest (''dns.networking.miloapis.com'', ''DNSZone'') meta
       = Some \<lparr>ur_cluster = ''org/project'', ur_namespace = ''default'', ur_name = ''shop''\<rparr>
   | _ \<Rightarrow> False"
proof -
  let ?run = "SetControllerReference (stillUp []) (stillDown None None None) ''org/project'' ''DNSZone'' ()
      (metaNamed ''default'' ''shop'') (metaNamed ''ns-42'' ''shop'')"
  have "case ?run of (_, Inr _) \<Rightarrow> True | _ \<Rightarrow> False" by code_simp
  then obtain d meta where run: "?run = (d, Inr meta)" by (auto split: prod.splits sum.splits)
  have "getOwnerReconcileRequest (''dns.networking.miloapis.com'', ''DNSZone'') meta
      = Some \<lparr>ur_cluster = ''org/project'', ur_namespace = m_namespace (metaNamed ''default'' ''shop''),
          ur_name = m_name (metaNamed ''default'' ''shop'')\<rparr>"
    by (rule mirror_wakes_owner [OF run]) (simp_all add: stillUp_def)
  then show ?thesis unfolding run by (simp add: metaNamed_def)
qed

end
