(* ===== verification/RecordSet_Replicator.thy ===== *)
theory RecordSet_Replicator
  imports Downstream
begin

text \<open>
  The controller that mirrors record sets into the downstream cluster
  (\<^verbatim>\<open>internal/controller/dnsrecordset_replicator_controller.go\<close>): deletion of the mirror before the
  original is let go, the gate on the zone, the mirror itself, and the status copied back. The
  wording of the activity events is left out but for their reason and note
  (\<^verbatim>\<open>internal/controller/events.go\<close>).
\<close>

section \<open>Definitions\<close>

definition rsFinalizer :: string where
  "rsFinalizer = ''dns.networking.miloapis.com/finalize-dnsrecordset''"

definition EventReasonRecordSetProgrammed :: string where "EventReasonRecordSetProgrammed = ''RecordSetProgrammed''"
definition EventReasonRecordSetProgrammingFailed :: string where
  "EventReasonRecordSetProgrammingFailed = ''RecordSetProgrammingFailed''"

definition programmedConditionTransitioned :: "Condition option \<Rightarrow> Condition option \<Rightarrow> bool" where
  "programmedConditionTransitioned prev cur =
     (case cur of
        None \<Rightarrow> False
      | Some c \<Rightarrow>
          if c_status c = ConditionTrue then
            (let prevStatus = (case prev of Some p \<Rightarrow> c_status p | None \<Rightarrow> ConditionFalse) in prevStatus \<noteq> ConditionTrue)
          else if c_status c = ConditionFalse then
            (case prev of Some p \<Rightarrow> c_status p = ConditionTrue | None \<Rightarrow> False)
          else False)"

subsection \<open>Deletion\<close>

definition releaseUpstream :: "'u kube \<Rightarrow> ('u, 'd) replica \<Rightarrow> DNSRecordSet \<Rightarrow> ('u, 'd) replica \<times> bool \<times> err" where
  "releaseUpstream kb st upstream =
     (let new = upstream\<lparr>rs_meta := (rs_meta upstream)\<lparr>m_finalizers :=
            kb_removeFinalizer kb (m_finalizers (rs_meta upstream)) rsFinalizer\<rparr>\<rparr> in
      case upPatchRecordSet kb st upstream new of
        (st, Inl e) \<Rightarrow> (st, False, Some e)
      | (st, Inr _) \<Rightarrow> (st, True, None))"

definition handleDeletion ::
  "'u kube \<Rightarrow> 'u up_client \<Rightarrow> 'd down_client \<Rightarrow> ('u, 'd) replica \<Rightarrow> DNSRecordSet \<Rightarrow> ('u, 'd) replica \<times> bool \<times> err" where
  "handleDeletion kb uc dc st upstream =
     (if \<not> kb_containsFinalizer kb (m_finalizers (rs_meta upstream)) rsFinalizer then (st, True, None)
      else case ObjectMetaFromUpstreamObject uc (rp_up st) (rs_meta upstream) of
        (u, Inl e) \<Rightarrow> (st\<lparr>rp_up := u\<rparr>, False, Some e)
      | (u, Inr (key, _)) \<Rightarrow>
          (case mirrorRecordSetAt dc (st\<lparr>rp_up := u\<rparr>) key of
             (st, Inl getErr) \<Rightarrow>
               if dc_isNotFound dc getErr then
                 (case DeleteAnchorForObject uc dc st (rs_meta upstream) of
                    (st, Some e) \<Rightarrow> (st, False, Some e)
                  | (st, None) \<Rightarrow> releaseUpstream kb st upstream)
               else (st, False, Some getErr)
           | (st, Inr shadow) \<Rightarrow>
               if m_deleted (rs_meta shadow) = None then
                 (case dc_deleteRecordSet dc (rp_down st) shadow of
                    (d, r) \<Rightarrow>
                      let st = logged (DeletedMirrorRecordSet shadow r) (st\<lparr>rp_down := d\<rparr>) in
                      (case r of
                         Some e \<Rightarrow> if \<not> dc_isNotFound dc e then (st, False, Some e) else (st, False, None)
                       | None \<Rightarrow> (st, False, None)))
               else (st, False, None)))"

subsection \<open>The mirror\<close>

definition sameSpec :: "DNSRecordSet \<Rightarrow> DNSRecordSet \<Rightarrow> bool" where
  "sameSpec a b \<longleftrightarrow> rs_zoneRef a = rs_zoneRef b \<and> rs_recordType a = rs_recordType b \<and> rs_records a = rs_records b"

definition withSpec :: "DNSRecordSet \<Rightarrow> DNSRecordSet \<Rightarrow> DNSRecordSet" where
  "withSpec rs from = rs\<lparr>rs_zoneRef := rs_zoneRef from, rs_recordType := rs_recordType from, rs_records := rs_records from\<rparr>"

definition mutateRecordSet ::
  "'u up_client \<Rightarrow> 'd down_client \<Rightarrow> string \<Rightarrow> DNSRecordSet \<Rightarrow> (string \<times> string) list \<Rightarrow> 'd \<Rightarrow> DNSRecordSet \<Rightarrow> 'd \<times> (go_error + DNSRecordSet)" where
  "mutateRecordSet uc dc clusterName upstream annotations d shadow =
     (if m_deleted (rs_meta shadow) \<noteq> None then (d, Inl errDownstreamTerminating)
      else
        let shadow = shadow\<lparr>rs_meta := (rs_meta shadow)\<lparr>m_annotations := annotations\<rparr>\<rparr>;
            shadow = (if \<not> sameSpec shadow upstream then withSpec shadow upstream else shadow) in
        case SetControllerReference uc dc clusterName ''DNSRecordSet'' d (rs_meta upstream) (rs_meta shadow) of
          (d, Inl e) \<Rightarrow> (d, Inl e)
        | (d, Inr meta) \<Rightarrow> (d, Inr (shadow\<lparr>rs_meta := meta\<rparr>)))"

definition ensureDownstreamRecordSet ::
  "'u up_client \<Rightarrow> 'd down_client \<Rightarrow> string \<Rightarrow> ('u, 'd) replica \<Rightarrow> DNSRecordSet \<Rightarrow> ('u, 'd) replica \<times> operation \<times> err" where
  "ensureDownstreamRecordSet uc dc clusterName st upstream =
     (case ObjectMetaFromUpstreamObject uc (rp_up st) (rs_meta upstream) of
        (u, Inl e) \<Rightarrow> (st\<lparr>rp_up := u\<rparr>, OperationNone, Some e)
      | (u, Inr (key, annotations)) \<Rightarrow>
          (case checkDownstreamNamespace dc (rp_down st) (fst key) of
             (d, Some e) \<Rightarrow> (st\<lparr>rp_up := u, rp_down := d\<rparr>, OperationNone, Some e)
           | (d, None) \<Rightarrow>
               (case dc_createOrPatchRecordSet dc (dc_createRecordSet dc) d key
                       (mutateRecordSet uc dc clusterName upstream annotations) of
                  (d, res, r) \<Rightarrow>
                    (logged (MirroredRecordSet key upstream r) (st\<lparr>rp_up := u, rp_down := d\<rparr>), res,
                     map_option (downstreamTerminationError dc) r))))"

subsection \<open>Status\<close>

definition sameStatus :: "DNSRecordSet \<Rightarrow> DNSRecordSet \<Rightarrow> bool" where
  "sameStatus a b \<longleftrightarrow> rs_conditions a = rs_conditions b \<and> rs_recordSets a = rs_recordSets b"

text \<open>The status of the original becomes that of the mirror. The object in memory has it even when the
  write fails.\<close>

definition mirrorStatus :: "'u kube \<Rightarrow> ('u, 'd) replica \<Rightarrow> DNSRecordSet \<Rightarrow> DNSRecordSet \<Rightarrow> ('u, 'd) replica \<times> DNSRecordSet \<times> err" where
  "mirrorStatus kb st upstream shadow =
     (if sameStatus upstream shadow then (st, upstream, None)
      else
        let new = upstream\<lparr>rs_conditions := rs_conditions shadow, rs_recordSets := rs_recordSets shadow\<rparr> in
        case upPatchRecordSetStatus kb st upstream new of
          (st, Inl e) \<Rightarrow> (st, new, Some e)
        | (st, Inr stored) \<Rightarrow> (st, stored, None))"

definition emitRecordSetTransition ::
  "'u kube \<Rightarrow> bool \<Rightarrow> ('u, 'd) replica \<Rightarrow> DNSRecordSet \<Rightarrow> Condition option \<Rightarrow> Condition option \<Rightarrow> ('u, 'd) replica" where
  "emitRecordSetTransition kb events st upstream prev cur =
     (if \<not> events \<or> \<not> programmedConditionTransitioned prev cur then st
      else case cur of
        None \<Rightarrow> st
      | Some c \<Rightarrow>
          if c_status c = ConditionTrue then
            logged (Emitted EventReasonRecordSetProgrammed (m_name (rs_meta upstream))
              (''DNSRecordSet '' @ go_quote (m_name (rs_meta upstream)) @ '' successfully programmed to DNS provider'')) st
          else if c_status c = ConditionFalse \<and> (case prev of Some p \<Rightarrow> c_status p = ConditionTrue | None \<Rightarrow> False) then
            logged (Emitted EventReasonRecordSetProgrammingFailed (m_name (rs_meta upstream))
              (''DNSRecordSet '' @ go_quote (m_name (rs_meta upstream)) @ '' programming failed: '' @ c_message c)) st
          else st)"

subsection \<open>Reconcile\<close>

text \<open>The part that copies the status back, once the mirror is known to exist.\<close>

definition copyBack ::
  "'u kube \<Rightarrow> 'u up_client \<Rightarrow> 'd down_client \<Rightarrow> bool \<Rightarrow> ('u, 'd) replica \<Rightarrow> DNSRecordSet \<Rightarrow> ('u, 'd) replica \<times> repl_result" where
  "copyBack kb uc dc events st upstream =
     (case ObjectMetaFromUpstreamObject uc (rp_up st) (rs_meta upstream) of
        (u, Inl e) \<Rightarrow> replFail (st\<lparr>rp_up := u\<rparr>) (Some e)
      | (u, Inr (key, _)) \<Rightarrow>
          (case mirrorRecordSetAt dc (st\<lparr>rp_up := u\<rparr>) key of
             (st, Inl e) \<Rightarrow> replFail st (Some e)
           | (st, Inr shadow) \<Rightarrow>
               let prev = kb_findCond kb (rs_conditions upstream) CondProgrammed in
               (case mirrorStatus kb st upstream shadow of
                  (st, upstream, e) \<Rightarrow>
                    if e \<noteq> None \<and> \<not> kb_isNotFound kb (the e) then replFail st e
                    else replDone (emitRecordSetTransition kb events st upstream prev
                           (kb_findCond kb (rs_conditions upstream) CondProgrammed)))))"

text \<open>From the display annotations on; the zone is public, live and owns the record set.\<close>

definition mirrorLive ::
  "'u kube \<Rightarrow> 'u up_client \<Rightarrow> 'd down_client \<Rightarrow> string \<Rightarrow> bool \<Rightarrow> ('u, 'd) replica \<Rightarrow> DNSRecordSet \<Rightarrow> DNSZone \<Rightarrow> ('u, 'd) replica \<times> repl_result" where
  "mirrorLive kb uc dc clusterName events st upstream zone =
     (let proceed = (\<lambda>st upstream.
          case ensureDownstreamRecordSet uc dc clusterName st upstream of
            (st, operation, r) \<Rightarrow>
              (case r of
                 Some e \<Rightarrow> if errorIs errDownstreamTerminating e then replAfter st 60 else replFail st (Some e)
               | None \<Rightarrow> if operation = OperationCreated then replDone st else copyBack kb uc dc events st upstream)) in
      case EnsureAnnotations upstream (z_domainName zone) of
        (annotated, True) \<Rightarrow>
          (case upPatchRecordSet kb st upstream annotated of
             (st, Inl e) \<Rightarrow> replFail st (Some e)
           | (st, Inr stored) \<Rightarrow> proceed st stored)
      | (_, False) \<Rightarrow> proceed st upstream)"

definition withOwners :: "DNSRecordSet \<Rightarrow> OwnerReference list \<Rightarrow> DNSRecordSet" where
  "withOwners rs refs = rs\<lparr>rs_meta := (rs_meta rs)\<lparr>m_ownerRefs := refs\<rparr>\<rparr>"

definition mirrorUnder ::
  "'u kube \<Rightarrow> 'u up_client \<Rightarrow> 'd down_client \<Rightarrow> string \<Rightarrow> bool \<Rightarrow> ('u, 'd) replica \<Rightarrow> DNSRecordSet \<Rightarrow> DNSZone \<Rightarrow> ('u, 'd) replica \<times> repl_result" where
  "mirrorUnder kb uc dc clusterName events st upstream zone =
     (if m_deleted (z_meta zone) \<noteq> None then replDone st
      else if \<not> kb_isControlledBy kb (rs_meta upstream) (z_meta zone) then
        (case uc_setControllerReference uc (z_meta zone) (m_ownerRefs (rs_meta upstream)) of
           Inl e \<Rightarrow> replFail st (Some e)
         | Inr refs \<Rightarrow>
             (case upPatchRecordSet kb st upstream (withOwners upstream refs) of
                (st, r) \<Rightarrow> replFail st (errOf r)))
      else mirrorLive kb uc dc clusterName events st upstream zone)"

definition zoneMissing :: "'u kube \<Rightarrow> int \<Rightarrow> ('u, 'd) replica \<Rightarrow> DNSRecordSet \<Rightarrow> ('u, 'd) replica \<times> repl_result" where
  "zoneMissing kb now st upstream =
     (case kb_setCond kb (rs_conditions upstream) (mkCondition CondAccepted ConditionFalse ReasonPending
             (''DNSZone '' @ go_quote (rs_zoneRef upstream) @ '' not found'') (m_generation (rs_meta upstream)) now) of
        (_, False) \<Rightarrow> replDone st
      | (conditions, True) \<Rightarrow>
          (case upPatchRecordSetStatus kb st upstream (upstream\<lparr>rs_conditions := conditions\<rparr>) of
             (st, r) \<Rightarrow> replFail st (errOf r)))"

definition reconcileUpstream ::
  "'u kube \<Rightarrow> 'u up_client \<Rightarrow> 'd down_client \<Rightarrow> string \<Rightarrow> bool \<Rightarrow> int \<Rightarrow> ('u, 'd) replica \<Rightarrow> string \<Rightarrow> DNSRecordSet \<Rightarrow> ('u, 'd) replica \<times> repl_result" where
  "reconcileUpstream kb uc dc clusterName events now st namespace upstream =
     (case upstreamZone kb st (namespace, rs_zoneRef upstream) of
        (st, Inl zoneErr) \<Rightarrow> if \<not> kb_isNotFound kb zoneErr then replFail st (Some zoneErr) else zoneMissing kb now st upstream
      | (st, Inr zone) \<Rightarrow>
          if z_visibility zone = VisibilityPrivate then
            (if kb_containsFinalizer kb (m_finalizers (rs_meta upstream)) rsFinalizer then
               (case handleDeletion kb uc dc st upstream of (st, _, e) \<Rightarrow> replFail st e)
             else replDone st)
          else if \<not> kb_containsFinalizer kb (m_finalizers (rs_meta upstream)) rsFinalizer then
            (case upPatchRecordSet kb st upstream (upstream\<lparr>rs_meta := (rs_meta upstream)\<lparr>m_finalizers :=
                    kb_addFinalizer kb (m_finalizers (rs_meta upstream)) rsFinalizer\<rparr>\<rparr>) of
               (st, r) \<Rightarrow> replFail st (errOf r))
          else mirrorUnder kb uc dc clusterName events st upstream zone)"

definition ReplicateRecordSet ::
  "'u kube \<Rightarrow> 'u up_client \<Rightarrow> 'd down_client \<Rightarrow> string \<Rightarrow> bool \<Rightarrow> int \<Rightarrow> ('u, 'd) replica \<Rightarrow> string \<times> string \<Rightarrow> ('u, 'd) replica \<times> repl_result" where
  "ReplicateRecordSet kb uc dc clusterName events now st key =
     (case upstreamRecordSet kb st key of
        (st, Inl e) \<Rightarrow> replFail st (IgnoreNotFound kb e)
      | (st, Inr upstream) \<Rightarrow>
          if m_deleted (rs_meta upstream) \<noteq> None then
            (case handleDeletion kb uc dc st upstream of (st, _, e) \<Rightarrow> replFail st e)
          else reconcileUpstream kb uc dc clusterName events now st (fst key) upstream)"

section \<open>Lemmas\<close>

lemma DeleteAnchor_log:
  assumes "DeleteAnchorForObject uc dc st owner = (st', r)"
  shows "rp_log st' = rp_log st @ [DroppedAnchor owner r]"
  using assms by (auto simp: DeleteAnchorForObject_def Let_def split: prod.splits sum.splits)

text \<open>The calls behind the removal of an anchor: which ConfigMap is looked up, in the namespace that is named after the
  UID of the original's namespace, and what becomes of it.\<close>

definition anchorCalls :: "'u up_client \<Rightarrow> 'd down_client \<Rightarrow> ObjectMeta \<Rightarrow> 'u \<Rightarrow> 'd \<Rightarrow> err \<Rightarrow> 'd \<Rightarrow> bool" where
  "anchorCalls uc dc owner u d r d' =
     (case uc_getNamespace uc u (m_namespace owner) of
        (_, Inl _) \<Rightarrow> r \<noteq> None \<and> d' = d
      | (_, Inr namespace) \<Rightarrow>
          (case dc_getConfigMap dc d (''ns-'' @ ns_uid namespace, ''anchor-'' @ m_uid owner) of
             (d1, Inl e) \<Rightarrow> (r = None \<longleftrightarrow> dc_isNotFound dc e) \<and> d' = d1
           | (d1, Inr anchor) \<Rightarrow> dc_deleteConfigMap dc d1 anchor = (d', r)))"

lemma DeleteAnchor_calls:
  assumes "DeleteAnchorForObject uc dc st owner = (st', r)"
  shows "anchorCalls uc dc owner (rp_up st) (rp_down st) r (rp_down st')"
  using assms
  by (auto simp: DeleteAnchorForObject_def anchorCalls_def ObjectMetaFromUpstreamObject_def anchorName_def Let_def split: prod.splits sum.splits if_splits)

definition deletion_events :: "'d down_client \<Rightarrow> DNSRecordSet \<Rightarrow> repl_event list \<Rightarrow> bool" where
  "deletion_events dc upstream evs \<longleftrightarrow> evs = []
     \<or> (\<exists>key r. evs = [ReadMirrorRecordSet key r])
     \<or> (\<exists>key r shadow e. evs = [ReadMirrorRecordSet key r, DeletedMirrorRecordSet shadow e])
     \<or> (\<exists>key r e. evs = [ReadMirrorRecordSet key r, DroppedAnchor (rs_meta upstream) e])
     \<or> (\<exists>key e new. dc_isNotFound dc e
         \<and> evs = [ReadMirrorRecordSet key (Inl e), DroppedAnchor (rs_meta upstream) None, UpPatchedRecordSet upstream new])"

lemma handleDeletion_log:
  assumes "handleDeletion kb uc dc st upstream = (st', fin, r)"
  shows "\<exists>evs. rp_log st' = rp_log st @ evs \<and> deletion_events dc upstream evs"
proof -
  consider "st' = st" | u where "st' = st\<lparr>rp_up := u\<rparr>"
    | u key st1 r1 where "mirrorRecordSetAt dc (st\<lparr>rp_up := u\<rparr>) key = (st1, r1)"
      "st' = st1 \<or> (\<exists>shadow d e. st' = logged (DeletedMirrorRecordSet shadow e) (st1\<lparr>rp_down := d\<rparr>))
       \<or> (\<exists>e st2 e'. r1 = Inl e \<and> dc_isNotFound dc e \<and> DeleteAnchorForObject uc dc st1 (rs_meta upstream) = (st2, e')
            \<and> (st' = st2 \<or> e' = None \<and> (\<exists>fin r. releaseUpstream kb st2 upstream = (st', fin, r))))"
    using assms unfolding handleDeletion_def
    by (simp add: Let_def split: if_splits prod.splits sum.splits option.splits) metis+
  then show ?thesis
  proof cases
    case 3
    then have st1: "rp_log st1 = rp_log st @ [ReadMirrorRecordSet key r1]"
      by (auto simp: mirrorRecordSetAt_def split: prod.splits)
    have rel: "\<exists>new. rp_log st' = rp_log st2 @ [UpPatchedRecordSet upstream new]"
      if "releaseUpstream kb st2 upstream = (st', fin, r)" for st2 fin r
      using that by (auto simp: releaseUpstream_def upPatchRecordSet_def Let_def split: prod.splits sum.splits)
    from 3(2) st1 show ?thesis
      by (auto simp: deletion_events_def dest!: DeleteAnchor_log rel)
  qed (simp_all add: deletion_events_def)
qed

text \<open>What the downstream cluster was asked before a deletion lets the original go.\<close>

definition releaseCalls :: "'u up_client \<Rightarrow> 'd down_client \<Rightarrow> DNSRecordSet \<Rightarrow> 'd \<Rightarrow> repl_event list \<Rightarrow> DNSRecordSet \<Rightarrow> 'd \<Rightarrow> bool" where
  "releaseCalls uc dc upstream d evs new d' \<longleftrightarrow>
     (\<exists>u u1 namespace d1 e.
        uc_getNamespace uc u (m_namespace (rs_meta upstream)) = (u1, Inr namespace) \<and>
        dc_getRecordSet dc d (''ns-'' @ ns_uid namespace, m_name (rs_meta upstream)) = (d1, Inl e) \<and> dc_isNotFound dc e \<and>
        anchorCalls uc dc (rs_meta upstream) u1 d1 None d' \<and>
        evs = [ReadMirrorRecordSet (''ns-'' @ ns_uid namespace, m_name (rs_meta upstream)) (Inl e),
               DroppedAnchor (rs_meta upstream) None, UpPatchedRecordSet upstream new])"

lemma releaseUpstream_effect:
  assumes "releaseUpstream kb st upstream = (st', fin, r)"
  shows "rp_down st' = rp_down st \<and> (\<exists>new. rp_log st' = rp_log st @ [UpPatchedRecordSet upstream new])"
  using assms by (auto simp: releaseUpstream_def upPatchRecordSet_def Let_def split: prod.splits sum.splits)

lemma handleDeletion_release:
  assumes run: "handleDeletion kb uc dc st upstream = (st', fin, r)"
    and patched: "UpPatchedRecordSet base new \<in> set (newEvents st st')"
  shows "base = upstream \<and> releaseCalls uc dc upstream (rp_down st) (newEvents st st') new (rp_down st')"
proof -
  obtain u m where meta: "ObjectMetaFromUpstreamObject uc (rp_up st) (rs_meta upstream) = (u, m)" by fastforce
  show ?thesis
  proof (cases m)
    case (Inl e)
    with run meta patched show ?thesis by (auto simp: handleDeletion_def newEvents_def split: if_splits)
  next
    case (Inr ka)
    obtain key ann where ka: "ka = (key, ann)" by fastforce
    obtain namespace where ns: "uc_getNamespace uc (rp_up st) (m_namespace (rs_meta upstream)) = (u, Inr namespace)"
      "key = (''ns-'' @ ns_uid namespace, m_name (rs_meta upstream))"
      using meta Inr ka by (auto simp: ObjectMetaFromUpstreamObject_def split: prod.splits sum.splits)
    obtain d1 g where read: "dc_getRecordSet dc (rp_down st) key = (d1, g)" by fastforce
    let ?st1 = "logged (ReadMirrorRecordSet key g) (st\<lparr>rp_up := u, rp_down := d1\<rparr>)"
    have mirror: "mirrorRecordSetAt dc (st\<lparr>rp_up := u\<rparr>) key = (?st1, g)" by (simp add: mirrorRecordSetAt_def read)
    obtain st2 a where drop: "DeleteAnchorForObject uc dc ?st1 (rs_meta upstream) = (st2, a)" by fastforce
    have l2: "rp_log st2 = rp_log st @ [ReadMirrorRecordSet key g, DroppedAnchor (rs_meta upstream) a]"
      using DeleteAnchor_log [OF drop] by simp
    have "\<exists>e. g = Inl e \<and> dc_isNotFound dc e \<and> a = None \<and> releaseUpstream kb st2 upstream = (st', fin, r)"
      using run patched meta Inr ka mirror drop l2
      by (cases g; cases a) (auto simp: handleDeletion_def newEvents_def Let_def split: if_splits prod.splits option.splits)
    then obtain e where e: "g = Inl e" "dc_isNotFound dc e" "a = None" and rel: "releaseUpstream kb st2 upstream = (st', fin, r)" by blast
    from releaseUpstream_effect [OF rel] obtain new' where last: "rp_down st' = rp_down st2"
      "rp_log st' = rp_log st2 @ [UpPatchedRecordSet upstream new']" by blast
    have evs: "newEvents st st' = [ReadMirrorRecordSet key (Inl e), DroppedAnchor (rs_meta upstream) None, UpPatchedRecordSet upstream new']"
      using last(2) l2 e by (simp add: newEvents_def)
    with patched have "base = upstream" "new' = new" by auto
    with DeleteAnchor_calls [OF drop] evs ns read e last(1) show ?thesis by (auto simp: releaseCalls_def)
  qed
qed

definition harmless :: "'u kube \<Rightarrow> DNSRecordSet \<Rightarrow> DNSRecordSet \<Rightarrow> bool" where
  "harmless kb base new \<longleftrightarrow> m_finalizers (rs_meta new) = m_finalizers (rs_meta base)
     \<or> m_finalizers (rs_meta new) = kb_addFinalizer kb (m_finalizers (rs_meta base)) rsFinalizer"

definition statusFrom :: "DNSRecordSet \<Rightarrow> DNSRecordSet \<Rightarrow> DNSRecordSet" where
  "statusFrom base shadow = base\<lparr>rs_conditions := rs_conditions shadow, rs_recordSets := rs_recordSets shadow\<rparr>"

definition live_event :: "'u kube \<Rightarrow> DNSZone \<Rightarrow> repl_event list \<Rightarrow> repl_event \<Rightarrow> bool" where
  "live_event kb zone evs ev =
     (case ev of
        UpPatchedRecordSet base new \<Rightarrow> harmless kb base new
      | UpPatchedRecordSetStatus base new \<Rightarrow>
          (\<exists>key shadow. ReadMirrorRecordSet key (Inr shadow) \<in> set evs \<and> new = statusFrom base shadow)
      | MirroredRecordSet _ _ _ \<Rightarrow> m_deleted (z_meta zone) = None
      | ReadMirrorRecordSet _ _ \<Rightarrow> True
      | Emitted _ _ _ \<Rightarrow> True
      | _ \<Rightarrow> False)"

lemma emit_log:
  "\<exists>evs. rp_log (emitRecordSetTransition kb events st x p c) = rp_log st @ evs \<and> (\<forall>ev \<in> set evs. \<exists>a b d. ev = Emitted a b d)"
  by (auto simp: emitRecordSetTransition_def split: option.splits)

lemma mirrorStatus_log:
  assumes "mirrorStatus kb st upstream shadow = (st', new, e)"
  shows "rp_log st' = rp_log st \<or> rp_log st' = rp_log st @ [UpPatchedRecordSetStatus upstream (statusFrom upstream shadow)]"
  using assms by (auto simp: mirrorStatus_def upPatchRecordSetStatus_def statusFrom_def Let_def split: if_splits prod.splits sum.splits)

lemma copyBack_log:
  assumes "copyBack kb uc dc events st upstream = (st', res)"
  shows "\<exists>evs. rp_log st' = rp_log st @ evs \<and> (\<forall>ev \<in> set evs. live_event kb zone evs ev)
    \<and> (\<forall>k x r. MirroredRecordSet k x r \<notin> set evs)"
proof (cases "ObjectMetaFromUpstreamObject uc (rp_up st) (rs_meta upstream)")
  case (Pair u r)
  show ?thesis
  proof (cases r)
    case (Inl e)
    with Pair assms show ?thesis by (auto simp: copyBack_def repl_result_defs)
  next
    case (Inr kv)
    obtain kn km as where kv: "kv = ((kn, km), as)" by (metis prod.collapse)
    obtain st1 r1 where read: "mirrorRecordSetAt dc (st\<lparr>rp_up := u\<rparr>) (kn, km) = (st1, r1)" by fastforce
    then have st1: "rp_log st1 = rp_log st @ [ReadMirrorRecordSet (kn, km) r1]"
      by (auto simp: mirrorRecordSetAt_def split: prod.splits)
    show ?thesis
    proof (cases r1)
      case (Inl e)
      with Pair Inr kv read st1 assms show ?thesis by (auto simp: copyBack_def repl_result_defs live_event_def)
    next
      case shadow: (Inr shadow)
      obtain st2 new e where ms: "mirrorStatus kb st1 upstream shadow = (st2, new, e)" by (metis prod_cases3)
      obtain prev cur where fin: "st' = st2 \<or> st' = emitRecordSetTransition kb events st2 new prev cur"
        using assms Pair Inr kv read shadow ms by (auto simp: copyBack_def repl_result_defs Let_def split: if_splits)
      obtain evs where evs: "rp_log st' = rp_log st2 @ evs" "\<forall>ev \<in> set evs. \<exists>a b d. ev = Emitted a b d"
        using fin emit_log [of kb events st2 new prev cur] by auto
      have "rp_log st' = rp_log st @ [ReadMirrorRecordSet (kn, km) (Inr shadow)] @ evs
          \<or> rp_log st' = rp_log st @ [ReadMirrorRecordSet (kn, km) (Inr shadow), UpPatchedRecordSetStatus upstream (statusFrom upstream shadow)] @ evs"
        using mirrorStatus_log [OF ms] st1 shadow evs(1) by auto
      then show ?thesis
      proof
        assume "rp_log st' = rp_log st @ [ReadMirrorRecordSet (kn, km) (Inr shadow)] @ evs"
        with evs(2) show ?thesis by (intro exI [of _ "[ReadMirrorRecordSet (kn, km) (Inr shadow)] @ evs"]) (auto simp: live_event_def)
      next
        assume "rp_log st' = rp_log st @ [ReadMirrorRecordSet (kn, km) (Inr shadow), UpPatchedRecordSetStatus upstream (statusFrom upstream shadow)] @ evs"
        with evs(2) show ?thesis
          by (intro exI [of _ "[ReadMirrorRecordSet (kn, km) (Inr shadow), UpPatchedRecordSetStatus upstream (statusFrom upstream shadow)] @ evs"])
            (auto simp: live_event_def)
      qed
    qed
  qed
qed

lemma live_event_mono: "live_event kb zone evs ev \<Longrightarrow> set evs \<subseteq> set evs' \<Longrightarrow> live_event kb zone evs' ev"
  by (auto simp: live_event_def split: repl_event.splits)

lemma ensureDownstream_log:
  assumes "ensureDownstreamRecordSet uc dc clusterName st upstream = (st', op, r)"
  shows "rp_log st' = rp_log st \<or> (\<exists>key r'. rp_log st' = rp_log st @ [MirroredRecordSet key upstream r'])"
  using assms by (auto simp: ensureDownstreamRecordSet_def split: prod.splits sum.splits option.splits)

lemma mirrorLive_log:
  assumes "mirrorLive kb uc dc clusterName events st upstream zone = (st', res)" and "m_deleted (z_meta zone) = None"
  shows "\<exists>evs. rp_log st' = rp_log st @ evs \<and> (\<forall>ev \<in> set evs. live_event kb zone evs ev)"
proof -
  define proceed where "proceed = (\<lambda>st upstream.
          case ensureDownstreamRecordSet uc dc clusterName st upstream of
            (st, operation, r) \<Rightarrow>
              (case r of
                 Some e \<Rightarrow> if errorIs errDownstreamTerminating e then replAfter st 60 else replFail st (Some e)
               | None \<Rightarrow> if operation = OperationCreated then replDone st else copyBack kb uc dc events st upstream))"
  have step: "\<exists>evs. rp_log st' = rp_log st1 @ evs \<and> (\<forall>ev \<in> set evs. live_event kb zone evs ev)"
    if run: "proceed st1 x = (st', res)" for st1 x
  proof -
    obtain st2 op r where en: "ensureDownstreamRecordSet uc dc clusterName st1 x = (st2, op, r)" by (metis prod_cases3)
    obtain evs1 where evs1: "rp_log st2 = rp_log st1 @ evs1" "\<forall>ev \<in> set evs1. live_event kb zone evs ev" for evs
      using ensureDownstream_log [OF en] assms(2) by (auto simp: live_event_def)
    obtain evs2 where evs2: "rp_log st' = rp_log st2 @ evs2" "\<forall>ev \<in> set evs2. live_event kb zone evs2 ev"
      using run en copyBack_log [of kb uc dc events st2 x st' res zone]
      by (auto simp: proceed_def repl_result_defs split: option.splits if_splits)
    have "\<forall>ev \<in> set (evs1 @ evs2). live_event kb zone (evs1 @ evs2) ev"
      using evs1(2) evs2(2) live_event_mono [of kb zone evs2 _ "evs1 @ evs2"] by auto
    with evs1(1) evs2(1) show ?thesis by (intro exI [of _ "evs1 @ evs2"]) simp
  qed
  obtain annotated changed where an: "EnsureAnnotations upstream (z_domainName zone) = (annotated, changed)" by fastforce
  show ?thesis
  proof (cases changed)
    case False
    with assms(1) an have "proceed st upstream = (st', res)" by (simp add: mirrorLive_def proceed_def Let_def)
    then show ?thesis by (rule step)
  next
    case True
    obtain st1 r where pa: "upPatchRecordSet kb st upstream annotated = (st1, r)" by fastforce
    have "harmless kb upstream annotated"
      using an True by (auto simp: harmless_def EnsureAnnotations_def annotate_def withAnnotations_def Let_def split: if_splits)
    then have ok: "live_event kb zone evs (UpPatchedRecordSet upstream annotated)" for evs by (simp add: live_event_def)
    have st1: "rp_log st1 = rp_log st @ [UpPatchedRecordSet upstream annotated]"
      using pa by (auto simp: upPatchRecordSet_def split: prod.splits)
    obtain evs where evs: "rp_log st' = rp_log st1 @ evs" "\<forall>ev \<in> set evs. live_event kb zone evs ev"
    proof (cases r)
      case (Inl e)
      with assms(1) an True pa have "rp_log st' = rp_log st1 @ []" by (simp add: mirrorLive_def repl_result_defs Let_def)
      with that show ?thesis by simp
    next
      case (Inr stored)
      with assms(1) an True pa have "proceed st1 stored = (st', res)" by (simp add: mirrorLive_def proceed_def Let_def)
      from step [OF this] that show ?thesis by blast
    qed
    have "\<forall>ev \<in> set (UpPatchedRecordSet upstream annotated # evs). live_event kb zone (UpPatchedRecordSet upstream annotated # evs) ev"
      using ok evs(2) live_event_mono [of kb zone evs _ "UpPatchedRecordSet upstream annotated # evs"] by auto
    with st1 evs(1) show ?thesis by (intro exI [of _ "UpPatchedRecordSet upstream annotated # evs"]) simp
  qed
qed

lemma mirrorUnder_log:
  assumes "mirrorUnder kb uc dc clusterName events st upstream zone = (st', res)"
  shows "\<exists>evs. rp_log st' = rp_log st @ evs \<and> (\<forall>ev \<in> set evs. live_event kb zone evs ev)"
proof (cases "m_deleted (z_meta zone) = None \<and> kb_isControlledBy kb (rs_meta upstream) (z_meta zone)")
  case True
  with assms show ?thesis by (intro mirrorLive_log) (auto simp: mirrorUnder_def)
next
  case False
  then have "rp_log st' = rp_log st \<or> (\<exists>refs. rp_log st' = rp_log st @ [UpPatchedRecordSet upstream (withOwners upstream refs)])"
    using assms by (auto simp: mirrorUnder_def repl_result_defs upPatchRecordSet_def split: if_splits sum.splits prod.splits)
  then show ?thesis by (auto simp: live_event_def harmless_def withOwners_def)
qed

text \<open>All a reconcile can do, by what it read of the original and of the zone.\<close>

definition zone_events :: "'u kube \<Rightarrow> 'd down_client \<Rightarrow> int \<Rightarrow> DNSRecordSet \<Rightarrow> go_error + DNSZone \<Rightarrow> repl_event list \<Rightarrow> bool" where
  "zone_events kb dc now upstream zr evs =
     (case zr of
        Inl e \<Rightarrow> evs = [] \<or> kb_isNotFound kb e
          \<and> evs = [UpPatchedRecordSetStatus upstream (upstream\<lparr>rs_conditions := fst (kb_setCond kb (rs_conditions upstream)
                (mkCondition CondAccepted ConditionFalse ReasonPending
                  (''DNSZone '' @ go_quote (rs_zoneRef upstream) @ '' not found'') (m_generation (rs_meta upstream)) now))\<rparr>)]
      | Inr zone \<Rightarrow>
          if z_visibility zone = VisibilityPrivate then deletion_events dc upstream evs
          else \<forall>ev \<in> set evs. live_event kb zone evs ev)"

lemma zoneMissing_log:
  assumes "zoneMissing kb now st upstream = (st', res)" and "kb_isNotFound kb e"
  shows "\<exists>evs. rp_log st' = rp_log st @ evs \<and> zone_events kb dc now upstream (Inl e) evs"
  using assms
  by (cases "kb_setCond kb (rs_conditions upstream) (mkCondition CondAccepted ConditionFalse ReasonPending
          (''DNSZone '' @ go_quote (rs_zoneRef upstream) @ '' not found'') (m_generation (rs_meta upstream)) now)")
    (auto simp: zoneMissing_def zone_events_def repl_result_defs upPatchRecordSetStatus_def split: prod.splits bool.splits)

lemma private_log:
  assumes "(if kb_containsFinalizer kb (m_finalizers (rs_meta upstream)) rsFinalizer then
        (case handleDeletion kb uc dc st upstream of (st, _, e) \<Rightarrow> replFail st e) else replDone st) = (st', res)"
  shows "\<exists>evs. rp_log st' = rp_log st @ evs \<and> deletion_events dc upstream evs"
proof -
  obtain st1 fin e where run: "handleDeletion kb uc dc st upstream = (st1, fin, e)" by (metis prod_cases3)
  with assms have "st' = st1 \<or> st' = st" by (auto simp: repl_result_defs split: if_splits)
  then show ?thesis using handleDeletion_log [OF run] by (auto simp: deletion_events_def)
qed

lemma reconcileUpstream_log:
  assumes "reconcileUpstream kb uc dc clusterName events now st namespace upstream = (st', res)"
  shows "\<exists>zr evs. rp_log st' = rp_log st @ ReadZone (namespace, rs_zoneRef upstream) zr # evs
    \<and> zone_events kb dc now upstream zr evs"
proof -
  obtain st1 zr where read: "upstreamZone kb st (namespace, rs_zoneRef upstream) = (st1, zr)" by fastforce
  then have st1: "rp_log st1 = rp_log st @ [ReadZone (namespace, rs_zoneRef upstream) zr]"
    by (auto simp: upstreamZone_def split: prod.splits)
  have "\<exists>evs. rp_log st' = rp_log st1 @ evs \<and> zone_events kb dc now upstream zr evs"
  proof (cases zr)
    case (Inl e)
    then show ?thesis using assms read zoneMissing_log [of kb now st1 upstream st' res e dc]
      by (auto simp: reconcileUpstream_def repl_result_defs zone_events_def split: if_splits)
  next
    case (Inr zone)
    consider (hidden) "z_visibility zone = VisibilityPrivate"
      | (fresh) "z_visibility zone \<noteq> VisibilityPrivate" "\<not> kb_containsFinalizer kb (m_finalizers (rs_meta upstream)) rsFinalizer"
      | (kept) "z_visibility zone \<noteq> VisibilityPrivate" "kb_containsFinalizer kb (m_finalizers (rs_meta upstream)) rsFinalizer" by blast
    then show ?thesis
    proof cases
      case hidden
      with Inr assms read private_log [of kb upstream uc dc st1 st' res] show ?thesis
        by (simp add: reconcileUpstream_def zone_events_def)
    next
      case fresh
      with Inr assms read show ?thesis
        by (auto simp: reconcileUpstream_def zone_events_def repl_result_defs upPatchRecordSet_def live_event_def harmless_def split: prod.splits)
    next
      case kept
      with Inr assms read mirrorUnder_log [of kb uc dc clusterName events st1 upstream zone st' res] show ?thesis
        by (simp add: reconcileUpstream_def zone_events_def)
    qed
  qed
  with st1 show ?thesis by auto
qed

lemma ReplicateRecordSet_log:
  assumes "ReplicateRecordSet kb uc dc clusterName events now st key = (st', res)"
  shows "newEvents st st' = [] \<or> (\<exists>u upstream. kb_getRecordSet kb (rp_up st) key = (u, Inr upstream)
    \<and> (deletion_events dc upstream (newEvents st st')
       \<or> (\<exists>zr evs. newEvents st st' = ReadZone (fst key, rs_zoneRef upstream) zr # evs
            \<and> zone_events kb dc now upstream zr evs)))"
proof -
  obtain u r where read: "kb_getRecordSet kb (rp_up st) key = (u, r)" by fastforce
  show ?thesis
  proof (cases r)
    case (Inl e)
    with read assms show ?thesis by (auto simp: ReplicateRecordSet_def upstreamRecordSet_def repl_result_defs newEvents_def)
  next
    case (Inr upstream)
    let ?st = "st\<lparr>rp_up := u\<rparr>"
    show ?thesis
    proof (cases "m_deleted (rs_meta upstream) = None")
      case True
      with Inr read assms have "reconcileUpstream kb uc dc clusterName events now ?st (fst key) upstream = (st', res)"
        by (simp add: ReplicateRecordSet_def upstreamRecordSet_def)
      from reconcileUpstream_log [OF this] Inr read show ?thesis by auto
    next
      case False
      obtain st1 fin e where run: "handleDeletion kb uc dc ?st upstream = (st1, fin, e)" by (metis prod_cases3)
      with False Inr read assms have "st' = st1"
        by (auto simp: ReplicateRecordSet_def upstreamRecordSet_def repl_result_defs)
      with handleDeletion_log [OF run] Inr read show ?thesis by auto
    qed
  qed
qed

text \<open>Only a deletion takes the finalizer off, and nothing downstream was touched before it.\<close>

lemma reconcileUpstream_release:
  assumes run: "reconcileUpstream kb uc dc clusterName events now st namespace upstream = (st', res)"
    and patched: "UpPatchedRecordSet base new \<in> set (newEvents st st')" and bad: "\<not> harmless kb base new"
  shows "\<exists>before evs. newEvents st st' = before @ evs \<and> base = upstream \<and> releaseCalls uc dc upstream (rp_down st) evs new (rp_down st')"
proof -
  obtain st1 zr where read: "upstreamZone kb st (namespace, rs_zoneRef upstream) = (st1, zr)" by fastforce
  then have st1: "rp_log st1 = rp_log st @ [ReadZone (namespace, rs_zoneRef upstream) zr]" "rp_down st1 = rp_down st"
    by (auto simp: upstreamZone_def split: prod.splits)
  have new: "set (newEvents st st') = insert (ReadZone (namespace, rs_zoneRef upstream) zr) (set evs)" if "rp_log st' = rp_log st1 @ evs" for evs
    using that st1(1) by (simp add: newEvents_def)
  consider (missing) e where "zr = Inl e" | (hidden) zone where "zr = Inr zone" "z_visibility zone = VisibilityPrivate"
    | (fresh) zone where "zr = Inr zone" "z_visibility zone \<noteq> VisibilityPrivate" "\<not> kb_containsFinalizer kb (m_finalizers (rs_meta upstream)) rsFinalizer"
    | (kept) zone where "zr = Inr zone" "z_visibility zone \<noteq> VisibilityPrivate" "kb_containsFinalizer kb (m_finalizers (rs_meta upstream)) rsFinalizer"
    by (cases zr) auto
  then show ?thesis
  proof cases
    case missing
    with run read have "st' = st1 \<or> kb_isNotFound kb e \<and> zoneMissing kb now st1 upstream = (st', res)"
      by (auto simp: reconcileUpstream_def repl_result_defs split: if_splits)
    then obtain evs where "rp_log st' = rp_log st1 @ evs" "zone_events kb dc now upstream (Inl e) evs"
      using zoneMissing_log [of kb now st1 upstream st' res e dc] by (fastforce simp: zone_events_def)
    with new patched show ?thesis by (auto simp: zone_events_def)
  next
    case hidden
    obtain st2 fin e where del: "handleDeletion kb uc dc st1 upstream = (st2, fin, e)" by (metis prod_cases3)
    with hidden run read have "st' = st2 \<or> st' = st1"
      by (auto simp: reconcileUpstream_def repl_result_defs split: if_splits)
    then show ?thesis
    proof
      assume st': "st' = st2"
      from handleDeletion_log [OF del] obtain evs where evs: "rp_log st2 = rp_log st1 @ evs" by blast
      then have all: "newEvents st st' = [ReadZone (namespace, rs_zoneRef upstream) zr] @ newEvents st1 st2"
        using st' st1(1) by (simp add: newEvents_def)
      with patched have "UpPatchedRecordSet base new \<in> set (newEvents st1 st2)" by simp
      from handleDeletion_release [OF del this] st' st1(2) all show ?thesis
        by (intro exI [of _ "[ReadZone (namespace, rs_zoneRef upstream) zr]"] exI [of _ "newEvents st1 st2"]) simp
    qed (use new [of "[]"] patched in simp)
  next
    case fresh
    with run read obtain new' where "rp_log st' = rp_log st1 @ [UpPatchedRecordSet upstream new']" "harmless kb upstream new'"
      by (auto simp: reconcileUpstream_def repl_result_defs upPatchRecordSet_def harmless_def split: prod.splits)
    with new patched bad show ?thesis by auto
  next
    case kept
    with run read have "mirrorUnder kb uc dc clusterName events st1 upstream zone = (st', res)" by (simp add: reconcileUpstream_def)
    from mirrorUnder_log [OF this] obtain evs where "rp_log st' = rp_log st1 @ evs" "\<forall>ev \<in> set evs. live_event kb zone evs ev" by blast
    with new patched bad show ?thesis by (auto simp: live_event_def)
  qed
qed

lemma ReplicateRecordSet_release:
  assumes run: "ReplicateRecordSet kb uc dc clusterName events now st key = (st', res)"
    and patched: "UpPatchedRecordSet base new \<in> set (newEvents st st')" and bad: "\<not> harmless kb base new"
  shows "(\<exists>u. kb_getRecordSet kb (rp_up st) key = (u, Inr base)) \<and>
    (\<exists>before evs. newEvents st st' = before @ evs \<and> releaseCalls uc dc base (rp_down st) evs new (rp_down st'))"
proof -
  obtain u r where read: "kb_getRecordSet kb (rp_up st) key = (u, r)" by fastforce
  let ?st = "st\<lparr>rp_up := u\<rparr>"
  have same: "newEvents ?st st' = newEvents st st'" by (simp add: newEvents_def)
  show ?thesis
  proof (cases r)
    case (Inl e)
    with read run patched show ?thesis by (auto simp: ReplicateRecordSet_def upstreamRecordSet_def repl_result_defs newEvents_def)
  next
    case (Inr upstream)
    show ?thesis
    proof (cases "m_deleted (rs_meta upstream) = None")
      case True
      with Inr read run have "reconcileUpstream kb uc dc clusterName events now ?st (fst key) upstream = (st', res)"
        by (simp add: ReplicateRecordSet_def upstreamRecordSet_def)
      from reconcileUpstream_release [OF this _ bad] patched Inr read same show ?thesis by auto
    next
      case False
      obtain st1 fin e where del: "handleDeletion kb uc dc ?st upstream = (st1, fin, e)" by (metis prod_cases3)
      with False Inr read run have "st' = st1"
        by (auto simp: ReplicateRecordSet_def upstreamRecordSet_def repl_result_defs)
      with handleDeletion_release [OF del] patched Inr read same show ?thesis
        by (intro conjI exI [of _ "[]"] exI [of _ "newEvents st st'"]) auto
    qed
  qed
qed

section \<open>Properties\<close>

text \<open>C18: The original goes last.  A reconcile of the replicator takes its finalizer off a record set
  only as its last act, right after the downstream cluster answered that the mirror is not there (the
  record set of the original's name in the namespace named after the UID of the original's namespace)
  and the ConfigMap that anchors the mirror was deleted there or found missing. No other call to the
  downstream cluster is made in that reconcile.\<close>

theorem original_released_last:
  assumes "finalizer_laws kb"
    and "ReplicateRecordSet kb uc dc clusterName events now st key = (st', res)"
    and "UpPatchedRecordSet base new \<in> set (newEvents st st')"
    and "rsFinalizer \<in> set (m_finalizers (rs_meta base))" and "rsFinalizer \<notin> set (m_finalizers (rs_meta new))"
  shows "(\<exists>u. kb_getRecordSet kb (rp_up st) key = (u, Inr base)) \<and>
    (\<exists>before u u1 namespace mirror d e.
      uc_getNamespace uc u (m_namespace (rs_meta base)) = (u1, Inr namespace)
      \<and> mirror = (''ns-'' @ ns_uid namespace, m_name (rs_meta base))
      \<and> dc_getRecordSet dc (rp_down st) mirror = (d, Inl e) \<and> dc_isNotFound dc e
      \<and> anchorCalls uc dc (rs_meta base) u1 d None (rp_down st')
      \<and> newEvents st st' = before @
          [ReadMirrorRecordSet mirror (Inl e), DroppedAnchor (rs_meta base) None, UpPatchedRecordSet base new])"
proof -
  have "\<not> harmless kb base new" using assms(1,4,5) by (auto simp: harmless_def finalizer_laws_def)
  from ReplicateRecordSet_release [OF assms(2,3) this] show ?thesis
    unfolding releaseCalls_def by blast
qed

text \<open>C28: Only public zones are mirrored.  When a reconcile writes the mirror of a record set, the
  first thing it did was to read the zone the record set names, and that zone is public and not
  being deleted; so nothing of a private zone reaches the cluster that serves public DNS.\<close>

theorem only_public_mirrored:
  assumes "ReplicateRecordSet kb uc dc clusterName events now st key = (st', res)"
    and "MirroredRecordSet mirror x r \<in> set (newEvents st st')"
  shows "\<exists>u upstream zone rest. kb_getRecordSet kb (rp_up st) key = (u, Inr upstream)
    \<and> newEvents st st' = ReadZone (fst key, rs_zoneRef upstream) (Inr zone) # rest
    \<and> z_visibility zone = VisibilityPublic \<and> m_deleted (z_meta zone) = None"
proof -
  from ReplicateRecordSet_log [OF assms(1)] assms(2) obtain u upstream zr evs where
    up: "kb_getRecordSet kb (rp_up st) key = (u, Inr upstream)" and
    evs: "newEvents st st' = ReadZone (fst key, rs_zoneRef upstream) zr # evs" "zone_events kb dc now upstream zr evs"
    by (auto simp: deletion_events_def)
  then have mem: "MirroredRecordSet mirror x r \<in> set evs" using assms(2) by simp
  with evs(2) obtain zone where zone: "zr = Inr zone" "z_visibility zone \<noteq> VisibilityPrivate"
      "\<forall>ev \<in> set evs. live_event kb zone evs ev"
    by (auto simp: zone_events_def deletion_events_def split: sum.splits if_splits)
  then have "z_visibility zone = VisibilityPublic" "m_deleted (z_meta zone) = None"
    using mem by (cases "z_visibility zone", auto simp: live_event_def)
  with up evs(1) zone(1) show ?thesis by blast
qed

text \<open>C30: The original is programmed because its mirror is.  A reconcile that writes a status with the
  Programmed condition true, where it was not, has read the mirror, and the status it writes is the
  mirror's.\<close>

theorem programmed_follows_mirror:
  assumes "condition_laws kb"
    and "ReplicateRecordSet kb uc dc clusterName events now st key = (st', res)"
    and "UpPatchedRecordSetStatus base new \<in> set (newEvents st st')"
    and "kb_findCond kb (rs_conditions new) CondProgrammed \<noteq> kb_findCond kb (rs_conditions base) CondProgrammed"
  shows "\<exists>mirror shadow. ReadMirrorRecordSet mirror (Inr shadow) \<in> set (newEvents st st') \<and> sameStatus new shadow"
proof -
  from ReplicateRecordSet_log [OF assms(2)] assms(3) obtain u upstream zr evs where
    evs: "newEvents st st' = ReadZone (fst key, rs_zoneRef upstream) zr # evs" "zone_events kb dc now upstream zr evs"
    by (auto simp: deletion_events_def)
  then have mem: "UpPatchedRecordSetStatus base new \<in> set evs" using assms(3) by simp
  have "kb_findCond kb (fst (kb_setCond kb cs (mkCondition CondAccepted s r m g t))) CondProgrammed = kb_findCond kb cs CondProgrammed" for cs s r m g t
    using assms(1) by (simp add: condition_laws_def mkCondition_def CondAccepted_def CondProgrammed_def)
  with evs(2) mem assms(4) have "\<exists>zone. \<forall>ev \<in> set evs. live_event kb zone evs ev"
    by (auto simp: zone_events_def deletion_events_def split: sum.splits if_splits)
  with mem evs(1) show ?thesis by (force simp: live_event_def statusFrom_def sameStatus_def)
qed

section \<open>Examples\<close>

definition aReplica :: "(unit, unit) replica" where "aReplica = \<lparr>rp_up = (), rp_down = (), rp_log = []\<rparr>"

definition anOriginal :: DNSRecordSet where
  "anOriginal = aRecordSet\<lparr>rs_meta := (aMeta ''web'')\<lparr>m_finalizers := [rsFinalizer],
     m_ownerRefs := [\<lparr>owr_uid = m_uid (z_meta aZone), owr_controller = True\<rparr>]\<rparr>\<rparr>"

definition aDyingOriginal :: DNSRecordSet where
  "aDyingOriginal = anOriginal\<lparr>rs_meta := (rs_meta anOriginal)\<lparr>m_deleted := Some 5\<rparr>\<rparr>"

definition aMirror :: DNSRecordSet where
  "aMirror = anOriginal\<lparr>rs_conditions := [mkCondition CondProgrammed ConditionTrue ReasonProgrammed [] 1 3]\<rparr>"

abbreviation aDeletionRun :: "(unit, unit) replica \<times> repl_result" where
  "aDeletionRun \<equiv> ReplicateRecordSet (oneSetKube aDyingOriginal (Some aZone)) (stillUp []) (stillDown None None None)
     ''project'' True 7 aReplica (objectKey (rs_meta aDyingOriginal))"

abbreviation aMirrorRun :: "(unit, unit) replica \<times> repl_result" where
  "aMirrorRun \<equiv> ReplicateRecordSet (oneSetKube anOriginal (Some aZone)) (stillUp []) (stillDown None (Some aMirror) None)
     ''project'' True 7 aReplica (objectKey (rs_meta anOriginal))"

theorem original_released_last_witness:
  "\<exists>new before mirror e. dc_isNotFound (stillDown None None None) e \<and> newEvents aReplica (fst aDeletionRun) = before @
    [ReadMirrorRecordSet mirror (Inl e), DroppedAnchor (rs_meta aDyingOriginal) None, UpPatchedRecordSet aDyingOriginal new]"
proof -
  have "case newEvents aReplica (fst aDeletionRun) of [_, _, UpPatchedRecordSet base new] \<Rightarrow>
      base = aDyingOriginal \<and> rsFinalizer \<in> set (m_finalizers (rs_meta base)) \<and> rsFinalizer \<notin> set (m_finalizers (rs_meta new))
    | _ \<Rightarrow> False" by code_simp
  then obtain new where new: "UpPatchedRecordSet aDyingOriginal new \<in> set (newEvents aReplica (fst aDeletionRun))"
      "rsFinalizer \<in> set (m_finalizers (rs_meta aDyingOriginal))" "rsFinalizer \<notin> set (m_finalizers (rs_meta new))"
    by (auto simp: neq_Nil_conv split: list.splits repl_event.splits)
  obtain st' res where run: "aDeletionRun = (st', res)" by fastforce
  from original_released_last [OF oneSetKube_laws(2) run, of aDyingOriginal new] new run show ?thesis by auto
qed

theorem only_public_mirrored_witness:
  "\<exists>(zone :: DNSZone) rest. newEvents aReplica (fst aMirrorRun) = ReadZone (''ns'', ''z'') (Inr zone) # rest
    \<and> z_visibility zone = VisibilityPublic \<and> m_deleted (z_meta zone) = None"
proof -
  have "case newEvents aReplica (fst aMirrorRun) of _ # _ # ev # _ \<Rightarrow> (case ev of MirroredRecordSet _ _ _ \<Rightarrow> True | _ \<Rightarrow> False)
    | _ \<Rightarrow> False" by code_simp
  then obtain mirror x r where ev: "MirroredRecordSet mirror x r \<in> set (newEvents aReplica (fst aMirrorRun))"
    by (auto simp: neq_Nil_conv split: list.splits repl_event.splits)
  obtain st' res where run: "aMirrorRun = (st', res)" by fastforce
  with ev have "MirroredRecordSet mirror x r \<in> set (newEvents aReplica st')" by simp
  from only_public_mirrored [OF run this] run show ?thesis
    by (auto simp: oneSetKube_def objectKey_def anOriginal_def aRecordSet_def aMeta_def)
qed

lemma statusPatched_ex:
  assumes "list_ex (\<lambda>ev. case ev of UpPatchedRecordSetStatus base new \<Rightarrow> P base new | _ \<Rightarrow> False) evs"
  obtains base new where "UpPatchedRecordSetStatus base new \<in> set evs" "P base new"
proof -
  from assms obtain ev where "ev \<in> set evs" "case ev of UpPatchedRecordSetStatus base new \<Rightarrow> P base new | _ \<Rightarrow> False"
    by (auto simp: list_ex_iff)
  with that show ?thesis by (cases ev) simp_all
qed

theorem programmed_follows_mirror_witness:
  "\<exists>(base :: DNSRecordSet) new mirror shadow. UpPatchedRecordSetStatus base new \<in> set (newEvents aReplica (fst aMirrorRun))
    \<and> ReadMirrorRecordSet mirror (Inr shadow) \<in> set (newEvents aReplica (fst aMirrorRun)) \<and> sameStatus new shadow"
proof -
  have "list_ex (\<lambda>ev. case ev of UpPatchedRecordSetStatus base new \<Rightarrow>
      firstOfType (rs_conditions new) CondProgrammed \<noteq> firstOfType (rs_conditions base) CondProgrammed | _ \<Rightarrow> False)
      (newEvents aReplica (fst aMirrorRun))" by code_simp
  then obtain base new where ev: "UpPatchedRecordSetStatus base new \<in> set (newEvents aReplica (fst aMirrorRun))"
      "firstOfType (rs_conditions new) CondProgrammed \<noteq> firstOfType (rs_conditions base) CondProgrammed"
    by (rule statusPatched_ex)
  obtain st' res where run: "aMirrorRun = (st', res)" by fastforce
  have find: "kb_findCond (oneSetKube anOriginal (Some aZone)) = firstOfType" by (simp add: oneSetKube_def)
  from ev(1) have "UpPatchedRecordSetStatus base new \<in> set (newEvents aReplica st')" unfolding run by simp
  from programmed_follows_mirror [OF oneSetKube_laws(1) run this, unfolded find, OF ev(2)] ev(1) show ?thesis
    unfolding run fst_conv by blast
qed

end
