(* ===== verification/Zone_Replicator.thy ===== *)
theory Zone_Replicator
  imports RecordSet_Replicator
begin

text \<open>
  The controller that mirrors zones into the downstream cluster
  (\<^verbatim>\<open>internal/controller/dnszone_replicator_controller.go\<close>, \<^verbatim>\<open>dnszone_helpers.go\<close>): who holds a domain
  name, whether the requester has proven to own it, the mirror, the default SOA and NS record sets,
  and the status of the zone. \<open>digest\<close> stands for the hexadecimal first half of \<^verbatim>\<open>sha256.Sum256\<close>, which
  only makes up a name; \<open>uc_verified\<close> for \<^verbatim>\<open>apimeta.IsStatusConditionTrue\<close> on the Verified condition of
  a Domain.
\<close>

section \<open>Definitions\<close>

definition dnsZoneFinalizer :: string where
  "dnsZoneFinalizer = ''dns.networking.miloapis.com/finalize-dnszone''"

definition ReasonDNSZoneInUse :: string where "ReasonDNSZoneInUse = ''DNSZoneInUse''"
definition ReasonPendingDomainVerification :: string where
  "ReasonPendingDomainVerification = ''PendingDomainVerification''"
definition EventReasonZoneProgrammed :: string where "EventReasonZoneProgrammed = ''ZoneProgrammed''"
definition EventReasonZoneProgrammingFailed :: string where
  "EventReasonZoneProgrammingFailed = ''ZoneProgrammingFailed''"

subsection \<open>Who holds a domain name\<close>

definition zoneOwnerKey :: "string \<Rightarrow> string" where
  "zoneOwnerKey owner = TrimPrefix owner ''/''"

definition sameZoneOwner :: "string \<Rightarrow> string \<Rightarrow> bool" where
  "sameZoneOwner a b \<longleftrightarrow> zoneOwnerKey a = zoneOwnerKey b"

definition storedOwner :: "ConfigMap \<Rightarrow> string" where
  "storedOwner cm = annotationIn (cm_data cm) ''owner''"

text \<open>A failed write is swallowed: ownership is settled already.\<close>

definition adoptZoneOwner :: "'d down_client \<Rightarrow> 'd \<Rightarrow> ConfigMap \<Rightarrow> string \<Rightarrow> 'd" where
  "adoptZoneOwner dc d cm owner =
     fst (dc_patchConfigMap dc d cm (cm\<lparr>cm_data := AList.update ''owner'' owner (cm_data cm)\<rparr>))"

definition settleOwner :: "'d down_client \<Rightarrow> 'd \<Rightarrow> ConfigMap \<Rightarrow> string \<Rightarrow> 'd \<times> (go_error + bool)" where
  "settleOwner dc d cm owner =
     (let stored = storedOwner cm; owned = sameZoneOwner stored owner in
      (if owned \<and> stored \<noteq> owner then adoptZoneOwner dc d cm owner else d, Inr owned))"

definition claimDomain :: "'d down_client \<Rightarrow> 'd \<Rightarrow> string \<Rightarrow> string \<Rightarrow> string \<Rightarrow> 'd \<times> (go_error + bool)" where
  "claimDomain dc d ns domain owner =
     (case dc_getConfigMap dc d (ns, domain) of
        (d, Inl e) \<Rightarrow>
          if \<not> dc_isNotFound dc e then (d, Inl e)
          else
            (case dc_createConfigMap dc d \<lparr>cm_meta = emptyMeta\<lparr>m_namespace := ns, m_name := domain\<rparr>, cm_data = [(''owner'', owner)]\<rparr> of
               (d, Inr _) \<Rightarrow> (d, Inr True)
             | (d, Inl cerr) \<Rightarrow>
                 if dc_isAlreadyExists dc cerr then
                   (case dc_getConfigMap dc d (ns, domain) of
                      (d, Inr cm) \<Rightarrow> settleOwner dc d cm owner
                    | (d, Inl _) \<Rightarrow> (d, Inl cerr))
                 else (d, Inl cerr))
      | (d, Inr cm) \<Rightarrow> settleOwner dc d cm owner)"

definition ensureZoneAccounting ::
  "'d down_client \<Rightarrow> string \<Rightarrow> ('u, 'd) replica \<Rightarrow> DNSZone \<Rightarrow> string \<Rightarrow> ('u, 'd) replica \<times> (go_error + bool)" where
  "ensureZoneAccounting dc ns st upstream owner =
     (let claim = (\<lambda>d. case claimDomain dc d ns (z_domainName upstream) owner of
            (d, r) \<Rightarrow> (logged (ClaimedDomain (z_domainName upstream) owner r) (st\<lparr>rp_down := d\<rparr>), r)) in
      if ns = [] then (st, Inl (PlainError ''accounting namespace is not set''))
      else case dc_getNamespace dc (rp_down st) ns of
        (d, Inr _) \<Rightarrow> claim d
      | (d, Inl e) \<Rightarrow>
          if \<not> dc_isNotFound dc e then (st\<lparr>rp_down := d\<rparr>, Inl e)
          else
            (case dc_createNamespace dc d ns of
               (d, Some cerr) \<Rightarrow> if \<not> dc_isAlreadyExists dc cerr then (st\<lparr>rp_down := d\<rparr>, Inl cerr) else claim d
             | (d, None) \<Rightarrow> claim d))"

definition cleanupZoneAccounting ::
  "'d down_client \<Rightarrow> string \<Rightarrow> ('u, 'd) replica \<Rightarrow> DNSZone \<Rightarrow> string \<Rightarrow> ('u, 'd) replica \<times> err" where
  "cleanupZoneAccounting dc ns st upstream owner =
     (let result = (\<lambda>(d, r). (logged (FreedDomain (z_domainName upstream) owner r) (st\<lparr>rp_down := d\<rparr>), r)) in
      if ns = [] then (st, Some (PlainError ''accounting namespace is not set''))
      else case dc_getConfigMap dc (rp_down st) (ns, z_domainName upstream) of
        (d, Inl e) \<Rightarrow> result (d, if dc_isNotFound dc e then None else Some e)
      | (d, Inr cm) \<Rightarrow>
          if \<not> sameZoneOwner (storedOwner cm) owner then result (d, None)
          else
            (case dc_deleteConfigMap dc d cm of
               (d, Some e) \<Rightarrow> result (d, if dc_isNotFound dc e then None else Some e)
             | (d, None) \<Rightarrow> result (d, None)))"

subsection \<open>Domains\<close>

definition normalizeNameserverIPs :: "Nameserver \<Rightarrow> Nameserver" where
  "normalizeNameserverIPs ns = (if ns_ips ns \<noteq> [] then ns\<lparr>ns_ips := sort_strings (ns_ips ns)\<rparr> else ns)"

definition hostnameLess :: "Nameserver \<Rightarrow> Nameserver \<Rightarrow> bool" where
  "hostnameLess a b \<longleftrightarrow> ns_hostname a < ns_hostname b"

definition normalizeDomainNameservers :: "Nameserver list \<Rightarrow> Nameserver list" where
  "normalizeDomainNameservers xs =
     (if xs = [] then [] else go_sort hostnameLess (map normalizeNameserverIPs (first_seen ns_hostname [] xs)))"

definition normalizeDomainRef :: "DomainRef option \<Rightarrow> DomainRef option" where
  "normalizeDomainRef r = map_option (\<lambda>r. r\<lparr>dr_nameservers := normalizeDomainNameservers (dr_nameservers r)\<rparr>) r"

definition ensureDomain :: "'u up_client \<Rightarrow> ('u, 'd) replica \<Rightarrow> DNSZone \<Rightarrow> ('u, 'd) replica \<times> err" where
  "ensureDomain uc st upstream =
     (case uc_listDomainsByName uc (rp_up st) (m_namespace (z_meta upstream)) (z_domainName upstream) of
        (u, Inl e) \<Rightarrow> (st\<lparr>rp_up := u\<rparr>, Some e)
      | (u, Inr items) \<Rightarrow>
          if length items > 0 then (st\<lparr>rp_up := u\<rparr>, None)
          else
            (case uc_createDomain uc u (m_namespace (z_meta upstream))
                   \<lparr>dm_name = z_domainName upstream, dm_domainName = z_domainName upstream, dm_conditions = [], dm_nameservers = []\<rparr> of
               (u, r) \<Rightarrow> (logged (UpCreatedDomain (z_domainName upstream) r) (st\<lparr>rp_up := u\<rparr>), r)))"

definition desiredDomainRef :: "'u up_client \<Rightarrow> 'u \<Rightarrow> DNSZone \<Rightarrow> 'u \<times> (go_error + DomainRef option)" where
  "desiredDomainRef uc u upstream =
     (case uc_listDomainsByName uc u (m_namespace (z_meta upstream)) (z_domainName upstream) of
        (u, Inl e) \<Rightarrow> (u, Inl e)
      | (u, Inr items) \<Rightarrow>
          (case items of
             [] \<Rightarrow> (u, Inr None)
           | first # _ \<Rightarrow>
               let d = (case find (\<lambda>d. uc_verified uc (dm_conditions d)) items of Some d \<Rightarrow> d | None \<Rightarrow> first) in
               (u, Inr (Some \<lparr>dr_name = dm_name d, dr_nameservers = normalizeDomainNameservers (dm_nameservers d)\<rparr>))))"

definition ensureDomainRef :: "'u kube \<Rightarrow> 'u up_client \<Rightarrow> ('u, 'd) replica \<Rightarrow> DNSZone \<Rightarrow> ('u, 'd) replica \<times> (go_error + DNSZone)" where
  "ensureDomainRef kb uc st upstream =
     (case desiredDomainRef uc (rp_up st) upstream of
        (u, Inl e) \<Rightarrow> (st\<lparr>rp_up := u\<rparr>, Inl e)
      | (u, Inr desired) \<Rightarrow>
          if normalizeDomainRef (z_domainRef upstream) = desired then (st\<lparr>rp_up := u\<rparr>, Inr upstream)
          else upPatchZoneStatus kb (st\<lparr>rp_up := u\<rparr>) upstream (upstream\<lparr>z_domainRef := desired\<rparr>))"

definition isDomainVerified ::
  "'u up_client \<Rightarrow> ('u, 'd) replica \<Rightarrow> string \<Rightarrow> string \<Rightarrow> ('u, 'd) replica \<times> (go_error + bool)" where
  "isDomainVerified uc st namespace domainName =
     (case uc_listDomains uc (rp_up st) namespace of
        (u, Inl e) \<Rightarrow> (st\<lparr>rp_up := u\<rparr>, Inl e)
      | (u, Inr items) \<Rightarrow>
          (logged (ListedDomains namespace items) (st\<lparr>rp_up := u\<rparr>),
           Inr (list_ex (\<lambda>d. domainCovers (dm_domainName d) domainName \<and> uc_verified uc (dm_conditions d)) items)))"

definition markPendingDomainVerification :: "'u kube \<Rightarrow> int \<Rightarrow> DNSZone \<Rightarrow> DNSZoneClass \<Rightarrow> DNSZone \<times> bool" where
  "markPendingDomainVerification kb now upstream zoneClass =
     (case kb_setCond kb (z_conditions upstream) (mkCondition CondAccepted ConditionFalse ReasonPendingDomainVerification
             ''Waiting for domain ownership verification before provisioning DNS'' (m_generation (z_meta upstream)) now) of
        (conditions, changed) \<Rightarrow>
          let upstream = upstream\<lparr>z_conditions := conditions\<rparr>; ns = ClassNameservers zoneClass in
          if NormalizeStringSlice (z_nameservers upstream) \<noteq> ns then (upstream\<lparr>z_nameservers := ns\<rparr>, True)
          else (upstream, changed))"

subsection \<open>The mirror\<close>

definition sameZoneSpec :: "DNSZone \<Rightarrow> DNSZone \<Rightarrow> bool" where
  "sameZoneSpec a b \<longleftrightarrow> z_domainName a = z_domainName b \<and> z_className a = z_className b \<and> z_visibility a = z_visibility b"

definition withZoneSpec :: "DNSZone \<Rightarrow> DNSZone \<Rightarrow> DNSZone" where
  "withZoneSpec z from = z\<lparr>z_domainName := z_domainName from, z_className := z_className from, z_visibility := z_visibility from\<rparr>"

definition mutateZone ::
  "'u up_client \<Rightarrow> 'd down_client \<Rightarrow> string \<Rightarrow> DNSZone \<Rightarrow> (string \<times> string) list \<Rightarrow> 'd \<Rightarrow> DNSZone \<Rightarrow> 'd \<times> (go_error + DNSZone)" where
  "mutateZone uc dc clusterName upstream annotations d shadow =
     (if m_deleted (z_meta shadow) \<noteq> None then (d, Inl errDownstreamTerminating)
      else
        let shadow = shadow\<lparr>z_meta := (z_meta shadow)\<lparr>m_annotations := annotations\<rparr>\<rparr>;
            shadow = (if \<not> sameZoneSpec shadow upstream then withZoneSpec shadow upstream else shadow) in
        case SetControllerReference uc dc clusterName ''DNSZone'' d (z_meta upstream) (z_meta shadow) of
          (d, Inl e) \<Rightarrow> (d, Inl e)
        | (d, Inr meta) \<Rightarrow> (d, Inr (shadow\<lparr>z_meta := meta\<rparr>)))"

definition ensureDownstreamZone ::
  "'u up_client \<Rightarrow> 'd down_client \<Rightarrow> string \<Rightarrow> ('u, 'd) replica \<Rightarrow> DNSZone \<Rightarrow> ('u, 'd) replica \<times> err" where
  "ensureDownstreamZone uc dc clusterName st upstream =
     (case ObjectMetaFromUpstreamObject uc (rp_up st) (z_meta upstream) of
        (u, Inl e) \<Rightarrow> (st\<lparr>rp_up := u\<rparr>, Some e)
      | (u, Inr (key, annotations)) \<Rightarrow>
          (case checkDownstreamNamespace dc (rp_down st) (fst key) of
             (d, Some e) \<Rightarrow> (st\<lparr>rp_up := u, rp_down := d\<rparr>, Some e)
           | (d, None) \<Rightarrow>
               (case dc_createOrPatchZone dc (mappedCreate dc clusterName z_meta (dc_createZone dc)) d key
                       (mutateZone uc dc clusterName upstream annotations) of
                  (d, res, r) \<Rightarrow>
                    (logged (MirroredZone key upstream r) (st\<lparr>rp_up := u, rp_down := d\<rparr>),
                     map_option (downstreamTerminationError dc) r))))"

subsection \<open>The default record sets\<close>

text \<open>\<^verbatim>\<open>apierrors.IsAlreadyExists\<close> is one predicate for both clusters.\<close>

definition isApexName :: "string \<Rightarrow> string \<Rightarrow> bool" where
  "isApexName zoneDomain name \<longleftrightarrow> name = ''@''
     \<or> zoneDomain \<noteq> [] \<and> EqualFold (TrimSuffix name ''.'') (TrimSuffix zoneDomain ''.'')"

definition hasApexRecordSet :: "DNSRecordSet list \<Rightarrow> string \<Rightarrow> bool" where
  "hasApexRecordSet items zoneDomain \<longleftrightarrow>
     list_ex (\<lambda>item. list_ex (\<lambda>record. isApexName zoneDomain (re_name record)) (rs_records item)) items"

text \<open>One attempt; \<open>None\<close> when the name is taken by something else.\<close>

definition tryApex ::
  "'u kube \<Rightarrow> 'u up_client \<Rightarrow> 'd down_client \<Rightarrow> ('u, 'd) replica \<Rightarrow> DNSRecordSet \<Rightarrow> string \<Rightarrow> ('u, 'd) replica \<times> err option" where
  "tryApex kb uc dc st desired zoneDomain =
     (case uc_createRecordSet uc (rp_up st) desired of
        (u, r) \<Rightarrow>
          let st = logged (UpCreatedRecordSet desired r) (st\<lparr>rp_up := u\<rparr>) in
          case r of
            None \<Rightarrow> (st, Some None)
          | Some e \<Rightarrow>
              if \<not> dc_isAlreadyExists dc e then (st, Some (Some e))
              else
                (case upstreamRecordSet kb st (objectKey (rs_meta desired)) of
                   (st, Inl e) \<Rightarrow> (st, Some (Some e))
                 | (st, Inr existing) \<Rightarrow>
                     if rs_zoneRef existing = rs_zoneRef desired \<and> rs_recordType existing = rs_recordType desired
                        \<and> hasApexRecordSet [existing] zoneDomain
                     then (st, Some None) else (st, None)))"

definition fallbackApex :: "(string \<Rightarrow> string) \<Rightarrow> DNSRecordSet \<Rightarrow> DNSRecordSet" where
  "fallbackApex digest desired = desired\<lparr>rs_meta := (rs_meta desired)\<lparr>m_name := ''dnszone-apex-''
     @ digest (m_namespace (rs_meta desired) @ ''/'' @ rs_zoneRef desired @ ''/'' @ rs_recordType desired)\<rparr>\<rparr>"

definition createApexRecordSet ::
  "'u kube \<Rightarrow> 'u up_client \<Rightarrow> 'd down_client \<Rightarrow> (string \<Rightarrow> string) \<Rightarrow> ('u, 'd) replica \<Rightarrow> DNSRecordSet \<Rightarrow> string \<Rightarrow> ('u, 'd) replica \<times> err" where
  "createApexRecordSet kb uc dc digest st desired zoneDomain =
     (case tryApex kb uc dc st desired zoneDomain of
        (st, Some r) \<Rightarrow> (st, r)
      | (st, None) \<Rightarrow>
          let desired = fallbackApex digest desired in
          case tryApex kb uc dc st desired zoneDomain of
            (st, Some r) \<Rightarrow> (st, r)
          | (st, None) \<Rightarrow> (st, Some (PlainError (''default apex record name '' @ go_quote (m_name (rs_meta desired))
                              @ '' is occupied by an unrelated record''))))"

definition apexSet :: "DNSZone \<Rightarrow> string \<Rightarrow> RRType \<Rightarrow> RecordEntry list \<Rightarrow> DNSRecordSet" where
  "apexSet upstream rsName recordType records =
     \<lparr>rs_meta = emptyMeta\<lparr>m_namespace := m_namespace (z_meta upstream), m_name := m_name (z_meta upstream) @ ''-'' @ rsName\<rparr>,
      rs_zoneRef = m_name (z_meta upstream), rs_recordType = recordType, rs_records = records,
      rs_conditions = [], rs_recordSets = []\<rparr>"

definition ensureApex ::
  "'u kube \<Rightarrow> 'u up_client \<Rightarrow> 'd down_client \<Rightarrow> (string \<Rightarrow> string) \<Rightarrow> ('u, 'd) replica \<Rightarrow> DNSZone \<Rightarrow> DNSRecordSet \<Rightarrow> ('u, 'd) replica \<times> err" where
  "ensureApex kb uc dc digest st upstream newObj =
     (case kb_listByZoneAndType kb (rp_up st) (objectKey (z_meta upstream)) (rs_recordType newObj) of
        (u, Inl e) \<Rightarrow> (st\<lparr>rp_up := u\<rparr>, Some e)
      | (u, Inr items) \<Rightarrow>
          if hasApexRecordSet items (z_domainName upstream) then (st\<lparr>rp_up := u\<rparr>, None)
          else createApexRecordSet kb uc dc digest (st\<lparr>rp_up := u\<rparr>) newObj (z_domainName upstream))"

definition defaultSOA :: "DNSZone \<Rightarrow> string \<Rightarrow> SOARecordSpec" where
  "defaultSOA upstream mname =
     \<lparr>soa_mname = (if mname \<noteq> [] \<and> last mname \<noteq> CHR ''.'' then mname @ ''.'' else mname),
      soa_rname = ''hostmaster.'' @ z_domainName upstream @ ''.'', soa_serial = 0,
      soa_refresh = 10800, soa_retry = 3600, soa_expire = 604800, soa_ttl = 3600\<rparr>"

definition ensureSOARecordSet ::
  "'u kube \<Rightarrow> 'u up_client \<Rightarrow> 'd down_client \<Rightarrow> (string \<Rightarrow> string) \<Rightarrow> ('u, 'd) replica \<Rightarrow> DNSZone \<Rightarrow> ('u, 'd) replica \<times> err" where
  "ensureSOARecordSet kb uc dc digest st upstream =
     (case z_nameservers upstream of
        [] \<Rightarrow> (st, None)
      | mname # _ \<Rightarrow> ensureApex kb uc dc digest st upstream
          (apexSet upstream ''soa'' RRTypeSOA [(emptyEntry ''@'')\<lparr>re_SOA := Some (defaultSOA upstream mname)\<rparr>]))"

definition ensureNSRecordSet ::
  "'u kube \<Rightarrow> 'u up_client \<Rightarrow> 'd down_client \<Rightarrow> (string \<Rightarrow> string) \<Rightarrow> ('u, 'd) replica \<Rightarrow> DNSZone \<Rightarrow> ('u, 'd) replica \<times> err" where
  "ensureNSRecordSet kb uc dc digest st upstream =
     (if z_nameservers upstream = [] then (st, None)
      else ensureApex kb uc dc digest st upstream
        (apexSet upstream ''ns'' RRTypeNS (map (\<lambda>v. (emptyEntry ''@'')\<lparr>re_NS := Some v\<rparr>) (z_nameservers upstream))))"

subsection \<open>The status\<close>

definition mirrorNameservers ::
  "'u up_client \<Rightarrow> 'd down_client \<Rightarrow> ('u, 'd) replica \<Rightarrow> DNSZone \<Rightarrow> ('u, 'd) replica \<times> DNSZone \<times> bool" where
  "mirrorNameservers uc dc st upstream =
     (case ObjectMetaFromUpstreamObject uc (rp_up st) (z_meta upstream) of
        (u, Inl _) \<Rightarrow> (st\<lparr>rp_up := u\<rparr>, upstream, False)
      | (u, Inr (key, _)) \<Rightarrow>
          (case mirrorZoneAt dc (st\<lparr>rp_up := u\<rparr>) key of
             (st, Inl _) \<Rightarrow> (st, upstream, False)
           | (st, Inr shadow) \<Rightarrow>
               let currentNS = NormalizeStringSlice (z_nameservers upstream);
                   desiredNS = NormalizeStringSlice (z_nameservers shadow) in
               if desiredNS \<noteq> [] \<and> currentNS \<noteq> desiredNS then (st, upstream\<lparr>z_nameservers := desiredNS\<rparr>, True)
               else (st, upstream, False)))"

definition setZoneCond :: "'u kube \<Rightarrow> int \<Rightarrow> DNSZone \<Rightarrow> string \<Rightarrow> ConditionStatus \<Rightarrow> string \<Rightarrow> string \<Rightarrow> DNSZone \<times> bool" where
  "setZoneCond kb now upstream type status reason message =
     (case kb_setCond kb (z_conditions upstream) (mkCondition type status reason message (m_generation (z_meta upstream)) now) of
        (conditions, changed) \<Rightarrow> (upstream\<lparr>z_conditions := conditions\<rparr>, changed))"

definition linkDomain :: "DNSZone \<Rightarrow> DomainRef option \<Rightarrow> DNSZone \<times> bool" where
  "linkDomain upstream newRef =
     (if normalizeDomainRef (z_domainRef upstream) \<noteq> newRef then (upstream\<lparr>z_domainRef := newRef\<rparr>, True) else (upstream, False))"

definition acceptZone :: "'u kube \<Rightarrow> int \<Rightarrow> DNSZone \<Rightarrow> DNSZone \<times> bool" where
  "acceptZone kb now upstream =
     (if length (z_nameservers upstream) > 0
      then setZoneCond kb now upstream CondAccepted ConditionTrue ReasonAccepted ''Nameservers retrieved from downstream''
      else setZoneCond kb now upstream CondAccepted ConditionFalse ReasonPending ''Waiting for downstream nameservers'')"

definition haveDefaults :: "DNSZone \<Rightarrow> DNSRecordSet list \<Rightarrow> bool" where
  "haveDefaults upstream items \<longleftrightarrow>
     (let apex = filter (\<lambda>item. hasApexRecordSet [item] (z_domainName upstream)) items in
      list_ex (\<lambda>item. rs_recordType item = RRTypeSOA) apex \<and> list_ex (\<lambda>item. rs_recordType item = RRTypeNS) apex)"

definition programZone :: "'u kube \<Rightarrow> int \<Rightarrow> DNSZone \<Rightarrow> DNSRecordSet list \<Rightarrow> DNSZone \<times> bool" where
  "programZone kb now upstream items =
     (if length (z_nameservers upstream) > 0 \<and> haveDefaults upstream items
      then setZoneCond kb now upstream CondProgrammed ConditionTrue ReasonProgrammed ''Default records ensured''
      else setZoneCond kb now upstream CondProgrammed ConditionFalse ReasonPending ''Waiting for default records'')"

definition countRecords :: "DNSZone \<Rightarrow> DNSRecordSet list \<Rightarrow> DNSZone \<times> bool" where
  "countRecords upstream items =
     (let recordCount = (\<Sum>item\<leftarrow>items. int (length (rs_records item))) in
      if z_recordCount upstream \<noteq> recordCount then (upstream\<lparr>z_recordCount := recordCount\<rparr>, True) else (upstream, False))"

text \<open>The zone in memory is changed even when an error is returned, and the caller goes on with it
  when that error is tolerated.\<close>

definition updateZoneStatus ::
  "'u kube \<Rightarrow> 'u up_client \<Rightarrow> 'd down_client \<Rightarrow> int \<Rightarrow> ('u, 'd) replica \<Rightarrow> DNSZone \<Rightarrow> ('u, 'd) replica \<times> DNSZone \<times> err" where
  "updateZoneStatus kb uc dc now st base =
     (case mirrorNameservers uc dc st base of (st, upstream, served) \<Rightarrow>
      case desiredDomainRef uc (rp_up st) upstream of
        (u, Inl e) \<Rightarrow> (st\<lparr>rp_up := u\<rparr>, upstream, Some e)
      | (u, Inr newRef) \<Rightarrow>
          (case linkDomain upstream newRef of (upstream, moved) \<Rightarrow>
           case acceptZone kb now upstream of (upstream, took) \<Rightarrow>
          (case kb_listByZone kb u (objectKey (z_meta upstream)) of
             (u, Inl e) \<Rightarrow> (st\<lparr>rp_up := u\<rparr>, upstream, Some e)
           | (u, Inr items) \<Rightarrow>
               (case programZone kb now upstream items of (upstream, put) \<Rightarrow>
                case countRecords upstream items of (upstream, counted) \<Rightarrow>
                if \<not> (served \<or> moved \<or> took \<or> put \<or> counted) then (st\<lparr>rp_up := u\<rparr>, upstream, None)
                else (case upPatchZoneStatus kb (st\<lparr>rp_up := u\<rparr>) base upstream of
                        (st, Inl e) \<Rightarrow> (st, upstream, Some e)
                      | (st, Inr stored) \<Rightarrow> (st, stored, None))))))"

subsection \<open>Reconcile\<close>

definition zoneOwner :: "string \<Rightarrow> DNSZone \<Rightarrow> string" where
  "zoneOwner clusterName upstream = clusterName @ ''/'' @ m_namespace (z_meta upstream) @ ''/'' @ m_name (z_meta upstream)"

definition withZoneFinalizers :: "DNSZone \<Rightarrow> string list \<Rightarrow> DNSZone" where
  "withZoneFinalizers z fs = z\<lparr>z_meta := (z_meta z)\<lparr>m_finalizers := fs\<rparr>\<rparr>"

definition deleteUpstreamZone ::
  "'u kube \<Rightarrow> 'u up_client \<Rightarrow> 'd down_client \<Rightarrow> string \<Rightarrow> string \<Rightarrow> ('u, 'd) replica \<Rightarrow> DNSZone \<Rightarrow> ('u, 'd) replica \<times> repl_result" where
  "deleteUpstreamZone kb uc dc ns clusterName st upstream =
     (if \<not> kb_containsFinalizer kb (m_finalizers (z_meta upstream)) dnsZoneFinalizer then replDone st
      else
        case DeleteAnchorForObject uc dc st (z_meta upstream) of (st, e) \<Rightarrow>
          if e \<noteq> None \<and> \<not> dc_isNotFound dc (the e) then replFail st e
          else
            (case ObjectMetaFromUpstreamObject uc (rp_up st) (z_meta upstream) of
               (u, Inl mdErr) \<Rightarrow> replFail (st\<lparr>rp_up := u\<rparr>) (Some mdErr)
             | (u, Inr (key, _)) \<Rightarrow>
                 (case mirrorZoneAt dc (st\<lparr>rp_up := u\<rparr>) key of
                    (st, Inr _) \<Rightarrow> replDone st
                  | (st, Inl getErr) \<Rightarrow>
                      if \<not> dc_isNotFound dc getErr then replFail st (Some getErr)
                      else
                        (case cleanupZoneAccounting dc ns st upstream (zoneOwner clusterName upstream) of (st, cerr) \<Rightarrow>
                           if cerr \<noteq> None \<and> \<not> dc_isNotFound dc (the cerr) then replFail st cerr
                           else
                             (case upPatchZone kb st upstream (withZoneFinalizers upstream
                                     (kb_removeFinalizer kb (m_finalizers (z_meta upstream)) dnsZoneFinalizer)) of
                                (st, r) \<Rightarrow> replFail st (errOf r))))))"

text \<open>A zone whose class is not set or not there.\<close>

definition refuseZone :: "'u kube \<Rightarrow> int \<Rightarrow> ('u, 'd) replica \<Rightarrow> DNSZone \<Rightarrow> string \<Rightarrow> ('u, 'd) replica \<times> repl_result" where
  "refuseZone kb now st upstream message =
     (case setZoneCond kb now upstream CondAccepted ConditionFalse ReasonPending message of
        (_, False) \<Rightarrow> replDone st
      | (refused, True) \<Rightarrow> (case upPatchZoneStatus kb st upstream refused of (st, r) \<Rightarrow> replFail st (errOf r)))"

definition emitIf :: "bool \<Rightarrow> repl_event \<Rightarrow> ('u, 'd) replica \<Rightarrow> ('u, 'd) replica" where
  "emitIf events ev st = (if events then logged ev st else st)"

definition zoneInUse :: "'u kube \<Rightarrow> bool \<Rightarrow> int \<Rightarrow> ('u, 'd) replica \<Rightarrow> DNSZone \<Rightarrow> ('u, 'd) replica \<times> repl_result" where
  "zoneInUse kb events now st upstream =
     (case setZoneCond kb now upstream CondAccepted ConditionFalse ReasonDNSZoneInUse ''DNSZone claimed by another resource'' of (new, a) \<Rightarrow>
      case setZoneCond kb now new CondProgrammed ConditionFalse ReasonDNSZoneInUse ''DNSZone claimed by another resource'' of (new, b) \<Rightarrow>
      if \<not> (a \<or> b) then replDone st
      else case upPatchZoneStatus kb st upstream new of
        (st, Inl e) \<Rightarrow> replFail st (Some e)
      | (st, Inr stored) \<Rightarrow> replDone (emitIf events (Emitted EventReasonZoneProgrammingFailed (m_name (z_meta stored))
            (''DNSZone '' @ go_quote (m_name (z_meta stored)) @ '' programming failed: domain already claimed by another DNSZone'')) st))"

definition emitZoneTransition :: "bool \<Rightarrow> ('u, 'd) replica \<Rightarrow> DNSZone \<Rightarrow> Condition option \<Rightarrow> Condition option \<Rightarrow> ('u, 'd) replica" where
  "emitZoneTransition events st upstream prev cur =
     (if \<not> programmedConditionTransitioned prev cur then st
      else case cur of
        None \<Rightarrow> st
      | Some c \<Rightarrow>
          if c_status c = ConditionTrue then
            emitIf events (Emitted EventReasonZoneProgrammed (m_name (z_meta upstream))
              (''DNSZone '' @ go_quote (m_name (z_meta upstream)) @ '' successfully programmed with nameservers: ''
               @ Join (z_nameservers upstream) '', '')) st
          else if c_status c = ConditionFalse \<and> (case prev of Some p \<Rightarrow> c_status p = ConditionTrue | None \<Rightarrow> False) then
            emitIf events (Emitted EventReasonZoneProgrammingFailed (m_name (z_meta upstream))
              (''DNSZone '' @ go_quote (m_name (z_meta upstream)) @ '' programming failed: '' @ c_message c)) st
          else st)"

text \<open>The zone is mirrored: its status, its default records, its status again.\<close>

definition serveZone ::
  "'u kube \<Rightarrow> 'u up_client \<Rightarrow> 'd down_client \<Rightarrow> (string \<Rightarrow> string) \<Rightarrow> bool \<Rightarrow> int \<Rightarrow> ('u, 'd) replica \<Rightarrow> DNSZone \<Rightarrow> ('u, 'd) replica \<times> repl_result" where
  "serveZone kb uc dc digest events now st upstream =
     (case updateZoneStatus kb uc dc now st upstream of (st, upstream, e) \<Rightarrow>
      if e \<noteq> None \<and> \<not> kb_isNotFound kb (the e) then replFail st e
      else if length (z_nameservers upstream) = 0 then replDone st
      else case ensureSOARecordSet kb uc dc digest st upstream of (st, e) \<Rightarrow>
      if e \<noteq> None then replFail st e
      else case ensureNSRecordSet kb uc dc digest st upstream of (st, e) \<Rightarrow>
      if e \<noteq> None then replFail st e
      else
        let prev = kb_findCond kb (z_conditions upstream) CondProgrammed in
        case updateZoneStatus kb uc dc now st upstream of (st, upstream, e) \<Rightarrow>
        if e \<noteq> None \<and> \<not> kb_isNotFound kb (the e) then replFail st e
        else replDone (emitZoneTransition events st upstream prev (kb_findCond kb (z_conditions upstream) CondProgrammed)))"

definition provisionZone ::
  "'u kube \<Rightarrow> 'u up_client \<Rightarrow> 'd down_client \<Rightarrow> (string \<Rightarrow> string) \<Rightarrow> string \<Rightarrow> bool \<Rightarrow> int \<Rightarrow> ('u, 'd) replica \<Rightarrow> DNSZone \<Rightarrow> ('u, 'd) replica \<times> repl_result" where
  "provisionZone kb uc dc digest clusterName events now st upstream =
     (case ensureDownstreamZone uc dc clusterName st upstream of
        (st, Some e) \<Rightarrow> if errorIs errDownstreamTerminating e then replAfter st 60 else replFail st (Some e)
      | (st, None) \<Rightarrow> serveZone kb uc dc digest events now st upstream)"

definition gateZone ::
  "'u kube \<Rightarrow> 'u up_client \<Rightarrow> 'd down_client \<Rightarrow> (string \<Rightarrow> string) \<Rightarrow> string \<Rightarrow> bool \<Rightarrow> int \<Rightarrow> ('u, 'd) replica \<Rightarrow> DNSZone \<Rightarrow> DNSZoneClass \<Rightarrow> ('u, 'd) replica \<times> repl_result" where
  "gateZone kb uc dc digest clusterName events now st upstream zoneClass =
     (case isDomainVerified uc st (m_namespace (z_meta upstream)) (z_domainName upstream) of
        (st, Inl e) \<Rightarrow> replFail st (Some e)
      | (st, Inr False) \<Rightarrow>
          (case markPendingDomainVerification kb now upstream zoneClass of
             (_, False) \<Rightarrow> replDone st
           | (pending, True) \<Rightarrow> (case upPatchZoneStatus kb st upstream pending of (st, r) \<Rightarrow> replFail st (errOf r)))
      | (st, Inr True) \<Rightarrow> provisionZone kb uc dc digest clusterName events now st upstream)"

definition claimZone ::
  "'u kube \<Rightarrow> 'u up_client \<Rightarrow> 'd down_client \<Rightarrow> (string \<Rightarrow> string) \<Rightarrow> string \<Rightarrow> string \<Rightarrow> bool \<Rightarrow> int \<Rightarrow> ('u, 'd) replica \<Rightarrow> DNSZone \<Rightarrow> DNSZoneClass \<Rightarrow> ('u, 'd) replica \<times> repl_result" where
  "claimZone kb uc dc digest ns clusterName events now st upstream zoneClass =
     (case ensureZoneAccounting dc ns st upstream (zoneOwner clusterName upstream) of
        (st, Inl e) \<Rightarrow> replFail st (Some e)
      | (st, Inr False) \<Rightarrow> zoneInUse kb events now st upstream
      | (st, Inr True) \<Rightarrow>
          (case ensureDomain uc st upstream of
             (st, Some e) \<Rightarrow> replFail st (Some e)
           | (st, None) \<Rightarrow>
               (case ensureDomainRef kb uc st upstream of
                  (st, Inl e) \<Rightarrow> replFail st (Some e)
                | (st, Inr upstream) \<Rightarrow> gateZone kb uc dc digest clusterName events now st upstream zoneClass)))"

definition replicateLiveZone ::
  "'u kube \<Rightarrow> 'u up_client \<Rightarrow> 'd down_client \<Rightarrow> (string \<Rightarrow> string) \<Rightarrow> string \<Rightarrow> string \<Rightarrow> bool \<Rightarrow> int \<Rightarrow> ('u, 'd) replica \<Rightarrow> DNSZone \<Rightarrow> ('u, 'd) replica \<times> repl_result" where
  "replicateLiveZone kb uc dc digest ns clusterName events now st upstream =
     (if \<not> kb_containsFinalizer kb (m_finalizers (z_meta upstream)) dnsZoneFinalizer then
        (case upPatchZone kb st upstream (withZoneFinalizers upstream (m_finalizers (z_meta upstream) @ [dnsZoneFinalizer])) of
           (st, r) \<Rightarrow> replFail st (errOf r))
      else if z_className upstream = [] then refuseZone kb now st upstream ''DNSZoneClassName not set''
      else case kb_getZoneClass kb (rp_up st) (z_className upstream) of
        (u, Inl e) \<Rightarrow>
          if kb_isNotFound kb e
          then refuseZone kb now (st\<lparr>rp_up := u\<rparr>) upstream (''DNSZoneClass '' @ go_quote (z_className upstream) @ '' not found'')
          else replFail (st\<lparr>rp_up := u\<rparr>) (Some e)
      | (u, Inr zoneClass) \<Rightarrow> claimZone kb uc dc digest ns clusterName events now (st\<lparr>rp_up := u\<rparr>) upstream zoneClass)"

definition ReplicateZone ::
  "'u kube \<Rightarrow> 'u up_client \<Rightarrow> 'd down_client \<Rightarrow> (string \<Rightarrow> string) \<Rightarrow> string \<Rightarrow> string \<Rightarrow> bool \<Rightarrow> int \<Rightarrow> ('u, 'd) replica \<Rightarrow> string \<times> string \<Rightarrow> ('u, 'd) replica \<times> repl_result" where
  "ReplicateZone kb uc dc digest ns clusterName events now st key =
     (case upstreamZone kb st key of
        (st, Inl e) \<Rightarrow> replFail st (IgnoreNotFound kb e)
      | (st, Inr upstream) \<Rightarrow>
          if z_visibility upstream = VisibilityPrivate then replDone st
          else if m_deleted (z_meta upstream) = None then replicateLiveZone kb uc dc digest ns clusterName events now st upstream
          else deleteUpstreamZone kb uc dc ns clusterName st upstream)"

text \<open>A Domain that changes wakes the zones of its namespace that it covers.\<close>

definition zonesWokenBy :: "string \<Rightarrow> Domain \<Rightarrow> go_error + DNSZone list \<Rightarrow> upstream_request list" where
  "zonesWokenBy clusterName domain zones =
     (case zones of
        Inl _ \<Rightarrow> []
      | Inr items \<Rightarrow> map (\<lambda>z. \<lparr>ur_cluster = clusterName, ur_namespace = m_namespace (z_meta z), ur_name = m_name (z_meta z)\<rparr>)
          (filter (\<lambda>z. domainCovers (dm_domainName domain) (z_domainName z)) items))"

section \<open>Lemmas\<close>

interpretation hn: go_less hostnameLess
  by (rule go_less_keyI [where key = ns_hostname]) (simp add: hostnameLess_def)

text \<open>The nameservers of a Domain are compared in the order of their names.\<close>

lemma normalizeDomainNameservers_sorted: "sorted (map ns_hostname (normalizeDomainNameservers xs))"
  using hn.ordered_go_sort [of "map normalizeNameserverIPs (first_seen ns_hostname [] xs)"]
  by (simp add: normalizeDomainNameservers_def hostnameLess_def sorted_wrt_map not_less)

subsection \<open>What is written down\<close>

text \<open>Everything a reconcile of a zone logs besides the mirroring itself, the change of finalizers and
  the release of the domain name.\<close>

fun plain_event :: "repl_event \<Rightarrow> bool" where
  "plain_event (MirroredZone _ _ _) = False"
| "plain_event (UpPatchedZone _ _) = False"
| "plain_event (FreedDomain _ _ _) = False"
| "plain_event _ = True"

definition plainly :: "('u, 'd) replica \<Rightarrow> ('u, 'd) replica \<Rightarrow> bool" where
  "plainly st st' \<longleftrightarrow> (\<exists>evs. rp_log st' = rp_log st @ evs \<and> list_all plain_event evs)"

lemma plainly_refl [simp]: "plainly st st"
  by (simp add: plainly_def)

lemma plainly_states [simp]:
  "plainly (st\<lparr>rp_up := u\<rparr>) st' = plainly st st'" "plainly (st\<lparr>rp_down := d\<rparr>) st' = plainly st st'"
  "plainly st (st'\<lparr>rp_up := u\<rparr>) = plainly st st'" "plainly st (st'\<lparr>rp_down := d\<rparr>) = plainly st st'"
  by (simp_all add: plainly_def)

lemma plainly_logged [simp]: "plain_event ev \<Longrightarrow> plainly st st' \<Longrightarrow> plainly st (logged ev st')"
  by (auto simp: plainly_def logged_def)

lemma plainly_trans: "plainly a b \<Longrightarrow> plainly b c \<Longrightarrow> plainly a c"
  by (auto simp: plainly_def)

named_theorems plain_ops

lemma plain_reads [plain_ops]:
  "mirrorZoneAt dc st key = (st', r1) \<Longrightarrow> plainly st st'"
  "upstreamRecordSet kb st key = (st', r2) \<Longrightarrow> plainly st st'"
  "upPatchZoneStatus kb st base new = (st', r3) \<Longrightarrow> plainly st st'"
  "DeleteAnchorForObject uc dc st owner = (st', r4) \<Longrightarrow> plainly st st'"
  by (auto simp: mirrorZoneAt_def upstreamRecordSet_def upPatchZoneStatus_def DeleteAnchorForObject_def Let_def split: prod.splits sum.splits)

lemma plain_accounting [plain_ops]:
  assumes "ensureZoneAccounting dc ns st z owner = (st', r)"
  shows "plainly st st'"
  using assms by (auto simp: ensureZoneAccounting_def Let_def split: prod.splits sum.splits option.splits if_splits)

lemma plain_domains [plain_ops]:
  "ensureDomain uc st z = (st', r1) \<Longrightarrow> plainly st st'"
  "isDomainVerified uc st ns name = (st', r2) \<Longrightarrow> plainly st st'"
  "ensureDomainRef kb uc st z = (st', r3) \<Longrightarrow> plainly st st'"
  by (auto simp: ensureDomain_def isDomainVerified_def ensureDomainRef_def Let_def split: prod.splits sum.splits if_splits
      dest!: plain_ops)

lemma plain_apex [plain_ops]:
  assumes "tryApex kb uc dc st desired zoneDomain = (st', r)"
  shows "plainly st st'"
  using assms by (auto simp: tryApex_def Let_def split: prod.splits sum.splits option.splits if_splits dest!: plain_ops)
    (auto intro: plainly_trans [rotated])

lemma plain_create [plain_ops]:
  assumes "createApexRecordSet kb uc dc digest st desired zoneDomain = (st', r)"
  shows "plainly st st'"
  using assms by (auto simp: createApexRecordSet_def Let_def split: prod.splits option.splits dest!: plain_apex intro: plainly_trans)

lemma plain_ensure [plain_ops]:
  "ensureSOARecordSet kb uc dc digest st z = (st', r1) \<Longrightarrow> plainly st st'"
  "ensureNSRecordSet kb uc dc digest st z = (st', r2) \<Longrightarrow> plainly st st'"
  by (auto simp: ensureSOARecordSet_def ensureNSRecordSet_def ensureApex_def split: prod.splits sum.splits if_splits list.splits
      dest!: plain_create)

lemma plain_nameservers [plain_ops]:
  assumes "mirrorNameservers uc dc st z = (st', r)"
  shows "plainly st st'"
  using assms by (auto simp: mirrorNameservers_def Let_def split: prod.splits sum.splits if_splits dest!: plain_reads(1))

lemma plain_status [plain_ops]:
  assumes "updateZoneStatus kb uc dc now st z = (st', r)"
  shows "plainly st st'"
  using assms
  by (auto simp: updateZoneStatus_def Let_def split: prod.splits sum.splits if_splits dest!: plain_reads(3) plain_nameservers
      intro: plainly_trans)

lemma plain_emit [simp]:
  "plainly st (emitIf events (Emitted a b c) st)" "plainly st (emitZoneTransition events st z prev cur)"
  by (auto simp: emitIf_def emitZoneTransition_def split: option.splits)

lemma plain_serve [plain_ops]:
  assumes "serveZone kb uc dc digest events now st z = (st', r)"
  shows "plainly st st'"
proof -
  obtain st1 z1 e1 where s1: "updateZoneStatus kb uc dc now st z = (st1, z1, e1)" by (metis prod_cases3)
  obtain st2 e2 where s2: "ensureSOARecordSet kb uc dc digest st1 z1 = (st2, e2)" by (metis surj_pair)
  obtain st3 e3 where s3: "ensureNSRecordSet kb uc dc digest st2 z1 = (st3, e3)" by (metis surj_pair)
  obtain st4 z4 e4 where s4: "updateZoneStatus kb uc dc now st3 z1 = (st4, z4, e4)" by (metis prod_cases3)
  have "st' \<in> {st1, st2, st3, st4} \<or> (\<exists>prev cur. st' = emitZoneTransition events st4 z4 prev cur)"
    using assms unfolding serveZone_def s1 prod.case s2 s3 s4 Let_def
    by (auto simp: repl_result_defs split: if_splits)
  moreover have "plainly st st1" "plainly st1 st2" "plainly st2 st3" "plainly st3 st4"
    using plain_status [OF s1] plain_ensure(1) [OF s2] plain_ensure(2) [OF s3] plain_status [OF s4] .
  ultimately show ?thesis by (auto intro: plainly_trans plainly_trans [OF _ plain_emit(2)])
qed

lemma plain_refusals [plain_ops]:
  "refuseZone kb now st z message = (st', r1) \<Longrightarrow> plainly st st'"
  "zoneInUse kb events now st z = (st', r2) \<Longrightarrow> plainly st st'"
  by (auto simp: refuseZone_def zoneInUse_def repl_result_defs split: prod.splits sum.splits if_splits bool.splits
      dest!: plain_reads(3) intro: plainly_trans)

text \<open>What one run may log when it mirrors a zone: \<open>pre\<close> before, \<open>post\<close> after.\<close>

definition mirrors :: "('u, 'd) replica \<Rightarrow> ('u, 'd) replica \<Rightarrow> (repl_event list \<Rightarrow> DNSZone \<Rightarrow> bool) \<Rightarrow> bool" where
  "mirrors st st' P \<longleftrightarrow> (\<exists>pre k z e post. rp_log st' = rp_log st @ pre @ MirroredZone k z e # post
     \<and> list_all plain_event pre \<and> list_all plain_event post \<and> P pre z)"

lemma mirrors_states [simp]:
  "mirrors (st\<lparr>rp_up := u\<rparr>) st' P = mirrors st st' P" "mirrors (st\<lparr>rp_down := d\<rparr>) st' P = mirrors st st' P"
  by (simp_all add: mirrors_def)

lemma mirrors_after:
  assumes "plainly st st1" and "mirrors st1 st' P"
    and "\<And>evs pre z. rp_log st1 = rp_log st @ evs \<Longrightarrow> P pre z \<Longrightarrow> Q (evs @ pre) z"
  shows "mirrors st st' Q"
proof -
  obtain evs where evs: "rp_log st1 = rp_log st @ evs" "list_all plain_event evs" using assms(1) by (auto simp: plainly_def)
  obtain pre k z e post where m: "rp_log st' = rp_log st1 @ pre @ MirroredZone k z e # post"
    "list_all plain_event pre" "list_all plain_event post" "P pre z" using assms(2) by (auto simp: mirrors_def)
  have "rp_log st' = rp_log st @ (evs @ pre) @ MirroredZone k z e # post" "list_all plain_event (evs @ pre)" "Q (evs @ pre) z"
    using evs m assms(3) by simp_all
  then show ?thesis using m(3) unfolding mirrors_def by blast
qed

lemma provisionZone_log:
  assumes "provisionZone kb uc dc digest clusterName events now st z = (st', r)"
  shows "plainly st st' \<or> mirrors st st' (\<lambda>pre z'. pre = [] \<and> z' = z)"
proof -
  obtain st1 e where s1: "ensureDownstreamZone uc dc clusterName st z = (st1, e)" by (metis surj_pair)
  have "plainly st st1 \<and> e \<noteq> None \<or> (\<exists>k r. rp_log st1 = rp_log st @ [MirroredZone k z r])"
    using s1 by (auto simp: ensureDownstreamZone_def split: prod.splits sum.splits option.splits)
  moreover have "st' = st1 \<and> e \<noteq> None \<or> plainly st1 st' \<and> e = None"
    using assms unfolding provisionZone_def s1 prod.case
    by (auto simp: repl_result_defs split: option.splits if_splits dest: plain_serve)
  ultimately consider "plainly st st'" | k r evs where "rp_log st' = rp_log st @ [] @ MirroredZone k z r # evs" "list_all plain_event evs"
    by (auto simp: plainly_def)
  then show ?thesis by cases (auto simp: mirrors_def)
qed

definition provenAmong :: "'u up_client \<Rightarrow> DNSZone \<Rightarrow> Domain list \<Rightarrow> bool" where
  "provenAmong uc z items \<longleftrightarrow>
     list_ex (\<lambda>d. domainCovers (dm_domainName d) (z_domainName z) \<and> uc_verified uc (dm_conditions d)) items"

lemma proof_wakes_zone:
  assumes "provenAmong uc z items" and "\<not> provenAmong uc z (filter (\<lambda>d. d \<noteq> domain) items)" and "z \<in> set zones"
  shows "\<lparr>ur_cluster = clusterName, ur_namespace = m_namespace (z_meta z), ur_name = m_name (z_meta z)\<rparr>
    \<in> set (zonesWokenBy clusterName domain (Inr zones))"
  using assms by (auto simp: provenAmong_def zonesWokenBy_def list_ex_iff)

lemma gateZone_log:
  assumes "gateZone kb uc dc digest clusterName events now st z zoneClass = (st', r)"
  shows "plainly st st' \<or> mirrors st st' (\<lambda>pre z'. z' = z \<and> (\<exists>items. pre = [ListedDomains (m_namespace (z_meta z)) items] \<and> provenAmong uc z items))"
proof -
  obtain st1 v where s1: "isDomainVerified uc st (m_namespace (z_meta z)) (z_domainName z) = (st1, v)" by (metis surj_pair)
  note p1 = plain_domains(2) [OF s1]
  show ?thesis
  proof (cases "v = Inr True")
    case True
    then obtain items where items: "rp_log st1 = rp_log st @ [ListedDomains (m_namespace (z_meta z)) items]" "provenAmong uc z items"
      using s1 by (auto simp: isDomainVerified_def provenAmong_def split: prod.splits sum.splits)
    have run: "provisionZone kb uc dc digest clusterName events now st1 z = (st', r)"
      using assms unfolding gateZone_def s1 True by simp
    from provisionZone_log [OF run] show ?thesis
    proof
      assume "plainly st1 st'"
      with p1 show ?thesis by (auto intro: plainly_trans)
    next
      assume m: "mirrors st1 st' (\<lambda>pre z'. pre = [] \<and> z' = z)"
      show ?thesis by (rule disjI2, rule mirrors_after [OF p1 m]) (use items in auto)
    qed
  next
    case False
    then have "plainly st1 st'"
      using assms unfolding gateZone_def s1 prod.case
      by (auto simp: repl_result_defs split: sum.splits prod.splits bool.splits dest!: plain_reads(3))
    with p1 show ?thesis by (auto intro: plainly_trans)
  qed
qed

text \<open>The status subresource does not change the spec, and the rules on the zone's definition
  (\<^verbatim>\<open>domainName is immutable\<close>, \<^verbatim>\<open>visibility is immutable\<close>) keep anyone else from changing these fields.\<close>

definition sameIdentity :: "DNSZone \<Rightarrow> DNSZone \<Rightarrow> bool" where
  "sameIdentity a b \<longleftrightarrow> z_domainName a = z_domainName b \<and> z_visibility a = z_visibility b \<and> m_namespace (z_meta a) = m_namespace (z_meta b)"

definition status_keeps_spec :: "'u kube \<Rightarrow> bool" where
  "status_keeps_spec kb \<longleftrightarrow> (\<forall>u base new u' stored. kb_patchZoneStatus kb u base new = (u', Inr stored) \<longrightarrow>
     sameIdentity new base \<longrightarrow> sameIdentity stored base)"

definition provenFor :: "'u up_client \<Rightarrow> string \<Rightarrow> DNSZone \<Rightarrow> repl_event list \<Rightarrow> DNSZone \<Rightarrow> bool" where
  "provenFor uc owner z0 pre z \<longleftrightarrow> z_domainName z = z_domainName z0 \<and> z_visibility z = z_visibility z0
     \<and> ClaimedDomain (z_domainName z0) owner (Inr True) \<in> set pre
     \<and> (\<exists>items. ListedDomains (m_namespace (z_meta z0)) items \<in> set pre \<and> provenAmong uc z0 items)"

lemma ensureDomainRef_spec:
  assumes "ensureDomainRef kb uc st z = (st', Inr z')" and "status_keeps_spec kb"
  shows "sameIdentity z' z"
proof -
  have "sameIdentity z z" "sameIdentity (z\<lparr>z_domainRef := ref\<rparr>) z" for ref by (simp_all add: sameIdentity_def)
  with assms show ?thesis unfolding status_keeps_spec_def
    by (auto simp: ensureDomainRef_def upPatchZoneStatus_def split: prod.splits sum.splits if_splits)
qed

lemma ensureZoneAccounting_claim:
  assumes "ensureZoneAccounting dc ns st z owner = (st', Inr True)"
  shows "rp_log st' = rp_log st @ [ClaimedDomain (z_domainName z) owner (Inr True)]"
  using assms by (auto simp: ensureZoneAccounting_def Let_def split: prod.splits sum.splits option.splits if_splits)

lemma claimZone_log:
  assumes "claimZone kb uc dc digest ns clusterName events now st z zoneClass = (st', r)" and "status_keeps_spec kb"
  shows "plainly st st' \<or> mirrors st st' (provenFor uc (zoneOwner clusterName z) z)"
proof -
  obtain st1 o1 where s1: "ensureZoneAccounting dc ns st z (zoneOwner clusterName z) = (st1, o1)" by (metis surj_pair)
  obtain st2 e2 where s2: "ensureDomain uc st1 z = (st2, e2)" by (metis surj_pair)
  obtain st3 r3 where s3: "ensureDomainRef kb uc st2 z = (st3, r3)" by (metis surj_pair)
  have p1: "plainly st st1" and p2: "plainly st st2" and p3: "plainly st st3"
    using plain_accounting [OF s1] plain_domains(1) [OF s2] plain_domains(3) [OF s3] by (auto intro: plainly_trans)
  show ?thesis
  proof (cases "o1 = Inr True \<and> e2 = None \<and> (\<exists>z1. r3 = Inr z1)")
    case True
    then obtain z1 where z1: "r3 = Inr z1" by auto
    have run: "gateZone kb uc dc digest clusterName events now st3 z1 zoneClass = (st', r)"
      using assms(1) True unfolding claimZone_def s1 by (simp add: s2 s3 z1)
    from gateZone_log [OF run] show ?thesis
    proof
      assume m: "mirrors st3 st' (\<lambda>pre z'. z' = z1 \<and> (\<exists>items. pre = [ListedDomains (m_namespace (z_meta z1)) items] \<and> provenAmong uc z1 items))"
      have claim: "ClaimedDomain (z_domainName z) (zoneOwner clusterName z) (Inr True) \<in> set evs" if "rp_log st3 = rp_log st @ evs" for evs
        using that ensureZoneAccounting_claim s1 True plain_domains(1) [OF s2] plain_domains(3) [OF s3] by (fastforce simp: plainly_def)
      have keeps: "z_domainName z1 = z_domainName z" "z_visibility z1 = z_visibility z" "m_namespace (z_meta z1) = m_namespace (z_meta z)"
        using ensureDomainRef_spec [OF s3 [unfolded z1] assms(2)] by (simp_all add: sameIdentity_def)
      show ?thesis
        by (rule disjI2, rule mirrors_after [OF p3 m])
          (use claim keeps in \<open>auto simp: provenFor_def provenAmong_def\<close>)
    qed (use p3 in \<open>auto intro: plainly_trans\<close>)
  next
    case False
    then have "st' \<in> {st1, st2, st3} \<or> plainly st1 st'"
      using assms(1) unfolding claimZone_def s1 prod.case
      by (auto simp: s2 s3 repl_result_defs split: sum.splits option.splits bool.splits dest: plain_refusals(2))
    with p1 p2 p3 show ?thesis by (auto intro: plainly_trans)
  qed
qed

lemma replicateLiveZone_log:
  assumes "replicateLiveZone kb uc dc digest ns clusterName events now st z = (st', r)" and "status_keeps_spec kb"
  shows "plainly st st' \<or> mirrors st st' (provenFor uc (zoneOwner clusterName z) z)
    \<or> rp_log st' = rp_log st @ [UpPatchedZone z (withZoneFinalizers z (m_finalizers (z_meta z) @ [dnsZoneFinalizer]))]"
proof -
  obtain u c where cls: "kb_getZoneClass kb (rp_up st) (z_className z) = (u, c)" by fastforce
  have "plainly st st' \<or> (\<exists>zc. claimZone kb uc dc digest ns clusterName events now (st\<lparr>rp_up := u\<rparr>) z zc = (st', r))
    \<or> rp_log st' = rp_log st @ [UpPatchedZone z (withZoneFinalizers z (m_finalizers (z_meta z) @ [dnsZoneFinalizer]))]"
    using assms(1) unfolding replicateLiveZone_def cls
    by (auto simp: repl_result_defs upPatchZone_def split: if_splits sum.splits prod.splits dest!: plain_refusals(1))
  then show ?thesis using claimZone_log [OF _ assms(2)] by fastforce
qed

lemma cleanupZoneAccounting_log:
  assumes "cleanupZoneAccounting dc ns st z owner = (st', e)"
  shows "(\<exists>msg. st' = st \<and> e = Some (PlainError msg))
    \<or> rp_log st' = rp_log st @ [FreedDomain (z_domainName z) owner e] \<and> (e = None \<or> \<not> dc_isNotFound dc (the e))"
  using assms by (auto simp: cleanupZoneAccounting_def Let_def split: prod.splits sum.splits option.splits if_splits)

text \<open>The events of a deletion, up to where it gets.\<close>

definition release_events :: "'d down_client \<Rightarrow> string \<Rightarrow> DNSZone \<Rightarrow> repl_event list \<Rightarrow> bool" where
  "release_events dc owner z evs \<longleftrightarrow> (\<exists>a k e f tail. dc_isNotFound dc e \<and> (a = None \<or> dc_isNotFound dc (the a))
     \<and> evs = [DroppedAnchor (z_meta z) a, ReadMirrorZone k (Inl e), FreedDomain (z_domainName z) owner f] @ tail
     \<and> (tail = [] \<or> f = None \<and> (\<exists>new. tail = [UpPatchedZone z new])))"

lemma deleteUpstreamZone_log:
  assumes "deleteUpstreamZone kb uc dc ns clusterName st z = (st', r)"
  shows "plainly st st' \<or> (\<exists>evs. rp_log st' = rp_log st @ evs \<and> (\<forall>k z e. MirroredZone k z e \<notin> set evs)
    \<and> (release_events dc (zoneOwner clusterName z) z evs \<or> (\<exists>msg. dc_isNotFound dc (PlainError msg))))"
proof -
  obtain st1 a where s1: "DeleteAnchorForObject uc dc st (z_meta z) = (st1, a)" by (metis surj_pair)
  obtain u m where s2: "ObjectMetaFromUpstreamObject uc (rp_up st1) (z_meta z) = (u, m)" by fastforce
  obtain st3 g where s3: "mirrorZoneAt dc (st1\<lparr>rp_up := u\<rparr>) (fst (projr m)) = (st3, g)" by (metis surj_pair)
  obtain st4 c where s4: "cleanupZoneAccounting dc ns st3 z (zoneOwner clusterName z) = (st4, c)" by (metis surj_pair)
  have p1: "plainly st st1" and p3: "plainly st st3" using plain_reads(4) [OF s1] plain_reads(1) [OF s3] by (auto intro: plainly_trans)
  have l1: "rp_log st1 = rp_log st @ [DroppedAnchor (z_meta z) a]" by (rule DeleteAnchor_log [OF s1])
  have l3: "rp_log st3 = rp_log st1 @ [ReadMirrorZone (fst (projr m)) g]" using s3 by (auto simp: mirrorZoneAt_def split: prod.splits)
  consider "plainly st st'" | e where "g = Inl e" "dc_isNotFound dc e" "a = None \<or> dc_isNotFound dc (the a)"
      "st' = st4 \<or> (c = None \<or> dc_isNotFound dc (the c)) \<and> (\<exists>new. rp_log st' = rp_log st4 @ [UpPatchedZone z new])"
    using assms p1 p3 s3 unfolding deleteUpstreamZone_def s1 prod.case s2
    by (auto simp: s4 repl_result_defs upPatchZone_def split: if_splits sum.splits prod.splits)
  then show ?thesis
  proof cases
    case 2
    from cleanupZoneAccounting_log [OF s4] show ?thesis
    proof (elim disjE exE conjE)
      fix msg assume "st4 = st3" "c = Some (PlainError msg)"
      with 2 p3 l1 l3 show ?thesis by auto
    next
      assume free: "rp_log st4 = rp_log st3 @ [FreedDomain (z_domainName z) (zoneOwner clusterName z) c]"
      show ?thesis if "c = None"
        using 2 free that l1 l3 by (auto simp: release_events_def)
      show ?thesis if "\<not> dc_isNotFound dc (the c)"
        using 2 free that l1 l3 by (auto simp: release_events_def)
    qed
  qed simp
qed

text \<open>The calls behind the release of a domain name: its entry in the accounting namespace is missing, belongs to another
  owner and is left, or is deleted.\<close>

definition claimCalls :: "'d down_client \<Rightarrow> string \<Rightarrow> string \<Rightarrow> string \<Rightarrow> 'd \<Rightarrow> 'd \<Rightarrow> bool" where
  "claimCalls dc ns domain owner d d' =
     (case dc_getConfigMap dc d (ns, domain) of
        (d1, Inl e) \<Rightarrow> dc_isNotFound dc e \<and> d' = d1
      | (d1, Inr entry) \<Rightarrow>
          if sameZoneOwner (storedOwner entry) owner
          then \<exists>r. dc_deleteConfigMap dc d1 entry = (d', r) \<and> (r = None \<or> dc_isNotFound dc (the r)) else d' = d1)"

lemma cleanup_calls:
  assumes "cleanupZoneAccounting dc ns st z owner = (st', None)"
  shows "claimCalls dc ns (z_domainName z) owner (rp_down st) (rp_down st')"
    and "rp_log st' = rp_log st @ [FreedDomain (z_domainName z) owner None]"
  using assms by (auto simp: cleanupZoneAccounting_def claimCalls_def Let_def split: prod.splits sum.splits option.splits if_splits)

text \<open>What the downstream cluster was asked before a deletion lets the zone go.\<close>

definition zoneReleaseCalls :: "'u up_client \<Rightarrow> 'd down_client \<Rightarrow> string \<Rightarrow> string \<Rightarrow> DNSZone \<Rightarrow> 'd \<Rightarrow> repl_event list \<Rightarrow> DNSZone \<Rightarrow> 'd \<Rightarrow> bool" where
  "zoneReleaseCalls uc dc ns owner z d evs new d' \<longleftrightarrow>
     (\<exists>u a d1 u1 u2 namespace d2 e.
        anchorCalls uc dc (z_meta z) u d a d1 \<and> (a = None \<or> dc_isNotFound dc (the a)) \<and>
        uc_getNamespace uc u1 (m_namespace (z_meta z)) = (u2, Inr namespace) \<and>
        dc_getZone dc d1 (''ns-'' @ ns_uid namespace, m_name (z_meta z)) = (d2, Inl e) \<and> dc_isNotFound dc e \<and>
        claimCalls dc ns (z_domainName z) owner d2 d' \<and>
        evs = [DroppedAnchor (z_meta z) a, ReadMirrorZone (''ns-'' @ ns_uid namespace, m_name (z_meta z)) (Inl e),
               FreedDomain (z_domainName z) owner None, UpPatchedZone z new])"

lemma upPatchZone_effect:
  assumes "upPatchZone kb st z new = (st', r)"
  shows "rp_down st' = rp_down st" "rp_log st' = rp_log st @ [UpPatchedZone z new]"
  using assms by (auto simp: upPatchZone_def split: prod.splits)

lemma deleteUpstreamZone_release:
  assumes run: "deleteUpstreamZone kb uc dc ns clusterName st z = (st', r)"
    and patched: "UpPatchedZone base new \<in> set (newEvents st st')" and plain: "\<And>msg. \<not> dc_isNotFound dc (PlainError msg)"
  shows "base = z \<and> zoneReleaseCalls uc dc ns (zoneOwner clusterName z) z (rp_down st) (newEvents st st') new (rp_down st')"
proof -
  let ?owner = "zoneOwner clusterName z"
  let ?new = "withZoneFinalizers z (kb_removeFinalizer kb (m_finalizers (z_meta z)) dnsZoneFinalizer)"
  obtain st1 a where s1: "DeleteAnchorForObject uc dc st (z_meta z) = (st1, a)" by (metis surj_pair)
  obtain u m where s2: "ObjectMetaFromUpstreamObject uc (rp_up st1) (z_meta z) = (u, m)" by fastforce
  obtain st3 g where s3: "mirrorZoneAt dc (st1\<lparr>rp_up := u\<rparr>) (fst (projr m)) = (st3, g)" by (metis surj_pair)
  obtain st4 c where s4: "cleanupZoneAccounting dc ns st3 z ?owner = (st4, c)" by (metis surj_pair)
  obtain st5 p where s5: "upPatchZone kb st4 z ?new = (st5, p)" by (metis surj_pair)
  have l1: "rp_log st1 = rp_log st @ [DroppedAnchor (z_meta z) a]" by (rule DeleteAnchor_log [OF s1])
  have l3: "rp_log st3 = rp_log st1 @ [ReadMirrorZone (fst (projr m)) g]" "dc_getZone dc (rp_down st1) (fst (projr m)) = (rp_down st3, g)"
    using s3 by (auto simp: mirrorZoneAt_def split: prod.splits)
  have l4: "rp_log st4 = rp_log st3 \<or> rp_log st4 = rp_log st3 @ [FreedDomain (z_domainName z) ?owner c]"
    using cleanupZoneAccounting_log [OF s4] by auto
  have "rp_log st' \<in> {rp_log st, rp_log st1, rp_log st3, rp_log st4}
      \<or> st' = st5 \<and> (a = None \<or> dc_isNotFound dc (the a)) \<and> (\<exists>ka. m = Inr ka) \<and> (\<exists>e. g = Inl e \<and> dc_isNotFound dc e)
        \<and> (c = None \<or> dc_isNotFound dc (the c))"
    using run s3 unfolding deleteUpstreamZone_def s1 prod.case s2
    by (auto simp: s4 s5 repl_result_defs split: if_splits sum.splits prod.splits)
  moreover have "UpPatchedZone base new \<notin> set (newEvents st st')" if "rp_log st' \<in> {rp_log st, rp_log st1, rp_log st3, rp_log st4}"
    using that l1 l3(1) l4 by (auto simp: newEvents_def)
  ultimately obtain e key ann where st': "st' = st5" and a: "a = None \<or> dc_isNotFound dc (the a)" and m: "m = Inr (key, ann)"
    and g: "g = Inl e" "dc_isNotFound dc e" and c: "c = None \<or> dc_isNotFound dc (the c)" using patched by auto
  have "c = None" using c cleanupZoneAccounting_log [OF s4] plain by auto
  note freed = cleanup_calls [OF s4 [unfolded this]]
  obtain namespace where ns: "uc_getNamespace uc (rp_up st1) (m_namespace (z_meta z)) = (u, Inr namespace)"
    "key = (''ns-'' @ ns_uid namespace, m_name (z_meta z))"
    using s2 m by (auto simp: ObjectMetaFromUpstreamObject_def split: prod.splits sum.splits)
  have evs: "newEvents st st' = [DroppedAnchor (z_meta z) a, ReadMirrorZone key (Inl e), FreedDomain (z_domainName z) ?owner None, UpPatchedZone z ?new]"
    using upPatchZone_effect(2) [OF s5] l1 l3(1) freed(2) m g(1) st' by (simp add: newEvents_def)
  with patched have same: "base = z" "new = ?new" by auto
  have "zoneReleaseCalls uc dc ns ?owner z (rp_down st) (newEvents st st') new (rp_down st')"
    unfolding zoneReleaseCalls_def same(2) st' upPatchZone_effect(1) [OF s5]
    by (intro exI [of _ "rp_up st"] exI [of _ a] exI [of _ "rp_down st1"] exI [of _ "rp_up st1"] exI [of _ u]
        exI [of _ namespace] exI [of _ "rp_down st3"] exI [of _ e] conjI)
      (use DeleteAnchor_calls [OF s1] a ns l3(2) g freed(1) evs m st' in simp_all)
  with same(1) show ?thesis by simp
qed

lemma plain_list:
  assumes "list_all plain_event evs"
  shows "MirroredZone k z e \<notin> set evs" "UpPatchedZone base new \<notin> set evs"
  using assms by (force simp: list_all_iff)+

lemma plainly_newEvents:
  assumes "plainly st st'"
  shows "MirroredZone k z e \<notin> set (newEvents st st')" "UpPatchedZone base new \<notin> set (newEvents st st')"
  using assms by (auto simp: plainly_def plain_list)

lemma ReplicateZone_cases:
  assumes "ReplicateZone kb uc dc digest ns clusterName events now st key = (st', r)"
  obtains "plainly st st'"
  | z st1 where "rp_log st1 = rp_log st @ [ReadZone key (Inr z)]" "z_visibility z = VisibilityPublic" "m_deleted (z_meta z) = None"
      "replicateLiveZone kb uc dc digest ns clusterName events now st1 z = (st', r)"
  | z st1 where "rp_log st1 = rp_log st @ [ReadZone key (Inr z)]" "z_visibility z = VisibilityPublic" "m_deleted (z_meta z) \<noteq> None"
      "deleteUpstreamZone kb uc dc ns clusterName st1 z = (st', r)"
proof -
  obtain st1 z where s1: "upstreamZone kb st key = (st1, z)" by (metis surj_pair)
  then have l: "rp_log st1 = rp_log st @ [ReadZone key z]" by (auto simp: upstreamZone_def split: prod.splits)
  then have p: "plainly st st1" by (auto simp: plainly_def)
  show thesis
  proof (cases z)
    case (Inl e)
    with assms p that(1) show thesis by (simp add: ReplicateZone_def s1 repl_result_defs)
  next
    case (Inr z')
    with assms p l that show thesis
      by (cases "z_visibility z'"; cases "m_deleted (z_meta z')") (auto simp: ReplicateZone_def s1 repl_result_defs)
  qed
qed

text \<open>C2: No zone is mirrored before its name is claimed and proven.  If a reconcile writes a mirror of a
  zone, then it had read the zone, public and not going away; before the write it had claimed the zone's
  domain name for this very zone, successfully; and it had listed the Domains of the zone's namespace and
  found one that is verified and covers the name.  The mirror carries the same domain name.\<close>

theorem mirrored_only_when_proven:
  assumes run: "ReplicateZone kb uc dc digest ns clusterName events now st key = (st', r)"
    and mirrored: "MirroredZone k z e \<in> set (newEvents st st')" and keeps: "status_keeps_spec kb"
  shows "\<exists>z0 pre post items. newEvents st st' = ReadZone key (Inr z0) # pre @ MirroredZone k z e # post
    \<and> z_visibility z0 = VisibilityPublic \<and> m_deleted (z_meta z0) = None \<and> z_domainName z = z_domainName z0
    \<and> ClaimedDomain (z_domainName z0) (zoneOwner clusterName z0) (Inr True) \<in> set pre
    \<and> ListedDomains (m_namespace (z_meta z0)) items \<in> set pre
    \<and> (\<exists>d \<in> set items. domainCovers (dm_domainName d) (z_domainName z0) \<and> uc_verified uc (dm_conditions d))"
proof (rule ReplicateZone_cases [OF run])
  assume "plainly st st'"
  with mirrored show ?thesis by (simp add: plainly_newEvents)
next
  fix z0 st1
  assume l: "rp_log st1 = rp_log st @ [ReadZone key (Inr z0)]" and public: "z_visibility z0 = VisibilityPublic"
    and live: "m_deleted (z_meta z0) = None"
    and go: "replicateLiveZone kb uc dc digest ns clusterName events now st1 z0 = (st', r)"
  have "mirrors st1 st' (provenFor uc (zoneOwner clusterName z0) z0)"
    using replicateLiveZone_log [OF go keeps] mirrored l by (auto simp: plainly_def plain_list)
  then obtain pre k' z' e' post where m: "rp_log st' = rp_log st1 @ pre @ MirroredZone k' z' e' # post" "list_all plain_event pre"
    "list_all plain_event post" "provenFor uc (zoneOwner clusterName z0) z0 pre z'" by (auto simp: mirrors_def)
  have "newEvents st st' = ReadZone key (Inr z0) # pre @ MirroredZone k' z' e' # post" using l m(1) by simp
  moreover from this have "k' = k" "z' = z" "e' = e" using mirrored m(2,3) by (auto simp: plain_list)
  ultimately show ?thesis using m(4) public live unfolding provenFor_def provenAmong_def list_ex_iff by blast
next
  fix z0 st1
  assume l: "rp_log st1 = rp_log st @ [ReadZone key (Inr z0)]" and go: "deleteUpstreamZone kb uc dc ns clusterName st1 z0 = (st', r)"
  from deleteUpstreamZone_log [OF go] obtain evs where "rp_log st' = rp_log st1 @ evs" "MirroredZone k z e \<notin> set evs"
    unfolding plainly_def using plain_list(1) by blast
  with mirrored l show ?thesis by auto
qed

text \<open>C17: A zone is let go last.  If a reconcile takes the zone's finalizer away, then the zone was read and is being
  deleted, and the downstream cluster was asked exactly this before, in this order: to delete the ConfigMap that anchors
  the mirror, unless it was missing; whether the mirror is there (the zone's name in the namespace named after the UID
  of the zone's namespace), which it was not; and to delete the entry of the zone's domain name in the accounting
  namespace, unless it was missing or another owner's.  Errors that are not of the API are not \<open>NotFound\<close>.\<close>

theorem zone_original_released_last:
  assumes run: "ReplicateZone kb uc dc digest ns clusterName events now st key = (st', r)"
    and patched: "UpPatchedZone base new \<in> set (newEvents st st')"
    and dropped: "dnsZoneFinalizer \<notin> set (m_finalizers (z_meta new))"
    and keeps: "status_keeps_spec kb" and plain: "\<And>msg. \<not> dc_isNotFound dc (PlainError msg)"
  shows "m_deleted (z_meta base) \<noteq> None \<and> (\<exists>u. kb_getZone kb (rp_up st) key = (u, Inr base)) \<and>
    (\<exists>u a d1 u1 u2 namespace mirror d2 e.
      anchorCalls uc dc (z_meta base) u (rp_down st) a d1 \<and> (a = None \<or> dc_isNotFound dc (the a))
      \<and> uc_getNamespace uc u1 (m_namespace (z_meta base)) = (u2, Inr namespace)
      \<and> mirror = (''ns-'' @ ns_uid namespace, m_name (z_meta base))
      \<and> dc_getZone dc d1 mirror = (d2, Inl e) \<and> dc_isNotFound dc e
      \<and> claimCalls dc ns (z_domainName base) (zoneOwner clusterName base) d2 (rp_down st')
      \<and> newEvents st st' = [ReadZone key (Inr base), DroppedAnchor (z_meta base) a, ReadMirrorZone mirror (Inl e),
          FreedDomain (z_domainName base) (zoneOwner clusterName base) None, UpPatchedZone base new])"
proof -
  obtain st1 got where read: "upstreamZone kb st key = (st1, got)" by (metis surj_pair)
  then have st1: "rp_log st1 = rp_log st @ [ReadZone key got]" "rp_down st1 = rp_down st" "\<exists>u. kb_getZone kb (rp_up st) key = (u, got)"
    by (auto simp: upstreamZone_def split: prod.splits)
  have new: "set (newEvents st st') = insert (ReadZone key got) (set evs)" if "rp_log st' = rp_log st1 @ evs" for evs
    using that st1(1) by (simp add: newEvents_def)
  consider "st' = st1" | z where "got = Inr z" "m_deleted (z_meta z) = None" "replicateLiveZone kb uc dc digest ns clusterName events now st1 z = (st', r)"
    | z where "got = Inr z" "m_deleted (z_meta z) \<noteq> None" "deleteUpstreamZone kb uc dc ns clusterName st1 z = (st', r)"
    using run read by (cases got) (auto simp: ReplicateZone_def repl_result_defs split: if_splits)
  then show ?thesis
  proof cases
    case 1
    with new [of "[]"] patched show ?thesis by simp
  next
    case 2
    from replicateLiveZone_log [OF 2(3) keeps] show ?thesis
      using patched st1(1) dropped by (auto simp: plainly_def plain_list mirrors_def withZoneFinalizers_def)
  next
    case 3
    have "\<exists>evs. rp_log st' = rp_log st1 @ evs" using deleteUpstreamZone_log [OF 3(3)] by (auto simp: plainly_def)
    then have all: "newEvents st st' = ReadZone key (Inr z) # newEvents st1 st'" using st1(1) 3(1) by (auto simp: newEvents_def)
    with patched have "UpPatchedZone base new \<in> set (newEvents st1 st')" by simp
    from deleteUpstreamZone_release [OF 3(3) this plain] 3(1,2) st1(2,3) all show ?thesis
      unfolding zoneReleaseCalls_def by auto
  qed
qed

subsection \<open>One owner per domain name\<close>

text \<open>
  The accounting namespace as a ledger: \<open>book d domain\<close> is the owner written down for a domain name,
  if there is one. Reading tells it, creating works only where there is none, a merge patch of the
  owner changes that owner only, and nothing else changes.
\<close>

definition ledger_laws :: "'d down_client \<Rightarrow> string \<Rightarrow> ('d \<Rightarrow> string \<Rightarrow> string option) \<Rightarrow> bool" where
  "ledger_laws dc ns book \<longleftrightarrow>
     (\<forall>d domain d' r. dc_getConfigMap dc d (ns, domain) = (d', r) \<longrightarrow> book d' = book d
        \<and> (\<forall>cm. r = Inr cm \<longrightarrow> book d domain = Some (storedOwner cm) \<and> m_name (cm_meta cm) = domain \<and> m_namespace (cm_meta cm) = ns)
        \<and> (\<forall>e. r = Inl e \<longrightarrow> dc_isNotFound dc e \<longrightarrow> book d domain = None))
   \<and> (\<forall>d cm d' r. dc_createConfigMap dc d cm = (d', r) \<longrightarrow> m_namespace (cm_meta cm) = ns \<longrightarrow>
        (case r of Inl _ \<Rightarrow> book d' = book d
         | Inr _ \<Rightarrow> book d (m_name (cm_meta cm)) = None \<and> book d' = (book d)(m_name (cm_meta cm) \<mapsto> storedOwner cm)))
   \<and> (\<forall>d base new d' r. dc_patchConfigMap dc d base new = (d', r) \<longrightarrow> m_namespace (cm_meta base) = ns \<longrightarrow>
        book d' = (if r = None then (book d)(m_name (cm_meta base) \<mapsto> storedOwner new) else book d))
   \<and> (\<forall>d cm d' r. dc_deleteConfigMap dc d cm = (d', r) \<longrightarrow> m_namespace (cm_meta cm) = ns \<longrightarrow>
        book d' = book d \<or> book d' = (book d)(m_name (cm_meta cm) := None))
   \<and> (\<forall>d name d' r. dc_getNamespace dc d name = (d', r) \<longrightarrow> book d' = book d)
   \<and> (\<forall>d name d' r. dc_createNamespace dc d name = (d', r) \<longrightarrow> book d' = book d)"

text \<open>What the owners do to the ledger: each step is one claim or one release, by a zone of any cluster.\<close>

inductive ledger_step :: "'d down_client \<Rightarrow> string \<Rightarrow> string \<Rightarrow> ('u, 'd) replica \<Rightarrow> ('u, 'd) replica \<Rightarrow> bool"
  for dc :: "'d down_client" and ns :: string where
  claims: "ensureZoneAccounting dc ns st z owner = (st', r) \<Longrightarrow> ledger_step dc ns owner st st'"
| frees: "cleanupZoneAccounting dc ns st z owner = (st', e) \<Longrightarrow> ledger_step dc ns owner st st'"

inductive ledger_run :: "'d down_client \<Rightarrow> string \<Rightarrow> (string \<Rightarrow> bool) \<Rightarrow> ('u, 'd) replica \<Rightarrow> ('u, 'd) replica \<Rightarrow> bool"
  for dc :: "'d down_client" and ns :: string and by_whom :: "string \<Rightarrow> bool" where
  idle: "ledger_run dc ns by_whom st st"
| onward: "ledger_run dc ns by_whom st st' \<Longrightarrow> ledger_step dc ns owner st' st'' \<Longrightarrow> by_whom owner \<Longrightarrow> ledger_run dc ns by_whom st st''"

definition heldBy :: "('d \<Rightarrow> string \<Rightarrow> string option) \<Rightarrow> 'd \<Rightarrow> string \<Rightarrow> string \<Rightarrow> bool" where
  "heldBy book d domain owner \<longleftrightarrow> (case book d domain of Some s \<Rightarrow> sameZoneOwner s owner | None \<Rightarrow> False)"

lemma settleOwner_ledger:
  assumes laws: "ledger_laws dc ns book" and "settleOwner dc d cm owner = (d', r)"
    and "m_namespace (cm_meta cm) = ns" "m_name (cm_meta cm) = domain" "book d domain = Some (storedOwner cm)"
  shows "(r = Inr True \<longrightarrow> heldBy book d' domain owner)
    \<and> (\<forall>other who. heldBy book d other who \<longrightarrow> heldBy book d' other who)"
proof -
  obtain d1 r1 where patch: "dc_patchConfigMap dc d cm (cm\<lparr>cm_data := AList.update ''owner'' owner (cm_data cm)\<rparr>) = (d1, r1)" by fastforce
  then have "book d1 = (if r1 = None then (book d)(domain \<mapsto> owner) else book d)"
    using laws assms(3,4) unfolding ledger_laws_def
    by (auto simp: storedOwner_def annotationIn_def map_of_update)
  then show ?thesis using assms(2,5) patch
    by (auto simp: settleOwner_def adoptZoneOwner_def Let_def heldBy_def sameZoneOwner_def split: if_splits option.splits)
qed

lemma ledgerD:
  assumes "ledger_laws dc ns book"
  shows "dc_getConfigMap dc d (ns, domain) = (d', Inr cm) \<Longrightarrow>
      book d' = book d \<and> book d domain = Some (storedOwner cm) \<and> m_name (cm_meta cm) = domain \<and> m_namespace (cm_meta cm) = ns"
    and "dc_getConfigMap dc d (ns, domain) = (d', Inl e) \<Longrightarrow> book d' = book d"
    and "dc_createConfigMap dc d cm = (d', Inl e) \<Longrightarrow> m_namespace (cm_meta cm) = ns \<Longrightarrow> book d' = book d"
    and "dc_createConfigMap dc d cm = (d', Inr c) \<Longrightarrow> m_namespace (cm_meta cm) = ns \<Longrightarrow>
      book d (m_name (cm_meta cm)) = None \<and> book d' = (book d)(m_name (cm_meta cm) \<mapsto> storedOwner cm)"
    and "dc_deleteConfigMap dc d cm = (d', e') \<Longrightarrow> m_namespace (cm_meta cm) = ns \<Longrightarrow>
      book d' = book d \<or> book d' = (book d)(m_name (cm_meta cm) := None)"
    and "dc_getNamespace dc d name = (d', r) \<Longrightarrow> book d' = book d"
    and "dc_createNamespace dc d name = (d', e') \<Longrightarrow> book d' = book d"
proof -
  note laws = assms [unfolded ledger_laws_def]
  note get = laws [THEN conjunct1, rule_format] and create = laws [THEN conjunct2, THEN conjunct1, rule_format]
    and rest = laws [THEN conjunct2, THEN conjunct2, THEN conjunct2]
  show "dc_getConfigMap dc d (ns, domain) = (d', Inr cm) \<Longrightarrow>
      book d' = book d \<and> book d domain = Some (storedOwner cm) \<and> m_name (cm_meta cm) = domain \<and> m_namespace (cm_meta cm) = ns"
    using get [of d domain d' "Inr cm"] by blast
  show "dc_getConfigMap dc d (ns, domain) = (d', Inl e) \<Longrightarrow> book d' = book d" using get [of d domain d' "Inl e"] by blast
  show "dc_createConfigMap dc d cm = (d', Inl e) \<Longrightarrow> m_namespace (cm_meta cm) = ns \<Longrightarrow> book d' = book d"
    using create [of d cm d' "Inl e"] by simp
  show "dc_createConfigMap dc d cm = (d', Inr c) \<Longrightarrow> m_namespace (cm_meta cm) = ns \<Longrightarrow>
      book d (m_name (cm_meta cm)) = None \<and> book d' = (book d)(m_name (cm_meta cm) \<mapsto> storedOwner cm)"
    using create [of d cm d' "Inr c"] by simp
  show "dc_deleteConfigMap dc d cm = (d', e') \<Longrightarrow> m_namespace (cm_meta cm) = ns \<Longrightarrow>
      book d' = book d \<or> book d' = (book d)(m_name (cm_meta cm) := None)"
    by (rule rest [THEN conjunct1, rule_format])
  show "dc_getNamespace dc d name = (d', r) \<Longrightarrow> book d' = book d" by (rule rest [THEN conjunct2, THEN conjunct1, rule_format])
  show "dc_createNamespace dc d name = (d', e') \<Longrightarrow> book d' = book d" by (rule rest [THEN conjunct2, THEN conjunct2, rule_format])
qed

lemma claimDomain_ledger:
  assumes laws: "ledger_laws dc ns book" and run: "claimDomain dc d ns domain owner = (d', r)"
  shows "(r = Inr True \<longrightarrow> heldBy book d' domain owner) \<and> (\<forall>other who. heldBy book d other who \<longrightarrow> heldBy book d' other who)"
proof -
  let ?new = "\<lparr>cm_meta = emptyMeta\<lparr>m_namespace := ns, m_name := domain\<rparr>, cm_data = [(''owner'', owner)]\<rparr>"
  have stored: "storedOwner ?new = owner" by (simp add: storedOwner_def annotationIn_def)
  have settle: ?thesis if "settleOwner dc d1 cm owner = (d', r)" "dc_getConfigMap dc d0 (ns, domain) = (d1, Inr cm)" "book d0 = book d" for d0 d1 cm
    using settleOwner_ledger [OF laws that(1), of domain] ledgerD(1) [OF laws that(2)] that(3) by (auto simp: heldBy_def)
  obtain d1 g where get: "dc_getConfigMap dc d (ns, domain) = (d1, g)" by fastforce
  show ?thesis
  proof (cases g)
    case (Inr cm)
    with run get settle [of d1 cm d] show ?thesis by (simp add: claimDomain_def)
  next
    case (Inl e)
    with get have b1: "book d1 = book d" by (auto dest: ledgerD(2) [OF laws])
    obtain d2 c where create: "dc_createConfigMap dc d1 ?new = (d2, c)" by fastforce
    obtain d3 g3 where get3: "dc_getConfigMap dc d2 (ns, domain) = (d3, g3)" by fastforce
    show ?thesis
    proof (cases c)
      case (Inr c')
      with ledgerD(4) [OF laws create [unfolded Inr]] stored
      have "book d1 domain = None" "book d2 = (book d1)(domain \<mapsto> owner)" by simp_all
      with run get Inl create Inr b1 show ?thesis
        by (auto simp: claimDomain_def heldBy_def sameZoneOwner_def split: if_splits option.splits)
    next
      case (Inl ce)
      with ledgerD(3) [OF laws create [unfolded Inl]] b1 have b2: "book d2 = book d" by simp
      have unheld: "book d3 = book d" if "g3 = Inl e3" for e3 using get3 that b2 by (auto dest: ledgerD(2) [OF laws])
      from run get \<open>g = Inl e\<close> create Inl get3 b1 b2 unheld settle [of d3 _ d2] show ?thesis
        by (cases g3) (auto simp: claimDomain_def heldBy_def split: if_splits)
    qed
  qed
qed

lemma ensureZoneAccounting_ledger:
  assumes laws: "ledger_laws dc ns book" and run: "ensureZoneAccounting dc ns st z owner = (st', r)"
  shows "r = Inr True \<Longrightarrow> heldBy book (rp_down st') (z_domainName z) owner"
    and "heldBy book (rp_down st) other who \<Longrightarrow> heldBy book (rp_down st') other who"
proof -
  obtain d1 g where get: "dc_getNamespace dc (rp_down st) ns = (d1, g)" by fastforce
  obtain d2 c where create: "dc_createNamespace dc d1 ns = (d2, c)" by fastforce
  have b1: "book d1 = book (rp_down st)" and b2: "book d2 = book (rp_down st)"
    using ledgerD(6) [OF laws get] ledgerD(7) [OF laws create] by simp_all
  have "r \<noteq> Inr True \<and> rp_down st' \<in> {rp_down st, d1, d2}
    \<or> (\<exists>d \<in> {d1, d2}. claimDomain dc d ns (z_domainName z) owner = (rp_down st', r))"
    using run unfolding ensureZoneAccounting_def get prod.case
    by (cases g; cases c) (simp_all add: Let_def create split: prod.splits if_splits, auto)
  with b1 b2 consider "r \<noteq> Inr True" "book (rp_down st') = book (rp_down st)"
    | d where "book d = book (rp_down st)" "claimDomain dc d ns (z_domainName z) owner = (rp_down st', r)" by auto
  then have "(r = Inr True \<longrightarrow> heldBy book (rp_down st') (z_domainName z) owner)
    \<and> (heldBy book (rp_down st) other who \<longrightarrow> heldBy book (rp_down st') other who)"
  proof cases
    case 2
    then show ?thesis using claimDomain_ledger [OF laws 2(2)] by (simp add: heldBy_def)
  qed (simp add: heldBy_def)
  then show "r = Inr True \<Longrightarrow> heldBy book (rp_down st') (z_domainName z) owner"
    and "heldBy book (rp_down st) other who \<Longrightarrow> heldBy book (rp_down st') other who" by simp_all
qed

lemma cleanupZoneAccounting_ledger:
  assumes laws: "ledger_laws dc ns book" and run: "cleanupZoneAccounting dc ns st z owner = (st', e)"
    and "heldBy book (rp_down st) domain who" and "\<not> sameZoneOwner owner who"
  shows "heldBy book (rp_down st') domain who"
proof -
  obtain d g where get: "dc_getConfigMap dc (rp_down st) (ns, z_domainName z) = (d, g)" by fastforce
  have same: "book d = book (rp_down st)" using get by (cases g) (auto dest: ledgerD(1,2) [OF laws])
  show ?thesis
  proof (cases g)
    case (Inl e)
    with run get same assms(3) show ?thesis by (auto simp: cleanupZoneAccounting_def Let_def heldBy_def split: if_splits)
  next
    case (Inr cm)
    note cm = ledgerD(1) [OF laws get [unfolded Inr]]
    obtain d2 r2 where del: "dc_deleteConfigMap dc d cm = (d2, r2)" by fastforce
    have "book d2 = book d \<or> book d2 = (book d)(z_domainName z := None)" using ledgerD(5) [OF laws del] cm by auto
    with run get Inr same del cm assms(3,4) show ?thesis
      by (auto simp: cleanupZoneAccounting_def Let_def heldBy_def sameZoneOwner_def split: if_splits option.splits)
  qed
qed

lemma ledger_run_keeps:
  assumes laws: "ledger_laws dc ns book" and "ledger_run dc ns (\<lambda>owner. \<not> sameZoneOwner owner who) st st'"
    and "heldBy book (rp_down st) domain who"
  shows "heldBy book (rp_down st') domain who"
  using assms(2,3)
proof (induction rule: ledger_run.induct)
  case (onward st st' owner st'')
  then show ?case
    by (auto elim!: ledger_step.cases intro: ensureZoneAccounting_ledger(2) [OF laws] cleanupZoneAccounting_ledger [OF laws])
qed

lemma heldBy_unique: "heldBy book d domain a \<Longrightarrow> heldBy book d domain b \<Longrightarrow> sameZoneOwner a b"
  by (auto simp: heldBy_def sameZoneOwner_def split: option.splits)

text \<open>C6: A domain name has one owner.  Once a zone has claimed a domain name, no other owner's claim of that
  name is granted, whatever claims and releases others make in between, for this name or any other;
  only the holder itself can give it up.  Owners are compared without the leading slash that older
  cluster names carry.\<close>

theorem domain_has_one_owner:
  assumes laws: "ledger_laws dc ns book"
    and "ensureZoneAccounting dc ns st z owner = (st1, Inr True)"
    and "ledger_run dc ns (\<lambda>other. \<not> sameZoneOwner other owner) st1 st2"
    and "ensureZoneAccounting dc ns st2 z' other = (st3, r)" and "z_domainName z' = z_domainName z"
    and "\<not> sameZoneOwner other owner"
  shows "r \<noteq> Inr True"
proof
  assume "r = Inr True"
  with ensureZoneAccounting_ledger(1) [OF laws assms(4)] assms(5) have "heldBy book (rp_down st3) (z_domainName z) other" by simp
  moreover have "heldBy book (rp_down st3) (z_domainName z) owner"
    using ensureZoneAccounting_ledger [OF laws assms(2)] ledger_run_keeps [OF laws assms(3)] ensureZoneAccounting_ledger(2) [OF laws assms(4)]
    by blast
  ultimately have "sameZoneOwner other owner" by (rule heldBy_unique)
  with assms(6) show False by simp
qed

subsection \<open>The status\<close>

definition condHolds :: "'u kube \<Rightarrow> DNSZone \<Rightarrow> string \<Rightarrow> bool" where
  "condHolds kb z t \<longleftrightarrow> (case kb_findCond kb (z_conditions z) t of Some c \<Rightarrow> c_status c = ConditionTrue | None \<Rightarrow> False)"

lemma setZoneCond_props:
  assumes laws: "condition_laws kb" and "setZoneCond kb now z t status reason message = (z', changed)"
  shows "condHolds kb z' t \<longleftrightarrow> status = ConditionTrue" "t' \<noteq> t \<Longrightarrow> condHolds kb z' t' = condHolds kb z t'"
    "z_meta z' = z_meta z \<and> sameZoneSpec z' z \<and> z_nameservers z' = z_nameservers z"
proof -
  let ?c = "mkCondition t status reason message (m_generation (z_meta z)) now"
  have z': "z' = z\<lparr>z_conditions := fst (kb_setCond kb (z_conditions z) ?c)\<rparr>"
    using assms(2) by (auto simp: setZoneCond_def split: prod.splits)
  have "\<exists>c'. kb_findCond kb (fst (kb_setCond kb (z_conditions z) ?c)) (c_type ?c) = Some c' \<and> sameBody c' ?c"
    using laws unfolding condition_laws_def by blast
  then show "condHolds kb z' t \<longleftrightarrow> status = ConditionTrue" by (auto simp: z' condHolds_def mkCondition_def sameBody_def)
  have "t' \<noteq> c_type ?c \<Longrightarrow> kb_findCond kb (fst (kb_setCond kb (z_conditions z) ?c)) t' = kb_findCond kb (z_conditions z) t'"
    using laws unfolding condition_laws_def by blast
  then show "t' \<noteq> t \<Longrightarrow> condHolds kb z' t' = condHolds kb z t'" by (simp add: z' condHolds_def mkCondition_def)
  show "z_meta z' = z_meta z \<and> sameZoneSpec z' z \<and> z_nameservers z' = z_nameservers z" by (simp add: z' sameZoneSpec_def)
qed

lemma acceptZone_props:
  assumes "condition_laws kb" and "acceptZone kb now z = (z', changed)"
  shows "condHolds kb z' CondAccepted \<longleftrightarrow> z_nameservers z \<noteq> []" "z_meta z' = z_meta z \<and> sameZoneSpec z' z \<and> z_nameservers z' = z_nameservers z"
  using assms(2) setZoneCond_props [OF assms(1)] unfolding acceptZone_def by (auto split: if_splits)

lemma programZone_props:
  assumes "condition_laws kb" and "programZone kb now z items = (z', changed)"
  shows "condHolds kb z' CondProgrammed \<longleftrightarrow> z_nameservers z \<noteq> [] \<and> haveDefaults z items"
    "condHolds kb z' CondAccepted = condHolds kb z CondAccepted" "z_meta z' = z_meta z \<and> sameZoneSpec z' z \<and> z_nameservers z' = z_nameservers z"
proof -
  have "CondAccepted \<noteq> CondProgrammed" by (simp add: CondAccepted_def CondProgrammed_def)
  then show "condHolds kb z' CondProgrammed \<longleftrightarrow> z_nameservers z \<noteq> [] \<and> haveDefaults z items"
    "condHolds kb z' CondAccepted = condHolds kb z CondAccepted" "z_meta z' = z_meta z \<and> sameZoneSpec z' z \<and> z_nameservers z' = z_nameservers z"
    using assms(2) setZoneCond_props [OF assms(1)] unfolding programZone_def by (auto split: if_splits)
qed

lemma mirrorNameservers_props:
  assumes "mirrorNameservers uc dc st z = (st', z', changed)"
  shows "z_meta z' = z_meta z \<and> sameZoneSpec z' z" "z_nameservers z' = [] \<Longrightarrow> z_nameservers z = []"
    "UpPatchedZoneStatus base new \<notin> set (newEvents st st')"
proof -
  have "(z' = z \<or> (\<exists>ns. ns \<noteq> [] \<and> z' = z\<lparr>z_nameservers := ns\<rparr>))
    \<and> (rp_log st' = rp_log st \<or> (\<exists>key r. rp_log st' = rp_log st @ [ReadMirrorZone key r]))"
    using assms unfolding mirrorNameservers_def
    by (simp add: mirrorZoneAt_def Let_def split: prod.splits sum.splits if_splits) auto
  then show "z_meta z' = z_meta z \<and> sameZoneSpec z' z" "z_nameservers z' = [] \<Longrightarrow> z_nameservers z = []"
    "UpPatchedZoneStatus base new \<notin> set (newEvents st st')"
    by (auto simp: sameZoneSpec_def newEvents_def)
qed

lemma updateZoneStatus_patch:
  assumes run: "updateZoneStatus kb uc dc now st base = (st', z', e)"
    and patched: "UpPatchedZoneStatus b new \<in> set (newEvents st st')"
  obtains st1 z1 c1 ref z2 c2 z3 c3 u u' items z5 c5 c6 where "b = base"
    "mirrorNameservers uc dc st base = (st1, z1, c1)" "linkDomain z1 ref = (z2, c2)" "acceptZone kb now z2 = (z3, c3)"
    "kb_listByZone kb u (objectKey (z_meta z3)) = (u', Inr items)" "programZone kb now z3 items = (z5, c5)"
    "countRecords z5 items = (new, c6)" "set (newEvents st st1) \<subseteq> set (newEvents st st')"
proof -
  obtain st1 z1 c1 where s1: "mirrorNameservers uc dc st base = (st1, z1, c1)" by (metis prod_cases3)
  obtain u2 ref where s2: "desiredDomainRef uc (rp_up st1) z1 = (u2, ref)" by fastforce
  obtain z2 c2 where s2': "linkDomain z1 (projr ref) = (z2, c2)" by fastforce
  obtain z3 c3 where s3: "acceptZone kb now z2 = (z3, c3)" by fastforce
  obtain u4 l where s4: "kb_listByZone kb u2 (objectKey (z_meta z3)) = (u4, l)" by fastforce
  obtain z5 c5 where s5: "programZone kb now z3 (projr l) = (z5, c5)" by fastforce
  obtain z6 c6 where s6: "countRecords z5 (projr l) = (z6, c6)" by fastforce
  obtain u7 q where patch: "kb_patchZoneStatus kb u4 base z6 = (u7, q)" by fastforce
  obtain evs where evs: "rp_log st1 = rp_log st @ evs" using plain_nameservers [OF s1] by (auto simp: plainly_def)
  then have quiet: "UpPatchedZoneStatus b new \<notin> set evs" using mirrorNameservers_props(3) [OF s1, of b new] by simp
  have "st' = st1 \<or> (\<exists>u. st' = st1\<lparr>rp_up := u\<rparr>)
    \<or> l = Inr (projr l) \<and> rp_log st' = rp_log st1 @ [UpPatchedZoneStatus base z6]"
  proof (cases ref)
    case (Inl x)
    with run show ?thesis by (auto simp: updateZoneStatus_def s1 s2)
  next
    case ref: (Inr r)
    note steps = updateZoneStatus_def s1 s2 ref s2' [unfolded ref sum.sel] s3 s4
    show ?thesis
    proof (cases l)
      case (Inr items)
      from run patch show ?thesis
        by (cases q) (auto simp: steps Inr s5 [unfolded Inr sum.sel] s6 [unfolded Inr sum.sel] upPatchZoneStatus_def split: if_splits)
    qed (use run in \<open>auto simp: steps\<close>)
  qed
  then have last: "l = Inr (projr l)" "b = base" "new = z6" "rp_log st' = rp_log st1 @ [UpPatchedZoneStatus base z6]"
    using patched quiet evs by auto
  then have "set (newEvents st st1) \<subseteq> set (newEvents st st')" using evs by auto
  with last(1-3) show thesis using that s1 s2' s3 s4 s5 s6 by metis
qed

lemma mirrorNameservers_source:
  assumes "mirrorNameservers uc dc st z = (st', z', changed)"
  shows "z_nameservers z' = z_nameservers z \<or> z_nameservers z' \<noteq> [] \<and>
    (\<exists>mirror shadow. ReadMirrorZone mirror (Inr shadow) \<in> set (newEvents st st') \<and> z_nameservers z' = NormalizeStringSlice (z_nameservers shadow))"
  using assms unfolding mirrorNameservers_def
  by (simp add: mirrorZoneAt_def Let_def newEvents_def split: prod.splits sum.splits if_splits) auto

text \<open>Everything a status patch says.  Accepted goes with nameservers from wherever they came, and the record count
  adds up the records of the listed record sets.\<close>

lemma updateZoneStatus_says:
  assumes laws: "condition_laws kb" and run: "updateZoneStatus kb uc dc now st base = (st', z', e)"
    and patched: "UpPatchedZoneStatus b new \<in> set (newEvents st st')"
  shows "b = base \<and> (\<exists>u u' items. kb_listByZone kb u (objectKey (z_meta base)) = (u', Inr items)
    \<and> (condHolds kb new CondAccepted \<longleftrightarrow> z_nameservers new \<noteq> [])
    \<and> (condHolds kb new CondProgrammed \<longleftrightarrow> z_nameservers new \<noteq> [] \<and> haveDefaults base items)
    \<and> z_recordCount new = (\<Sum>item\<leftarrow>items. int (length (rs_records item))))
    \<and> (z_nameservers new \<noteq> [] \<or> z_nameservers base = [])
    \<and> z_meta new = z_meta base \<and> sameZoneSpec new base"
proof -
  obtain st1 z1 c1 ref z2 c2 z3 c3 u u' items z5 c5 c6 where b: "b = base"
    and s1: "mirrorNameservers uc dc st base = (st1, z1, c1)" and s2: "linkDomain z1 ref = (z2, c2)"
    and s3: "acceptZone kb now z2 = (z3, c3)" and s4: "kb_listByZone kb u (objectKey (z_meta z3)) = (u', Inr items)"
    and s5: "programZone kb now z3 items = (z5, c5)" and s6: "countRecords z5 items = (new, c6)" by (rule updateZoneStatus_patch [OF run patched])
  note p1 = mirrorNameservers_props [OF s1] and p5 = programZone_props [OF laws s5]
  have z3: "z_meta z3 = z_meta base" "sameZoneSpec z3 base" "z_nameservers z3 = z_nameservers z1"
    using acceptZone_props(2) [OF laws s3] p1(1) s2 by (auto simp: linkDomain_def sameZoneSpec_def split: if_splits)
  have z6: "z_meta new = z_meta z5" "sameZoneSpec new z5" "z_nameservers new = z_nameservers z5" "z_conditions new = z_conditions z5"
      "z_recordCount new = (\<Sum>item\<leftarrow>items. int (length (rs_records item)))"
    using s6 by (auto simp: countRecords_def Let_def sameZoneSpec_def split: if_splits)
  have conds: "condHolds kb new t = condHolds kb z5 t" for t by (simp add: condHolds_def z6(4))
  have ns: "z_nameservers new = z_nameservers z1" using z6(3) p5(3) z3(3) by simp
  have "kb_listByZone kb u (objectKey (z_meta base)) = (u', Inr items)" using s4 z3(1) by simp
  moreover have "condHolds kb new CondAccepted \<longleftrightarrow> z_nameservers new \<noteq> []"
    using conds p5(2) acceptZone_props [OF laws s3] z3(3) ns by simp
  moreover have "condHolds kb new CondProgrammed \<longleftrightarrow> z_nameservers new \<noteq> [] \<and> haveDefaults base items"
    using conds p5(1) z3 ns by (simp add: haveDefaults_def sameZoneSpec_def)
  moreover have "z_nameservers new \<noteq> [] \<or> z_nameservers base = []" using p1(2) ns by auto
  moreover have "z_meta new = z_meta base" "sameZoneSpec new base" using z6 p5(3) z3 by (auto simp: sameZoneSpec_def)
  ultimately show ?thesis using z6(5) b by blast
qed

lemma updateZoneStatus_nameservers:
  assumes laws: "condition_laws kb" and run: "updateZoneStatus kb uc dc now st base = (st', z', e)"
    and patched: "UpPatchedZoneStatus b new \<in> set (newEvents st st')"
  shows "z_nameservers new = z_nameservers base \<or> z_nameservers new \<noteq> [] \<and>
    (\<exists>mirror shadow. ReadMirrorZone mirror (Inr shadow) \<in> set (newEvents st st') \<and> z_nameservers new = NormalizeStringSlice (z_nameservers shadow))"
proof -
  obtain st1 z1 c1 ref z2 c2 z3 c3 u u' items z5 c5 c6 where
    s1: "mirrorNameservers uc dc st base = (st1, z1, c1)" and s2: "linkDomain z1 ref = (z2, c2)"
    and s3: "acceptZone kb now z2 = (z3, c3)" and s5: "programZone kb now z3 items = (z5, c5)"
    and s6: "countRecords z5 items = (new, c6)" and sub: "set (newEvents st st1) \<subseteq> set (newEvents st st')"
    by (rule updateZoneStatus_patch [OF run patched])
  have "z_nameservers new = z_nameservers z1"
    using s2 acceptZone_props(2) [OF laws s3] programZone_props(3) [OF laws s5] s6
    by (auto simp: linkDomain_def countRecords_def Let_def split: if_splits)
  with mirrorNameservers_source [OF s1] sub show ?thesis by auto
qed


section \<open>Witnesses\<close>

definition zoneKube :: "DNSZone \<Rightarrow> unit kube" where
  "zoneKube z = (oneSetKube anOriginal (Some z))\<lparr>kb_getZoneClass :=
     (\<lambda>k _. (k, Inr \<lparr>zc_name = ''pdns'', zc_controllerName = ''powerdns'', zc_policy = None\<rparr>))\<rparr>"

definition aProvenDomain :: Domain where
  "aProvenDomain = \<lparr>dm_name = ''d'', dm_domainName = ''example.com'',
     dm_conditions = [mkCondition ''Verified'' ConditionTrue ''Verified'' [] 1 3], dm_nameservers = []\<rparr>"

definition aClaimant :: DNSZone where "aClaimant = withZoneFinalizers aZone [dnsZoneFinalizer]"

definition aDyingClaimant :: DNSZone where
  "aDyingClaimant = aClaimant\<lparr>z_meta := (z_meta aClaimant)\<lparr>m_deleted := Some 5\<rparr>\<rparr>"

abbreviation aReplicaRun :: "(unit, unit) replica \<times> repl_result" where
  "aReplicaRun \<equiv> ReplicateZone (zoneKube aClaimant) (stillUp [aProvenDomain]) (stillDown None None None) id ''accounting''
     ''project'' True 7 aReplica (''ns'', ''z'')"

abbreviation aZoneDeletion :: "(unit, unit) replica \<times> repl_result" where
  "aZoneDeletion \<equiv> ReplicateZone (zoneKube aDyingClaimant) (stillUp []) (stillDown None None None) id ''accounting''
     ''project'' True 7 aReplica (''ns'', ''z'')"

lemma zoneKube_laws [simp]: "status_keeps_spec (zoneKube z)" "condition_laws (zoneKube z)"
  by (simp add: status_keeps_spec_def zoneKube_def oneSetKube_def)
    (rule plain_conditions; simp add: zoneKube_def oneSetKube_def)

lemma mirrored_ex:
  assumes "list_ex (\<lambda>ev. case ev of MirroredZone _ _ _ \<Rightarrow> True | _ \<Rightarrow> False) evs"
  obtains k z e where "MirroredZone k z e \<in> set evs"
proof -
  from assms obtain ev where "ev \<in> set evs" "case ev of MirroredZone _ _ _ \<Rightarrow> True | _ \<Rightarrow> False" by (auto simp: list_ex_iff)
  with that show ?thesis by (cases ev) simp_all
qed

theorem mirrored_only_when_proven_witness:
  "\<exists>z0 pre k z e post items. newEvents aReplica (fst aReplicaRun) = ReadZone (''ns'', ''z'') (Inr z0) # pre @ MirroredZone k z e # post
    \<and> ClaimedDomain (z_domainName z0) (zoneOwner ''project'' z0) (Inr True) \<in> set pre
    \<and> ListedDomains (m_namespace (z_meta z0)) items \<in> set pre
    \<and> (\<exists>d \<in> set items. domainCovers (dm_domainName d) (z_domainName z0) \<and> uc_verified (stillUp [aProvenDomain]) (dm_conditions d))"
proof -
  have "list_ex (\<lambda>ev. case ev of MirroredZone _ _ _ \<Rightarrow> True | _ \<Rightarrow> False) (newEvents aReplica (fst aReplicaRun))" by code_simp
  then obtain k z e where ev: "MirroredZone k z e \<in> set (newEvents aReplica (fst aReplicaRun))" by (rule mirrored_ex)
  obtain st' r where run: "aReplicaRun = (st', r)" by fastforce
  from mirrored_only_when_proven [OF run ev [unfolded run fst_conv] zoneKube_laws(1)] show ?thesis
    unfolding run fst_conv by blast
qed

theorem zone_original_released_last_witness:
  "\<exists>a k e new. newEvents aReplica (fst aZoneDeletion) = [ReadZone (''ns'', ''z'') (Inr aDyingClaimant), DroppedAnchor (z_meta aDyingClaimant) a,
      ReadMirrorZone k (Inl e), FreedDomain (z_domainName aDyingClaimant) (zoneOwner ''project'' aDyingClaimant) None, UpPatchedZone aDyingClaimant new]
    \<and> dc_isNotFound (stillDown None None None) e"
proof -
  have "case newEvents aReplica (fst aZoneDeletion) of [_, _, _, _, UpPatchedZone base new] \<Rightarrow>
      base = aDyingClaimant \<and> dnsZoneFinalizer \<notin> set (m_finalizers (z_meta new)) | _ \<Rightarrow> False" by code_simp
  then obtain new where new: "UpPatchedZone aDyingClaimant new \<in> set (newEvents aReplica (fst aZoneDeletion))"
      "dnsZoneFinalizer \<notin> set (m_finalizers (z_meta new))"
    by (auto simp: neq_Nil_conv split: list.splits repl_event.splits)
  obtain st' r where run: "aZoneDeletion = (st', r)" by fastforce
  have plain: "\<not> dc_isNotFound (stillDown None None None) (PlainError msg)" for msg by (simp add: quietDown_def errNotFound_def)
  from zone_original_released_last [OF run new(1) [unfolded run fst_conv] new(2) zoneKube_laws(1) plain] show ?thesis
    unfolding run fst_conv by blast
qed

text \<open>A cluster whose state is the ledger.\<close>

definition ledgerDown :: "(string \<rightharpoonup> string) down_client" where
  "ledgerDown = (quietDown None None None)\<lparr>
     dc_getConfigMap := (\<lambda>d (ns, name). (d, case d name of None \<Rightarrow> Inl errNotFound
        | Some owner \<Rightarrow> Inr \<lparr>cm_meta = metaNamed ns name, cm_data = [(''owner'', owner)]\<rparr>)),
     dc_createConfigMap := (\<lambda>d cm. if d (m_name (cm_meta cm)) = None then (d(m_name (cm_meta cm) \<mapsto> storedOwner cm), Inr cm)
        else (d, Inl errNotFound)),
     dc_patchConfigMap := (\<lambda>d base new. (d(m_name (cm_meta base) \<mapsto> storedOwner new), None)),
     dc_deleteConfigMap := (\<lambda>d cm. (d(m_name (cm_meta cm) := None), None))\<rparr>"

lemma ledgerDown_laws: "ledger_laws ledgerDown ns id"
  unfolding ledger_laws_def ledgerDown_def quietDown_def
  by (auto simp: metaNamed_def storedOwner_def annotationIn_def emptyMeta_def split: option.splits if_splits)

abbreviation emptyLedger :: "(unit, string \<rightharpoonup> string) replica" where
  "emptyLedger \<equiv> \<lparr>rp_up = (), rp_down = Map.empty, rp_log = []\<rparr>"

theorem domain_has_one_owner_witness:
  "snd (ensureZoneAccounting ledgerDown ''accounting'' (fst (ensureZoneAccounting ledgerDown ''accounting'' emptyLedger aZone ''p/ns/a'')) aZone ''q/ns/b'')
     \<noteq> Inr True"
proof -
  let ?one = "ensureZoneAccounting ledgerDown ''accounting'' emptyLedger aZone ''p/ns/a''"
  have "snd ?one = Inr True"
    by (simp add: ensureZoneAccounting_def claimDomain_def ledgerDown_def quietDown_def aZone_def errNotFound_def Let_def emptyMeta_def)
  then have one: "?one = (fst ?one, Inr True)" by (metis prod.collapse)
  have other: "\<not> sameZoneOwner ''q/ns/b'' ''p/ns/a''" by code_simp
  show ?thesis
    by (rule domain_has_one_owner [OF ledgerDown_laws one idle _ refl other]) (rule prod.collapse [symmetric])
qed

definition aServedMirror :: DNSZone where "aServedMirror = aZone\<lparr>z_nameservers := [''ns1.example.net'']\<rparr>"

abbreviation aStatusRun :: "(unit, unit) replica \<times> DNSZone \<times> err" where
  "aStatusRun \<equiv> updateZoneStatus (zoneKube aClaimant) (stillUp [aProvenDomain]) (stillDown (Some aServedMirror) None None) 7 aReplica aClaimant"


text \<open>Accepted does not wait for the mirror: the nameservers that were published while the zone waited for
  its verification are enough, although the mirror has reported none.\<close>

lemma accepted_before_mirror_reports:
  "condHolds (zoneKube aClaimant)
     (fst (snd (updateZoneStatus (zoneKube aClaimant) (stillUp [aProvenDomain]) (stillDown (Some aZone) None None) 7 aReplica
        (aClaimant\<lparr>z_nameservers := [''ns1.example.net'']\<rparr>)))) CondAccepted
   \<and> z_nameservers aZone = []"
  by code_simp

end
