(* ===== verification/Go_Hash.thy ===== *)
theory Go_Hash
  imports Go_Prelude
begin

text \<open>
  \<^verbatim>\<open>crypto/sha256\<close> and \<^verbatim>\<open>encoding/hex\<close> of the Go library: the digest of a byte string as the standard
  (FIPS 180-4) computes it, in 32-bit words, and its hexadecimal text. The internal DNS service names
  objects by digests and checks payloads against them.
\<close>

unbundle bit_operations_syntax

section \<open>Definitions\<close>

type_synonym word32 = "32 word"

subsection \<open>sha256\<close>

text \<open>The first 32 bits of the fractional parts of the cube roots of the first 64 primes, and of the square roots of
  the first eight.\<close>

definition sha_constants :: "word32 list" where
  "sha_constants =
  [1116352408, 1899447441, 3049323471, 3921009573, 961987163, 1508970993, 2453635748, 2870763221,
   3624381080, 310598401, 607225278, 1426881987, 1925078388, 2162078206, 2614888103, 3248222580,
   3835390401, 4022224774, 264347078, 604807628, 770255983, 1249150122, 1555081692, 1996064986,
   2554220882, 2821834349, 2952996808, 3210313671, 3336571891, 3584528711, 113926993, 338241895,
   666307205, 773529912, 1294757372, 1396182291, 1695183700, 1986661051, 2177026350, 2456956037,
   2730485921, 2820302411, 3259730800, 3345764771, 3516065817, 3600352804, 4094571909, 275423344,
   430227734, 506948616, 659060556, 883997877, 958139571, 1322822218, 1537002063, 1747873779,
   1955562222, 2024104815, 2227730452, 2361852424, 2428436474, 2756734187, 3204031479, 3329325298]"

definition sha_initial :: "word32 list" where
  "sha_initial =
  [1779033703, 3144134277, 1013904242, 2773480762, 1359893119, 2600822924, 528734635, 1541459225]"

text \<open>The message is followed by a bit, zeros and its length in bits, to a multiple of 64 bytes.\<close>

definition be_bytes :: "nat \<Rightarrow> nat \<Rightarrow> nat list" where
  "be_bytes k n = map (\<lambda>i. n div 256 ^ (k - 1 - i) mod 256) [0..<k]"

definition sha_padded :: "nat list \<Rightarrow> nat list" where
  "sha_padded m = m @ [128] @ replicate ((119 - length m mod 64) mod 64) 0 @ be_bytes 8 (8 * length m)"

fun in_groups :: "nat \<Rightarrow> nat \<Rightarrow> 'a list \<Rightarrow> 'a list list" where
  "in_groups 0 k xs = []"
| "in_groups (Suc n) k xs = take k xs # in_groups n k (drop k xs)"

definition word_of_bytes :: "nat list \<Rightarrow> word32" where
  "word_of_bytes bs = word_of_nat (foldl (\<lambda>v b. 256 * v + b) 0 bs)"

text \<open>The message schedule, last word first.\<close>

definition sha_next :: "word32 list \<Rightarrow> word32" where
  "sha_next ws =
     (let a = ws ! 14; b = ws ! 1;
          s0 = word_rotr 7 a XOR word_rotr 18 a XOR drop_bit 3 a;
          s1 = word_rotr 17 b XOR word_rotr 19 b XOR drop_bit 10 b
      in ws ! 15 + s0 + ws ! 6 + s1)"

fun sha_schedule :: "nat \<Rightarrow> word32 list \<Rightarrow> word32 list" where
  "sha_schedule 0 ws = ws"
| "sha_schedule (Suc n) ws = sha_schedule n (sha_next ws # ws)"

fun sha_round :: "word32 list \<Rightarrow> word32 \<times> word32 \<Rightarrow> word32 list" where
  "sha_round [a, b, c, d, e, f, g, h] (k, w) =
     (let t1 = h + (word_rotr 6 e XOR word_rotr 11 e XOR word_rotr 25 e) + ((e AND f) XOR (NOT e AND g)) + k + w;
          t2 = (word_rotr 2 a XOR word_rotr 13 a XOR word_rotr 22 a) + ((a AND b) XOR (a AND c) XOR (b AND c))
      in [t1 + t2, a, b, c, d + t1, e, f, g])"
| "sha_round st kw = st"

definition sha_block :: "word32 list \<Rightarrow> nat list \<Rightarrow> word32 list" where
  "sha_block st block =
     (let ws = rev (sha_schedule 48 (rev (map word_of_bytes (in_groups 16 4 block))))
      in map2 (+) st (foldl sha_round st (zip sha_constants ws)))"

definition bytes_of :: "string \<Rightarrow> nat list" where
  "bytes_of s = map of_char s"

definition Sum256 :: "string \<Rightarrow> nat list" where
  "Sum256 s =
     (let p = sha_padded (bytes_of s)
      in concat (map (\<lambda>w. be_bytes 4 (unat w)) (foldl sha_block sha_initial (in_groups (length p div 64) 64 p))))"

subsection \<open>hex\<close>

definition EncodeToString :: "nat list \<Rightarrow> string" where
  "EncodeToString bs = concat (map (\<lambda>b. [hex_char (b div 16), hex_char (b mod 16)]) bs)"

definition is_hex :: "char \<Rightarrow> bool" where
  "is_hex c \<longleftrightarrow> is_digit c \<or> CHR ''a'' \<le> c \<and> c \<le> CHR ''f'' \<or> CHR ''A'' \<le> c \<and> c \<le> CHR ''F''"

text \<open>Whether \<^verbatim>\<open>hex.DecodeString\<close> takes the text.\<close>

definition decodable :: "string \<Rightarrow> bool" where
  "decodable s \<longleftrightarrow> even (length s) \<and> list_all is_hex s"

section \<open>Digests have 32 bytes, their text 64 hexadecimal digits\<close>

lemma length_be_bytes [simp]: "length (be_bytes k n) = k"
  by (simp add: be_bytes_def)

lemma be_bytes_bound: "b \<in> set (be_bytes k n) \<Longrightarrow> b < 256"
  by (auto simp: be_bytes_def)

lemma length_in_groups [simp]: "length (in_groups n k xs) = n"
  by (induction n arbitrary: xs) auto

lemma length_sha_round [simp]: "length (sha_round st kw) = length st"
  by (cases "(st, kw)" rule: sha_round.cases) (auto simp: Let_def)

lemma length_sha_rounds [simp]: "length (foldl sha_round st kws) = length st"
  by (induction kws arbitrary: st) auto

lemma length_sha_block [simp]: "length (sha_block st block) = length st"
  by (simp add: sha_block_def Let_def)

lemma length_sha_blocks [simp]: "length (foldl sha_block st blocks) = length st"
  by (induction blocks arbitrary: st) auto

lemma length_concat_fixed: "(\<And>x. x \<in> set xs \<Longrightarrow> length (f x) = k) \<Longrightarrow> length (concat (map f xs)) = k * length xs"
  by (induction xs) auto

lemma length_Sum256 [simp]: "length (Sum256 s) = 32"
proof -
  have "length (Sum256 s) = 4 * length sha_initial"
    unfolding Sum256_def Let_def by (subst length_concat_fixed [where k = 4]) simp_all
  thus ?thesis
    by (simp add: sha_initial_def)
qed

lemma Sum256_bytes: "b \<in> set (Sum256 s) \<Longrightarrow> b < 256"
  by (auto simp: Sum256_def Let_def dest: be_bytes_bound)

lemma is_hex_hex_char: "d < 16 \<Longrightarrow> is_hex (hex_char d)"
proof -
  have "list_all (\<lambda>d. is_hex (hex_char d)) [0..<16]"
    by code_simp
  thus "d < 16 \<Longrightarrow> is_hex (hex_char d)"
    by (simp add: list_all_iff)
qed

lemma length_EncodeToString [simp]: "length (EncodeToString bs) = 2 * length bs"
  by (simp add: EncodeToString_def length_concat_fixed [where k = 2])

lemma decodable_EncodeToString: "(\<And>b. b \<in> set bs \<Longrightarrow> b < 256) \<Longrightarrow> decodable (EncodeToString bs)"
  by (auto simp: decodable_def list_all_iff)
    (fastforce simp: EncodeToString_def less_mult_imp_div_less intro!: is_hex_hex_char)

section \<open>The tables\<close>

text \<open>What the tables hold: with the integer part of the root of the prime in front, each constant is the largest number
  whose power stays below the scaled prime.\<close>

definition primes_upto :: "int \<Rightarrow> int list" where
  "primes_upto n = (let ns = [2..n] in filter (\<lambda>p. list_all (\<lambda>d. p mod d \<noteq> 0) (takeWhile (\<lambda>d. d * d \<le> p) ns)) ns)"

definition root_bits :: "nat \<Rightarrow> int \<Rightarrow> word32 \<Rightarrow> bool" where
  "root_bits k p w \<longleftrightarrow>
     (let n = last (takeWhile (\<lambda>a. a ^ k \<le> p) [1..7]) * 4294967296 + uint w; scaled = p * 4294967296 ^ k
      in n ^ k \<le> scaled \<and> scaled < (n + 1) ^ k)"

lemma sha_initial_roots: "list_all2 (root_bits 2) (primes_upto 19) sha_initial"
  by code_simp

lemma sha_constants_roots: "list_all2 (root_bits 3) (primes_upto 311) sha_constants"
  by code_simp

end
