(* ===== verification/Wire_Model.thy ===== *)
theory Wire_Model
  imports Go_Hash Go_Netip Pdns_Errors
begin

text \<open>
  The wire contract of the internal DNS service (\<^verbatim>\<open>internal/internaldns/model\<close>): envelopes, the
  serving snapshot of a shard, publication manifests and their chunks, publication plans, the tokens
  and subjects they travel under and the fences that order them. A \<^verbatim>\<open>time.Time\<close> is the nanoseconds since
  Go's zero time; a \<^verbatim>\<open>uint64\<close> is a word of 64 bits. The functions of \<^verbatim>\<open>miekg/dns\<close> that a plan is
  validated with are a parameter.
\<close>

section \<open>Definitions\<close>

type_synonym uint64 = "64 word"
type_synonym go_time = int

definition IsZero :: "go_time \<Rightarrow> bool" where "IsZero t \<longleftrightarrow> t = 0"

text \<open>The Unix epoch, and the clock read in seconds and nanoseconds from there.\<close>

definition unixEpoch :: go_time where "unixEpoch = 62135596800 * 10 ^ 9"
definition UnixNano :: "go_time \<Rightarrow> int" where "UnixNano t = t - unixEpoch"
definition Unix :: "go_time \<Rightarrow> int" where "Unix t = (t - unixEpoch) div 10 ^ 9"

definition newError :: "string \<Rightarrow> go_error" where "newError s = PlainError s"

subsection \<open>json.Valid\<close>

text \<open>A recogniser of JSON texts. Every function returns what follows the construct it read.\<close>

definition json_space :: "char \<Rightarrow> bool" where
  "json_space c \<longleftrightarrow> c \<in> set [CHR '' '', CHR 0x09, CHR 0x0A, CHR 0x0D]"

abbreviation skip_space :: "string \<Rightarrow> string" where
  "skip_space s \<equiv> dropWhile json_space s"

fun json_string :: "string \<Rightarrow> string option" where
  "json_string [] = None"
| "json_string (c # s) =
     (if c = CHR 0x22 then Some s
      else if (of_char c :: nat) < 32 then None
      else if c = CHR 0x5C then
        (case s of
           [] \<Rightarrow> None
         | e # s' \<Rightarrow>
             if e = CHR ''u'' then
               (case s' of a # b # d # f # s'' \<Rightarrow> if list_all is_hex [a, b, d, f] then json_string s'' else None
                | _ \<Rightarrow> None)
             else if e \<in> set [CHR 0x22, CHR 0x5C, CHR ''/'', CHR ''b'', CHR ''f'', CHR ''n'', CHR ''r'', CHR ''t'']
             then json_string s' else None)
      else json_string s)"

definition json_digits :: "string \<Rightarrow> string option" where
  "json_digits s = (if s = [] \<or> \<not> is_digit (hd s) then None else Some (dropWhile is_digit s))"

definition json_fraction :: "string \<Rightarrow> string option" where
  "json_fraction s = (case s of c # s' \<Rightarrow> if c = CHR ''.'' then json_digits s' else Some s | [] \<Rightarrow> Some s)"

definition json_exponent :: "string \<Rightarrow> string option" where
  "json_exponent s =
     (case s of
        c # s' \<Rightarrow>
          if c = CHR ''e'' \<or> c = CHR ''E'' then
            (case s' of d # s'' \<Rightarrow> json_digits (if d = CHR ''+'' \<or> d = CHR ''-'' then s'' else s') | [] \<Rightarrow> None)
          else Some s
      | [] \<Rightarrow> Some s)"

definition json_number :: "string \<Rightarrow> string option" where
  "json_number s =
     (let u = (if HasPrefix s ''-'' then tl s else s) in
      case (if HasPrefix u ''0'' then Some (tl u) else json_digits u) of
        None \<Rightarrow> None
      | Some s1 \<Rightarrow> (case json_fraction s1 of None \<Rightarrow> None | Some s2 \<Rightarrow> json_exponent s2))"

text \<open>
  The fuel bounds the values, members and elements read one inside or after another. Between two of
  them at least every second call takes a byte, so twice the length of the text is enough. (Go also
  refuses texts nested deeper than 10000.)
\<close>

fun json_value :: "nat \<Rightarrow> string \<Rightarrow> string option"
  and json_members :: "nat \<Rightarrow> string \<Rightarrow> string option"
  and json_elements :: "nat \<Rightarrow> string \<Rightarrow> string option" where
  "json_value 0 s = None"
| "json_value (Suc n) s =
     (case skip_space s of
        [] \<Rightarrow> None
      | c # s' \<Rightarrow>
          if c = CHR 0x22 then json_string s'
          else if c = CHR ''{'' then
            (if HasPrefix (skip_space s') ''}'' then Some (tl (skip_space s')) else json_members n s')
          else if c = CHR ''['' then
            (if HasPrefix (skip_space s') '']'' then Some (tl (skip_space s')) else json_elements n s')
          else if HasPrefix (c # s') ''true'' then Some (drop 3 s')
          else if HasPrefix (c # s') ''null'' then Some (drop 3 s')
          else if HasPrefix (c # s') ''false'' then Some (drop 4 s')
          else json_number (c # s'))"
| "json_members 0 s = None"
| "json_members (Suc n) s =
     (if \<not> HasPrefix (skip_space s) [CHR 0x22] then None
      else case json_string (tl (skip_space s)) of
        None \<Rightarrow> None
      | Some s1 \<Rightarrow>
          if \<not> HasPrefix (skip_space s1) '':'' then None
          else case json_value n (tl (skip_space s1)) of
            None \<Rightarrow> None
          | Some s2 \<Rightarrow>
              if HasPrefix (skip_space s2) ''}'' then Some (tl (skip_space s2))
              else if HasPrefix (skip_space s2) '','' then json_members n (tl (skip_space s2))
              else None)"
| "json_elements 0 s = None"
| "json_elements (Suc n) s =
     (case json_value n s of
        None \<Rightarrow> None
      | Some s2 \<Rightarrow>
          if HasPrefix (skip_space s2) '']'' then Some (tl (skip_space s2))
          else if HasPrefix (skip_space s2) '','' then json_elements n (tl (skip_space s2))
          else None)"

definition json_Valid :: "string \<Rightarrow> bool" where
  "json_Valid s = (case json_value (2 * length s + 2) s of None \<Rightarrow> False | Some s' \<Rightarrow> list_all json_space s')"

subsection \<open>Tokens, names and hashes\<close>

definition AbsoluteName :: "string \<Rightarrow> string" where
  "AbsoluteName s =
     (let s = ToLower (TrimSpace s) in
      if s = [] then ''.'' else if HasSuffix s ''.'' then s else s @ ''.'')"

definition safeChar :: "char \<Rightarrow> bool" where
  "safeChar c \<longleftrightarrow> CHR ''a'' \<le> c \<and> c \<le> CHR ''z'' \<or> is_digit c \<or> c = CHR ''_'' \<or> c = CHR ''-''"

text \<open>Every run of other bytes is replaced with one underscore.\<close>

function replaceUnsafe :: "string \<Rightarrow> string" where
  "replaceUnsafe [] = []"
| "replaceUnsafe (c # s) =
     (if safeChar c then c # replaceUnsafe s
      else CHR ''_'' # replaceUnsafe (dropWhile (\<lambda>d. \<not> safeChar d) s))"
  by pat_completeness auto

termination
  by (relation "measure length") (auto simp: less_Suc_eq_le length_dropWhile_le)

definition trimByte :: "char \<Rightarrow> string \<Rightarrow> string" where
  "trimByte b s = rev (dropWhile (\<lambda>c. c = b) (rev (dropWhile (\<lambda>c. c = b) s)))"

definition SafeToken :: "string \<Rightarrow> string" where
  "SafeToken s =
     (let s = trimByte (CHR ''_'') (replaceUnsafe (ToLower s))
      in if s = [] then ''unknown'' else s)"

definition OpaqueToken :: "string \<Rightarrow> string" where
  "OpaqueToken uid = EncodeToString (take 12 (Sum256 uid))"

definition Hash :: "string \<Rightarrow> string" where
  "Hash b = EncodeToString (Sum256 b)"

definition EmptyContentHash :: string where
  "EmptyContentHash = Hash []"

definition validHash :: "string \<Rightarrow> bool" where
  "validHash s \<longleftrightarrow> length s = 64 \<and> decodable s"

definition DestinationKey :: "string \<Rightarrow> string \<Rightarrow> string" where
  "DestinationKey region address = region @ CHR 0x00 # address"

subsection \<open>Fences\<close>

definition Compare :: "uint64 \<Rightarrow> uint64 \<Rightarrow> uint64 \<Rightarrow> uint64 \<Rightarrow> int" where
  "Compare epoch revision currentEpoch currentRevision =
     (if epoch < currentEpoch \<or> epoch = currentEpoch \<and> revision < currentRevision then - 1
      else if epoch = currentEpoch \<and> revision = currentRevision then 0
      else 1)"

definition NextWriterEpoch :: "uint64 \<Rightarrow> go_time \<Rightarrow> uint64" where
  "NextWriterEpoch stored now = max (stored + 1) (word_of_int (max (Unix now) 0))"

subsection \<open>Subjects and keys\<close>

definition uint_str :: "uint64 \<Rightarrow> string" where
  "uint_str w = nat_str (unat w)"

definition ServingSubject :: "string \<Rightarrow> string \<Rightarrow> string" where
  "ServingSubject region shard = ''dns.private.serving.'' @ SafeToken region @ ''.'' @ SafeToken shard"

definition RecordChunkSubject :: "string \<Rightarrow> string \<Rightarrow> string \<Rightarrow> string" where
  "RecordChunkSubject region shard zoneUID =
     ''dns.private.records.'' @ SafeToken region @ ''.'' @ SafeToken shard @ ''.'' @ OpaqueToken zoneUID @ ''.chunk''"

definition RecordManifestSubject :: "string \<Rightarrow> string \<Rightarrow> string \<Rightarrow> string" where
  "RecordManifestSubject region shard zoneUID =
     ''dns.private.records.'' @ SafeToken region @ ''.'' @ SafeToken shard @ ''.'' @ OpaqueToken zoneUID @ ''.manifest''"

definition RecordConsumerFilter :: "string \<Rightarrow> string \<Rightarrow> string" where
  "RecordConsumerFilter region shard =
     ''dns.private.records.'' @ SafeToken region @ ''.'' @ SafeToken shard @ ''.>''"

definition AckSubject :: "string \<Rightarrow> string \<Rightarrow> string \<Rightarrow> string" where
  "AckSubject region shard memberID =
     ''dns.private.acks.'' @ SafeToken region @ ''.'' @ SafeToken shard @ ''.'' @ OpaqueToken memberID"

definition MemberLeasePrefix :: string where "MemberLeasePrefix = ''dns-member-lease-''"

definition SnapshotPrefix :: "string \<Rightarrow> string \<Rightarrow> string" where
  "SnapshotPrefix region shard = SafeToken region @ ''.'' @ SafeToken shard @ ''.''"

definition PublicationActivationName :: "string \<Rightarrow> string \<Rightarrow> string \<Rightarrow> string" where
  "PublicationActivationName manifest region shard =
     (let name = manifest @ ''-'' @ SafeToken region @ ''-'' @ SafeToken shard @ ''-activate'' in
      if length name \<le> 63 then trimByte (CHR ''-'') name
      else trimByte (CHR ''-'') (take 50 name) @ ''-'' @ EncodeToString (take 6 (Sum256 name)))"

subsection \<open>Envelopes\<close>

definition APIVersion :: string where
  "APIVersion = ''internal.dns.networking.miloapis.com/v1alpha6''"

definition KindServingSnapshot :: string where "KindServingSnapshot = ''ServingSnapshot''"
definition KindPublicationChunk :: string where "KindPublicationChunk = ''PublicationChunk''"
definition KindPublicationManifest :: string where "KindPublicationManifest = ''PublicationManifest''"
definition KindMemberAck :: string where "KindMemberAck = ''MemberAck''"

definition ErrUnsupportedEnvelope :: go_error where
  "ErrUnsupportedEnvelope = PlainError ''unsupported DNS envelope''"

record Envelope =
  ev_apiVersion :: string
  ev_kind :: string
  ev_eventID :: string
  ev_region :: string
  ev_shard :: string
  ev_resourceUID :: string
  ev_epoch :: uint64
  ev_revision :: uint64
  ev_publishedAt :: go_time
  ev_payload :: string

definition validateEnvelope :: "Envelope \<Rightarrow> err" where
  "validateEnvelope e =
     (if ev_apiVersion e = [] \<or> ev_kind e = [] \<or> ev_eventID e = [] \<or> ev_region e = [] \<or> ev_shard e = [] \<or>
         ev_resourceUID e = [] \<or> ev_epoch e = 0 \<or> ev_revision e = 0 \<or> IsZero (ev_publishedAt e) \<or>
         \<not> json_Valid (ev_payload e)
      then Some (newError ''envelope version, kind, identity, epoch, revision, timestamp, and JSON payload are required'')
      else if SafeToken (ev_region e) \<noteq> ev_region e \<or> SafeToken (ev_shard e) \<noteq> ev_shard e
      then Some (newError ''region and shard must be safe lowercase identifiers'')
      else if ev_apiVersion e \<noteq> APIVersion
      then Some (WrappedError (''unsupported DNS envelope: apiVersion '' @ go_quote (ev_apiVersion e)) (Some ErrUnsupportedEnvelope))
      else if ev_kind e \<notin> set [KindServingSnapshot, KindPublicationChunk, KindPublicationManifest, KindMemberAck]
      then Some (WrappedError (''unsupported DNS envelope: kind '' @ go_quote (ev_kind e)) (Some ErrUnsupportedEnvelope))
      else None)"

text \<open>The payload is given by what \<^verbatim>\<open>json.Marshal\<close> returned for it.\<close>

definition NewEnvelope ::
  "string \<Rightarrow> string \<Rightarrow> string \<Rightarrow> string \<Rightarrow> string \<Rightarrow> uint64 \<Rightarrow> uint64 \<Rightarrow> go_time \<Rightarrow> go_error + string \<Rightarrow> Envelope option \<times> err" where
  "NewEnvelope kind eventID region shard uid epoch revision at marshalled =
     (case marshalled of
        Inl e \<Rightarrow> (None, Some (WrappedError (''marshal '' @ kind @ '' payload: '' @ error_text e) (Some e)))
      | Inr b \<Rightarrow>
          let e = \<lparr>ev_apiVersion = APIVersion, ev_kind = kind, ev_eventID = eventID, ev_region = region,
                   ev_shard = shard, ev_resourceUID = uid, ev_epoch = epoch, ev_revision = revision,
                   ev_publishedAt = at, ev_payload = b\<rparr>
          in (Some e, validateEnvelope e))"

text \<open>\<open>chunkIndex\<close> is the index \<^verbatim>\<open>json.Unmarshal\<close> reads from a chunk's payload.\<close>

definition SnapshotKey :: "(string \<Rightarrow> go_error + int) \<Rightarrow> Envelope \<Rightarrow> go_error + string" where
  "SnapshotKey chunkIndex env =
     (let prefix = SnapshotPrefix (ev_region env) (ev_shard env); uid = OpaqueToken (ev_resourceUID env) in
      if ev_kind env = KindPublicationChunk then
        (case chunkIndex (ev_payload env) of
           Inl e \<Rightarrow> Inl e
         | Inr i \<Rightarrow> Inr (prefix @ ''chunk.'' @ uid @ ''.e'' @ uint_str (ev_epoch env) @ ''.r'' @ uint_str (ev_revision env) @
                        ''.i'' @ int_str i))
      else if ev_kind env = KindPublicationManifest then Inr (prefix @ ''manifest.'' @ uid)
      else if ev_kind env = KindServingSnapshot then Inr (prefix @ ''serving.'' @ uid)
      else Inl (newError (''event '' @ ev_kind env @ '' is not bootstrap state'')))"

subsection \<open>The serving snapshot of a shard\<close>

record AccessVersion =
  av_epoch :: uint64
  av_sequence :: uint64

record Backend =
  be_memberID :: string
  be_address :: string
  be_port :: "16 word"

record ZoneAttachment =
  za_pending :: bool
  za_zoneUID :: string
  za_apex :: string
  za_epoch :: uint64
  za_revision :: uint64

record Binding =
  bd_bindingUID :: string
  bd_projectUID :: string
  bd_contextUID :: string
  bd_generation :: uint64
  bd_configurationRevision :: uint64
  bd_consumerAddress :: string
  bd_clusterAddress :: string
  bd_port :: "16 word"
  bd_transports :: "string list"
  bd_zones :: "ZoneAttachment list"
  bd_nodeBackends :: "Backend list"
  bd_clusterBackends :: "Backend list"
  bd_version :: AccessVersion
  bd_tombstone :: bool
  bd_configurationPending :: bool

definition TransportUDP :: string where "TransportUDP = ''UDP''"
definition TransportTCP :: string where "TransportTCP = ''TCP''"

definition ViewName :: "Binding \<Rightarrow> string" where
  "ViewName b = ''context_'' @ OpaqueToken (bd_projectUID b @ ''/'' @ bd_contextUID b) @ ''_g'' @ uint_str (bd_generation b)"

record Member =
  mb_memberID :: string
  mb_replicaID :: string
  mb_role :: string

record MemberPattern =
  mp_role :: string
  mp_idPrefix :: string

definition validatePattern :: "MemberPattern \<Rightarrow> err" where
  "validatePattern p =
     (if mp_role p \<noteq> ''node''
      then Some (newError (''member pattern '' @ go_quote (mp_idPrefix p) @ '' must have role node, not '' @ go_quote (mp_role p)))
      else if mp_idPrefix p = [] then Some (newError ''member pattern ID prefix is required'')
      else None)"

definition IsOrdinal :: "string \<Rightarrow> bool" where
  "IsOrdinal s = (if s = [] \<or> length s > 1 \<and> hd s = CHR ''0'' then False else list_all is_digit s)"

definition Matches :: "MemberPattern \<Rightarrow> string \<Rightarrow> bool" where
  "Matches p memberID \<longleftrightarrow>
     mp_idPrefix p \<noteq> [] \<and> HasPrefix memberID (mp_idPrefix p) \<and> IsOrdinal (drop (length (mp_idPrefix p)) memberID)"

definition LookupMember :: "Member list \<Rightarrow> MemberPattern list \<Rightarrow> string \<Rightarrow> Member option" where
  "LookupMember members patterns memberID =
     (case find (\<lambda>m. mb_memberID m = memberID) members of
        Some m \<Rightarrow> Some m
      | None \<Rightarrow>
          (case find (\<lambda>p. Matches p memberID) patterns of
             Some p \<Rightarrow> Some \<lparr>mb_memberID = memberID, mb_replicaID = memberID, mb_role = mp_role p\<rparr>
           | None \<Rightarrow> None))"

record PublicationRequirement =
  pr_zoneUID :: string
  pr_epoch :: uint64
  pr_revision :: uint64

record ServingSnapshot =
  ss_region :: string
  ss_shard :: string
  ss_epoch :: uint64
  ss_revision :: uint64
  ss_bindings :: "Binding list"
  ss_members :: "Member list"
  ss_memberPatterns :: "MemberPattern list"
  ss_requiredPublications :: "PublicationRequirement list"
  ss_generatedAt :: go_time

text \<open>A loop whose body fails or goes on; \<open>seen\<close> is what it carries along.\<close>

fun each :: "('a \<Rightarrow> 'b \<Rightarrow> go_error + 'a) \<Rightarrow> 'a \<Rightarrow> 'b list \<Rightarrow> go_error + 'a" where
  "each f seen [] = Inr seen"
| "each f seen (x # xs) = (case f seen x of Inl e \<Rightarrow> Inl e | Inr seen' \<Rightarrow> each f seen' xs)"

definition andThen :: "go_error + 'a \<Rightarrow> ('a \<Rightarrow> err) \<Rightarrow> err" where
  "andThen r k = (case r of Inl e \<Rightarrow> Some e | Inr a \<Rightarrow> k a)"

definition failed :: "err \<Rightarrow> 'a \<Rightarrow> go_error + 'a" where
  "failed e a = (case e of None \<Rightarrow> Inr a | Some e \<Rightarrow> Inl e)"

definition checkMember :: "string list \<Rightarrow> Member \<Rightarrow> go_error + string list" where
  "checkMember seen member =
     (if mb_memberID member = [] \<or> mb_role member \<notin> set [''resolver'', ''node'', ''cluster'', ''regional'']
      then Inl (newError (''invalid serving member '' @ go_quote (mb_memberID member) @ '' with role '' @ go_quote (mb_role member)))
      else let key = mb_memberID member @ CHR 0x00 # mb_replicaID member in
        if key \<in> set seen
        then Inl (newError (''duplicate serving member '' @ go_quote (mb_memberID member) @ '' replica '' @ go_quote (mb_replicaID member)))
        else Inr (key # seen))"

definition checkRequirement :: "string list \<Rightarrow> PublicationRequirement \<Rightarrow> go_error + string list" where
  "checkRequirement seen r =
     (if pr_zoneUID r = [] \<or> pr_epoch r = 0 \<or> pr_revision r = 0
      then Inl (newError ''required publication has incomplete identity'')
      else if pr_zoneUID r \<in> set seen then Inl (newError (''duplicate required publication '' @ go_quote (pr_zoneUID r)))
      else Inr (pr_zoneUID r # seen))"

definition checkTransport :: "string list \<Rightarrow> string \<Rightarrow> go_error + string list" where
  "checkTransport seen t =
     (if t \<noteq> TransportUDP \<and> t \<noteq> TransportTCP then Inl (newError (''unsupported transport '' @ go_quote t))
      else if t \<in> set seen then Inl (newError (''duplicate transport '' @ go_quote t))
      else Inr (t # seen))"

definition validateTransports :: "string list \<Rightarrow> err" where
  "validateTransports ts = andThen (each checkTransport [] ts) (\<lambda>_. None)"

definition IsUnspecified :: "ip_addr \<Rightarrow> bool" where
  "IsUnspecified a = (case a of IPv4 os \<Rightarrow> os = [0, 0, 0, 0] | IPv6 gs zone \<Rightarrow> gs = replicate 8 0 \<and> zone = [])"

definition usableAddress :: "string \<Rightarrow> bool" where
  "usableAddress raw = (case ParseAddr raw of None \<Rightarrow> False | Some a \<Rightarrow> \<not> IsUnspecified a)"

definition addressError :: "Binding \<Rightarrow> string \<Rightarrow> string \<Rightarrow> go_error" where
  "addressError b name raw = newError (''binding '' @ go_quote (bd_bindingUID b) @ '' invalid '' @ name @ '' '' @ go_quote raw)"

definition checkAddress :: "Binding \<Rightarrow> (string \<times> Binding) list \<Rightarrow> string \<times> string \<Rightarrow> go_error + (string \<times> Binding) list" where
  "checkAddress b seenVIP named =
     (let raw = snd named in
      if \<not> usableAddress raw then Inl (addressError b (fst named) raw)
      else case map_of seenVIP raw of
        Some old \<Rightarrow>
          if bd_bindingUID old \<noteq> bd_bindingUID b \<and> (\<not> bd_tombstone old \<or> \<not> bd_tombstone b)
          then Inl (newError (''address '' @ raw @ '' assigned to bindings '' @ go_quote (bd_bindingUID old) @ '' and '' @ go_quote (bd_bindingUID b)))
          else Inr ((raw, b) # seenVIP)
      | None \<Rightarrow> Inr ((raw, b) # seenVIP))"

definition endpoint :: "Backend \<Rightarrow> string" where
  "endpoint backend = (case ParseAddr (be_address backend) of None \<Rightarrow> [] | Some a \<Rightarrow> addr_String a) @ '':'' @ nat_str (unat (be_port backend))"

type_synonym backends_seen = "(string \<times> string) list \<times> (string \<times> string) list"

definition checkBackend :: "Binding \<Rightarrow> backends_seen \<Rightarrow> Backend \<Rightarrow> go_error + backends_seen" where
  "checkBackend b seen backend =
     (let uid = ''binding '' @ go_quote (bd_bindingUID b); (members, addresses) = seen; at = endpoint backend in
      if be_memberID backend = [] \<or> be_port backend = 0 then Inl (newError (uid @ '' has incomplete backend''))
      else if \<not> usableAddress (be_address backend)
      then Inl (newError (uid @ '' has invalid backend address '' @ go_quote (be_address backend)))
      else if (case map_of members (be_memberID backend) of None \<Rightarrow> False | Some old \<Rightarrow> old \<noteq> at)
      then Inl (newError (uid @ '' backend member '' @ go_quote (be_memberID backend) @ '' has conflicting endpoints''))
      else if (case map_of addresses at of None \<Rightarrow> False | Some old \<Rightarrow> old \<noteq> be_memberID backend)
      then Inl (newError (uid @ '' backend endpoint '' @ go_quote at @ '' has conflicting member IDs''))
      else Inr ((be_memberID backend, at) # members, (at, be_memberID backend) # addresses))"

text \<open>The functions of \<^verbatim>\<open>miekg/dns\<close> the model package calls.\<close>

record dns_lib =
  dl_isDomainName :: "string \<Rightarrow> bool"
  dl_isSubDomain :: "string \<Rightarrow> string \<Rightarrow> bool"
  dl_knownType :: "string \<Rightarrow> bool"
  dl_newRR :: "string \<Rightarrow> err"

definition checkZone :: "dns_lib \<Rightarrow> Binding \<Rightarrow> (string \<times> string) list \<Rightarrow> ZoneAttachment \<Rightarrow> go_error + (string \<times> string) list" where
  "checkZone lib b zoneApex z =
     (let uid = ''binding '' @ go_quote (bd_bindingUID b); apex = AbsoluteName (za_apex z) in
      if za_zoneUID z = [] \<or> za_epoch z = 0 \<or> za_revision z = 0 then Inl (newError (uid @ '' has incomplete zone attachment''))
      else if apex = ''.'' \<or> \<not> dl_isDomainName lib apex then Inl (newError (uid @ '' has invalid zone apex''))
      else case map_of zoneApex apex of
        Some old \<Rightarrow>
          if old \<noteq> za_zoneUID z
          then Inl (newError (uid @ '' attaches zones '' @ go_quote old @ '' and '' @ go_quote (za_zoneUID z) @ '' at '' @ apex))
          else Inr ((apex, za_zoneUID z) # zoneApex)
      | None \<Rightarrow> Inr ((apex, za_zoneUID z) # zoneApex))"

text \<open>
  The checks on a binding that look at no other one. The source walks its two addresses in the order
  of a Go map; whether a snapshot is accepted does not depend on that order, only which error is
  reported does.
\<close>

definition checkBindingBody :: "dns_lib \<Rightarrow> Binding \<Rightarrow> err" where
  "checkBindingBody lib b =
     (let uid = ''binding '' @ go_quote (bd_bindingUID b) in
      if bd_port b = 0 \<or> bd_transports b = [] \<or> av_epoch (bd_version b) = 0 \<or> av_sequence (bd_version b) = 0
      then Some (newError (uid @ '' has incomplete transport or access version''))
      else if bd_configurationPending b \<and> bd_zones b \<noteq> []
      then Some (newError (uid @ '' pending configuration must not expose partial zones''))
      else case validateTransports (bd_transports b) of
        Some e \<Rightarrow> Some (WrappedError (uid @ '': '' @ error_text e) (Some e))
      | None \<Rightarrow>
          andThen (each (checkBackend b) ([], []) (bd_nodeBackends b)) (\<lambda>_.
          andThen (each (checkBackend b) ([], []) (bd_clusterBackends b)) (\<lambda>_.
          andThen (each (checkZone lib b) [] (bd_zones b)) (\<lambda>_. None))))"

type_synonym bindings_seen = "nat \<times> string list \<times> (string \<times> Binding) list"

definition checkBinding :: "dns_lib \<Rightarrow> bindings_seen \<Rightarrow> Binding \<Rightarrow> go_error + bindings_seen" where
  "checkBinding lib seen b =
     (let (i, seenUID, seenVIP) = seen in
      if bd_bindingUID b = [] \<or> bd_projectUID b = [] \<or> bd_contextUID b = [] \<or> bd_generation b = 0 \<or> bd_configurationRevision b = 0
      then Inl (newError (''binding '' @ nat_str i @ '' has incomplete identity''))
      else if bd_bindingUID b \<in> set seenUID then Inl (newError (''duplicate binding UID '' @ go_quote (bd_bindingUID b)))
      else case each (checkAddress b) seenVIP [(''consumerAddress'', bd_consumerAddress b), (''clusterAddress'', bd_clusterAddress b)] of
        Inl e \<Rightarrow> Inl e
      | Inr seenVIP' \<Rightarrow> failed (checkBindingBody lib b) (Suc i, bd_bindingUID b # seenUID, seenVIP'))"

definition validateSnapshot :: "dns_lib \<Rightarrow> ServingSnapshot \<Rightarrow> err" where
  "validateSnapshot lib s =
     (if ss_region s = [] \<or> ss_shard s = [] \<or> ss_epoch s = 0 \<or> ss_revision s = 0 \<or> IsZero (ss_generatedAt s)
      then Some (newError ''serving snapshot identity, epoch, revision, and timestamp are required'')
      else
        andThen (each checkMember [] (ss_members s)) (\<lambda>_.
        andThen (each (\<lambda>_ p. failed (validatePattern p) ()) () (ss_memberPatterns s)) (\<lambda>_.
        andThen (each checkRequirement [] (ss_requiredPublications s)) (\<lambda>_.
        andThen (each (checkBinding lib) (0, [], []) (ss_bindings s)) (\<lambda>_. None)))))"

subsection \<open>Publications\<close>

record ChunkRef =
  cr_index :: int
  cr_sha256 :: string
  cr_size :: int

record PublicationManifest =
  pm_manifestUID :: string
  pm_zoneUID :: string
  pm_apex :: string
  pm_writerEpoch :: uint64
  pm_revision :: uint64
  pm_previousRevision :: uint64
  pm_tombstone :: bool
  pm_chunks :: "ChunkRef list"
  pm_contentHash :: string
  pm_generatedAt :: go_time

definition refLess :: "ChunkRef \<Rightarrow> ChunkRef \<Rightarrow> bool" where
  "refLess a b \<longleftrightarrow> cr_index a < cr_index b"

definition checkRef :: "nat \<Rightarrow> ChunkRef \<Rightarrow> go_error + nat" where
  "checkRef i ref =
     (if cr_index ref \<noteq> int i \<or> cr_size ref \<le> 0 \<or> \<not> validHash (cr_sha256 ref)
      then Inl (newError (''invalid chunk reference at ordered index '' @ nat_str i))
      else Inr (Suc i))"

definition validateManifest :: "dns_lib \<Rightarrow> PublicationManifest \<Rightarrow> err" where
  "validateManifest lib m =
     (if pm_manifestUID m = [] \<or> pm_zoneUID m = [] \<or> AbsoluteName (pm_apex m) = ''.'' \<or> pm_writerEpoch m = 0 \<or>
         pm_revision m = 0 \<or> IsZero (pm_generatedAt m)
      then Some (newError ''publication manifest identity, zone, epoch, revision, and timestamp are required'')
      else if pm_previousRevision m \<ge> pm_revision m \<and> pm_previousRevision m \<noteq> 0
      then Some (newError ''publication manifest previous revision must precede revision'')
      else if \<not> dl_isDomainName lib (AbsoluteName (pm_apex m)) then Some (newError ''publication manifest apex is invalid'')
      else if pm_tombstone m then
        (if pm_chunks m \<noteq> [] \<or> pm_contentHash m \<noteq> EmptyContentHash
         then Some (newError ''tombstone must have no chunks and the empty content hash'') else None)
      else if pm_chunks m = [] \<or> \<not> validHash (pm_contentHash m)
      then Some (newError ''non-tombstone manifest requires chunks and a SHA-256 content hash'')
      else andThen (each checkRef 0 (go_sort refLess (pm_chunks m))) (\<lambda>_. None))"

record PublicationChunk =
  pc_manifestUID :: string
  pc_zoneUID :: string
  pc_writerEpoch :: uint64
  pc_revision :: uint64
  pc_index :: int
  pc_sha256 :: string
  pc_payload :: string

definition validateChunk :: "PublicationChunk \<Rightarrow> err" where
  "validateChunk c =
     (if pc_manifestUID c = [] \<or> pc_zoneUID c = [] \<or> pc_writerEpoch c = 0 \<or> pc_revision c = 0 \<or> pc_index c < 0 \<or>
         pc_payload c = [] \<or> \<not> validHash (pc_sha256 c)
      then Some (newError ''publication chunk identity, revision, hash, and payload are required'')
      else if Hash (pc_payload c) \<noteq> pc_sha256 c then Some (newError ''publication chunk SHA-256 mismatch'')
      else None)"

definition takeChunk :: "PublicationManifest \<Rightarrow> (int \<times> PublicationChunk) list \<Rightarrow> PublicationChunk \<Rightarrow> go_error + (int \<times> PublicationChunk) list" where
  "takeChunk m byIndex c =
     (case validateChunk c of
        Some e \<Rightarrow> Inl e
      | None \<Rightarrow>
          if pc_manifestUID c \<noteq> pm_manifestUID m \<or> pc_zoneUID c \<noteq> pm_zoneUID m \<or> pc_writerEpoch c \<noteq> pm_writerEpoch m \<or>
             pc_revision c \<noteq> pm_revision m
          then Inl (newError (''chunk '' @ int_str (pc_index c) @ '' identity does not match manifest''))
          else if map_of byIndex (pc_index c) \<noteq> None then Inl (newError (''duplicate chunk index '' @ int_str (pc_index c)))
          else Inr ((pc_index c, c) # byIndex))"

definition addChunk :: "(int \<times> PublicationChunk) list \<Rightarrow> string \<Rightarrow> ChunkRef \<Rightarrow> go_error + string" where
  "addChunk byIndex payload ref =
     (case map_of byIndex (cr_index ref) of
        Some c \<Rightarrow>
          if int (length (pc_payload c)) \<noteq> cr_size ref \<or> pc_sha256 c \<noteq> cr_sha256 ref
          then Inl (newError (''chunk '' @ int_str (cr_index ref) @ '' is missing or differs from manifest''))
          else Inr (payload @ pc_payload c)
      | None \<Rightarrow> Inl (newError (''chunk '' @ int_str (cr_index ref) @ '' is missing or differs from manifest'')))"

definition VerifyManifest :: "dns_lib \<Rightarrow> PublicationManifest \<Rightarrow> PublicationChunk list \<Rightarrow> go_error + string" where
  "VerifyManifest lib m chunks =
     (case validateManifest lib m of
        Some e \<Rightarrow> Inl e
      | None \<Rightarrow>
          if pm_tombstone m then Inr []
          else if length chunks \<noteq> length (pm_chunks m)
          then Inl (newError (''manifest references '' @ nat_str (length (pm_chunks m)) @ '' chunks but '' @ nat_str (length chunks) @ '' were supplied''))
          else case each (takeChunk m) [] chunks of
            Inl e \<Rightarrow> Inl e
          | Inr byIndex \<Rightarrow>
              (case each (addChunk byIndex) [] (pm_chunks m) of
                 Inl e \<Rightarrow> Inl e
               | Inr payload \<Rightarrow>
                   if Hash payload \<noteq> pm_contentHash m then Inl (newError ''publication content SHA-256 mismatch'')
                   else Inr payload))"

subsection \<open>Publication plans\<close>

record RRRecord =
  rec_content :: string
  rec_contributionUID :: string
  rec_generation :: uint64
  rec_sequence :: uint64
  rec_eligible :: bool

record PlanRRSet =
  ps_name :: string
  ps_type :: string
  ps_ttl :: "32 word"
  ps_records :: "RRRecord list"

record RegistrationFence =
  rf_uid :: string
  rf_generation :: uint64

record ObservationFence =
  of_contributionUID :: string
  of_generation :: uint64
  of_sequence :: uint64
  of_retired :: bool
  of_sourceName :: string

record PublicationPlan =
  pp_zoneUID :: string
  pp_apex :: string
  pp_registrations :: "RegistrationFence list"
  pp_observationFences :: "ObservationFence list"
  pp_owners :: "string list"
  pp_rrsets :: "PlanRRSet list"

definition OwnershipMarkerType :: string where "OwnershipMarkerType = ''TYPE65280''"
definition recordTypeCNAME :: string where "recordTypeCNAME = ''CNAME''"

definition ValidatePrivateRecordOwner :: "string \<Rightarrow> string \<Rightarrow> string \<Rightarrow> err" where
  "ValidatePrivateRecordOwner owner apex recordType =
     (let owner = TrimSpace owner in
      if EqualFold recordType OwnershipMarkerType then Some (newError ''private DNS ownership metadata is service-owned'')
      else if EqualFold recordType ''ALIAS'' then Some (newError ''private DNS does not support ALIAS flattening'')
      else if EqualFold recordType ''SOA'' then Some (newError ''private zone SOA records are managed by the DNS service'')
      else if EqualFold recordType recordTypeCNAME \<and> (owner = [] \<or> owner = ''@'' \<or> AbsoluteName owner = AbsoluteName apex)
      then Some (newError ''a private zone apex cannot be a CNAME'')
      else None)"

definition checkRegistration :: "string \<Rightarrow> RegistrationFence \<Rightarrow> go_error + string" where
  "checkRegistration previous r =
     (if rf_uid r = [] \<or> rf_generation r = 0 then Inl (newError ''publication registration fence is incomplete'')
      else if previous \<noteq> [] \<and> rf_uid r \<le> previous
      then Inl (newError ''publication registration fences must be unique and sorted by UID'')
      else Inr (rf_uid r))"

definition checkObservation :: "string \<Rightarrow> ObservationFence \<Rightarrow> go_error + string" where
  "checkObservation previous obs =
     (if of_contributionUID obs = [] \<or> of_generation obs = 0 \<or> of_sequence obs = 0
      then Inl (newError ''publication observation fence is incomplete'')
      else if previous \<noteq> [] \<and> of_contributionUID obs \<le> previous
      then Inl (newError ''publication observation fences must be unique and sorted by contribution UID'')
      else Inr (of_contributionUID obs))"

definition checkOwner :: "dns_lib \<Rightarrow> string \<Rightarrow> unit \<Rightarrow> string \<Rightarrow> go_error + unit" where
  "checkOwner lib apex u owner =
     (let owner = AbsoluteName owner in
      if \<not> dl_isDomainName lib owner \<or> \<not> dl_isSubDomain lib apex owner
      then Inl (newError (''owned name '' @ go_quote owner @ '' is outside zone '' @ go_quote apex))
      else Inr u)"

definition checkRecord ::
  "dns_lib \<Rightarrow> (string \<Rightarrow> ObservationFence option) \<Rightarrow> string \<Rightarrow> string \<Rightarrow> PlanRRSet \<Rightarrow> unit \<Rightarrow> RRRecord \<Rightarrow> go_error + unit" where
  "checkRecord lib observationByUID owner rrType rr u rec =
     (let key = owner @ CHR 0x00 # rrType in
      if rec_content rec = [] then Inl (newError (''RRset '' @ go_quote key @ '' contains an invalid record''))
      else if rec_contributionUID rec = [] \<and> (rec_generation rec \<noteq> 0 \<or> rec_sequence rec \<noteq> 0)
      then Inl (newError (''RRset '' @ go_quote key @ '' static record contains contribution fence data''))
      else if rec_contributionUID rec \<noteq> [] \<and>
              (case observationByUID (rec_contributionUID rec) of
                 None \<Rightarrow> True
               | Some obs \<Rightarrow> of_retired obs \<or> rec_generation rec \<noteq> of_generation obs \<or> rec_sequence rec \<noteq> of_sequence obs)
      then Inl (newError (''RRset '' @ go_quote key @ '' record fence does not match contribution observation '' @ go_quote (rec_contributionUID rec)))
      else case dl_newRR lib (owner @ '' '' @ nat_str (unat (ps_ttl rr)) @ '' IN '' @ rrType @ '' '' @ rec_content rec) of
        Some e \<Rightarrow> Inl (WrappedError (''RRset '' @ go_quote key @ '' contains invalid RDATA: '' @ error_text e) (Some e))
      | None \<Rightarrow> Inr u)"

definition rrOwner :: "PlanRRSet \<Rightarrow> string" where
  "rrOwner rr = ToLower (AbsoluteName (ps_name rr))"

definition rrTypeOf :: "PlanRRSet \<Rightarrow> string" where
  "rrTypeOf rr = ToUpper (ps_type rr)"

type_synonym rrsets_seen = "string list \<times> (string \<times> string) list"

definition checkRRSet ::
  "dns_lib \<Rightarrow> (string \<Rightarrow> ObservationFence option) \<Rightarrow> string \<Rightarrow> rrsets_seen \<Rightarrow> PlanRRSet \<Rightarrow> go_error + rrsets_seen" where
  "checkRRSet lib observationByUID apex seen0 rr =
     (let (seen, ownerTypes) = seen0; owner = rrOwner rr; rrType = rrTypeOf rr; key = owner @ CHR 0x00 # rrType;
          other = (case map_of ownerTypes owner of None \<Rightarrow> [] | Some t \<Rightarrow> t) in
      case ValidatePrivateRecordOwner owner apex rrType of
        Some e \<Rightarrow> Inl e
      | None \<Rightarrow>
          if other \<noteq> [] \<and> (other = recordTypeCNAME \<or> rrType = recordTypeCNAME)
          then Inl (newError (''CNAME cannot coexist with other records at '' @ owner))
          else if rrType = recordTypeCNAME \<and> length (ps_records rr) \<noteq> 1
          then Inl (newError (''CNAME at '' @ owner @ '' must contain one target''))
          else if ps_records rr = [] \<or> ps_type rr = [] then Inl (newError (''RRset '' @ go_quote key @ '' is incomplete''))
          else if \<not> dl_isDomainName lib owner \<or> \<not> dl_isSubDomain lib apex owner
          then Inl (newError (''RRset owner '' @ go_quote owner @ '' is outside zone '' @ go_quote apex))
          else if \<not> dl_knownType lib rrType
          then Inl (newError (''RRset '' @ go_quote owner @ '' has unsupported type '' @ go_quote (ps_type rr)))
          else if key \<in> set seen then Inl (newError (''duplicate RRset '' @ go_quote key))
          else case each (checkRecord lib observationByUID owner rrType rr) () (ps_records rr) of
            Inl e \<Rightarrow> Inl e
          | Inr _ \<Rightarrow> Inr (key # seen, (owner, rrType) # ownerTypes))"

definition observationOf :: "ObservationFence list \<Rightarrow> string \<Rightarrow> ObservationFence option" where
  "observationOf fences uid = map_of (rev (map (\<lambda>f. (of_contributionUID f, f)) fences)) uid"

definition validatePlan :: "dns_lib \<Rightarrow> PublicationPlan \<Rightarrow> err" where
  "validatePlan lib p =
     (let apex = AbsoluteName (pp_apex p) in
      if pp_zoneUID p = [] \<or> apex = ''.'' then Some (newError ''publication plan zone identity is required'')
      else if \<not> dl_isDomainName lib apex then Some (newError ''publication plan apex is invalid'')
      else
        andThen (each checkRegistration [] (pp_registrations p)) (\<lambda>_.
        andThen (each checkObservation [] (pp_observationFences p)) (\<lambda>_.
        andThen (each (checkOwner lib apex) () (pp_owners p)) (\<lambda>_.
        andThen (each (checkRRSet lib (observationOf (pp_observationFences p)) apex) ([], []) (pp_rrsets p)) (\<lambda>_. None)))))"

text \<open>Acknowledgements of a member.\<close>

definition AckAccepted :: string where "AckAccepted = ''Accepted''"
definition AckApplied :: string where "AckApplied = ''Applied''"
definition AckVerified :: string where "AckVerified = ''Verified''"
definition AckExpired :: string where "AckExpired = ''Expired''"
definition AckRejected :: string where "AckRejected = ''Rejected''"

record MemberAck =
  ma_memberID :: string
  ma_replicaID :: string
  ma_resourceUID :: string
  ma_kind :: string
  ma_epoch :: uint64
  ma_revision :: uint64
  ma_phase :: string
  ma_observedAt :: go_time
  ma_validUntil :: go_time
  ma_error :: string

text \<open>How a publication is cut into chunks (\<^verbatim>\<open>controlplane/publication_reconciler.go\<close>): the chunk function,
  and the wire objects that \<^verbatim>\<open>persistPublication\<close> makes of the parts. A chunk size of zero never gets
  further; the reconciler's default is 256 KiB.\<close>

function chunk :: "string \<Rightarrow> nat \<Rightarrow> string list" where
  "chunk b n = (if b = [] \<or> n = 0 then [] else take n b # chunk (drop n b) n)"
  by pat_completeness auto

termination
  by (relation "measure (length \<circ> fst)") auto

declare chunk.simps [simp del]

definition wireRefs :: "string list \<Rightarrow> ChunkRef list" where
  "wireRefs parts = map (\<lambda>(i, p). \<lparr>cr_index = int i, cr_sha256 = Hash p, cr_size = int (length p)\<rparr>) (enumerate 0 parts)"

definition wireChunk :: "PublicationManifest \<Rightarrow> nat \<times> string \<Rightarrow> PublicationChunk" where
  "wireChunk m ip = \<lparr>pc_manifestUID = pm_manifestUID m, pc_zoneUID = pm_zoneUID m, pc_writerEpoch = pm_writerEpoch m,
     pc_revision = pm_revision m, pc_index = int (fst ip), pc_sha256 = Hash (snd ip), pc_payload = snd ip\<rparr>"

definition wireChunks :: "PublicationManifest \<Rightarrow> string list \<Rightarrow> PublicationChunk list" where
  "wireChunks m parts = map (wireChunk m) (enumerate 0 parts)"

section \<open>Loops\<close>

lemma each_append:
  "each f s (xs @ ys) = (case each f s xs of Inl e \<Rightarrow> Inl e | Inr t \<Rightarrow> each f t ys)"
  by (induction xs arbitrary: s) (auto split: sum.splits)

text \<open>What holds before a loop and is kept by each of its turns holds after it.\<close>

lemma each_invariant:
  assumes "each f s xs = Inr t"
    and start: "I [] s"
    and turn: "\<And>ys y s s'. I ys s \<Longrightarrow> y \<in> set xs \<Longrightarrow> f s y = Inr s' \<Longrightarrow> I (ys @ [y]) s'"
  shows "I xs t"
proof -
  have "set xs \<subseteq> set zs \<Longrightarrow> each f s xs = Inr t \<Longrightarrow> (\<And>ys y s s'. I ys s \<Longrightarrow> y \<in> set zs \<Longrightarrow> f s y = Inr s' \<Longrightarrow> I (ys @ [y]) s')
      \<Longrightarrow> I xs t" for zs
    using start by (induction xs arbitrary: t rule: rev_induct) (auto simp: each_append split: sum.splits)
  from this [OF subset_refl assms(1) turn] show ?thesis .
qed

lemma andThen_None: "andThen r k = None \<longleftrightarrow> (\<exists>a. r = Inr a \<and> k a = None)"
  by (auto simp: andThen_def split: sum.splits)

lemma failed_Inr: "failed e a = Inr b \<longleftrightarrow> e = None \<and> b = a"
  by (auto simp: failed_def split: option.splits)

section \<open>Tokens and subjects\<close>

lemma replaceUnsafe_safe: "list_all safeChar (replaceUnsafe s)"
  by (induction s rule: replaceUnsafe.induct) (auto simp: safeChar_def)

lemma replaceUnsafe_id: "list_all safeChar s \<Longrightarrow> replaceUnsafe s = s"
  by (induction s) auto

lemma trimByte_subset: "set (trimByte b s) \<subseteq> set s"
  by (auto simp: trimByte_def dest!: set_dropWhileD)

lemma dropWhile_trim_end:
  "dropWhile P (rev (dropWhile P (rev (dropWhile P s)))) = rev (dropWhile P (rev (dropWhile P s)))"
proof (cases "dropWhile P s")
  case (Cons c t)
  hence "\<not> P c"
    by (metis hd_dropWhile list.distinct(1) list.sel(1))
  with Cons show ?thesis
    by (simp add: dropWhile_append)
qed (simp only: rev.simps dropWhile.simps)

lemma trimByte_idem: "trimByte b (trimByte b s) = trimByte b s"
  by (simp add: trimByte_def dropWhile_trim_end)

lemma safe_lower: "safeChar c \<Longrightarrow> to_lower_char c = c"
  by (auto simp: safeChar_def to_lower_char_def is_digit_def less_eq_char_def)

lemma ToLower_safe: "list_all safeChar s \<Longrightarrow> ToLower s = s"
  by (induction s) (auto simp: ToLower_def safe_lower)

lemma unknown_safe: "list_all safeChar ''unknown''"
  by code_simp

lemma SafeToken_safe: "list_all safeChar (SafeToken s)"
  using replaceUnsafe_safe [of "ToLower s"] trimByte_subset [of "CHR ''_''" "replaceUnsafe (ToLower s)"] unknown_safe
  unfolding SafeToken_def Let_def list_all_iff by auto

lemma SafeToken_nonempty [simp]: "SafeToken s \<noteq> []"
  by (simp add: SafeToken_def Let_def)

lemma SafeToken_fixed:
  "list_all safeChar t \<Longrightarrow> t \<noteq> [] \<Longrightarrow> trimByte (CHR ''_'') t = t \<Longrightarrow> SafeToken t = t"
  by (simp add: SafeToken_def ToLower_safe replaceUnsafe_id)

lemma SafeToken_trimmed: "trimByte (CHR ''_'') (SafeToken s) = SafeToken s"
proof (cases "trimByte (CHR ''_'') (replaceUnsafe (ToLower s)) = []")
  case True
  hence "SafeToken s = ''unknown''"
    by (simp add: SafeToken_def)
  thus ?thesis
    by (simp only:) code_simp
next
  case False
  hence "SafeToken s = trimByte (CHR ''_'') (replaceUnsafe (ToLower s))"
    by (simp add: SafeToken_def)
  thus ?thesis
    by (simp only: trimByte_idem)
qed

lemma SafeToken_idem [simp]: "SafeToken (SafeToken s) = SafeToken s"
  by (rule SafeToken_fixed) (simp_all add: SafeToken_safe SafeToken_trimmed)

lemma SafeToken_no_dot: "CHR ''.'' \<notin> set (SafeToken s)"
  using SafeToken_safe [of s] by (auto simp: list_all_iff safeChar_def is_digit_def less_eq_char_def)

lemma split_at_dot:
  "c \<notin> set a \<Longrightarrow> c \<notin> set b \<Longrightarrow> a @ c # x = b @ c # y \<longleftrightarrow> a = b \<and> x = y"
proof (induction a arbitrary: b)
  case (Cons d a)
  thus ?case by (cases b) auto
qed (case_tac b, auto)

lemma HasPrefix_iff: "HasPrefix s p \<longleftrightarrow> (\<exists>r. s = p @ r)"
  by (induction s p rule: HasPrefix.induct) auto

lemma record_subject_shape:
  "HasPrefix (''dns.private.records.'' @ SafeToken r' @ ''.'' @ SafeToken s' @ ''.'' @ x) (''dns.private.records.'' @ SafeToken r @ ''.'' @ SafeToken s @ ''.'')
     \<longleftrightarrow> SafeToken r' = SafeToken r \<and> SafeToken s' = SafeToken s"
  using split_at_dot [OF SafeToken_no_dot SafeToken_no_dot] by (auto simp: HasPrefix_iff)

lemma consumer_prefix:
  "butlast (RecordConsumerFilter r s) = ''dns.private.records.'' @ SafeToken r @ ''.'' @ SafeToken s @ ''.''"
  by (simp add: RecordConsumerFilter_def butlast_append)

text \<open>
  C38: What a shard's consumer filter selects. A record subject begins with the part of the filter before
  its wildcard exactly when the region and the shard it was published for have the filter's tokens, for
  chunks and for manifests; tokens are never empty, hold none of the bytes that separate or match subject
  tokens, and taking the token of a token changes nothing. So nothing published for a shard reaches the
  consumer of a shard with another token, whatever regions and shards are called.
\<close>

theorem records_reach_own_shard:
  "(HasPrefix (RecordChunkSubject r' s' z) (butlast (RecordConsumerFilter r s)) \<longleftrightarrow> SafeToken r' = SafeToken r \<and> SafeToken s' = SafeToken s) \<and>
   (HasPrefix (RecordManifestSubject r' s' z) (butlast (RecordConsumerFilter r s)) \<longleftrightarrow> SafeToken r' = SafeToken r \<and> SafeToken s' = SafeToken s) \<and>
   (ServingSubject r' s' = ServingSubject r s \<longleftrightarrow> SafeToken r' = SafeToken r \<and> SafeToken s' = SafeToken s) \<and>
   SafeToken r \<noteq> [] \<and> set (SafeToken r) \<inter> {CHR ''.'', CHR ''*'', CHR ''>'', CHR '' ''} = {} \<and> SafeToken (SafeToken r) = SafeToken r"
proof (intro conjI)
  show "HasPrefix (RecordChunkSubject r' s' z) (butlast (RecordConsumerFilter r s)) \<longleftrightarrow> SafeToken r' = SafeToken r \<and> SafeToken s' = SafeToken s"
    unfolding RecordChunkSubject_def consumer_prefix by (rule record_subject_shape)
  show "HasPrefix (RecordManifestSubject r' s' z) (butlast (RecordConsumerFilter r s)) \<longleftrightarrow> SafeToken r' = SafeToken r \<and> SafeToken s' = SafeToken s"
    unfolding RecordManifestSubject_def consumer_prefix by (rule record_subject_shape)
  show "ServingSubject r' s' = ServingSubject r s \<longleftrightarrow> SafeToken r' = SafeToken r \<and> SafeToken s' = SafeToken s"
    using split_at_dot [OF SafeToken_no_dot SafeToken_no_dot] by (auto simp: ServingSubject_def)
  show "set (SafeToken r) \<inter> {CHR ''.'', CHR ''*'', CHR ''>'', CHR '' ''} = {}"
    using SafeToken_safe [of r] by (auto simp: list_all_iff safeChar_def is_digit_def less_eq_char_def)
qed simp_all

section \<open>Fences\<close>

lemma Compare_less: "Compare e r e' r' = - 1 \<longleftrightarrow> (e, r) < (e', r')"
  by (auto simp: Compare_def less_prod_def')

lemma Compare_equal: "Compare e r e' r' = 0 \<longleftrightarrow> (e, r) = (e', r')"
  by (auto simp: Compare_def)

lemma Compare_greater: "Compare e r e' r' = 1 \<longleftrightarrow> (e', r') < (e, r)"
  by (auto simp: Compare_def less_prod_def')

lemma NextWriterEpoch_rises: "stored \<noteq> - 1 \<Longrightarrow> stored < NextWriterEpoch stored now"
proof -
  assume "stored \<noteq> - 1"
  hence "1 + stored \<noteq> 0"
    by (metis add_eq_0_iff add.inverse_inverse)
  hence "stored < stored + 1"
    by (simp add: word_less_nat_alt unatSuc add.commute)
  thus ?thesis
    by (simp add: NextWriterEpoch_def less_max_iff_disj)
qed

section \<open>Snapshots\<close>

definition addressesOf :: "Binding \<Rightarrow> string set" where
  "addressesOf b = {bd_consumerAddress b, bd_clusterAddress b}"

text \<open>What the addresses noted so far have in common.\<close>

definition apart :: "(string \<times> Binding) list \<Rightarrow> bool" where
  "apart vips \<longleftrightarrow>
     (\<forall>r b r' b'. (r, b) \<in> set vips \<longrightarrow> (r', b') \<in> set vips \<longrightarrow>
        (bd_bindingUID b = bd_bindingUID b' \<longrightarrow> b = b') \<and>
        (r = r' \<and> bd_bindingUID b \<noteq> bd_bindingUID b' \<longrightarrow> bd_tombstone b \<and> bd_tombstone b'))"

lemma apart_same:
  "apart vips \<Longrightarrow> (r, b) \<in> set vips \<Longrightarrow> (r', b') \<in> set vips \<Longrightarrow> bd_bindingUID b = bd_bindingUID b' \<Longrightarrow> b = b'"
  unfolding apart_def by blast

lemma apart_shared:
  "apart vips \<Longrightarrow> (r, b) \<in> set vips \<Longrightarrow> (r, b') \<in> set vips \<Longrightarrow> bd_bindingUID b \<noteq> bd_bindingUID b' \<Longrightarrow>
     bd_tombstone b \<and> bd_tombstone b'"
  unfolding apart_def by blast

lemma apart_Cons:
  assumes "apart vips"
    and "\<And>r' b'. (r', b') \<in> set vips \<Longrightarrow> bd_bindingUID b' = bd_bindingUID b \<Longrightarrow> b' = b"
    and "\<And>b'. (r, b') \<in> set vips \<Longrightarrow> bd_bindingUID b' \<noteq> bd_bindingUID b \<Longrightarrow> bd_tombstone b \<and> bd_tombstone b'"
  shows "apart ((r, b) # vips)"
  unfolding apart_def
proof (intro allI impI)
  fix r1 b1 r2 b2
  assume "(r1, b1) \<in> set ((r, b) # vips)" "(r2, b2) \<in> set ((r, b) # vips)"
  then consider "(r1, b1) = (r, b)" "(r2, b2) = (r, b)" | "(r1, b1) = (r, b)" "(r2, b2) \<in> set vips"
    | "(r1, b1) \<in> set vips" "(r2, b2) = (r, b)" | "(r1, b1) \<in> set vips" "(r2, b2) \<in> set vips"
    by (auto simp del: split_paired_All)
  thus "(bd_bindingUID b1 = bd_bindingUID b2 \<longrightarrow> b1 = b2) \<and>
    (r1 = r2 \<and> bd_bindingUID b1 \<noteq> bd_bindingUID b2 \<longrightarrow> bd_tombstone b1 \<and> bd_tombstone b2)"
    by cases (use assms in \<open>metis Pair_inject\<close>, use assms in \<open>metis Pair_inject\<close>, use assms in \<open>metis Pair_inject\<close>,
      use assms(1) in \<open>unfold apart_def, blast\<close>)
qed

lemma checkAddress_notes:
  assumes "checkAddress b vips named = Inr vips'"
  shows "vips' = (snd named, b) # vips \<and>
    (\<forall>old. map_of vips (snd named) = Some old \<longrightarrow> bd_bindingUID old = bd_bindingUID b \<or> bd_tombstone old \<and> bd_tombstone b)"
  using assms by (auto simp: checkAddress_def Let_def split: if_splits option.splits)

lemma checkAddress_apart:
  assumes ok: "checkAddress b vips named = Inr vips'" and inv: "apart vips"
    and fresh: "\<And>r b'. (r, b') \<in> set vips \<Longrightarrow> bd_bindingUID b' = bd_bindingUID b \<Longrightarrow> b' = b"
  shows "vips' = (snd named, b) # vips \<and> apart vips'"
proof -
  let ?raw = "snd named"
  have "bd_tombstone b \<and> bd_tombstone b'" if b': "(?raw, b') \<in> set vips" and other: "bd_bindingUID b' \<noteq> bd_bindingUID b" for b'
  proof -
    obtain old where old: "map_of vips ?raw = Some old"
      using b' weak_map_of_SomeI by fast
    hence mem: "(?raw, old) \<in> set vips"
      by (rule map_of_SomeD)
    show ?thesis
    proof (cases "bd_bindingUID old = bd_bindingUID b")
      case True
      with fresh mem have "old = b" by blast
      with apart_shared [OF inv mem b'] other show ?thesis by metis
    next
      case False
      with checkAddress_notes [OF ok] old have "bd_tombstone old" "bd_tombstone b" by blast+
      with apart_same [OF inv b' mem] apart_shared [OF inv b' mem] show ?thesis by blast
    qed
  qed
  hence "apart ((?raw, b) # vips)"
    by (intro apart_Cons [OF inv]) (use fresh in blast)+
  with checkAddress_notes [OF ok] show ?thesis
    by blast
qed

definition snapshotInv :: "Binding list \<Rightarrow> bindings_seen \<Rightarrow> bool" where
  "snapshotInv bs seen = (case seen of (i, uids, vips) \<Rightarrow>
     set uids = bd_bindingUID ` set bs \<and> distinct (map bd_bindingUID bs) \<and> apart vips \<and>
     set vips = {(r, b). b \<in> set bs \<and> r \<in> addressesOf b})"

lemma checkBinding_inv:
  assumes "snapshotInv bs seen" and "checkBinding lib seen b = Inr seen'"
  shows "snapshotInv (bs @ [b]) seen'"
proof -
  obtain i uids vips where seen: "seen = (i, uids, vips)" by (cases seen)
  with assms(1) have inv: "set uids = bd_bindingUID ` set bs" "distinct (map bd_bindingUID bs)" "apart vips"
    "set vips = {(r, b). b \<in> set bs \<and> r \<in> addressesOf b}"
    by (auto simp: snapshotInv_def)
  from assms(2) seen obtain v1 v2 where new: "bd_bindingUID b \<notin> set uids"
    and v1: "checkAddress b vips (''consumerAddress'', bd_consumerAddress b) = Inr v1"
    and v2: "checkAddress b v1 (''clusterAddress'', bd_clusterAddress b) = Inr v2"
    and seen': "seen' = (Suc i, bd_bindingUID b # uids, v2)"
    by (auto simp: checkBinding_def failed_Inr split: if_splits sum.splits)
  have fresh: "b' = b" if "(r, b') \<in> set vips" "bd_bindingUID b' = bd_bindingUID b" for r b'
    using that inv(1,4) new by (metis (mono_tags, lifting) case_prodD imageI mem_Collect_eq)
  have one: "v1 = (bd_consumerAddress b, b) # vips \<and> apart v1"
    using checkAddress_apart [OF v1 inv(3)] fresh unfolding snd_conv by blast
  have two: "v2 = (bd_clusterAddress b, b) # v1 \<and> apart v2"
    using checkAddress_apart [OF v2 conjunct2 [OF one]] one fresh by (auto simp del: split_paired_All)
  show ?thesis
    using inv(1,2,4) one two new by (auto simp: snapshotInv_def seen' addressesOf_def)
qed

lemma validateSnapshot_inv:
  assumes "validateSnapshot lib s = None"
  shows "\<exists>seen. snapshotInv (ss_bindings s) seen"
proof -
  from assms obtain seen where "each (checkBinding lib) (0, [], []) (ss_bindings s) = Inr seen"
    by (auto simp: validateSnapshot_def andThen_None split: if_splits)
  from each_invariant [OF this, of snapshotInv] have "snapshotInv (ss_bindings s) seen"
    using checkBinding_inv by (auto simp: snapshotInv_def apart_def)
  thus ?thesis ..
qed

text \<open>An address in the form \<^verbatim>\<open>netip.Addr.String\<close> writes, which is how the allocator writes the addresses it gives out.\<close>

definition canonicalAddress :: "string \<Rightarrow> bool" where
  "canonicalAddress x \<longleftrightarrow> (case ParseAddr x of None \<Rightarrow> False | Some a \<Rightarrow> addr_String a = x)"

lemma canonical_same: "canonicalAddress x \<Longrightarrow> canonicalAddress y \<Longrightarrow> ParseAddr x = ParseAddr y \<Longrightarrow> x = y"
  by (auto simp: canonicalAddress_def split: option.splits)


definition sampleBinding :: "string \<Rightarrow> string \<Rightarrow> string \<Rightarrow> Binding" where
  "sampleBinding uid consumer cluster = \<lparr>bd_bindingUID = uid, bd_projectUID = ''p'', bd_contextUID = ''c'', bd_generation = 1,
     bd_configurationRevision = 1, bd_consumerAddress = consumer, bd_clusterAddress = cluster, bd_port = 53,
     bd_transports = [TransportUDP, TransportTCP], bd_zones = [], bd_nodeBackends = [], bd_clusterBackends = [],
     bd_version = \<lparr>av_epoch = 1, av_sequence = 1\<rparr>, bd_tombstone = False, bd_configurationPending = False\<rparr>"

definition anyDns :: dns_lib where
  "anyDns = \<lparr>dl_isDomainName = (\<lambda>_. True), dl_isSubDomain = (\<lambda>_ _. True), dl_knownType = (\<lambda>_. True), dl_newRR = (\<lambda>_. None)\<rparr>"

definition sampleSnapshot :: "Binding list \<Rightarrow> ServingSnapshot" where
  "sampleSnapshot bs = \<lparr>ss_region = ''r'', ss_shard = ''s'', ss_epoch = 1, ss_revision = 1, ss_bindings = bs, ss_members = [],
     ss_memberPatterns = [], ss_requiredPublications = [], ss_generatedAt = 1\<rparr>"


text \<open>Two live bindings with one address, in two spellings, pass.\<close>

lemma address_spelled_twice:
  "ParseAddr ''fd00::1'' = ParseAddr ''fd00:0::1'' \<and>
   validateSnapshot anyDns (sampleSnapshot [sampleBinding ''a'' ''10.0.0.1'' ''fd00::1'', sampleBinding ''b'' ''10.0.0.2'' ''fd00:0::1'']) = None"
  by code_simp

section \<open>Publications\<close>

interpretation cref: go_less refLess
  by (rule go_less_keyI [where key = cr_index]) (simp add: refLess_def)

text \<open>The references are checked in the order of their indexes.\<close>

lemma refs_sorted: "sorted (map cr_index (go_sort refLess refs))"
  using cref.ordered_go_sort [of refs] by (simp add: refLess_def sorted_wrt_map not_less)

lemma validHash_Hash [simp]: "validHash (Hash p)"
  by (simp add: validHash_def Hash_def decodable_EncodeToString Sum256_bytes)

lemma chunk_done: "b = [] \<or> n = 0 \<Longrightarrow> chunk b n = []"
  by (subst chunk.simps) auto

lemma chunk_more: "b \<noteq> [] \<Longrightarrow> n \<noteq> 0 \<Longrightarrow> chunk b n = take n b # chunk (drop n b) n"
  by (subst chunk.simps) auto

lemma concat_chunk: "n \<noteq> 0 \<Longrightarrow> concat (chunk b n) = b"
  by (induction b n rule: chunk.induct) (metis append_take_drop_id chunk_done chunk_more concat.simps)

lemma chunk_parts_nonempty: "p \<in> set (chunk b n) \<Longrightarrow> p \<noteq> []"
proof (induction b n rule: chunk.induct)
  case (1 b n)
  show ?case
  proof (cases "b = [] \<or> n = 0")
    case False
    with 1 show ?thesis by (auto simp: chunk_more)
  qed (use 1 chunk_done in auto)
qed

lemma takeChunks:
  assumes "\<And>c. c \<in> set cs \<Longrightarrow> takeChunk m [] c = Inr [(pc_index c, c)]"
    and "distinct (map pc_index cs)" "\<And>c. c \<in> set cs \<Longrightarrow> pc_index c \<notin> fst ` set acc"
  shows "each (takeChunk m) acc cs = Inr (rev (map (\<lambda>c. (pc_index c, c)) cs) @ acc)"
  using assms
proof (induction cs arbitrary: acc)
  case (Cons c cs)
  from Cons.prems(1) [of c] Cons.prems(3) [of c] have "takeChunk m acc c = Inr ((pc_index c, c) # acc)"
    by (auto simp: takeChunk_def map_of_eq_None_iff split: option.splits if_splits)
  moreover have "each (takeChunk m) ((pc_index c, c) # acc) cs = Inr (rev (map (\<lambda>c. (pc_index c, c)) cs) @ (pc_index c, c) # acc)"
  proof (rule Cons.IH)
    show "takeChunk m [] c' = Inr [(pc_index c', c')]" if "c' \<in> set cs" for c'
      using that by (intro Cons.prems(1)) simp
    show "pc_index c' \<notin> fst ` set ((pc_index c, c) # acc)" if "c' \<in> set cs" for c'
      using that Cons.prems(2) Cons.prems(3) [of c'] by (auto simp: image_iff)
  qed (use Cons.prems(2) in simp)
  ultimately show ?case by simp
qed simp

lemma addChunks:
  assumes "list_all2 (\<lambda>ref p. \<exists>c. map_of byIndex (cr_index ref) = Some c \<and> pc_payload c = p \<and>
    cr_size ref = int (length p) \<and> pc_sha256 c = cr_sha256 ref) refs ps"
  shows "each (addChunk byIndex) acc refs = Inr (acc @ concat ps)"
  using assms by (induction refs ps arbitrary: acc rule: list_all2_induct) (auto simp: addChunk_def)

lemma manifest_identity:
  assumes "validateManifest lib m = None"
  shows "pm_manifestUID m \<noteq> [] \<and> pm_zoneUID m \<noteq> [] \<and> pm_writerEpoch m \<noteq> 0 \<and> pm_revision m \<noteq> 0"
  using assms by (auto simp: validateManifest_def split: if_splits)

lemma wireChunk_taken:
  assumes "validateManifest lib m = None" "p \<noteq> []"
  shows "takeChunk m [] (wireChunk m (i, p)) = Inr [(int i, wireChunk m (i, p))]"
  using manifest_identity [OF assms(1)] assms(2) by (auto simp: takeChunk_def validateChunk_def wireChunk_def)

lemma wireChunks_distinct: "distinct (map pc_index (wireChunks m parts))"
proof -
  have "map pc_index (wireChunks m parts) = map int [0..<length parts]"
    by (rule nth_equalityI) (simp_all add: wireChunks_def wireChunk_def nth_enumerate_eq)
  thus ?thesis
    by (simp add: distinct_map inj_on_def)
qed

lemma wireRefs_found:
  assumes "set byIndex = (\<lambda>c. (pc_index c, c)) ` set (wireChunks m parts)" and "distinct (map fst byIndex)"
  shows "list_all2 (\<lambda>ref p. \<exists>c. map_of byIndex (cr_index ref) = Some c \<and> pc_payload c = p \<and>
    cr_size ref = int (length p) \<and> pc_sha256 c = cr_sha256 ref) (wireRefs parts) parts"
  unfolding list_all2_conv_all_nth
proof (intro conjI allI impI)
  fix i assume "i < length (wireRefs parts)"
  hence i: "i < length parts" by (simp add: wireRefs_def)
  have ref: "wireRefs parts ! i = \<lparr>cr_index = int i, cr_sha256 = Hash (parts ! i), cr_size = int (length (parts ! i))\<rparr>"
    using i by (simp add: wireRefs_def nth_enumerate_eq)
  have "wireChunk m (i, parts ! i) \<in> set (wireChunks m parts)"
    using i by (auto simp: wireChunks_def in_set_conv_nth nth_enumerate_eq intro!: exI [of _ i] image_eqI)
  hence "(int i, wireChunk m (i, parts ! i)) \<in> set byIndex"
    unfolding assms(1) by (auto simp: wireChunk_def image_iff intro!: bexI)
  hence "map_of byIndex (int i) = Some (wireChunk m (i, parts ! i))"
    using assms(2) by simp
  thus "\<exists>c. map_of byIndex (cr_index (wireRefs parts ! i)) = Some c \<and> pc_payload c = parts ! i \<and>
      cr_size (wireRefs parts ! i) = int (length (parts ! i)) \<and> pc_sha256 c = cr_sha256 (wireRefs parts ! i)"
    by (simp add: ref wireChunk_def)
qed (simp add: wireRefs_def)

text \<open>
  C10: A publication survives the transport. The control plane cuts the payload into chunks and refers to
  them in its manifest; a replica that receives these chunks, in whatever order they arrive, accepts
  them and gets back the payload, byte for byte. And a replica that accepts anything under a manifest
  that is not a withdrawal has a payload with the manifest's digest.
\<close>

theorem published_payload_verifies:
  assumes valid: "validateManifest lib m = None" and live: "\<not> pm_tombstone m" and size: "n \<noteq> 0"
    and refs: "pm_chunks m = wireRefs (chunk payload n)" and hash: "pm_contentHash m = Hash payload"
  shows "(\<forall>received. mset received = mset (wireChunks m (chunk payload n)) \<longrightarrow> VerifyManifest lib m received = Inr payload) \<and>
    (\<forall>received payload'. VerifyManifest lib m received = Inr payload' \<longrightarrow> Hash payload' = Hash payload)"
proof (intro conjI allI impI)
  fix received assume arrived: "mset received = mset (wireChunks m (chunk payload n))"
  let ?parts = "chunk payload n" and ?index = "rev (map (\<lambda>c. (pc_index c, c)) received)"
  have "mset (map pc_index received) = mset (map pc_index (wireChunks m ?parts))"
    by (simp add: arrived)
  hence same: "set received = set (wireChunks m ?parts)" "distinct (map pc_index received)" "length received = length (pm_chunks m)"
    using wireChunks_distinct [of m ?parts] mset_eq_imp_distinct_iff mset_eq_setD [OF arrived] mset_eq_length [OF arrived]
    by (blast, blast, simp add: refs wireRefs_def wireChunks_def)
  have "takeChunk m [] c = Inr [(pc_index c, c)]" if c: "c \<in> set received" for c
  proof -
    from c same(1) obtain i where "i < length ?parts" "c = wireChunk m (i, ?parts ! i)"
      by (auto simp: wireChunks_def in_set_conv_nth nth_enumerate_eq)
    moreover from this have "?parts ! i \<noteq> []" using chunk_parts_nonempty nth_mem by blast
    ultimately show ?thesis using wireChunk_taken [OF valid] by (simp add: wireChunk_def)
  qed
  hence taken: "each (takeChunk m) [] received = Inr ?index"
    using takeChunks [of received m "[]"] same(2) by simp
  have "each (addChunk ?index) [] (pm_chunks m) = Inr payload"
    using addChunks [OF wireRefs_found, of ?index m ?parts "[]"] same(1,2) concat_chunk [OF size]
    by (simp add: refs image_image rev_map [symmetric] comp_def)
  with taken same(3) show "VerifyManifest lib m received = Inr payload"
    by (simp add: VerifyManifest_def valid live hash)
next
  fix received payload' assume "VerifyManifest lib m received = Inr payload'"
  thus "Hash payload' = Hash payload"
    by (auto simp: VerifyManifest_def valid live hash split: if_splits sum.splits)
qed

definition sampleManifest :: "string \<Rightarrow> nat \<Rightarrow> PublicationManifest" where
  "sampleManifest payload n = \<lparr>pm_manifestUID = ''m'', pm_zoneUID = ''z'', pm_apex = ''corp.internal'', pm_writerEpoch = 1,
     pm_revision = 1, pm_previousRevision = 0, pm_tombstone = False, pm_chunks = wireRefs (chunk payload n),
     pm_contentHash = Hash payload, pm_generatedAt = 1\<rparr>"

lemma sampleManifest_valid: "validateManifest anyDns (sampleManifest ''hello'' 2) = None"
proof -
  have "chunk ''hello'' 2 = [''he'', ''ll'', ''o'']"
    by code_simp
  moreover have "AbsoluteName ''corp.internal'' \<noteq> ''.''"
    by code_simp
  ultimately show ?thesis
    by (simp add: validateManifest_def sampleManifest_def anyDns_def IsZero_def wireRefs_def go_sort_def refLess_def
        checkRef_def andThen_def numeral_2_eq_2)
qed

theorem published_payload_verifies_witness:
  "let m = sampleManifest ''hello'' 2 in
   VerifyManifest anyDns m (rev (wireChunks m (chunk ''hello'' 2))) = Inr ''hello''"
proof -
  let ?m = "sampleManifest ''hello'' 2"
  have live: "\<not> pm_tombstone ?m" and refs: "pm_chunks ?m = wireRefs (chunk ''hello'' 2)" and hash: "pm_contentHash ?m = Hash ''hello''"
    unfolding sampleManifest_def by simp_all
  have "(2 :: nat) \<noteq> 0" by simp
  from published_payload_verifies [OF sampleManifest_valid live this refs hash] show ?thesis
    unfolding Let_def by (metis mset_rev)
qed

section \<open>Plans\<close>

definition planKey :: "PlanRRSet \<Rightarrow> string" where
  "planKey rr = rrOwner rr @ CHR 0x00 # rrTypeOf rr"

text \<open>Every owner's types: with a CNAME among them there is nothing else.\<close>

definition cnameAlone :: "(string \<times> string) list \<Rightarrow> bool" where
  "cnameAlone types \<longleftrightarrow> (\<forall>ow t. (ow, recordTypeCNAME) \<in> set types \<longrightarrow> (ow, t) \<in> set types \<longrightarrow> t = recordTypeCNAME)"

definition fenced :: "(string \<Rightarrow> ObservationFence option) \<Rightarrow> RRRecord \<Rightarrow> bool" where
  "fenced fence rec \<longleftrightarrow> rec_contributionUID rec = [] \<or>
     (\<exists>f. fence (rec_contributionUID rec) = Some f \<and> \<not> of_retired f \<and>
          rec_generation rec = of_generation f \<and> rec_sequence rec = of_sequence f)"

definition goodRRSet :: "dns_lib \<Rightarrow> (string \<Rightarrow> ObservationFence option) \<Rightarrow> string \<Rightarrow> PlanRRSet \<Rightarrow> bool" where
  "goodRRSet lib fence apex rr \<longleftrightarrow>
     dl_isSubDomain lib apex (rrOwner rr) \<and> ps_records rr \<noteq> [] \<and>
     (rrTypeOf rr = recordTypeCNAME \<longrightarrow> length (ps_records rr) = 1) \<and> list_all (fenced fence) (ps_records rr)"

definition planInv :: "dns_lib \<Rightarrow> (string \<Rightarrow> ObservationFence option) \<Rightarrow> string \<Rightarrow> PlanRRSet list \<Rightarrow> rrsets_seen \<Rightarrow> bool" where
  "planInv lib fence apex rrs seen = (case seen of (keys, types) \<Rightarrow>
     set keys = planKey ` set rrs \<and> distinct (map planKey rrs) \<and>
     set types = (\<lambda>rr. (rrOwner rr, rrTypeOf rr)) ` set rrs \<and> (\<forall>(ow, t) \<in> set types. t \<noteq> []) \<and> cnameAlone types \<and>
     list_all (goodRRSet lib fence apex) rrs)"

lemma records_fenced:
  assumes "each (checkRecord lib fence ow t rr) () recs = Inr u"
  shows "list_all (fenced fence) recs"
  using assms
  by (induction recs)
    (auto simp: checkRecord_def fenced_def Let_def split: if_splits option.splits sum.splits)

lemma cnameAlone_Cons:
  assumes "cnameAlone types" and "\<And>t. (ow, t) \<in> set types \<Longrightarrow> t \<noteq> recordTypeCNAME \<and> new \<noteq> recordTypeCNAME"
  shows "cnameAlone ((ow, new) # types)"
  unfolding cnameAlone_def
proof (intro allI impI)
  fix ow' t assume "(ow', recordTypeCNAME) \<in> set ((ow, new) # types)" "(ow', t) \<in> set ((ow, new) # types)"
  thus "t = recordTypeCNAME"
    using assms unfolding cnameAlone_def by (metis Pair_inject set_ConsD)
qed

lemma other_types_not_cname:
  assumes "cnameAlone types" "\<forall>(ow, t) \<in> set types. t \<noteq> []"
    and free: "\<And>t. map_of types ow = Some t \<Longrightarrow> t \<noteq> [] \<Longrightarrow> t \<noteq> recordTypeCNAME \<and> new \<noteq> recordTypeCNAME"
    and mem: "(ow, t) \<in> set types"
  shows "t \<noteq> recordTypeCNAME \<and> new \<noteq> recordTypeCNAME"
proof -
  obtain t' where t': "map_of types ow = Some t'"
    using mem weak_map_of_SomeI by fast
  hence in': "(ow, t') \<in> set types" by (rule map_of_SomeD)
  hence "t' \<noteq> recordTypeCNAME \<and> new \<noteq> recordTypeCNAME"
    using free [OF t'] assms(2) by blast
  with assms(1) mem in' show ?thesis
    unfolding cnameAlone_def by blast
qed

lemma checkRRSet_passes:
  assumes "checkRRSet lib fence apex (keys, types) rr = Inr seen'"
  shows "seen' = (planKey rr # keys, (rrOwner rr, rrTypeOf rr) # types) \<and> planKey rr \<notin> set keys \<and> rrTypeOf rr \<noteq> [] \<and>
    (\<forall>t. map_of types (rrOwner rr) = Some t \<longrightarrow> t \<noteq> [] \<longrightarrow> t \<noteq> recordTypeCNAME \<and> rrTypeOf rr \<noteq> recordTypeCNAME) \<and>
    goodRRSet lib fence apex rr"
  using assms
  by (auto simp: checkRRSet_def Let_def planKey_def goodRRSet_def rrTypeOf_def ToUpper_def records_fenced
      split: option.splits if_splits sum.splits)

lemma checkRRSet_inv:
  assumes inv: "planInv lib fence apex rrs seen" and ok: "checkRRSet lib fence apex seen rr = Inr seen'"
  shows "planInv lib fence apex (rrs @ [rr]) seen'"
proof -
  obtain keys types where seen: "seen = (keys, types)" by (cases seen)
  from inv have old: "set keys = planKey ` set rrs" "distinct (map planKey rrs)"
    "set types = (\<lambda>rr. (rrOwner rr, rrTypeOf rr)) ` set rrs" "\<forall>(ow, t) \<in> set types. t \<noteq> []" "cnameAlone types"
    "list_all (goodRRSet lib fence apex) rrs"
    unfolding seen planInv_def by simp_all
  from checkRRSet_passes [OF ok [unfolded seen]] have seen': "seen' = (planKey rr # keys, (rrOwner rr, rrTypeOf rr) # types)"
    and new: "planKey rr \<notin> set keys" "rrTypeOf rr \<noteq> []" "goodRRSet lib fence apex rr"
    and free: "\<And>t. map_of types (rrOwner rr) = Some t \<Longrightarrow> t \<noteq> [] \<Longrightarrow> t \<noteq> recordTypeCNAME \<and> rrTypeOf rr \<noteq> recordTypeCNAME"
    by blast+
  have "cnameAlone ((rrOwner rr, rrTypeOf rr) # types)"
    by (rule cnameAlone_Cons [OF old(5)], rule other_types_not_cname [OF old(5,4)]) (use free in blast)+
  moreover have "\<forall>(ow, t) \<in> set ((rrOwner rr, rrTypeOf rr) # types). t \<noteq> []"
    using old(4) new(2) by simp
  ultimately show ?thesis
    using old(1-3,6) new(1,3) unfolding planInv_def seen' prod.case by (intro conjI) simp_all
qed

lemma planInv_start: "planInv lib fence apex [] ([], [])"
  by (simp add: planInv_def cnameAlone_def)

text \<open>
  C29: A publication plan that passes validation can be served as it stands. No two RRsets share an owner
  and a type; an owner with a CNAME has nothing else, and one target; every RRset lies in the zone and
  has records; and a record that a service contributed carries the generation and sequence of an
  observation that is not retired.
\<close>

theorem valid_plan_serves:
  assumes "validatePlan lib p = None"
  shows "distinct (map (\<lambda>rr. (rrOwner rr, rrTypeOf rr)) (pp_rrsets p)) \<and>
    (\<forall>rr \<in> set (pp_rrsets p). \<forall>rr' \<in> set (pp_rrsets p).
       rrTypeOf rr = recordTypeCNAME \<longrightarrow> rrOwner rr' = rrOwner rr \<longrightarrow> rr' = rr) \<and>
    list_all (goodRRSet lib (observationOf (pp_observationFences p)) (AbsoluteName (pp_apex p))) (pp_rrsets p)"
proof -
  let ?fence = "observationOf (pp_observationFences p)" and ?apex = "AbsoluteName (pp_apex p)"
  from assms obtain seen where "each (checkRRSet lib ?fence ?apex) ([], []) (pp_rrsets p) = Inr seen"
    by (auto simp: validatePlan_def Let_def andThen_None split: if_splits)
  hence "planInv lib ?fence ?apex (pp_rrsets p) seen"
    by (rule each_invariant [where I = "planInv lib ?fence ?apex", OF _ planInv_start]) (rule checkRRSet_inv)
  then obtain types where inv: "distinct (map planKey (pp_rrsets p))"
    "set types = (\<lambda>rr. (rrOwner rr, rrTypeOf rr)) ` set (pp_rrsets p)" "cnameAlone types"
    "list_all (goodRRSet lib ?fence ?apex) (pp_rrsets p)"
    unfolding planInv_def by (cases seen) (simp only: prod.case, blast)
  have same: "rr' = rr" if "rr \<in> set (pp_rrsets p)" "rr' \<in> set (pp_rrsets p)" "rrOwner rr' = rrOwner rr" "rrTypeOf rr' = rrTypeOf rr"
    for rr rr'
  proof -
    have "inj_on planKey (set (pp_rrsets p))" "planKey rr' = planKey rr"
      using inv(1) that(3,4) by (simp_all add: distinct_map planKey_def)
    thus ?thesis using that(1,2) by (meson inj_onD)
  qed
  have cname: "rrTypeOf rr' = recordTypeCNAME"
    if "rr \<in> set (pp_rrsets p)" "rr' \<in> set (pp_rrsets p)" "rrTypeOf rr = recordTypeCNAME" "rrOwner rr' = rrOwner rr" for rr rr'
  proof -
    have "(rrOwner rr, rrTypeOf rr) \<in> set types" "(rrOwner rr', rrTypeOf rr') \<in> set types"
      using inv(2) that(1,2) by simp_all
    hence "(rrOwner rr, recordTypeCNAME) \<in> set types" "(rrOwner rr, rrTypeOf rr') \<in> set types"
      unfolding that(3,4) by simp_all
    thus ?thesis using inv(3) unfolding cnameAlone_def by blast
  qed
  have "rr' = rr"
    if "rr \<in> set (pp_rrsets p)" "rr' \<in> set (pp_rrsets p)" "rrTypeOf rr = recordTypeCNAME" "rrOwner rr' = rrOwner rr" for rr rr'
    by (rule same [OF that(1,2,4)]) (simp only: cname [OF that] that(3))
  moreover have "inj_on (\<lambda>rr. (rrOwner rr, rrTypeOf rr)) (set (pp_rrsets p))"
    by (rule inj_onI, rule same) simp_all
  moreover have "distinct (pp_rrsets p)"
    using inv(1) by (simp add: distinct_map)
  ultimately show ?thesis
    using inv(4) by (intro conjI ballI impI) (simp_all add: distinct_map)
qed

definition samplePlan :: PublicationPlan where
  "samplePlan = \<lparr>pp_zoneUID = ''z'', pp_apex = ''corp.internal'', pp_registrations = [],
     pp_observationFences = [\<lparr>of_contributionUID = ''c'', of_generation = 3, of_sequence = 3, of_retired = False, of_sourceName = ''n''\<rparr>],
     pp_owners = [''db.corp.internal.''],
     pp_rrsets = [\<lparr>ps_name = ''db.corp.internal'', ps_type = ''A'', ps_ttl = 60,
        ps_records = [\<lparr>rec_content = ''10.0.0.1'', rec_contributionUID = ''c'', rec_generation = 3, rec_sequence = 3, rec_eligible = True\<rparr>]\<rparr>]\<rparr>"

theorem valid_plan_serves_witness:
  "validatePlan anyDns samplePlan = None \<and> distinct (map (\<lambda>rr. (rrOwner rr, rrTypeOf rr)) (pp_rrsets samplePlan))"
proof -
  have "validatePlan anyDns samplePlan = None"
    by code_simp
  with valid_plan_serves [OF this] show ?thesis by blast
qed

end
