(* ===== verification/Region_Lease.thy ===== *)
theory Region_Lease
  imports Wire_Model
begin

text \<open>
  The lease that elects one control-plane process per region (\<^verbatim>\<open>platform/region_lease.go\<close> and its use in
  \<^verbatim>\<open>runtime/run.go\<close>). \<^verbatim>\<open>Step\<close> and \<^verbatim>\<open>Release\<close> are programs that call the API server: a value of
  \<open>lease_prog\<close> is the call a process makes next and what it does with the answer, so that the calls of
  several processes interleave. The API server is a parameter with optimistic concurrency. The lease
  object's JSON is represented by the value it encodes; \<^verbatim>\<open>json.Marshal\<close> and \<^verbatim>\<open>json.Unmarshal\<close> of a UTC
  time are inverse to each other. Times are far from the limits of \<^verbatim>\<open>UnixNano\<close>.
\<close>

section \<open>Definitions\<close>

record regionLeaseState =
  rl_holder :: string
  rl_leaseUntil :: go_time

datatype lease_data = Encoded regionLeaseState | Undecodable go_error

record lease_map =
  lm_key :: "string \<times> string"
  lm_resourceVersion :: string
  lm_labels :: "(string \<times> string) list"
  lm_state :: lease_data

datatype 'a lease_prog =
    Return 'a
  | GetLease "string \<times> string" "go_error + lease_map \<Rightarrow> 'a lease_prog"
  | CreateLease lease_map "err \<Rightarrow> 'a lease_prog"
  | UpdateLease lease_map "err \<Rightarrow> 'a lease_prog"
  | SetLeadUntil go_time "'a lease_prog"

record kube_errors =
  ke_isNotFound :: "go_error \<Rightarrow> bool"
  ke_isAlreadyExists :: "go_error \<Rightarrow> bool"
  ke_isConflict :: "go_error \<Rightarrow> bool"

text \<open>The fields of \<^verbatim>\<open>RegionLease\<close> that are set once; its \<^verbatim>\<open>leadUntil\<close> is part of a process's state.\<close>

record RegionLease =
  rg_namespace :: string
  rg_region :: string
  rg_identity :: string
  rg_leaseDuration :: int

definition leaseKey :: "RegionLease \<Rightarrow> string \<times> string" where
  "leaseKey l = (rg_namespace l, ''dns-shard-owner-region-'' @ OpaqueToken (rg_region l))"

definition duration :: "RegionLease \<Rightarrow> int" where
  "duration l = (if rg_leaseDuration l \<le> 0 then 30 * 10 ^ 9 else rg_leaseDuration l)"

definition Leads :: "RegionLease \<Rightarrow> int \<Rightarrow> go_time \<Rightarrow> bool" where
  "Leads l leadUntil now \<longleftrightarrow> UnixNano (now + duration l div 3) < leadUntil"

definition setLeadUntil :: "go_time \<Rightarrow> int" where
  "setLeadUntil t = (if IsZero t then 0 else UnixNano t)"

definition stepCreated :: "kube_errors \<Rightarrow> RegionLease \<Rightarrow> go_time \<Rightarrow> err \<Rightarrow> err lease_prog" where
  "stepCreated ke l now result =
     (case result of
        Some e \<Rightarrow> if ke_isAlreadyExists ke e then Return None else Return (Some e)
      | None \<Rightarrow> SetLeadUntil (now + duration l) (Return None))"

definition stepUpdated :: "kube_errors \<Rightarrow> regionLeaseState \<Rightarrow> err \<Rightarrow> err lease_prog" where
  "stepUpdated ke state result =
     (case result of
        Some e \<Rightarrow> if ke_isConflict ke e then SetLeadUntil 0 (Return None) else Return (Some e)
      | None \<Rightarrow> SetLeadUntil (rl_leaseUntil state) (Return None))"

definition newLease :: "RegionLease \<Rightarrow> go_time \<Rightarrow> regionLeaseState" where
  "newLease l now = \<lparr>rl_holder = rg_identity l, rl_leaseUntil = now + duration l\<rparr>"

definition invalidLease :: "go_error \<Rightarrow> go_error" where
  "invalidLease e = WrappedError (''invalid region lease: '' @ error_text e) (Some e)"

definition stepGot :: "kube_errors \<Rightarrow> RegionLease \<Rightarrow> go_time \<Rightarrow> go_error + lease_map \<Rightarrow> err lease_prog" where
  "stepGot ke l now got =
     (case got of
        Inl e \<Rightarrow>
          if ke_isNotFound ke e
          then CreateLease \<lparr>lm_key = leaseKey l, lm_resourceVersion = [],
                 lm_labels = [(''internal-dns.miloapis.com/region'', SafeToken (rg_region l))],
                 lm_state = Encoded (newLease l now)\<rparr> (stepCreated ke l now)
          else Return (Some e)
      | Inr cm \<Rightarrow>
          (case lm_state cm of
             Undecodable e \<Rightarrow> Return (Some (invalidLease e))
           | Encoded state \<Rightarrow>
               if rl_holder state \<noteq> rg_identity l \<and> rl_leaseUntil state > now then SetLeadUntil 0 (Return None)
               else if rl_holder state = rg_identity l \<and> rl_leaseUntil state - now > duration l * 2 div 3
               then SetLeadUntil (rl_leaseUntil state) (Return None)
               else UpdateLease (cm\<lparr>lm_state := Encoded (newLease l now)\<rparr>) (stepUpdated ke (newLease l now))))"

definition Step :: "kube_errors \<Rightarrow> RegionLease \<Rightarrow> bool \<Rightarrow> go_time \<Rightarrow> err lease_prog" where
  "Step ke l stopping now =
     (if stopping then SetLeadUntil 0 (Return None) else GetLease (leaseKey l) (stepGot ke l now))"

definition releaseUpdated :: "kube_errors \<Rightarrow> err \<Rightarrow> (bool \<times> err) lease_prog" where
  "releaseUpdated ke result =
     (case result of
        Some e \<Rightarrow> Return (False, if ke_isConflict ke e \<or> ke_isNotFound ke e then None else Some e)
      | None \<Rightarrow> Return (True, None))"

definition releaseGot :: "kube_errors \<Rightarrow> RegionLease \<Rightarrow> go_time \<Rightarrow> go_error + lease_map \<Rightarrow> (bool \<times> err) lease_prog" where
  "releaseGot ke l now got =
     (case got of
        Inl e \<Rightarrow> Return (False, if ke_isNotFound ke e then None else Some e)
      | Inr cm \<Rightarrow>
          (case lm_state cm of
             Undecodable e \<Rightarrow> Return (False, Some (invalidLease e))
           | Encoded state \<Rightarrow>
               if rl_holder state \<noteq> rg_identity l \<or> \<not> rl_leaseUntil state > now then Return (False, None)
               else UpdateLease (cm\<lparr>lm_state := Encoded (state\<lparr>rl_leaseUntil := now\<rparr>)\<rparr>) (releaseUpdated ke)))"

definition Release :: "kube_errors \<Rightarrow> RegionLease \<Rightarrow> go_time \<Rightarrow> (bool \<times> err) lease_prog" where
  "Release ke l now = SetLeadUntil 0 (GetLease (leaseKey l) (releaseGot ke l now))"

text \<open>\<^verbatim>\<open>whileLeading\<close> and \<^verbatim>\<open>regionLeaseInterval\<close> of \<^verbatim>\<open>runtime/run.go\<close>: what a process does while it leads, and how
  often it takes a step.\<close>

definition whileLeading :: "('a \<Rightarrow> 'a \<times> err) \<Rightarrow> (RegionLease \<times> int) option \<Rightarrow> go_time \<Rightarrow> 'a \<Rightarrow> 'a \<times> err" where
  "whileLeading step lease now a =
     (case lease of
        None \<Rightarrow> (a, None)
      | Some (l, leadUntil) \<Rightarrow> if \<not> Leads l leadUntil now then (a, None) else step a)"

definition regionLeaseInterval :: "int \<Rightarrow> int" where
  "regionLeaseInterval lease = max (lease div 6) (10 ^ 9)"

subsection \<open>The API server\<close>

text \<open>
  \<open>la_object\<close> is what the server stores under a key, \<open>la_versions\<close> the resource versions it has given to
  objects of the key so far.
\<close>

record 's lease_api =
  la_get :: "'s \<Rightarrow> string \<times> string \<Rightarrow> 's \<times> (go_error + lease_map)"
  la_create :: "'s \<Rightarrow> lease_map \<Rightarrow> 's \<times> err"
  la_update :: "'s \<Rightarrow> lease_map \<Rightarrow> 's \<times> err"
  la_object :: "'s \<Rightarrow> string \<times> string \<Rightarrow> lease_map option"
  la_versions :: "'s \<Rightarrow> string \<times> string \<Rightarrow> string set"

definition unchanged :: "'s lease_api \<Rightarrow> string \<times> string \<Rightarrow> 's \<Rightarrow> 's \<Rightarrow> bool" where
  "unchanged api k s s' \<longleftrightarrow> la_object api s' k = la_object api s k \<and> la_versions api s' k = la_versions api s k"

definition stored :: "'s lease_api \<Rightarrow> lease_map \<Rightarrow> 's \<Rightarrow> 's \<Rightarrow> bool" where
  "stored api cm s s' \<longleftrightarrow>
     (\<exists>v. v \<notin> la_versions api s (lm_key cm) \<and> la_object api s' (lm_key cm) = Some (cm\<lparr>lm_resourceVersion := v\<rparr>) \<and>
          la_versions api s' (lm_key cm) = insert v (la_versions api s (lm_key cm)))"

text \<open>
  What the API server documents. A read returns the stored object. A create stores an object only where
  there is none, an update only over the object whose resource version it carries, and either gives it a
  version it never had. A write that is answered with success has been stored; one that is answered with
  an error may have been stored or not.
\<close>

definition api_laws :: "'s lease_api \<Rightarrow> bool" where
  "api_laws api \<longleftrightarrow>
     (\<forall>s k. let (s', r) = la_get api s k in
        unchanged api k s s' \<and> (case r of Inl _ \<Rightarrow> True | Inr cm \<Rightarrow> la_object api s k = Some cm \<and> lm_key cm = k)) \<and>
     (\<forall>s cm. let (s', r) = la_create api s cm in
        (r \<noteq> None \<and> unchanged api (lm_key cm) s s') \<or> (la_object api s (lm_key cm) = None \<and> stored api cm s s')) \<and>
     (\<forall>s cm. let (s', r) = la_update api s cm in
        (r \<noteq> None \<and> unchanged api (lm_key cm) s s') \<or>
        (\<exists>old. la_object api s (lm_key cm) = Some old \<and> lm_resourceVersion old = lm_resourceVersion cm \<and> stored api cm s s'))"

subsection \<open>Several processes\<close>

text \<open>
  A process holds the mutex of its lease from the start of a \<^verbatim>\<open>Step\<close> or \<^verbatim>\<open>Release\<close> to its end, so it runs
  at most one of them. A write whose answer is lost may still reach the server later (\<open>lw_late\<close>).
\<close>

datatype activity = Idle | Stepping "err lease_prog" | Releasing "(bool \<times> err) lease_prog"

record lease_proc =
  lp_leadUntil :: int
  lp_stopping :: bool
  lp_activity :: activity

datatype late_write = LateCreate lease_map | LateUpdate lease_map

record 's lease_world =
  lw_store :: 's
  lw_clock :: "nat \<Rightarrow> go_time"
  lw_procs :: "nat \<Rightarrow> lease_proc"
  lw_late :: "late_write set"

text \<open>One call or assignment of a program: the server's new state, the new \<^verbatim>\<open>leadUntil\<close> and what is left to do.\<close>

fun exec :: "'s lease_api \<Rightarrow> 's \<Rightarrow> int \<Rightarrow> 'a lease_prog \<Rightarrow> 's \<times> int \<times> 'a lease_prog" where
  "exec api s lead (Return a) = (s, lead, Return a)"
| "exec api s lead (GetLease k c) = (let (s', r) = la_get api s k in (s', lead, c r))"
| "exec api s lead (CreateLease cm c) = (let (s', r) = la_create api s cm in (s', lead, c r))"
| "exec api s lead (UpdateLease cm c) = (let (s', r) = la_update api s cm in (s', lead, c r))"
| "exec api s lead (SetLeadUntil t c) = (s, setLeadUntil t, c)"

text \<open>The answer to a write is lost: the client sees an error.\<close>

fun loses :: "'a lease_prog \<Rightarrow> go_error \<Rightarrow> (late_write \<times> 'a lease_prog) option" where
  "loses (CreateLease cm c) e = Some (LateCreate cm, c (Some e))"
| "loses (UpdateLease cm c) e = Some (LateUpdate cm, c (Some e))"
| "loses p e = None"

fun lands :: "'s lease_api \<Rightarrow> 's \<Rightarrow> late_write \<Rightarrow> 's" where
  "lands api s (LateCreate cm) = fst (la_create api s cm)"
| "lands api s (LateUpdate cm) = fst (la_update api s cm)"

abbreviation setProc :: "'s lease_world \<Rightarrow> nat \<Rightarrow> lease_proc \<Rightarrow> 's lease_world" where
  "setProc w p x \<equiv> w\<lparr>lw_procs := (lw_procs w)(p := x)\<rparr>"

text \<open>
  \<open>leases p\<close> is the lease of process \<open>p\<close>; clocks never run backwards and differ by at most \<open>skew\<close>. A
  process starts a \<^verbatim>\<open>Release\<close> only once it is stopping (\<^verbatim>\<open>releaseRegionLeases\<close>). Other clients leave the
  lease's object alone.
\<close>

inductive lease_step :: "'s lease_api \<Rightarrow> kube_errors \<Rightarrow> (nat \<Rightarrow> RegionLease) \<Rightarrow> int \<Rightarrow> string \<times> string \<Rightarrow> 's lease_world \<Rightarrow> 's lease_world \<Rightarrow> bool"
  for api ke leases skew k where
  tick: "(\<And>p. lw_clock w p \<le> clock p) \<Longrightarrow> (\<And>p q. clock p \<le> clock q + skew) \<Longrightarrow>
    lease_step api ke leases skew k w (w\<lparr>lw_clock := clock\<rparr>)"
| stop: "lease_step api ke leases skew k w (setProc w p ((lw_procs w p)\<lparr>lp_stopping := True\<rparr>))"
| start_step: "lp_activity (lw_procs w p) = Idle \<Longrightarrow>
    lease_step api ke leases skew k w
      (setProc w p ((lw_procs w p)\<lparr>lp_activity := Stepping (Step ke (leases p) (lp_stopping (lw_procs w p)) (lw_clock w p))\<rparr>))"
| start_release: "lp_activity (lw_procs w p) = Idle \<Longrightarrow> lp_stopping (lw_procs w p) \<Longrightarrow>
    lease_step api ke leases skew k w
      (setProc w p ((lw_procs w p)\<lparr>lp_activity := Releasing (Release ke (leases p) (lw_clock w p))\<rparr>))"
| run_step: "lp_activity (lw_procs w p) = Stepping prog \<Longrightarrow> exec api (lw_store w) (lp_leadUntil (lw_procs w p)) prog = (s', lead', prog') \<Longrightarrow>
    lease_step api ke leases skew k w
      (setProc (w\<lparr>lw_store := s'\<rparr>) p ((lw_procs w p)\<lparr>lp_leadUntil := lead', lp_activity := Stepping prog'\<rparr>))"
| run_release: "lp_activity (lw_procs w p) = Releasing rel \<Longrightarrow> exec api (lw_store w) (lp_leadUntil (lw_procs w p)) rel = (s', lead', rel') \<Longrightarrow>
    lease_step api ke leases skew k w
      (setProc (w\<lparr>lw_store := s'\<rparr>) p ((lw_procs w p)\<lparr>lp_leadUntil := lead', lp_activity := Releasing rel'\<rparr>))"
| lose_step: "lp_activity (lw_procs w p) = Stepping prog \<Longrightarrow> loses prog e = Some (write, prog') \<Longrightarrow>
    lease_step api ke leases skew k w
      (setProc (w\<lparr>lw_late := insert write (lw_late w)\<rparr>) p ((lw_procs w p)\<lparr>lp_activity := Stepping prog'\<rparr>))"
| lose_release: "lp_activity (lw_procs w p) = Releasing rel \<Longrightarrow> loses rel e = Some (write, rel') \<Longrightarrow>
    lease_step api ke leases skew k w
      (setProc (w\<lparr>lw_late := insert write (lw_late w)\<rparr>) p ((lw_procs w p)\<lparr>lp_activity := Releasing rel'\<rparr>))"
| land: "write \<in> lw_late w \<Longrightarrow> lease_step api ke leases skew k w (w\<lparr>lw_store := lands api (lw_store w) write\<rparr>)"
| finish_step: "lp_activity (lw_procs w p) = Stepping (Return r) \<Longrightarrow>
    lease_step api ke leases skew k w (setProc w p ((lw_procs w p)\<lparr>lp_activity := Idle\<rparr>))"
| finish_release: "lp_activity (lw_procs w p) = Releasing (Return b) \<Longrightarrow>
    lease_step api ke leases skew k w (setProc w p ((lw_procs w p)\<lparr>lp_activity := Idle\<rparr>))"
| others: "unchanged api k (lw_store w) s' \<Longrightarrow> lease_step api ke leases skew k w (w\<lparr>lw_store := s'\<rparr>)"

text \<open>The processes of a region when they start.\<close>

definition lease_initial :: "'s lease_api \<Rightarrow> (nat \<Rightarrow> RegionLease) \<Rightarrow> int \<Rightarrow> string \<times> string \<Rightarrow> 's lease_world \<Rightarrow> bool" where
  "lease_initial api leases skew k w \<longleftrightarrow>
     (\<forall>p. lw_procs w p = \<lparr>lp_leadUntil = 0, lp_stopping = False, lp_activity = Idle\<rparr>) \<and> lw_late w = {} \<and>
     (\<forall>p. unixEpoch \<le> lw_clock w p) \<and> (\<forall>p q. lw_clock w p \<le> lw_clock w q + skew) \<and>
     (\<forall>cm. la_object api (lw_store w) k = Some cm \<longrightarrow> lm_resourceVersion cm \<in> la_versions api (lw_store w) k)"

text \<open>One region: every process uses the same key and has an identity of its own.\<close>

definition one_region :: "(nat \<Rightarrow> RegionLease) \<Rightarrow> string \<times> string \<Rightarrow> bool" where
  "one_region leases k \<longleftrightarrow> (\<forall>p. leaseKey (leases p) = k) \<and> (\<forall>p q. rg_identity (leases p) = rg_identity (leases q) \<longrightarrow> p = q)"

abbreviation lease_reaches ::
  "'s lease_api \<Rightarrow> kube_errors \<Rightarrow> (nat \<Rightarrow> RegionLease) \<Rightarrow> int \<Rightarrow> string \<times> string \<Rightarrow> 's lease_world \<Rightarrow> 's lease_world \<Rightarrow> bool" where
  "lease_reaches api ke leases skew k \<equiv> (lease_step api ke leases skew k)\<^sup>*\<^sup>*"

section \<open>At most one process leads\<close>

subsection \<open>The invariant\<close>

text \<open>A process that will not lead again.\<close>

definition quiet :: "lease_proc \<Rightarrow> bool" where
  "quiet x \<longleftrightarrow> lp_stopping x \<and> lp_leadUntil x = 0 \<and>
     (lp_activity x = Idle \<or> lp_activity x = Stepping (SetLeadUntil 0 (Return None)) \<or>
      (\<exists>r. lp_activity x = Stepping (Return r)) \<or> (\<exists>rel. lp_activity x = Releasing rel))"

text \<open>A time up to which \<open>p\<close> may lead: its lease is stored for as long, or a clock has passed the time.\<close>

definition heldUntil :: "'s lease_api \<Rightarrow> (nat \<Rightarrow> RegionLease) \<Rightarrow> string \<times> string \<Rightarrow> 's \<Rightarrow> nat \<Rightarrow> int \<Rightarrow> bool" where
  "heldUntil api leases k s p t \<longleftrightarrow>
     (\<exists>cm st. la_object api s k = Some cm \<and> lm_state cm = Encoded st \<and> rl_holder st = rg_identity (leases p) \<and>
              t \<le> UnixNano (rl_leaseUntil st))"

definition backed :: "'s lease_api \<Rightarrow> (nat \<Rightarrow> RegionLease) \<Rightarrow> string \<times> string \<Rightarrow> 's lease_world \<Rightarrow> nat \<Rightarrow> int \<Rightarrow> bool" where
  "backed api leases k w p t \<longleftrightarrow> heldUntil api leases k (lw_store w) p t \<or> (\<exists>q. t \<le> UnixNano (lw_clock w q))"

text \<open>
  An update that takes no lease from a process that may lead: the object it replaces, if it is still
  there, is a lease that a clock has passed, or one of the writer, made longer or given up for good.
\<close>

definition replaces :: "(nat \<Rightarrow> RegionLease) \<Rightarrow> 's lease_world \<Rightarrow> nat \<Rightarrow> regionLeaseState \<Rightarrow> lease_map \<Rightarrow> bool" where
  "replaces leases w p st' old \<longleftrightarrow>
     (\<exists>st. lm_state old = Encoded st \<and>
        (rl_holder st = rg_identity (leases p) \<and> (rl_leaseUntil st \<le> rl_leaseUntil st' \<or> quiet (lw_procs w p)) \<or>
         (\<exists>q. rl_leaseUntil st \<le> lw_clock w q)))"

definition safeWrite :: "'s lease_api \<Rightarrow> (nat \<Rightarrow> RegionLease) \<Rightarrow> string \<times> string \<Rightarrow> 's lease_world \<Rightarrow> nat \<Rightarrow> lease_map \<Rightarrow> bool" where
  "safeWrite api leases k w p cm \<longleftrightarrow>
     lm_key cm = k \<and> lm_resourceVersion cm \<in> la_versions api (lw_store w) k \<and>
     (\<exists>st'. lm_state cm = Encoded st' \<and> rl_holder st' = rg_identity (leases p) \<and>
        (\<forall>old. la_object api (lw_store w) k = Some old \<longrightarrow> lm_resourceVersion old = lm_resourceVersion cm \<longrightarrow> replaces leases w p st' old))"

definition stepOK :: "'s lease_api \<Rightarrow> kube_errors \<Rightarrow> (nat \<Rightarrow> RegionLease) \<Rightarrow> string \<times> string \<Rightarrow> 's lease_world \<Rightarrow> nat \<Rightarrow> err lease_prog \<Rightarrow> bool" where
  "stepOK api ke leases k w p prog \<longleftrightarrow>
     (\<exists>r. prog = Return r) \<or>
     (\<exists>t. prog = SetLeadUntil t (Return None) \<and> backed api leases k w p (setLeadUntil t)) \<or>
     (\<exists>now. prog = GetLease k (stepGot ke (leases p) now) \<and> now \<le> lw_clock w p) \<or>
     (\<exists>now cm. prog = CreateLease cm (stepCreated ke (leases p) now) \<and> lm_key cm = k \<and> lm_state cm = Encoded (newLease (leases p) now)) \<or>
     (\<exists>cm st. prog = UpdateLease cm (stepUpdated ke st) \<and> lm_state cm = Encoded st \<and> safeWrite api leases k w p cm)"

definition releaseOK :: "'s lease_api \<Rightarrow> kube_errors \<Rightarrow> (nat \<Rightarrow> RegionLease) \<Rightarrow> string \<times> string \<Rightarrow> 's lease_world \<Rightarrow> nat \<Rightarrow> int \<Rightarrow> (bool \<times> err) lease_prog \<Rightarrow> bool" where
  "releaseOK api ke leases k w p lead rel \<longleftrightarrow>
     (\<exists>now. rel = SetLeadUntil 0 (GetLease k (releaseGot ke (leases p) now))) \<or>
     lead = 0 \<and>
     ((\<exists>r. rel = Return r) \<or> (\<exists>now. rel = GetLease k (releaseGot ke (leases p) now)) \<or>
      (\<exists>cm. rel = UpdateLease cm (releaseUpdated ke) \<and> safeWrite api leases k w p cm))"

definition procOK :: "'s lease_api \<Rightarrow> kube_errors \<Rightarrow> (nat \<Rightarrow> RegionLease) \<Rightarrow> string \<times> string \<Rightarrow> 's lease_world \<Rightarrow> nat \<Rightarrow> lease_proc \<Rightarrow> bool" where
  "procOK api ke leases k w p x \<longleftrightarrow>
     backed api leases k w p (lp_leadUntil x) \<and>
     (case lp_activity x of
        Idle \<Rightarrow> True
      | Stepping prog \<Rightarrow> stepOK api ke leases k w p prog
      | Releasing rel \<Rightarrow> lp_stopping x \<and> releaseOK api ke leases k w p (lp_leadUntil x) rel)"

definition lateOK :: "'s lease_api \<Rightarrow> (nat \<Rightarrow> RegionLease) \<Rightarrow> string \<times> string \<Rightarrow> 's lease_world \<Rightarrow> late_write \<Rightarrow> bool" where
  "lateOK api leases k w write =
     (case write of LateCreate cm \<Rightarrow> lm_key cm = k | LateUpdate cm \<Rightarrow> \<exists>p. safeWrite api leases k w p cm)"

definition leaseInv :: "'s lease_api \<Rightarrow> kube_errors \<Rightarrow> (nat \<Rightarrow> RegionLease) \<Rightarrow> int \<Rightarrow> string \<times> string \<Rightarrow> 's lease_world \<Rightarrow> bool" where
  "leaseInv api ke leases skew k w \<longleftrightarrow>
     (\<forall>p. procOK api ke leases k w p (lw_procs w p)) \<and> (\<forall>x \<in> lw_late w. lateOK api leases k w x) \<and>
     (\<forall>p. unixEpoch \<le> lw_clock w p) \<and> (\<forall>p q. lw_clock w p \<le> lw_clock w q + skew) \<and>
     (\<forall>cm. la_object api (lw_store w) k = Some cm \<longrightarrow> lm_resourceVersion cm \<in> la_versions api (lw_store w) k)"

text \<open>How the server's state may change, and how a world evolves in a step.\<close>

definition safeStore :: "'s lease_api \<Rightarrow> (nat \<Rightarrow> RegionLease) \<Rightarrow> string \<times> string \<Rightarrow> 's lease_world \<Rightarrow> 's \<Rightarrow> bool" where
  "safeStore api leases k w s' \<longleftrightarrow>
     unchanged api k (lw_store w) s' \<or>
     (\<exists>cm. lm_key cm = k \<and> stored api cm (lw_store w) s' \<and>
        (la_object api (lw_store w) k = None \<or>
         (\<exists>p old. la_object api (lw_store w) k = Some old \<and> lm_resourceVersion old = lm_resourceVersion cm \<and> safeWrite api leases k w p cm)))"

definition evolves :: "'s lease_api \<Rightarrow> (nat \<Rightarrow> RegionLease) \<Rightarrow> string \<times> string \<Rightarrow> 's lease_world \<Rightarrow> 's lease_world \<Rightarrow> bool" where
  "evolves api leases k w w' \<longleftrightarrow>
     (\<forall>p. unixEpoch \<le> lw_clock w p \<and> lw_clock w p \<le> lw_clock w' p) \<and> safeStore api leases k w (lw_store w') \<and>
     (\<forall>p. quiet (lw_procs w p) \<longrightarrow> quiet (lw_procs w' p))"

lemma UnixNano_mono: "t \<le> t' \<Longrightarrow> UnixNano t \<le> UnixNano t'"
  by (simp add: UnixNano_def)

lemma setLeadUntil_0 [simp]: "setLeadUntil 0 = 0"
  by (simp add: setLeadUntil_def IsZero_def)

lemma backed_past: "t \<le> UnixNano (lw_clock w q) \<Longrightarrow> backed api leases k w p t"
  by (auto simp: backed_def)

lemma backed_0: "(\<And>p. unixEpoch \<le> lw_clock w p) \<Longrightarrow> t \<le> 0 \<Longrightarrow> backed api leases k w p t"
  by (rule backed_past [of _ _ p]) (smt (verit) UnixNano_def)

lemma backed_kept:
  assumes ev: "evolves api leases k w w'" and region: "one_region leases k" and b: "backed api leases k w p t"
    and silent: "quiet (lw_procs w p) \<Longrightarrow> t \<le> 0"
  shows "backed api leases k w' p t"
proof -
  have clock: "unixEpoch \<le> lw_clock w q" "lw_clock w q \<le> lw_clock w' q" for q
    using ev by (auto simp: evolves_def)
  have past: "backed api leases k w' p t" if "t \<le> UnixNano (lw_clock w q)" for q
    using that clock(2) [of q] UnixNano_mono by (blast intro: backed_past order_trans)
  from ev consider "unchanged api k (lw_store w) (lw_store w')"
    | cm where "lm_key cm = k" "stored api cm (lw_store w) (lw_store w')" "la_object api (lw_store w) k = None"
    | cm r old where "lm_key cm = k" "stored api cm (lw_store w) (lw_store w')" "la_object api (lw_store w) k = Some old"
        "lm_resourceVersion old = lm_resourceVersion cm" "safeWrite api leases k w r cm"
    by (auto simp: evolves_def safeStore_def)
  thus ?thesis
  proof cases
    case 1
    with b past show ?thesis by (auto simp: backed_def heldUntil_def unchanged_def)
  next
    case 2
    with b past show ?thesis by (auto simp: backed_def heldUntil_def)
  next
    case (3 cm r old)
    then obtain st' st where st': "lm_state cm = Encoded st'" "rl_holder st' = rg_identity (leases r)" and st: "lm_state old = Encoded st"
      and how: "rl_holder st = rg_identity (leases r) \<and> (rl_leaseUntil st \<le> rl_leaseUntil st' \<or> quiet (lw_procs w r)) \<or>
        (\<exists>q. rl_leaseUntil st \<le> lw_clock w q)"
      by (auto simp: safeWrite_def replaces_def)
    show ?thesis
    proof (cases "\<exists>q. t \<le> UnixNano (lw_clock w q)")
      case False
      with b 3(3) st have held: "rl_holder st = rg_identity (leases p)" "t \<le> UnixNano (rl_leaseUntil st)"
        by (auto simp: backed_def heldUntil_def)
      have "0 \<le> UnixNano (lw_clock w p)"
        using clock(1) [of p] by (simp add: UnixNano_def)
      hence alive: "\<not> quiet (lw_procs w p)"
        using False silent by (meson order_trans)
      have "\<not> (\<exists>q. rl_leaseUntil st \<le> lw_clock w q)"
        using False held(2) UnixNano_mono order_trans by meson
      with how held(1) region alive have "r = p" "rl_leaseUntil st \<le> rl_leaseUntil st'"
        by (auto simp: one_region_def)
      with held(2) have "t \<le> UnixNano (rl_leaseUntil st')"
        using UnixNano_mono order_trans by blast
      with st' 3(1,2) \<open>r = p\<close> have "heldUntil api leases k (lw_store w') p t"
        by (auto simp: heldUntil_def stored_def)
      thus ?thesis by (simp add: backed_def)
    qed (use past in blast)
  qed
qed

lemma versions_kept:
  assumes "safeStore api leases k w s'" "v \<in> la_versions api (lw_store w) k"
  shows "v \<in> la_versions api s' k"
  using assms by (auto simp: safeStore_def unchanged_def stored_def)

lemma safeWrite_kept:
  assumes ev: "evolves api leases k w w'" and ok: "safeWrite api leases k w p cm"
  shows "safeWrite api leases k w' p cm"
proof -
  from ok obtain st' where key: "lm_key cm = k" and ver: "lm_resourceVersion cm \<in> la_versions api (lw_store w) k"
    and st': "lm_state cm = Encoded st'" "rl_holder st' = rg_identity (leases p)"
    and over: "\<And>old. la_object api (lw_store w) k = Some old \<Longrightarrow> lm_resourceVersion old = lm_resourceVersion cm \<Longrightarrow> replaces leases w p st' old"
    by (auto simp: safeWrite_def)
  have store: "safeStore api leases k w (lw_store w')"
    using ev by (simp add: evolves_def)
  have "replaces leases w' p st' old"
    if old: "la_object api (lw_store w') k = Some old" "lm_resourceVersion old = lm_resourceVersion cm" for old
  proof -
    from store old ver have "unchanged api k (lw_store w) (lw_store w')"
      by (auto simp: safeStore_def stored_def)
    with over old have "replaces leases w p st' old"
      by (simp add: unchanged_def)
    with ev show ?thesis
      unfolding replaces_def evolves_def by (meson order_trans)
  qed
  with key st' versions_kept [OF store ver] show ?thesis
    by (auto simp: safeWrite_def)
qed

lemma stepOK_kept:
  assumes ev: "evolves api leases k w w'" and region: "one_region leases k" and ok: "stepOK api ke leases k w p prog"
    and silent: "\<And>t. prog = SetLeadUntil t (Return None) \<Longrightarrow> quiet (lw_procs w p) \<Longrightarrow> t = 0"
  shows "stepOK api ke leases k w' p prog"
proof -
  have now: "now \<le> lw_clock w p \<Longrightarrow> now \<le> lw_clock w' p" for now
    using ev by (meson evolves_def order_trans)
  have "backed api leases k w' p (setLeadUntil t)"
    if "prog = SetLeadUntil t (Return None)" "backed api leases k w p (setLeadUntil t)" for t
    using backed_kept [OF ev region that(2)] silent [OF that(1)] by auto
  with ok now safeWrite_kept [OF ev] show ?thesis
    unfolding stepOK_def by blast
qed

lemma releaseOK_kept:
  assumes "evolves api leases k w w'" "releaseOK api ke leases k w p lead rel"
  shows "releaseOK api ke leases k w' p lead rel"
  using assms safeWrite_kept unfolding releaseOK_def by blast

lemma quiet_lead: "quiet x \<Longrightarrow> lp_leadUntil x \<le> 0"
  by (simp add: quiet_def)

lemma procOK_kept:
  assumes ev: "evolves api leases k w w'" and region: "one_region leases k" and ok: "procOK api ke leases k w p (lw_procs w p)"
  shows "procOK api ke leases k w' p (lw_procs w p)"
proof -
  have "backed api leases k w' p (lp_leadUntil (lw_procs w p))"
    using backed_kept [OF ev region] ok quiet_lead by (auto simp: procOK_def)
  moreover have "stepOK api ke leases k w' p prog" if a: "lp_activity (lw_procs w p) = Stepping prog" for prog
  proof (rule stepOK_kept [OF ev region])
    show "stepOK api ke leases k w p prog" using ok a by (simp add: procOK_def)
    show "t = 0" if "prog = SetLeadUntil t (Return None)" "quiet (lw_procs w p)" for t
      using that a by (auto simp: quiet_def)
  qed
  ultimately show ?thesis
    using ok releaseOK_kept [OF ev] by (auto simp: procOK_def split: activity.splits)
qed

lemma lateOK_kept:
  assumes "evolves api leases k w w'" "lateOK api leases k w x"
  shows "lateOK api leases k w' x"
  using assms safeWrite_kept [OF assms(1)] unfolding lateOK_def by (cases x) (simp, simp, blast)

text \<open>A step in which process \<open>p\<close> moves to \<open>x\<close>, or none moves.\<close>

lemma leaseInv_move:
  assumes inv: "leaseInv api ke leases skew k w" and region: "one_region leases k" and ev: "evolves api leases k w w'"
    and procs: "\<And>q. q \<noteq> p \<Longrightarrow> lw_procs w' q = lw_procs w q" and mover: "procOK api ke leases k w' p (lw_procs w' p)"
    and late: "\<And>x. x \<in> lw_late w' \<Longrightarrow> x \<in> lw_late w \<or> lateOK api leases k w' x"
    and skew: "\<And>p q. lw_clock w' p \<le> lw_clock w' q + skew"
  shows "leaseInv api ke leases skew k w'"
  unfolding leaseInv_def
proof (intro conjI allI ballI impI)
  show "procOK api ke leases k w' q (lw_procs w' q)" for q
    using procOK_kept [OF ev region] inv mover procs [of q] by (cases "q = p") (auto simp: leaseInv_def)
  show "lateOK api leases k w' x" if "x \<in> lw_late w'" for x
    using late [OF that] lateOK_kept [OF ev] inv by (auto simp: leaseInv_def)
  show "unixEpoch \<le> lw_clock w' q" for q
    using ev by (meson evolves_def order_trans)
  show "lm_resourceVersion cm \<in> la_versions api (lw_store w') k" if "la_object api (lw_store w') k = Some cm" for cm
    using ev that inv by (auto simp: evolves_def safeStore_def unchanged_def stored_def leaseInv_def)
qed (rule skew)

subsection \<open>Calls\<close>

lemma get_law:
  assumes "api_laws api" "la_get api s k = (s', r)"
  shows "unchanged api k s s'" "r = Inr cm \<Longrightarrow> la_object api s k = Some cm \<and> lm_key cm = k"
proof -
  from assms(1) have "let (s', r) = la_get api s k in
      unchanged api k s s' \<and> (case r of Inl _ \<Rightarrow> True | Inr cm \<Rightarrow> la_object api s k = Some cm \<and> lm_key cm = k)"
    unfolding api_laws_def by blast
  thus "unchanged api k s s'" "r = Inr cm \<Longrightarrow> la_object api s k = Some cm \<and> lm_key cm = k"
    by (simp_all add: assms(2))
qed

lemma create_law:
  assumes "api_laws api" "la_create api s cm = (s', r)"
  shows "(r \<noteq> None \<and> unchanged api (lm_key cm) s s') \<or> (la_object api s (lm_key cm) = None \<and> stored api cm s s')"
proof -
  from assms(1) have "let (s', r) = la_create api s cm in
      (r \<noteq> None \<and> unchanged api (lm_key cm) s s') \<or> (la_object api s (lm_key cm) = None \<and> stored api cm s s')"
    unfolding api_laws_def by blast
  thus ?thesis by (simp add: assms(2))
qed

lemma update_law:
  assumes "api_laws api" "la_update api s cm = (s', r)"
  shows "(r \<noteq> None \<and> unchanged api (lm_key cm) s s') \<or>
    (\<exists>old. la_object api s (lm_key cm) = Some old \<and> lm_resourceVersion old = lm_resourceVersion cm \<and> stored api cm s s')"
proof -
  from assms(1) have "let (s', r) = la_update api s cm in
      (r \<noteq> None \<and> unchanged api (lm_key cm) s s') \<or>
      (\<exists>old. la_object api s (lm_key cm) = Some old \<and> lm_resourceVersion old = lm_resourceVersion cm \<and> stored api cm s s')"
    unfolding api_laws_def by blast
  thus ?thesis by (simp add: assms(2))
qed

lemma created_safe:
  assumes "api_laws api" "la_create api (lw_store w) cm = (s', r)" "lm_key cm = k"
  shows "safeStore api leases k w s'"
  using create_law [OF assms(1,2)] assms(3) unfolding safeStore_def by blast

lemma updated_safe:
  assumes "api_laws api" "la_update api (lw_store w) cm = (s', r)" "safeWrite api leases k w p cm"
  shows "safeStore api leases k w s'"
proof -
  have "lm_key cm = k" using assms(3) by (simp add: safeWrite_def)
  with update_law [OF assms(1,2)] assms(3) show ?thesis
    unfolding safeStore_def by blast
qed

lemma duration_positive: "0 < duration l"
  by (simp add: duration_def)

lemma stored_backs:
  assumes "stored api cm s (lw_store w)" "lm_key cm = k" "lm_state cm = Encoded st" "rl_holder st = rg_identity (leases p)"
    and "\<And>q. unixEpoch \<le> lw_clock w q"
  shows "backed api leases k w p (setLeadUntil (rl_leaseUntil st))"
proof (cases "IsZero (rl_leaseUntil st)")
  case True
  with assms(5) show ?thesis by (simp add: setLeadUntil_def backed_0)
next
  case False
  with assms(1-4) show ?thesis
    by (auto simp: backed_def heldUntil_def stored_def setLeadUntil_def)
qed

lemma held_backs:
  assumes "la_object api (lw_store w) k = Some cm" "lm_state cm = Encoded st" "rl_holder st = rg_identity (leases p)"
    and "\<And>q. unixEpoch \<le> lw_clock w q"
  shows "backed api leases k w p (setLeadUntil (rl_leaseUntil st))"
proof (cases "IsZero (rl_leaseUntil st)")
  case True
  with assms(4) show ?thesis by (simp add: setLeadUntil_def backed_0)
next
  case False
  with assms(1-3) show ?thesis
    by (auto simp: backed_def heldUntil_def setLeadUntil_def)
qed

lemma stepOK_Return [simp]: "stepOK api ke leases k w p (Return r)"
  by (simp add: stepOK_def)

lemma stepOK_Set: "backed api leases k w p (setLeadUntil t) \<Longrightarrow> stepOK api ke leases k w p (SetLeadUntil t (Return None))"
  by (simp add: stepOK_def)

lemma stepOK_Update:
  "lm_state cm = Encoded st \<Longrightarrow> safeWrite api leases k w p cm \<Longrightarrow> stepOK api ke leases k w p (UpdateLease cm (stepUpdated ke st))"
  by (auto simp: stepOK_def)

text \<open>What a step does with the lease it read: a renewal makes its own lease longer, a takeover replaces one
  that has ended.\<close>

lemma stepGot_OK:
  assumes region: "one_region leases k" and now: "now \<le> lw_clock w p" and epoch: "\<And>q. unixEpoch \<le> lw_clock w q"
    and read: "\<And>cm. got = Inr cm \<Longrightarrow> la_object api (lw_store w) k = Some cm \<and> lm_key cm = k \<and> lm_resourceVersion cm \<in> la_versions api (lw_store w) k"
  shows "stepOK api ke leases k w p (stepGot ke (leases p) now got)"
proof (cases got)
  case (Inl e)
  with region show ?thesis
    by (auto simp: stepGot_def stepOK_def one_region_def)
next
  case (Inr cm)
  note cm = read [OF this]
  show ?thesis
  proof (cases "lm_state cm")
    case (Encoded st)
    have takes: "safeWrite api leases k w p (cm\<lparr>lm_state := Encoded (newLease (leases p) now)\<rparr>)"
      if "\<not> (rl_holder st \<noteq> rg_identity (leases p) \<and> now < rl_leaseUntil st)"
        "\<not> (rl_holder st = rg_identity (leases p) \<and> duration (leases p) * 2 div 3 < rl_leaseUntil st - now)"
    proof -
      have "replaces leases w p (newLease (leases p) now) cm"
      proof (cases "rl_holder st = rg_identity (leases p)")
        case True
        with that(2) duration_positive [of "leases p"] have "rl_leaseUntil st \<le> now + duration (leases p)" by simp
        with True Encoded show ?thesis by (simp add: replaces_def newLease_def)
      next
        case False
        with that(1) now have "rl_leaseUntil st \<le> lw_clock w p" by simp
        with Encoded show ?thesis by (auto simp: replaces_def)
      qed
      with cm show ?thesis
        by (simp add: safeWrite_def newLease_def)
    qed
    from Inr Encoded cm show ?thesis
      using takes held_backs [of api w k cm st leases p] epoch
      by (auto simp: stepGot_def backed_0 intro!: stepOK_Set stepOK_Update)
  qed (simp add: stepGot_def Inr)
qed

lemma exec_step_store:
  assumes laws: "api_laws api" and ok: "stepOK api ke leases k w p prog" and run: "exec api (lw_store w) lead prog = (s', lead', prog')"
  shows "safeStore api leases k w s'"
  using ok unfolding stepOK_def
proof (elim disjE exE conjE)
  fix now assume "prog = GetLease k (stepGot ke (leases p) now)"
  with run obtain r where "la_get api (lw_store w) k = (s', r)" by (auto split: prod.splits)
  with get_law(1) [OF laws] show ?thesis by (simp add: safeStore_def)
next
  fix now cm assume "prog = CreateLease cm (stepCreated ke (leases p) now)" "lm_key cm = k"
  with run obtain r where "la_create api (lw_store w) cm = (s', r)" by (auto split: prod.splits)
  with created_safe [OF laws] \<open>lm_key cm = k\<close> show ?thesis by blast
next
  fix cm st assume "prog = UpdateLease cm (stepUpdated ke st)" "safeWrite api leases k w p cm"
  with run obtain r where "la_update api (lw_store w) cm = (s', r)" by (auto split: prod.splits)
  with updated_safe [OF laws] \<open>safeWrite api leases k w p cm\<close> show ?thesis by blast
qed (use run in \<open>auto simp: safeStore_def unchanged_def\<close>)

lemma exec_step_OK:
  assumes laws: "api_laws api" and region: "one_region leases k" and inv: "leaseInv api ke leases skew k w"
    and ok: "stepOK api ke leases k w p prog" and run: "exec api (lw_store w) lead prog = (s', lead', prog')"
    and w': "lw_store w' = s'" "lw_clock w' = lw_clock w" and lead: "backed api leases k w' p lead"
    and ev: "evolves api leases k w w'" and silent: "\<And>t. prog = SetLeadUntil t (Return None) \<Longrightarrow> quiet (lw_procs w p) \<Longrightarrow> t = 0"
  shows "backed api leases k w' p lead' \<and> stepOK api ke leases k w' p prog'"
  using ok unfolding stepOK_def [of _ _ _ _ w]
proof (elim disjE exE conjE)
  fix t assume set: "prog = SetLeadUntil t (Return None)" and b: "backed api leases k w p (setLeadUntil t)"
  have "backed api leases k w' p (setLeadUntil t)"
    by (rule backed_kept [OF ev region b]) (use silent [OF set] in simp)
  with set run show ?thesis by auto
next
  fix now assume get: "prog = GetLease k (stepGot ke (leases p) now)" "now \<le> lw_clock w p"
  with run obtain r where r: "la_get api (lw_store w) k = (s', r)" "lead' = lead" "prog' = stepGot ke (leases p) now r"
    by (auto split: prod.splits)
  have same: "unchanged api k (lw_store w) (lw_store w')" using get_law(1) [OF laws r(1)] by (simp add: w')
  have "stepOK api ke leases k w' p prog'"
    unfolding r(3) by (rule stepGot_OK [OF region])
      (use get(2) inv same get_law(2) [OF laws r(1)] in \<open>auto simp: w'(2) leaseInv_def unchanged_def\<close>)
  with lead r(2) show ?thesis by simp
next
  fix now cm assume create: "prog = CreateLease cm (stepCreated ke (leases p) now)" "lm_key cm = k" "lm_state cm = Encoded (newLease (leases p) now)"
  with run obtain r where r: "la_create api (lw_store w) cm = (s', r)" "lead' = lead" "prog' = stepCreated ke (leases p) now r"
    by (auto split: prod.splits)
  have "backed api leases k w' p (setLeadUntil (now + duration (leases p)))" if "r = None"
    using stored_backs [of api cm "lw_store w" w' k "newLease (leases p) now" leases p] create_law [OF laws r(1)] create(2,3) inv that
    by (auto simp: w' newLease_def leaseInv_def)
  with lead r(2,3) show ?thesis
    by (auto simp: stepCreated_def split: option.splits intro!: stepOK_Set)
next
  fix cm st assume up: "prog = UpdateLease cm (stepUpdated ke st)" "lm_state cm = Encoded st" "safeWrite api leases k w p cm"
  with run obtain r where r: "la_update api (lw_store w) cm = (s', r)" "lead' = lead" "prog' = stepUpdated ke st r"
    by (auto split: prod.splits)
  have "rl_holder st = rg_identity (leases p)" "lm_key cm = k"
    using up(2,3) by (auto simp: safeWrite_def)
  hence "backed api leases k w' p (setLeadUntil (rl_leaseUntil st))" if "r = None"
    using stored_backs [of api cm "lw_store w" w' k st leases p] update_law [OF laws r(1)] up(2) inv that
    by (auto simp: w' leaseInv_def)
  moreover have "backed api leases k w' p (setLeadUntil 0)"
    using inv by (auto simp: w' leaseInv_def intro: backed_0)
  ultimately show ?thesis
    using lead r(2,3) by (auto simp: stepUpdated_def split: option.splits intro!: stepOK_Set)
qed (use run lead in auto)

lemma releaseOK_Return [simp]: "releaseOK api ke leases k w p 0 (Return r)"
  unfolding releaseOK_def by blast

lemma lateOK_Update: "safeWrite api leases k w p cm \<Longrightarrow> lateOK api leases k w (LateUpdate cm)"
  unfolding lateOK_def late_write.case by blast

lemma lateOK_Create: "lm_key cm = k \<Longrightarrow> lateOK api leases k w (LateCreate cm)"
  by (simp add: lateOK_def)

lemma releaseOK_Update:
  "safeWrite api leases k w p cm \<Longrightarrow> releaseOK api ke leases k w p 0 (UpdateLease cm (releaseUpdated ke))"
  unfolding releaseOK_def by blast

lemma releaseGot_OK:
  assumes stopping: "quiet (lw_procs w p)"
    and read: "\<And>cm. got = Inr cm \<Longrightarrow> la_object api (lw_store w) k = Some cm \<and> lm_key cm = k \<and> lm_resourceVersion cm \<in> la_versions api (lw_store w) k"
  shows "releaseOK api ke leases k w p 0 (releaseGot ke (leases p) now got)"
proof (cases got)
  case (Inl e)
  thus ?thesis by (simp add: releaseGot_def)
next
  case (Inr cm)
  note cm = read [OF this]
  show ?thesis
  proof (cases "lm_state cm")
    case (Encoded st)
    have "safeWrite api leases k w p (cm\<lparr>lm_state := Encoded (st\<lparr>rl_leaseUntil := now\<rparr>)\<rparr>)"
      if "rl_holder st = rg_identity (leases p)"
      using that cm Encoded stopping by (simp add: safeWrite_def replaces_def)
    with Inr Encoded show ?thesis
      by (auto simp: releaseGot_def intro: releaseOK_Update)
  qed (simp add: releaseGot_def Inr)
qed

lemma exec_release_store:
  assumes laws: "api_laws api" and ok: "releaseOK api ke leases k w p lead rel" and run: "exec api (lw_store w) lead rel = (s', lead', rel')"
  shows "safeStore api leases k w s' \<and> lead' = 0"
  using ok unfolding releaseOK_def
proof (elim disjE exE conjE)
  fix now assume "rel = GetLease k (releaseGot ke (leases p) now)" "lead = 0"
  with run obtain r where "la_get api (lw_store w) k = (s', r)" "lead' = 0" by (auto split: prod.splits)
  with get_law(1) [OF laws] show ?thesis by (simp add: safeStore_def)
next
  fix cm assume "rel = UpdateLease cm (releaseUpdated ke)" "safeWrite api leases k w p cm" "lead = 0"
  with run obtain r where "la_update api (lw_store w) cm = (s', r)" "lead' = 0" by (auto split: prod.splits)
  with updated_safe [OF laws] \<open>safeWrite api leases k w p cm\<close> show ?thesis by blast
qed (use run in \<open>auto simp: safeStore_def unchanged_def\<close>)

lemma exec_release_OK:
  assumes laws: "api_laws api" and inv: "leaseInv api ke leases skew k w"
    and ok: "releaseOK api ke leases k w p lead rel" and run: "exec api (lw_store w) lead rel = (s', lead', rel')"
    and w': "lw_store w' = s'" "quiet (lw_procs w' p)"
  shows "releaseOK api ke leases k w' p 0 rel'"
  using ok unfolding releaseOK_def [of _ _ _ _ w]
proof (elim disjE exE conjE)
  fix now assume "rel = GetLease k (releaseGot ke (leases p) now)"
  with run obtain r where r: "la_get api (lw_store w) k = (s', r)" "rel' = releaseGot ke (leases p) now r"
    by (auto split: prod.splits)
  have "unchanged api k (lw_store w) (lw_store w')" using get_law(1) [OF laws r(1)] by (simp add: w')
  thus ?thesis
    unfolding r(2) using inv get_law(2) [OF laws r(1)]
    by (intro releaseGot_OK [OF w'(2)]) (auto simp: leaseInv_def unchanged_def)
next
  fix cm assume "rel = UpdateLease cm (releaseUpdated ke)"
  with run obtain r where "rel' = releaseUpdated ke r" by (auto split: prod.splits)
  thus ?thesis by (auto simp: releaseUpdated_def split: option.splits)
next
  fix now assume "rel = SetLeadUntil 0 (GetLease k (releaseGot ke (leases p) now))"
  with run show ?thesis by (auto simp: releaseOK_def)
next
  fix r assume "rel = Return r"
  with run show ?thesis by auto
qed

lemma loses_step:
  assumes "stepOK api ke leases k w p prog" "loses prog e = Some (write, prog')" "\<And>q. unixEpoch \<le> lw_clock w q"
  shows "lateOK api leases k w write \<and> stepOK api ke leases k w p prog'"
proof -
  have "backed api leases k w p 0" using assms(3) by (auto intro: backed_0)
  thus ?thesis
    using assms(1,2) unfolding stepOK_def [of _ _ _ _ _ _ prog]
    by (auto simp: stepCreated_def stepUpdated_def intro!: stepOK_Set lateOK_Create intro: lateOK_Update)
qed

lemma loses_release:
  assumes "releaseOK api ke leases k w p lead rel" "loses rel e = Some (write, rel')"
  shows "lateOK api leases k w write \<and> releaseOK api ke leases k w p lead rel' \<and> lead = 0"
  using assms unfolding releaseOK_def [of _ _ _ _ _ _ _ rel]
  by (auto simp: releaseUpdated_def intro: lateOK_Update)

lemma lands_safe:
  assumes "api_laws api" "lateOK api leases k w write"
  shows "safeStore api leases k w (lands api (lw_store w) write)"
proof (cases "write")
  case (LateCreate cm)
  with assms(2) created_safe [OF assms(1) surjective_pairing, of cm k] show ?thesis
    by (simp add: lateOK_def)
next
  case (LateUpdate cm)
  with assms(2) obtain p where "safeWrite api leases k w p cm"
    unfolding lateOK_def by auto
  from updated_safe [OF assms(1) surjective_pairing this] LateUpdate show ?thesis
    by simp
qed

subsection \<open>Every step keeps the invariant\<close>

lemma safeStore_same [simp]: "safeStore api leases k w (lw_store w)"
  by (simp add: safeStore_def unchanged_def)

lemma leaseInvD:
  assumes "leaseInv api ke leases skew k w"
  shows "unixEpoch \<le> lw_clock w p" "lw_clock w p \<le> lw_clock w q + skew" "procOK api ke leases k w p (lw_procs w p)"
    "x \<in> lw_late w \<Longrightarrow> lateOK api leases k w x"
  using assms by (auto simp: leaseInv_def)

text \<open>Process \<open>p\<close> moves to \<open>x\<close>, perhaps with a change of the server and a write that got lost.\<close>

lemma leaseInv_proc:
  assumes inv: "leaseInv api ke leases skew k w" and region: "one_region leases k"
    and store: "safeStore api leases k w s'" and silent: "quiet (lw_procs w p) \<Longrightarrow> quiet x"
    and w': "w' = setProc (w\<lparr>lw_store := s', lw_late := late\<rparr>) p x"
    and mover: "evolves api leases k w w' \<Longrightarrow> procOK api ke leases k w' p x"
    and late: "\<And>y. evolves api leases k w w' \<Longrightarrow> y \<in> late \<Longrightarrow> y \<in> lw_late w \<or> lateOK api leases k w' y"
  shows "leaseInv api ke leases skew k w'"
proof -
  have ev: "evolves api leases k w w'"
    using leaseInvD(1) [OF inv] store silent by (auto simp: evolves_def w')
  show ?thesis
    by (rule leaseInv_move [OF inv region ev, where p = p])
      (use mover [OF ev] late [OF ev] leaseInvD(2) [OF inv] in \<open>auto simp: w'\<close>)
qed

lemma run_step_inv:
  assumes laws: "api_laws api" and region: "one_region leases k" and inv: "leaseInv api ke leases skew k w"
    and act: "lp_activity (lw_procs w p) = Stepping prog"
    and run: "exec api (lw_store w) (lp_leadUntil (lw_procs w p)) prog = (s', lead', prog')"
  shows "leaseInv api ke leases skew k
    (setProc (w\<lparr>lw_store := s'\<rparr>) p ((lw_procs w p)\<lparr>lp_leadUntil := lead', lp_activity := Stepping prog'\<rparr>))"
proof -
  let ?x = "(lw_procs w p)\<lparr>lp_leadUntil := lead', lp_activity := Stepping prog'\<rparr>"
  let ?w = "setProc (w\<lparr>lw_store := s', lw_late := lw_late w\<rparr>) p ?x"
  have ok: "stepOK api ke leases k w p prog" and lead: "backed api leases k w p (lp_leadUntil (lw_procs w p))"
    using leaseInvD(3) [OF inv, of p] act by (simp_all add: procOK_def)
  have "quiet ?x" if "quiet (lw_procs w p)"
    using that act run by (auto simp: quiet_def)
  moreover have "procOK api ke leases k ?w p ?x" if ev: "evolves api leases k w ?w"
  proof -
    have "backed api leases k ?w p (lp_leadUntil (lw_procs w p))"
      using backed_kept [OF ev region lead] quiet_lead by blast
    moreover have "t = 0" if "prog = SetLeadUntil t (Return None)" "quiet (lw_procs w p)" for t
      using that act by (simp add: quiet_def)
    ultimately show ?thesis
      using exec_step_OK [OF laws region inv ok run _ _ _ ev] by (simp add: procOK_def)
  qed
  ultimately show ?thesis
    using leaseInv_proc [OF inv region exec_step_store [OF laws ok run], of p ?x ?w "lw_late w"] by simp
qed

lemma run_release_inv:
  assumes laws: "api_laws api" and region: "one_region leases k" and inv: "leaseInv api ke leases skew k w"
    and act: "lp_activity (lw_procs w p) = Releasing rel"
    and run: "exec api (lw_store w) (lp_leadUntil (lw_procs w p)) rel = (s', lead', rel')"
  shows "leaseInv api ke leases skew k
    (setProc (w\<lparr>lw_store := s'\<rparr>) p ((lw_procs w p)\<lparr>lp_leadUntil := lead', lp_activity := Releasing rel'\<rparr>))"
proof -
  let ?x = "(lw_procs w p)\<lparr>lp_leadUntil := lead', lp_activity := Releasing rel'\<rparr>"
  let ?w = "setProc (w\<lparr>lw_store := s', lw_late := lw_late w\<rparr>) p ?x"
  have ok: "releaseOK api ke leases k w p (lp_leadUntil (lw_procs w p)) rel" and stopping: "lp_stopping (lw_procs w p)"
    using leaseInvD(3) [OF inv, of p] act by (simp_all add: procOK_def)
  note store = exec_release_store [OF laws ok run]
  have quiet: "quiet ?x" using store stopping by (simp add: quiet_def)
  have "releaseOK api ke leases k ?w p 0 rel'"
    by (rule exec_release_OK [OF laws inv ok run]) (use quiet in simp_all)
  hence "procOK api ke leases k ?w p ?x"
    using store stopping leaseInvD(1) [OF inv] by (auto simp: procOK_def intro: backed_0)
  with quiet store show ?thesis
    using leaseInv_proc [OF inv region, of s' p ?x ?w "lw_late w"] by simp
qed

lemma step_started:
  assumes "one_region leases k" "\<And>q. unixEpoch \<le> lw_clock w q" "lw_clock w' = lw_clock w"
  shows "stepOK api ke leases k w' p (Step ke (leases p) stopping (lw_clock w p))"
  using assms by (auto simp: Step_def stepOK_def one_region_def intro: backed_0)

lemma quiet_started: "quiet x \<Longrightarrow> quiet (x\<lparr>lp_activity := Stepping (Step ke l (lp_stopping x) now)\<rparr>)"
  by (simp add: quiet_def Step_def)

lemma release_started:
  assumes "one_region leases k"
  shows "releaseOK api ke leases k w p lead (Release ke (leases p) now)"
  using assms by (auto simp: Release_def releaseOK_def one_region_def)

text \<open>A process changes its flags or starts or ends an activity; the server is not called.\<close>

lemma local_inv:
  assumes inv: "leaseInv api ke leases skew k w" and region: "one_region leases k"
    and silent: "quiet (lw_procs w p) \<Longrightarrow> quiet x" and lead: "lp_leadUntil x = lp_leadUntil (lw_procs w p)"
    and act: "\<And>w'. evolves api leases k w w' \<Longrightarrow> lw_clock w' = lw_clock w \<Longrightarrow>
      (case lp_activity x of Idle \<Rightarrow> True | Stepping prog \<Rightarrow> stepOK api ke leases k w' p prog
       | Releasing rel \<Rightarrow> lp_stopping x \<and> releaseOK api ke leases k w' p (lp_leadUntil x) rel)"
    and late: "\<And>y. y \<in> late \<Longrightarrow> y \<in> lw_late w \<or> lateOK api leases k w y"
  shows "leaseInv api ke leases skew k (setProc (w\<lparr>lw_late := late\<rparr>) p x)"
proof (rule leaseInv_proc [OF inv region safeStore_same silent, where late = late])
  let ?w = "setProc (w\<lparr>lw_late := late\<rparr>) p x"
  assume ev: "evolves api leases k w ?w"
  have "backed api leases k ?w p (lp_leadUntil x)"
    using backed_kept [OF ev region] leaseInvD(3) [OF inv, of p] quiet_lead by (auto simp: procOK_def lead)
  with act [OF ev] show "procOK api ke leases k ?w p x"
    by (cases "lp_activity x") (simp_all add: procOK_def)
  show "y \<in> lw_late w \<or> lateOK api leases k ?w y" if "y \<in> late" for y
    using late [OF that] lateOK_kept [OF ev] by blast
qed simp_all

lemma stop_inv:
  assumes inv: "leaseInv api ke leases skew k w" and region: "one_region leases k"
  shows "leaseInv api ke leases skew k (setProc w p ((lw_procs w p)\<lparr>lp_stopping := True\<rparr>))"
proof -
  let ?x = "(lw_procs w p)\<lparr>lp_stopping := True\<rparr>"
  have "case lp_activity ?x of Idle \<Rightarrow> True | Stepping prog \<Rightarrow> stepOK api ke leases k w' p prog
       | Releasing rel \<Rightarrow> lp_stopping ?x \<and> releaseOK api ke leases k w' p (lp_leadUntil ?x) rel"
    if "evolves api leases k w w'" for w'
    using procOK_kept [OF that region leaseInvD(3) [OF inv, of p]]
    by (cases "lp_activity (lw_procs w p)") (simp_all add: procOK_def)
  from local_inv [OF inv region, of p ?x "lw_late w", OF _ _ this] show ?thesis
    by (simp add: quiet_def)
qed

lemma lose_step_inv:
  assumes inv: "leaseInv api ke leases skew k w" and region: "one_region leases k"
    and act: "lp_activity (lw_procs w p) = Stepping prog" and lost: "loses prog e = Some (write, prog')"
  shows "leaseInv api ke leases skew k
    (setProc (w\<lparr>lw_late := insert write (lw_late w)\<rparr>) p ((lw_procs w p)\<lparr>lp_activity := Stepping prog'\<rparr>))"
proof (rule local_inv [OF inv region])
  have "stepOK api ke leases k w p prog" using leaseInvD(3) [OF inv, of p] act by (simp add: procOK_def)
  note ok = loses_step [OF this lost leaseInvD(1) [OF inv]]
  have busy: "\<not> quiet (lw_procs w p)" using act lost by (auto simp: quiet_def)
  thus "quiet (lw_procs w p) \<Longrightarrow> quiet ((lw_procs w p)\<lparr>lp_activity := Stepping prog'\<rparr>)" by blast
  show "case lp_activity ((lw_procs w p)\<lparr>lp_activity := Stepping prog'\<rparr>) of Idle \<Rightarrow> True
      | Stepping prog \<Rightarrow> stepOK api ke leases k w' p prog
      | Releasing rel \<Rightarrow> lp_stopping ((lw_procs w p)\<lparr>lp_activity := Stepping prog'\<rparr>) \<and>
          releaseOK api ke leases k w' p (lp_leadUntil ((lw_procs w p)\<lparr>lp_activity := Stepping prog'\<rparr>)) rel"
    if "evolves api leases k w w'" for w'
    using stepOK_kept [OF that region conjunct2 [OF ok]] busy by simp
  show "\<And>y. y \<in> insert write (lw_late w) \<Longrightarrow> y \<in> lw_late w \<or> lateOK api leases k w y"
    using ok by blast
qed simp

lemma lose_release_inv:
  assumes inv: "leaseInv api ke leases skew k w" and region: "one_region leases k"
    and act: "lp_activity (lw_procs w p) = Releasing rel" and lost: "loses rel e = Some (write, rel')"
  shows "leaseInv api ke leases skew k
    (setProc (w\<lparr>lw_late := insert write (lw_late w)\<rparr>) p ((lw_procs w p)\<lparr>lp_activity := Releasing rel'\<rparr>))"
proof (rule local_inv [OF inv region])
  let ?x = "(lw_procs w p)\<lparr>lp_activity := Releasing rel'\<rparr>"
  have now: "releaseOK api ke leases k w p (lp_leadUntil (lw_procs w p)) rel" "lp_stopping (lw_procs w p)"
    using leaseInvD(3) [OF inv, of p] act by (simp_all add: procOK_def)
  note ok = loses_release [OF now(1) lost]
  show "quiet (lw_procs w p) \<Longrightarrow> quiet ?x" by (simp add: quiet_def)
  show "case lp_activity ?x of Idle \<Rightarrow> True | Stepping prog \<Rightarrow> stepOK api ke leases k w' p prog
      | Releasing rel \<Rightarrow> lp_stopping ?x \<and> releaseOK api ke leases k w' p (lp_leadUntil ?x) rel"
    if "evolves api leases k w w'" for w'
    using releaseOK_kept [OF that conjunct1 [OF conjunct2 [OF ok]]] now(2) by simp
  show "\<And>y. y \<in> insert write (lw_late w) \<Longrightarrow> y \<in> lw_late w \<or> lateOK api leases k w y"
    using ok by blast
qed simp

lemma store_inv:
  assumes inv: "leaseInv api ke leases skew k w" and region: "one_region leases k" and store: "safeStore api leases k w s'"
  shows "leaseInv api ke leases skew k (w\<lparr>lw_store := s'\<rparr>)"
proof -
  have "leaseInv api ke leases skew k (setProc (w\<lparr>lw_store := s', lw_late := lw_late w\<rparr>) 0 (lw_procs w 0))"
    by (rule leaseInv_proc [OF inv region store _ refl]) (use procOK_kept [OF _ region leaseInvD(3) [OF inv]] in auto)
  thus ?thesis by simp
qed

lemma tick_inv:
  assumes inv: "leaseInv api ke leases skew k w" and region: "one_region leases k"
    and clock: "\<And>p. lw_clock w p \<le> clock p" "\<And>p q. clock p \<le> clock q + skew"
  shows "leaseInv api ke leases skew k (w\<lparr>lw_clock := clock\<rparr>)"
proof -
  have ev: "evolves api leases k w (w\<lparr>lw_clock := clock\<rparr>)"
    using leaseInvD(1) [OF inv] clock(1) by (simp add: evolves_def)
  show ?thesis
    by (rule leaseInv_move [OF inv region ev, where p = 0])
      (use procOK_kept [OF ev region leaseInvD(3) [OF inv]] clock(2) in simp_all)
qed

lemma activity_inv:
  assumes inv: "leaseInv api ke leases skew k w" and region: "one_region leases k"
    and silent: "quiet (lw_procs w p) \<Longrightarrow> quiet ((lw_procs w p)\<lparr>lp_activity := a\<rparr>)"
    and act: "\<And>w'. lw_clock w' = lw_clock w \<Longrightarrow>
      (case a of Idle \<Rightarrow> True | Stepping prog \<Rightarrow> stepOK api ke leases k w' p prog
       | Releasing rel \<Rightarrow> lp_stopping (lw_procs w p) \<and> releaseOK api ke leases k w' p (lp_leadUntil (lw_procs w p)) rel)"
  shows "leaseInv api ke leases skew k (setProc w p ((lw_procs w p)\<lparr>lp_activity := a\<rparr>))"
proof -
  let ?x = "(lw_procs w p)\<lparr>lp_activity := a\<rparr>"
  have "case lp_activity ?x of Idle \<Rightarrow> True | Stepping prog \<Rightarrow> stepOK api ke leases k w' p prog
      | Releasing rel \<Rightarrow> lp_stopping ?x \<and> releaseOK api ke leases k w' p (lp_leadUntil ?x) rel"
    if "lw_clock w' = lw_clock w" for w'
    using act [OF that] by (cases a) simp_all
  from local_inv [OF inv region silent _ this, of "lw_late w"] show ?thesis
    by simp
qed

lemma lease_step_inv:
  assumes step: "lease_step api ke leases skew k w w'" and laws: "api_laws api" and region: "one_region leases k"
    and inv: "leaseInv api ke leases skew k w"
  shows "leaseInv api ke leases skew k w'"
  using step inv
proof cases
  case (start_step p)
  show ?thesis unfolding start_step(1)
    by (rule activity_inv [OF inv region]) (simp_all add: quiet_started step_started [OF region leaseInvD(1) [OF inv]])
next
  case (start_release p)
  show ?thesis unfolding start_release(1)
    by (rule activity_inv [OF inv region]) (use start_release(3) release_started [OF region] in \<open>simp_all add: quiet_def\<close>)
next
  case (finish_step p r)
  show ?thesis unfolding finish_step(1) by (rule activity_inv [OF inv region]) (simp_all add: quiet_def)
next
  case (finish_release p b)
  show ?thesis unfolding finish_release(1) by (rule activity_inv [OF inv region]) (simp_all add: quiet_def)
next
  case (others s')
  thus ?thesis using store_inv [OF inv region] by (simp add: safeStore_def)
next
  case (land "write")
  thus ?thesis using store_inv [OF inv region lands_safe [OF laws leaseInvD(4) [OF inv]]] by simp
next
  case (tick clock)
  show ?thesis unfolding tick(1) by (rule tick_inv [OF inv region tick(2,3)])
next
  case (stop p)
  show ?thesis unfolding stop by (rule stop_inv [OF inv region])
next
  case (run_step p prog s' lead' prog')
  show ?thesis unfolding run_step(1) by (rule run_step_inv [OF laws region inv run_step(2,3)])
next
  case (run_release p rel s' lead' rel')
  show ?thesis unfolding run_release(1) by (rule run_release_inv [OF laws region inv run_release(2,3)])
next
  case (lose_step p prog e "write" prog')
  show ?thesis unfolding lose_step(1) by (rule lose_step_inv [OF inv region lose_step(2,3)])
next
  case (lose_release p rel e "write" rel')
  show ?thesis unfolding lose_release(1) by (rule lose_release_inv [OF inv region lose_release(2,3)])
qed

lemma lease_initial_inv:
  assumes "lease_initial api leases skew k w"
  shows "leaseInv api ke leases skew k w"
proof -
  have epoch: "unixEpoch \<le> lw_clock w p" for p using assms by (simp add: lease_initial_def)
  have "procOK api ke leases k w p (lw_procs w p)" for p
    using assms backed_0 [OF epoch] by (simp add: lease_initial_def procOK_def)
  with assms show ?thesis
    by (simp add: lease_initial_def leaseInv_def)
qed

lemma lease_reaches_inv:
  assumes "lease_reaches api ke leases skew k w0 w" "lease_initial api leases skew k w0" "api_laws api" "one_region leases k"
  shows "leaseInv api ke leases skew k w"
  using assms(1)
proof (induction rule: rtranclp_induct)
  case base
  show ?case by (rule lease_initial_inv [OF assms(2)])
next
  case (step w1 w2)
  show ?case by (rule lease_step_inv [OF step(2) assms(3,4) step(3)])
qed

text \<open>A process that leads by its own clock has its lease stored.\<close>

lemma leader_holds:
  assumes inv: "leaseInv api ke leases skew k w" and margin: "skew \<le> duration (leases p) div 3"
    and leads: "Leads (leases p) (lp_leadUntil (lw_procs w p)) (lw_clock w p)"
  shows "heldUntil api leases k (lw_store w) p (lp_leadUntil (lw_procs w p))"
proof -
  have "lp_leadUntil (lw_procs w p) > UnixNano (lw_clock w q)" for q
    using leads margin leaseInvD(2) [OF inv, of q p] by (simp add: Leads_def UnixNano_def)
  moreover have "backed api leases k w p (lp_leadUntil (lw_procs w p))"
    using leaseInvD(3) [OF inv, of p] by (simp add: procOK_def)
  ultimately show ?thesis
    unfolding backed_def by (meson leD)
qed

text \<open>
  C3: At most one control-plane process leads a region. Several processes take steps and releases of the
  region's lease; their calls to the API server interleave in any order, calls may fail, and a write
  whose answer was lost may be carried out at any later time. As long as the clocks of the processes
  differ by no more than a third of a lease, two of them never both find that they lead.
\<close>

theorem at_most_one_leads:
  assumes "api_laws api" and "one_region leases k" and "lease_initial api leases skew k w0"
    and "lease_reaches api ke leases skew k w0 w"
    and "\<forall>p. skew \<le> duration (leases p) div 3"
    and "Leads (leases p) (lp_leadUntil (lw_procs w p)) (lw_clock w p)"
    and "Leads (leases q) (lp_leadUntil (lw_procs w q)) (lw_clock w q)"
  shows "p = q"
proof -
  note inv = lease_reaches_inv [OF assms(4,3,1,2)]
  have "heldUntil api leases k (lw_store w) p (lp_leadUntil (lw_procs w p))"
    and "heldUntil api leases k (lw_store w) q (lp_leadUntil (lw_procs w q))"
    using leader_holds [OF inv] assms(5-7) by blast+
  hence "rg_identity (leases p) = rg_identity (leases q)"
    by (auto simp: heldUntil_def)
  with assms(2) show ?thesis
    by (simp add: one_region_def)
qed

subsection \<open>A server that keeps a map\<close>

definition notFound :: go_error where "notFound = PlainError ''not found''"
definition alreadyExists :: go_error where "alreadyExists = PlainError ''already exists''"
definition conflict :: go_error where "conflict = PlainError ''conflict''"

definition plainErrors :: kube_errors where
  "plainErrors = \<lparr>ke_isNotFound = (\<lambda>e. e = notFound), ke_isAlreadyExists = (\<lambda>e. e = alreadyExists), ke_isConflict = (\<lambda>e. e = conflict)\<rparr>"

type_synonym slots = "(string \<times> string \<Rightarrow> lease_map option) \<times> nat"

definition slotAt :: "slots \<Rightarrow> string \<times> string \<Rightarrow> lease_map option" where
  "slotAt s k = (case fst s k of None \<Rightarrow> None | Some cm \<Rightarrow> if lm_key cm = k then Some cm else None)"

definition slotWrite :: "slots \<Rightarrow> lease_map \<Rightarrow> slots \<times> err" where
  "slotWrite s cm = (((fst s)(lm_key cm \<mapsto> cm\<lparr>lm_resourceVersion := nat_str (snd s)\<rparr>), Suc (snd s)), None)"

definition slotServer :: "slots lease_api" where
  "slotServer = \<lparr>
     la_get = (\<lambda>s k. (s, case slotAt s k of None \<Rightarrow> Inl notFound | Some cm \<Rightarrow> Inr cm)),
     la_create = (\<lambda>s cm. if slotAt s (lm_key cm) = None then slotWrite s cm else (s, Some alreadyExists)),
     la_update = (\<lambda>s cm. case slotAt s (lm_key cm) of
        None \<Rightarrow> (s, Some notFound)
      | Some old \<Rightarrow> if lm_resourceVersion old = lm_resourceVersion cm then slotWrite s cm else (s, Some conflict)),
     la_object = slotAt,
     la_versions = (\<lambda>s k. nat_str ` {..<snd s})\<rparr>"

lemma slotWrite_stored: "slotWrite s cm = (s', r) \<Longrightarrow> stored slotServer cm s s'"
  by (auto simp: slotWrite_def stored_def slotServer_def slotAt_def lessThan_Suc intro!: exI [of _ "nat_str (snd s)"])

lemma slotServer_laws: "api_laws slotServer"
  unfolding api_laws_def
proof (intro conjI allI)
  fix s :: slots and k and cm :: lease_map
  show "let (s', r) = la_get slotServer s k in
      unchanged slotServer k s s' \<and> (case r of Inl _ \<Rightarrow> True | Inr cm \<Rightarrow> la_object slotServer s k = Some cm \<and> lm_key cm = k)"
    by (auto simp: slotServer_def unchanged_def slotAt_def split: option.splits if_splits)
  show "let (s', r) = la_create slotServer s cm in
      (r \<noteq> None \<and> unchanged slotServer (lm_key cm) s s') \<or> (la_object slotServer s (lm_key cm) = None \<and> stored slotServer cm s s')"
    using slotWrite_stored [of s cm "fst (slotWrite s cm)"]
    by (cases "slotWrite s cm") (auto simp: slotServer_def unchanged_def slotAt_def)
  show "let (s', r) = la_update slotServer s cm in
      (r \<noteq> None \<and> unchanged slotServer (lm_key cm) s s') \<or>
      (\<exists>old. la_object slotServer s (lm_key cm) = Some old \<and> lm_resourceVersion old = lm_resourceVersion cm \<and> stored slotServer cm s s')"
    using slotWrite_stored [of s cm "fst (slotWrite s cm)"]
    by (cases "slotWrite s cm") (auto simp: slotServer_def unchanged_def split: option.splits)
qed

definition sampleLease :: "nat \<Rightarrow> RegionLease" where
  "sampleLease p = \<lparr>rg_namespace = ''dns'', rg_region = ''us-east'', rg_identity = nat_str p, rg_leaseDuration = 0\<rparr>"

abbreviation idleProc :: lease_proc where
  "idleProc \<equiv> \<lparr>lp_leadUntil = 0, lp_stopping = False, lp_activity = Idle\<rparr>"

definition sampleWorld :: "slots \<Rightarrow> lease_proc \<Rightarrow> slots lease_world" where
  "sampleWorld s x = \<lparr>lw_store = s, lw_clock = (\<lambda>_. unixEpoch), lw_procs = (\<lambda>_. idleProc)(0 := x), lw_late = {}\<rparr>"

definition firstLease :: lease_map where
  "firstLease = \<lparr>lm_key = leaseKey (sampleLease 0), lm_resourceVersion = [],
     lm_labels = [(''internal-dns.miloapis.com/region'', SafeToken (rg_region (sampleLease 0)))],
     lm_state = Encoded (newLease (sampleLease 0) unixEpoch)\<rparr>"

abbreviation sampleReaches where
  "sampleReaches \<equiv> lease_reaches slotServer plainErrors sampleLease 0 (leaseKey (sampleLease 0))"

lemma sample_runs:
  assumes "exec slotServer s lead prog = (s', lead', prog')"
    and "sampleReaches w0 (sampleWorld s \<lparr>lp_leadUntil = lead, lp_stopping = False, lp_activity = Stepping prog\<rparr>)"
  shows "sampleReaches w0 (sampleWorld s' \<lparr>lp_leadUntil = lead', lp_stopping = False, lp_activity = Stepping prog'\<rparr>)"
proof -
  have "lease_step slotServer plainErrors sampleLease 0 (leaseKey (sampleLease 0))
    (sampleWorld s \<lparr>lp_leadUntil = lead, lp_stopping = False, lp_activity = Stepping prog\<rparr>)
    (sampleWorld s' \<lparr>lp_leadUntil = lead', lp_stopping = False, lp_activity = Stepping prog'\<rparr>)"
    using lease_step.run_step [of "sampleWorld s \<lparr>lp_leadUntil = lead, lp_stopping = False, lp_activity = Stepping prog\<rparr>" 0 prog
      slotServer s' lead' prog' plainErrors sampleLease 0 "leaseKey (sampleLease 0)"] assms(1)
    by (simp add: sampleWorld_def)
  with assms(2) show ?thesis by (rule rtranclp.rtrancl_into_rtrancl)
qed

lemma sample_leads:
  "sampleReaches (sampleWorld (Map.empty, 0) idleProc)
     (sampleWorld ([leaseKey (sampleLease 0) \<mapsto> firstLease\<lparr>lm_resourceVersion := nat_str 0\<rparr>], 1)
        \<lparr>lp_leadUntil = UnixNano (unixEpoch + 30 * 10 ^ 9), lp_stopping = False, lp_activity = Stepping (Return None)\<rparr>)"
proof -
  let ?l = "sampleLease 0"
  have "lease_step slotServer plainErrors sampleLease 0 (leaseKey ?l) (sampleWorld (Map.empty, 0) idleProc)
      (sampleWorld (Map.empty, 0) \<lparr>lp_leadUntil = 0, lp_stopping = False,
         lp_activity = Stepping (GetLease (leaseKey ?l) (stepGot plainErrors ?l unixEpoch))\<rparr>)"
    using lease_step.start_step [of "sampleWorld (Map.empty, 0) idleProc" 0 slotServer plainErrors sampleLease 0 "leaseKey ?l"]
    by (simp add: sampleWorld_def Step_def)
  hence "sampleReaches (sampleWorld (Map.empty, 0) idleProc) (sampleWorld (Map.empty, 0) \<lparr>lp_leadUntil = 0, lp_stopping = False,
      lp_activity = Stepping (GetLease (leaseKey ?l) (stepGot plainErrors ?l unixEpoch))\<rparr>)"
    by (rule r_into_rtranclp)
  hence "sampleReaches (sampleWorld (Map.empty, 0) idleProc) (sampleWorld (Map.empty, 0) \<lparr>lp_leadUntil = 0, lp_stopping = False,
      lp_activity = Stepping (CreateLease firstLease (stepCreated plainErrors ?l unixEpoch))\<rparr>)"
    by (rule sample_runs [rotated]) (simp add: slotServer_def slotAt_def stepGot_def plainErrors_def firstLease_def)
  hence "sampleReaches (sampleWorld (Map.empty, 0) idleProc)
      (sampleWorld ([leaseKey (sampleLease 0) \<mapsto> firstLease\<lparr>lm_resourceVersion := nat_str 0\<rparr>], 1) \<lparr>lp_leadUntil = 0, lp_stopping = False,
         lp_activity = Stepping (SetLeadUntil (unixEpoch + duration ?l) (Return None))\<rparr>)"
    by (rule sample_runs [rotated]) (simp add: slotServer_def slotAt_def slotWrite_def stepCreated_def firstLease_def)
  thus ?thesis
    by (rule sample_runs [rotated])
      (simp add: setLeadUntil_def IsZero_def duration_def sampleLease_def unixEpoch_def)
qed

theorem at_most_one_leads_witness:
  "\<exists>w. sampleReaches (sampleWorld (Map.empty, 0) idleProc) w \<and> Leads (sampleLease 0) (lp_leadUntil (lw_procs w 0)) (lw_clock w 0) \<and>
     (\<forall>q. Leads (sampleLease q) (lp_leadUntil (lw_procs w q)) (lw_clock w q) \<longrightarrow> 0 = q)"
proof -
  let ?w = "sampleWorld ([leaseKey (sampleLease 0) \<mapsto> firstLease\<lparr>lm_resourceVersion := nat_str 0\<rparr>], 1)
    \<lparr>lp_leadUntil = UnixNano (unixEpoch + 30 * 10 ^ 9), lp_stopping = False, lp_activity = Stepping (Return None)\<rparr>"
  have region: "one_region sampleLease (leaseKey (sampleLease 0))"
    by (simp add: one_region_def sampleLease_def leaseKey_def)
  have initial: "lease_initial slotServer sampleLease 0 (leaseKey (sampleLease 0)) (sampleWorld (Map.empty, 0) idleProc)"
    by (simp add: lease_initial_def sampleWorld_def slotServer_def slotAt_def)
  have margin: "\<forall>p. 0 \<le> duration (sampleLease p) div 3"
    by (simp add: duration_def sampleLease_def)
  have leads: "Leads (sampleLease 0) (lp_leadUntil (lw_procs ?w 0)) (lw_clock ?w 0)"
    by (simp add: Leads_def duration_def sampleLease_def sampleWorld_def UnixNano_def)
  have "\<forall>q. Leads (sampleLease q) (lp_leadUntil (lw_procs ?w q)) (lw_clock ?w q) \<longrightarrow> 0 = q"
    using at_most_one_leads [OF slotServer_laws region initial sample_leads margin leads] by blast
  with sample_leads leads show ?thesis by blast
qed

section \<open>A free lease is taken, a released one handed over\<close>

text \<open>A program run to its end, with no other process in between.\<close>

primrec runLease :: "'a lease_prog \<Rightarrow> 's lease_api \<Rightarrow> 's \<Rightarrow> int \<Rightarrow> 's \<times> int \<times> 'a" where
  "runLease (Return a) api s lead = (s, lead, a)"
| "runLease (GetLease k c) api s lead = (let (s', r) = la_get api s k in runLease (c r) api s' lead)"
| "runLease (CreateLease cm c) api s lead = (let (s', r) = la_create api s cm in runLease (c r) api s' lead)"
| "runLease (UpdateLease cm c) api s lead = (let (s', r) = la_update api s cm in runLease (c r) api s' lead)"
| "runLease (SetLeadUntil t c) api s lead = runLease c api s (setLeadUntil t)"

text \<open>A server that is up: what is there is read, what is not there is not found, and a write that is due
  succeeds.\<close>

definition api_up :: "'s lease_api \<Rightarrow> kube_errors \<Rightarrow> bool" where
  "api_up api ke \<longleftrightarrow>
     (\<forall>s k. case la_object api s k of
        None \<Rightarrow> (\<exists>e. snd (la_get api s k) = Inl e \<and> ke_isNotFound ke e)
      | Some cm \<Rightarrow> snd (la_get api s k) = Inr cm) \<and>
     (\<forall>s cm. la_object api s (lm_key cm) = None \<longrightarrow> snd (la_create api s cm) = None) \<and>
     (\<forall>s cm old. la_object api s (lm_key cm) = Some old \<longrightarrow> lm_resourceVersion old = lm_resourceVersion cm \<longrightarrow>
        snd (la_update api s cm) = None)"

text \<open>Process \<open>l\<close> may take the lease at \<open>now\<close>.\<close>

definition leaseFree :: "RegionLease \<Rightarrow> go_time \<Rightarrow> lease_map option \<Rightarrow> bool" where
  "leaseFree l now found =
     (case found of
        None \<Rightarrow> True
      | Some cm \<Rightarrow>
          (case lm_state cm of
             Undecodable e \<Rightarrow> False
           | Encoded st \<Rightarrow> rl_holder st = rg_identity l \<or> rl_leaseUntil st \<le> now))"

lemma get_up:
  assumes "api_laws api" "api_up api ke"
  obtains s' r where "la_get api s k = (s', r)" "la_object api s' k = la_object api s k"
    "case la_object api s k of None \<Rightarrow> \<exists>e. r = Inl e \<and> ke_isNotFound ke e | Some cm \<Rightarrow> r = Inr cm \<and> lm_key cm = k"
proof -
  obtain s' r where r: "la_get api s k = (s', r)" by fastforce
  have up: "case la_object api s k of None \<Rightarrow> \<exists>e. snd (la_get api s k) = Inl e \<and> ke_isNotFound ke e | Some cm \<Rightarrow> snd (la_get api s k) = Inr cm"
    using assms(2) unfolding api_up_def by blast
  have "case la_object api s k of None \<Rightarrow> \<exists>e. r = Inl e \<and> ke_isNotFound ke e | Some cm \<Rightarrow> r = Inr cm \<and> lm_key cm = k"
    using up r get_law(2) [OF assms(1) r] by (cases "la_object api s k") auto
  with r get_law(1) [OF assms(1) r] that show ?thesis
    by (simp add: unchanged_def)
qed

lemma create_up:
  assumes "api_laws api" "api_up api ke" "la_object api s (lm_key cm) = None"
  obtains s' where "la_create api s cm = (s', None)" "stored api cm s s'"
proof -
  obtain s' r where r: "la_create api s cm = (s', r)" by fastforce
  moreover have "snd (la_create api s cm) = None"
    using assms(2,3) unfolding api_up_def by blast
  ultimately show ?thesis
    using create_law [OF assms(1) r] that by auto
qed

lemma update_up:
  assumes "api_laws api" "api_up api ke" "la_object api s (lm_key cm) = Some old" "lm_resourceVersion old = lm_resourceVersion cm"
  obtains s' where "la_update api s cm = (s', None)" "stored api cm s s'"
proof -
  obtain s' r where r: "la_update api s cm = (s', r)" by fastforce
  moreover have "snd (la_update api s cm) = None"
    using assms(2-4) unfolding api_up_def by blast
  ultimately show ?thesis
    using update_law [OF assms(1) r] that by auto
qed

definition leadsFrom :: "RegionLease \<Rightarrow> go_time \<Rightarrow> int \<Rightarrow> bool" where
  "leadsFrom l now lead \<longleftrightarrow> (\<forall>t. now \<le> t \<longrightarrow> t \<le> now + duration l div 3 \<longrightarrow> Leads l lead t)"

lemma leadsFrom_until:
  assumes "unixEpoch \<le> now" "duration l * 2 div 3 < until - now"
  shows "leadsFrom l now (setLeadUntil until)"
proof -
  have "0 < unixEpoch" by (simp add: unixEpoch_def)
  moreover have "0 < duration l * 2 div 3 \<or> 0 \<le> duration l * 2 div 3" using duration_positive [of l] by linarith
  ultimately have "until \<noteq> 0" using assms by linarith
  moreover have "2 * (duration l div 3) \<le> duration l * 2 div 3" by linarith
  ultimately show ?thesis
    using assms(2) by (auto simp: leadsFrom_def Leads_def setLeadUntil_def IsZero_def UnixNano_def)
qed

lemma newLease_leads:
  assumes "unixEpoch \<le> now"
  shows "leadsFrom l now (setLeadUntil (rl_leaseUntil (newLease l now)))"
  using leadsFrom_until [OF assms, of l "now + duration l"] duration_positive [of l] by (simp add: newLease_def)

lemma Step_taken:
  assumes laws: "api_laws api" and up: "api_up api ke" and late: "unixEpoch \<le> now"
    and free: "leaseFree l now (la_object api s (leaseKey l))"
    and run: "runLease (Step ke l False now) api s lead = (s', lead', e)"
  shows "e = None \<and> leadsFrom l now lead' \<and>
    (\<exists>cm st. la_object api s' (leaseKey l) = Some cm \<and> lm_state cm = Encoded st \<and> rl_holder st = rg_identity l \<and>
       lead' = setLeadUntil (rl_leaseUntil st))"
proof -
  let ?k = "leaseKey l"
  obtain s1 r where get: "la_get api s ?k = (s1, r)" "la_object api s1 ?k = la_object api s ?k"
    "case la_object api s ?k of None \<Rightarrow> \<exists>e. r = Inl e \<and> ke_isNotFound ke e | Some cm \<Rightarrow> r = Inr cm \<and> lm_key cm = ?k"
    by (rule get_up [OF laws up, of s ?k])
  have go: "runLease (stepGot ke l now r) api s1 lead = (s', lead', e)"
    using run get(1) by (simp add: Step_def)
  show ?thesis
  proof (cases "la_object api s ?k")
    case None
    with get(3) obtain e1 where r: "r = Inl e1" "ke_isNotFound ke e1" by auto
    let ?cm = "\<lparr>lm_key = ?k, lm_resourceVersion = [], lm_labels = [(''internal-dns.miloapis.com/region'', SafeToken (rg_region l))],
      lm_state = Encoded (newLease l now)\<rparr>"
    obtain s2 where "la_create api s1 ?cm = (s2, None)" "stored api ?cm s1 s2"
      by (rule create_up [OF laws up, of s1 ?cm]) (use get(2) None in simp)
    with go r newLease_leads [OF late, of l] show ?thesis
      by (auto simp: stepGot_def stepCreated_def stored_def newLease_def)
  next
    case (Some cm)
    with get(3) free obtain st where r: "r = Inr cm" "lm_key cm = ?k" and st: "lm_state cm = Encoded st"
      "rl_holder st = rg_identity l \<or> rl_leaseUntil st \<le> now"
      by (auto simp: leaseFree_def split: lease_data.splits)
    show ?thesis
    proof (cases "rl_holder st = rg_identity l \<and> rl_leaseUntil st - now > duration l * 2 div 3")
      case True
      with go r st get(2) Some leadsFrom_until [OF late, of l "rl_leaseUntil st"] show ?thesis
        by (auto simp: stepGot_def)
    next
      case False
      let ?cm = "cm\<lparr>lm_state := Encoded (newLease l now)\<rparr>"
      obtain s2 where "la_update api s1 ?cm = (s2, None)" "stored api ?cm s1 s2"
        by (rule update_up [OF laws up, of s1 ?cm cm]) (use get(2) Some r in simp_all)
      with False go r st newLease_leads [OF late, of l] show ?thesis
        by (auto simp: stepGot_def stepUpdated_def stored_def newLease_def)
    qed
  qed
qed

text \<open>
  C21: A region does not stay without a leader. When the API server is up and the lease is free - there is
  none yet, it has ended, or it is the process's own - a step takes or renews it without an error, stores
  it, and the process leads from then on for at least a third of a lease. And when its holder
  releases the lease, whichever process takes a step next leads at once.
\<close>

theorem free_lease_taken:
  assumes "api_laws api" and "api_up api ke" and "unixEpoch \<le> now"
  shows "(\<forall>s lead. leaseFree l now (la_object api s (leaseKey l)) \<longrightarrow>
      (let (s', lead', e) = runLease (Step ke l False now) api s lead in
       e = None \<and> leadsFrom l now lead' \<and>
       (\<exists>cm st. la_object api s' (leaseKey l) = Some cm \<and> lm_state cm = Encoded st \<and> rl_holder st = rg_identity l \<and>
          lead' = setLeadUntil (rl_leaseUntil st)))) \<and>
    (\<forall>s lead h cm st then0. leaseKey h = leaseKey l \<longrightarrow> then0 \<le> now \<longrightarrow> la_object api s (leaseKey l) = Some cm \<longrightarrow>
      lm_state cm = Encoded st \<longrightarrow> rl_holder st = rg_identity h \<longrightarrow>
      (let (s', lead', r) = runLease (Release ke h then0) api s lead
       in lead' = 0 \<and> snd r = None \<and> leaseFree l now (la_object api s' (leaseKey l))))"
proof (intro conjI allI impI)
  fix s lead assume "leaseFree l now (la_object api s (leaseKey l))"
  with Step_taken [OF assms] show "let (s', lead', e) = runLease (Step ke l False now) api s lead in
       e = None \<and> leadsFrom l now lead' \<and>
       (\<exists>cm st. la_object api s' (leaseKey l) = Some cm \<and> lm_state cm = Encoded st \<and> rl_holder st = rg_identity l \<and>
          lead' = setLeadUntil (rl_leaseUntil st))"
    by (simp add: Let_def split: prod.splits)
next
  fix s lead h cm st then0
  assume key: "leaseKey h = leaseKey l" and before: "then0 \<le> now" and found: "la_object api s (leaseKey l) = Some cm"
    and st: "lm_state cm = Encoded st" "rl_holder st = rg_identity h"
  obtain s1 r where get: "la_get api s (leaseKey l) = (s1, r)" "la_object api s1 (leaseKey l) = Some cm" "r = Inr cm" "lm_key cm = leaseKey l"
    by (rule get_up [OF assms(1,2), of s "leaseKey l"]) (simp add: found)
  show "let (s', lead', r) = runLease (Release ke h then0) api s lead
       in lead' = 0 \<and> snd r = None \<and> leaseFree l now (la_object api s' (leaseKey l))"
  proof (cases "rl_leaseUntil st > then0")
    case True
    let ?cm = "cm\<lparr>lm_state := Encoded (st\<lparr>rl_leaseUntil := then0\<rparr>)\<rparr>"
    obtain s2 where "la_update api s1 ?cm = (s2, None)" "stored api ?cm s1 s2"
      by (rule update_up [OF assms(1,2), of s1 ?cm cm]) (use get in simp_all)
    with True get st key before show ?thesis
      by (auto simp: Release_def releaseGot_def releaseUpdated_def stored_def leaseFree_def)
  next
    case False
    with get st key before show ?thesis
      by (simp add: Release_def releaseGot_def leaseFree_def)
  qed
qed

lemma slotServer_up: "api_up slotServer plainErrors"
  unfolding api_up_def
proof (intro conjI allI impI)
  fix s :: slots and k
  show "case la_object slotServer s k of
      None \<Rightarrow> \<exists>e. snd (la_get slotServer s k) = Inl e \<and> ke_isNotFound plainErrors e
    | Some cm \<Rightarrow> snd (la_get slotServer s k) = Inr cm"
    by (simp add: slotServer_def plainErrors_def split: option.splits)
next
  fix s :: slots and cm old :: lease_map
  assume "la_object slotServer s (lm_key cm) = Some old" "lm_resourceVersion old = lm_resourceVersion cm"
  thus "snd (la_update slotServer s cm) = None"
    by (simp add: slotServer_def slotWrite_def)
qed (simp add: slotServer_def slotWrite_def)

theorem free_lease_taken_witness:
  "let (s', lead', e) = runLease (Step plainErrors (sampleLease 0) False unixEpoch) slotServer (Map.empty, 0) 0
   in e = None \<and> Leads (sampleLease 0) lead' unixEpoch"
proof -
  have "leaseFree (sampleLease 0) unixEpoch (la_object slotServer (Map.empty, 0) (leaseKey (sampleLease 0)))"
    by (simp add: slotServer_def slotAt_def leaseFree_def)
  moreover have "0 \<le> duration (sampleLease 0) div 3"
    by (simp add: duration_def sampleLease_def)
  ultimately show ?thesis
    using free_lease_taken [OF slotServer_laws slotServer_up order_refl, of "sampleLease 0"]
    by (fastforce simp: leadsFrom_def Let_def split: prod.splits)
qed

end
