(* ===== verification/Feed.thy ===== *)
theory Feed
  imports Wire_Model
begin

text \<open>
  The input feed between regions (\<^verbatim>\<open>internal/internaldns/feed\<close>): a region's publisher keeps one key per
  object it wrote itself in a bucket, and copies the object to the federation hub; the applier of every
  other region keeps local copies of what the mirrored bucket holds. The clusters and the bucket are
  parameters. Labels and annotations are maps; a bucket value is represented by the entry its JSON
  encodes, and the spec of an object by its JSON text.
\<close>

section \<open>Definitions\<close>

subsection \<open>Objects, entries and keys\<close>

type_synonym string_map = "string \<Rightarrow> string option"

text \<open>Go's lookup: a key that is missing reads as the empty string.\<close>

definition at :: "string_map \<Rightarrow> string \<Rightarrow> string" where
  "at m k = (case m k of None \<Rightarrow> [] | Some v \<Rightarrow> v)"

record feed_object =
  fo_kind :: string
  fo_namespace :: string
  fo_name :: string
  fo_uid :: string
  fo_resourceVersion :: string
  fo_generation :: int
  fo_deleting :: bool
  fo_labels :: string_map
  fo_annotations :: string_map
  fo_spec :: string

record feed_namespace =
  fn_name :: string
  fn_deleting :: bool
  fn_labels :: string_map
  fn_annotations :: string_map

record access_binding =
  ab_namespace :: string
  ab_region :: string

definition OriginLabel :: string where "OriginLabel = ''internal-dns.miloapis.com/origin''"
definition OriginGenerationAnnotation :: string where "OriginGenerationAnnotation = ''internal-dns.miloapis.com/origin-generation''"
definition OriginUIDAnnotation :: string where "OriginUIDAnnotation = ''internal-dns.miloapis.com/origin-uid''"
definition replicatedLabel :: string where "replicatedLabel = ''internal-dns.miloapis.com/replicated''"
definition projectUIDAnnotation :: string where "projectUIDAnnotation = ''internal-dns.miloapis.com/project-uid''"
definition replicatedValue :: string where "replicatedValue = ''true''"

definition Kinds :: "string list" where "Kinds = [''DNSRegistration'', ''DNSRecordContribution'']"

record Entry =
  en_kind :: string
  en_namespace :: string
  en_name :: string
  en_generation :: int
  en_labels :: string_map
  en_annotations :: string_map
  en_spec :: string

datatype feed_value = EntryValue Entry | BadValue go_error

text \<open>\<^verbatim>\<open>Key\<close> of the feed.\<close>

definition feedKey :: "string \<Rightarrow> string \<Rightarrow> string \<Rightarrow> string" where
  "feedKey kind namespace name = kind @ ''.'' @ namespace @ ''.'' @ name"

text \<open>\<^verbatim>\<open>strings.SplitN(key, ".", 3)\<close> with three parts.\<close>

definition parseKey :: "string \<Rightarrow> (string \<times> string \<times> string) option" where
  "parseKey key =
     (let kind = takeWhile (\<lambda>c. c \<noteq> CHR ''.'') key; rest = dropWhile (\<lambda>c. c \<noteq> CHR ''.'') key;
          namespace = takeWhile (\<lambda>c. c \<noteq> CHR ''.'') (tl rest); rest2 = dropWhile (\<lambda>c. c \<noteq> CHR ''.'') (tl rest)
      in if rest = [] \<or> rest2 = [] then None else Some (kind, namespace, tl rest2))"

definition known :: "string \<Rightarrow> bool" where
  "known kind \<longleftrightarrow> kind \<in> set Kinds"

definition entryOf :: "feed_object \<Rightarrow> Entry" where
  "entryOf obj =
     (let annotations = (fo_annotations obj)(''kubectl.kubernetes.io/last-applied-configuration'' := None) in
      \<lparr>en_kind = fo_kind obj, en_namespace = fo_namespace obj, en_name = fo_name obj, en_generation = fo_generation obj,
       en_labels = fo_labels obj,
       en_annotations = (if at annotations OriginUIDAnnotation = [] then annotations(OriginUIDAnnotation \<mapsto> fo_uid obj) else annotations),
       en_spec = fo_spec obj\<rparr>)"

subsection \<open>The bucket\<close>

definition ErrKVNotFound :: go_error where "ErrKVNotFound = PlainError ''key not found''"
definition ErrKVExists :: go_error where "ErrKVExists = PlainError ''key exists''"
definition ErrKVConflict :: go_error where "ErrKVConflict = PlainError ''key revision mismatch''"

text \<open>An event of a watch: a key with its new value (none for a deletion), or the end of the initial replay.\<close>

datatype KVEvent = KeyEvent string "feed_value option" | SyncedEvent

record 'b KV =
  kv_get :: "'b \<Rightarrow> string \<Rightarrow> 'b \<times> (go_error + feed_value \<times> uint64)"
  kv_create :: "'b \<Rightarrow> string \<Rightarrow> feed_value \<Rightarrow> 'b \<times> err"
  kv_update :: "'b \<Rightarrow> string \<Rightarrow> feed_value \<Rightarrow> uint64 \<Rightarrow> 'b \<times> err"
  kv_delete :: "'b \<Rightarrow> string \<Rightarrow> uint64 \<Rightarrow> 'b \<times> err"
  kv_watch :: "'b \<Rightarrow> 'b \<times> (go_error + KVEvent list)"

text \<open>\<open>put\<close> after the read that decides: what is stored is replaced unless it is the value already.\<close>

definition putOver :: "'b KV \<Rightarrow> 'b \<Rightarrow> string \<Rightarrow> feed_value \<Rightarrow> go_error + feed_value \<times> uint64 \<Rightarrow> 'b \<times> err" where
  "putOver kv b key val got =
     (case got of
        Inl e \<Rightarrow> (b, Some e)
      | Inr (current, revision) \<Rightarrow>
          if current = val then (b, None)
          else (case kv_update kv b key val revision of
                  (b, Some e) \<Rightarrow> (b, Some (WrappedError (''update '' @ key @ '': '' @ error_text e) (Some e)))
                | (b, None) \<Rightarrow> (b, None)))"

definition put :: "'b KV \<Rightarrow> 'b \<Rightarrow> string \<Rightarrow> feed_value \<Rightarrow> 'b \<times> err" where
  "put kv b key val =
     (case kv_get kv b key of
        (b, Inl e) \<Rightarrow>
          if errorIs ErrKVNotFound e then
            (case kv_create kv b key val of
               (b, None) \<Rightarrow> (b, None)
             | (b, Some e) \<Rightarrow>
                 if \<not> errorIs ErrKVExists e then (b, Some e)
                 else (case kv_get kv b key of (b, got) \<Rightarrow> putOver kv b key val got))
          else (b, Some e)
      | (b, Inr got) \<Rightarrow> putOver kv b key val (Inr got))"

definition remove :: "'b KV \<Rightarrow> 'b \<Rightarrow> string \<Rightarrow> 'b \<times> err" where
  "remove kv b key =
     (case kv_get kv b key of
        (b, Inl e) \<Rightarrow> if errorIs ErrKVNotFound e then (b, None) else (b, Some e)
      | (b, Inr (current, revision)) \<Rightarrow>
          (case kv_delete kv b key revision of
             (b, None) \<Rightarrow> (b, None)
           | (b, Some e) \<Rightarrow> if errorIs ErrKVNotFound e then (b, None) else (b, Some e)))"

subsection \<open>The cluster\<close>

text \<open>
  The client of a cluster: reads and lists, deletion, and \<^verbatim>\<open>controllerutil.CreateOrPatch\<close> with the object
  it starts from and the function that brings it into the desired state. \<open>fc_objects\<close> is no call but what
  the cluster stores of a kind under a key; theorems speak of it.
\<close>

record 'l feed_client =
  fc_isNotFound :: "go_error \<Rightarrow> bool"
  fc_get :: "'l \<Rightarrow> string \<Rightarrow> string \<times> string \<Rightarrow> 'l \<times> (go_error + feed_object)"
  fc_listIn :: "'l \<Rightarrow> string \<Rightarrow> string \<Rightarrow> 'l \<times> (go_error + feed_object list)"
  fc_listLabelled :: "'l \<Rightarrow> string \<Rightarrow> string \<times> string \<Rightarrow> 'l \<times> (go_error + feed_object list)"
  fc_delete :: "'l \<Rightarrow> feed_object \<Rightarrow> 'l \<times> err"
  fc_createOrPatch :: "'l \<Rightarrow> feed_object \<Rightarrow> (feed_object \<Rightarrow> go_error + feed_object) \<Rightarrow> 'l \<times> err"
  fc_getNamespace :: "'l \<Rightarrow> string \<Rightarrow> 'l \<times> (go_error + feed_namespace)"
  fc_listNamespaces :: "'l \<Rightarrow> string \<times> string \<Rightarrow> 'l \<times> (go_error + feed_namespace list)"
  fc_listAccessBindings :: "'l \<Rightarrow> 'l \<times> (go_error + access_binding list)"
  fc_objects :: "'l \<Rightarrow> string \<Rightarrow> string \<times> string \<Rightarrow> feed_object option"

definition ignoreNotFound :: "'l feed_client \<Rightarrow> err \<Rightarrow> err" where
  "ignoreNotFound fc r = (case r of None \<Rightarrow> None | Some e \<Rightarrow> if fc_isNotFound fc e then None else Some e)"

definition joinErr :: "err \<Rightarrow> err \<Rightarrow> err" where
  "joinErr a b = errors_Join (case_option [] (\<lambda>e. [e]) a @ case_option [] (\<lambda>e. [e]) b)"

text \<open>An object that is still to be read: the zero value with a key.\<close>

definition emptyObject :: "string \<Rightarrow> string \<Rightarrow> string \<Rightarrow> feed_object" where
  "emptyObject kind namespace name = \<lparr>fo_kind = kind, fo_namespace = namespace, fo_name = name, fo_uid = [], fo_resourceVersion = [],
     fo_generation = 0, fo_deleting = False, fo_labels = Map.empty, fo_annotations = Map.empty, fo_spec = []\<rparr>"

subsection \<open>The applier\<close>

record Applier =
  ap_region :: string
  ap_interval :: int

text \<open>The cluster and the projects the writing region serves, as last read.\<close>

record 'l applier_state =
  as_cluster :: 'l
  as_served :: "(string \<Rightarrow> bool) option"
  as_servedAt :: go_time

datatype apply_error = Refused string | Failed go_error

definition failing :: "string \<Rightarrow> apply_error" where
  "failing msg = Failed (newError msg)"

definition reserved :: "string \<Rightarrow> bool" where
  "reserved key =
     (let prefix = takeWhile (\<lambda>c. c \<noteq> CHR ''/'') key in
      CHR ''/'' \<in> set key \<and>
      (prefix = ''internal-dns.miloapis.com'' \<or> prefix = ''kubectl.kubernetes.io'' \<or> prefix = ''karmada.io'' \<or> HasSuffix prefix ''.karmada.io''))"

definition unreserved :: "string_map \<Rightarrow> string_map" where
  "unreserved m = (\<lambda>k. if reserved k then None else m k)"

definition interval :: "Applier \<Rightarrow> int" where
  "interval a = (if ap_interval a \<le> 0 then 10 * 10 ^ 9 else ap_interval a)"

text \<open>The project of a live replicated namespace.\<close>

definition projectOf :: "feed_namespace list \<Rightarrow> string \<Rightarrow> string" where
  "projectOf namespaces name =
     foldl (\<lambda>p ns. if at (fn_annotations ns) projectUIDAnnotation \<noteq> [] \<and> \<not> fn_deleting ns \<and> fn_name ns = name
                   then at (fn_annotations ns) projectUIDAnnotation else p) [] namespaces"

definition servedBy :: "string \<Rightarrow> feed_namespace list \<Rightarrow> access_binding list \<Rightarrow> string \<Rightarrow> bool" where
  "servedBy region namespaces bindings project \<longleftrightarrow>
     list_ex (\<lambda>b. ab_region b = region \<and> projectOf namespaces (ab_namespace b) \<noteq> [] \<and> projectOf namespaces (ab_namespace b) = project) bindings"

definition readServed ::
  "'l feed_client \<Rightarrow> Applier \<Rightarrow> go_time \<Rightarrow> 'l applier_state \<Rightarrow> 'l applier_state \<times> (go_error + (string \<Rightarrow> bool))" where
  "readServed fc a now st =
     (case fc_listNamespaces fc (as_cluster st) (replicatedLabel, replicatedValue) of
        (l, Inl e) \<Rightarrow> (st\<lparr>as_cluster := l\<rparr>, Inl e)
      | (l, Inr namespaces) \<Rightarrow>
          (case fc_listAccessBindings fc l of
             (l, Inl e) \<Rightarrow> (st\<lparr>as_cluster := l\<rparr>, Inl e)
           | (l, Inr bindings) \<Rightarrow>
               let served = servedBy (ap_region a) namespaces bindings
               in (\<lparr>as_cluster = l, as_served = Some served, as_servedAt = now\<rparr>, Inr served)))"

definition servedProjects ::
  "'l feed_client \<Rightarrow> Applier \<Rightarrow> go_time \<Rightarrow> 'l applier_state \<Rightarrow> 'l applier_state \<times> (go_error + (string \<Rightarrow> bool))" where
  "servedProjects fc a now st =
     (case as_served st of
        Some served \<Rightarrow> if now - as_servedAt st < interval a then (st, Inr served) else readServed fc a now st
      | None \<Rightarrow> readServed fc a now st)"

definition mapped :: "'l feed_client \<Rightarrow> Applier \<Rightarrow> go_time \<Rightarrow> 'l applier_state \<Rightarrow> string \<Rightarrow> 'l applier_state \<times> apply_error option" where
  "mapped fc a now st namespace =
     (case fc_getNamespace fc (as_cluster st) namespace of
        (l, Inl e) \<Rightarrow> (st\<lparr>as_cluster := l\<rparr>, Some (Failed (WrappedError (''namespace '' @ namespace @ '': '' @ error_text e) (Some e))))
      | (l, Inr ns) \<Rightarrow>
          let st = st\<lparr>as_cluster := l\<rparr>; project = at (fn_annotations ns) projectUIDAnnotation in
          if at (fn_labels ns) replicatedLabel \<noteq> replicatedValue \<or> fn_deleting ns \<or> project = []
          then (st, Some (failing (''namespace '' @ namespace @ '' is not a live project namespace'')))
          else case servedProjects fc a now st of
            (st, Inl e) \<Rightarrow> (st, Some (Failed e))
          | (st, Inr served) \<Rightarrow>
              if \<not> served project
              then (st, Some (failing (''region '' @ ap_region a @ '' has no resolver access in project '' @ project @
                     ''; not accepting its inputs for namespace '' @ namespace)))
              else (st, None))"

definition wellFormedUID :: "string \<Rightarrow> bool" where
  "wellFormedUID uid \<longleftrightarrow> length uid = 36 \<and> count_list uid (CHR ''-'') = 4"

definition heldUID :: "feed_object \<Rightarrow> string" where
  "heldUID ob = (if at (fo_annotations ob) OriginUIDAnnotation = [] then fo_uid ob else at (fo_annotations ob) OriginUIDAnnotation)"

definition uniqueIdentity ::
  "'l feed_client \<Rightarrow> 'l applier_state \<Rightarrow> string \<Rightarrow> string \<Rightarrow> string \<Rightarrow> string \<Rightarrow> 'l applier_state \<times> apply_error option" where
  "uniqueIdentity fc st kind namespace name uid =
     (if \<not> wellFormedUID uid then (st, Some (Refused (namespace @ ''/'' @ name @ '' '' @ kind @ '' has no well-formed origin UID'')))
      else case fc_listIn fc (as_cluster st) kind namespace of
        (l, Inl e) \<Rightarrow> (st\<lparr>as_cluster := l\<rparr>, Some (Failed e))
      | (l, Inr items) \<Rightarrow>
          (st\<lparr>as_cluster := l\<rparr>,
           case find (\<lambda>ob. fo_name ob \<noteq> name \<and> heldUID ob = uid) items of
             None \<Rightarrow> None
           | Some ob \<Rightarrow> Some (Refused (namespace @ ''/'' @ name @ '' '' @ kind @ '' claims the UID of '' @ fo_name ob))))"

text \<open>The copy an entry asks for.\<close>

definition copyOf :: "Applier \<Rightarrow> Entry \<Rightarrow> feed_object \<Rightarrow> feed_object" where
  "copyOf a entry local =
     local\<lparr>fo_labels := (unreserved (en_labels entry))(OriginLabel \<mapsto> ap_region a),
           fo_annotations := (unreserved (en_annotations entry))
             (OriginGenerationAnnotation \<mapsto> int_str (en_generation entry),
              OriginUIDAnnotation \<mapsto> at (en_annotations entry) OriginUIDAnnotation),
           fo_spec := en_spec entry\<rparr>"

definition writeCopy ::
  "'l feed_client \<Rightarrow> Applier \<Rightarrow> 'l applier_state \<Rightarrow> string \<Rightarrow> feed_object option \<Rightarrow> Entry \<Rightarrow> string \<Rightarrow> 'l applier_state \<times> apply_error option" where
  "writeCopy fc a st kind existing entry key =
     (let namespace = en_namespace entry; name = en_name entry; uid = at (en_annotations entry) OriginUIDAnnotation in
      if (case existing of None \<Rightarrow> False | Some local \<Rightarrow> at (fo_annotations local) OriginUIDAnnotation \<noteq> uid) then
        (case fc_delete fc (as_cluster st) (the existing) of
           (l, r) \<Rightarrow>
             (st\<lparr>as_cluster := l\<rparr>,
              case ignoreNotFound fc r of
                Some e \<Rightarrow> Some (Failed e)
              | None \<Rightarrow> Some (failing (''replaced '' @ namespace @ ''/'' @ name @ '' '' @ kind @ '' after the writer recreated it; applying again''))))
      else if (case existing of
                 None \<Rightarrow> False
               | Some local \<Rightarrow>
                   (case ParseInt64 (at (fo_annotations local) OriginGenerationAnnotation) of
                      None \<Rightarrow> False | Some g \<Rightarrow> g > en_generation entry))
      then (st, None)
      else if \<not> json_Valid (en_spec entry) then (st, Some (failing (''decode '' @ key @ '' spec'')))
      else
        let local = (case existing of None \<Rightarrow> emptyObject kind namespace name | Some local \<Rightarrow> local) in
        (case fc_createOrPatch fc (as_cluster st) local (\<lambda>ob. Inr (copyOf a entry ob)) of
           (l, r) \<Rightarrow> (st\<lparr>as_cluster := l\<rparr>, map_option Failed r)))"

definition applyEntry ::
  "'l feed_client \<Rightarrow> Applier \<Rightarrow> go_time \<Rightarrow> 'l applier_state \<Rightarrow> string \<Rightarrow> string \<Rightarrow> string \<Rightarrow> feed_object option \<Rightarrow> string \<Rightarrow> Entry \<Rightarrow>
   'l applier_state \<times> apply_error option" where
  "applyEntry fc a now st kind namespace name existing key entry =
     (if en_namespace entry \<noteq> namespace \<or> en_name entry \<noteq> name
      then (st, Some (failing (key @ '' names '' @ en_namespace entry @ ''/'' @ en_name entry)))
      else case mapped fc a now st namespace of
        (st, Some e) \<Rightarrow> (st, Some e)
      | (st, None) \<Rightarrow>
          (case uniqueIdentity fc st kind namespace name (at (en_annotations entry) OriginUIDAnnotation) of
             (st, Some e) \<Rightarrow> (st, Some e)
           | (st, None) \<Rightarrow> writeCopy fc a st kind existing entry key))"

definition ownedElsewhere :: "Applier \<Rightarrow> string \<Rightarrow> string \<Rightarrow> string \<Rightarrow> string \<Rightarrow> apply_error" where
  "ownedElsewhere a kind namespace name origin =
     Refused (namespace @ ''/'' @ name @ '' '' @ kind @ '' is owned by origin '' @ go_quote origin @ '', not '' @
       go_quote (ap_region a) @ ''; not replacing it'')"

definition undecodable :: "string \<Rightarrow> go_error \<Rightarrow> apply_error" where
  "undecodable key e = Failed (WrappedError (''decode '' @ key @ '': '' @ error_text e) (Some e))"

definition Apply ::
  "'l feed_client \<Rightarrow> Applier \<Rightarrow> go_time \<Rightarrow> 'l applier_state \<Rightarrow> string \<Rightarrow> feed_value option \<Rightarrow> 'l applier_state \<times> apply_error option" where
  "Apply fc a now st key val =
     (case parseKey key of
        None \<Rightarrow> (st, None)
      | Some (kind, namespace, name) \<Rightarrow>
          if \<not> known kind then (st, None)
          else case fc_get fc (as_cluster st) kind (namespace, name) of (l, got) \<Rightarrow>
            let st = st\<lparr>as_cluster := l\<rparr> in
            (case got of
               Inl e \<Rightarrow>
                 if \<not> fc_isNotFound fc e then (st, Some (Failed e))
                 else (case val of
                         None \<Rightarrow> (st, None)
                       | Some (BadValue e) \<Rightarrow> (st, Some (undecodable key e))
                       | Some (EntryValue entry) \<Rightarrow> applyEntry fc a now st kind namespace name None key entry)
             | Inr local \<Rightarrow>
                 if at (fo_labels local) OriginLabel \<noteq> ap_region a
                 then (st, Some (ownedElsewhere a kind namespace name (at (fo_labels local) OriginLabel)))
                 else (case val of
                         None \<Rightarrow> (case fc_delete fc l local of (l, r) \<Rightarrow> (st\<lparr>as_cluster := l\<rparr>, map_option Failed (ignoreNotFound fc r)))
                       | Some (BadValue e) \<Rightarrow> (st, Some (undecodable key e))
                       | Some (EntryValue entry) \<Rightarrow> applyEntry fc a now st kind namespace name (Some local) key entry)))"

text \<open>Deleting the objects of a list one by one; errors are joined, a missing object is none.\<close>

fun deleteEach :: "'l feed_client \<Rightarrow> (feed_object \<Rightarrow> bool) \<Rightarrow> 'l \<times> err \<Rightarrow> feed_object list \<Rightarrow> 'l \<times> err" where
  "deleteEach fc unwanted acc [] = acc"
| "deleteEach fc unwanted (l, errs) (ob # obs) =
     (if \<not> unwanted ob then deleteEach fc unwanted (l, errs) obs
      else case fc_delete fc l ob of
        (l, r) \<Rightarrow> deleteEach fc unwanted (l, case ignoreNotFound fc r of None \<Rightarrow> errs | Some e \<Rightarrow> joinErr errs (Some e)) obs)"

definition sweepKind :: "'l feed_client \<Rightarrow> Applier \<Rightarrow> (feed_object \<Rightarrow> bool) \<Rightarrow> 'l \<times> err \<Rightarrow> string \<Rightarrow> 'l \<times> err" where
  "sweepKind fc a unwanted acc kind =
     (case acc of (l, errs) \<Rightarrow>
        (case fc_listLabelled fc l kind (OriginLabel, ap_region a) of
           (l, Inl e) \<Rightarrow> (l, joinErr errs (Some e))
         | (l, Inr obs) \<Rightarrow> deleteEach fc unwanted (l, errs) obs))"

definition prune :: "'l feed_client \<Rightarrow> Applier \<Rightarrow> 'l \<Rightarrow> (string \<Rightarrow> bool) \<Rightarrow> 'l \<times> err" where
  "prune fc a l seen =
     foldl (\<lambda>acc kind. sweepKind fc a (\<lambda>ob. \<not> seen (feedKey kind (fo_namespace ob) (fo_name ob))) acc kind) (l, None) Kinds"

definition withdrawUnserved :: "'l feed_client \<Rightarrow> Applier \<Rightarrow> go_time \<Rightarrow> 'l applier_state \<Rightarrow> 'l applier_state \<times> err" where
  "withdrawUnserved fc a now st =
     (case servedProjects fc a now st of
        (st, Inl e) \<Rightarrow> (st, Some e)
      | (st, Inr served) \<Rightarrow>
          (case fc_listNamespaces fc (as_cluster st) (replicatedLabel, replicatedValue) of
             (l, Inl e) \<Rightarrow> (st\<lparr>as_cluster := l\<rparr>, Some e)
           | (l, Inr namespaces) \<Rightarrow>
               let unserved = (\<lambda>name. list_ex (\<lambda>ns. fn_name ns = name \<and> at (fn_annotations ns) projectUIDAnnotation \<noteq> [] \<and>
                                 \<not> served (at (fn_annotations ns) projectUIDAnnotation)) namespaces) in
               if list_all (\<lambda>ns. \<not> unserved (fn_name ns)) namespaces then (st\<lparr>as_cluster := l\<rparr>, None)
               else case foldl (\<lambda>acc kind. sweepKind fc a (\<lambda>ob. unserved (fo_namespace ob)) acc kind) (l, None) Kinds of
                 (l, errs) \<Rightarrow> (st\<lparr>as_cluster := l\<rparr>, errs)))"

text \<open>
  The loop of \<^verbatim>\<open>Run\<close>: what it remembers, one turn for an event of the watch and one for a tick. Failed keys
  are retried in the order of a list; Go's map gives no order.
\<close>

record run_state =
  rs_present :: "string \<Rightarrow> bool"
  rs_failed :: "string list"
  rs_synced :: bool
  rs_pruned :: bool

definition runStart :: run_state where
  "runStart = \<lparr>rs_present = (\<lambda>_. False), rs_failed = [], rs_synced = False, rs_pruned = False\<rparr>"

definition applyKey ::
  "'l feed_client \<Rightarrow> Applier \<Rightarrow> go_time \<Rightarrow> 'l applier_state \<times> run_state \<Rightarrow> string \<times> feed_value option \<Rightarrow> 'l applier_state \<times> run_state" where
  "applyKey fc a now sr kv =
     (case sr of (st, rs) \<Rightarrow> case kv of (key, val) \<Rightarrow>
        (case Apply fc a now st key val of
           (st, Some (Failed e)) \<Rightarrow> (st, rs\<lparr>rs_failed := List.insert key (rs_failed rs)\<rparr>)
         | (st, Some (Refused msg)) \<Rightarrow> (st, rs\<lparr>rs_failed := removeAll key (rs_failed rs)\<rparr>)
         | (st, None) \<Rightarrow> (st, rs\<lparr>rs_failed := removeAll key (rs_failed rs)\<rparr>)))"

definition onEvent ::
  "'l feed_client \<Rightarrow> Applier \<Rightarrow> go_time \<Rightarrow> 'l applier_state \<times> run_state \<Rightarrow> KVEvent \<Rightarrow> 'l applier_state \<times> run_state" where
  "onEvent fc a now sr event =
     (case sr of (st, rs) \<Rightarrow>
        (case event of
           SyncedEvent \<Rightarrow> (st, rs\<lparr>rs_synced := True\<rparr>)
         | KeyEvent key val \<Rightarrow>
             applyKey fc a now (st, rs\<lparr>rs_present := (rs_present rs)(key := (val \<noteq> None))\<rparr>) (key, val)))"

fun retryFailed ::
  "'l feed_client \<Rightarrow> 'b KV \<Rightarrow> Applier \<Rightarrow> go_time \<Rightarrow> 'b \<times> 'l applier_state \<times> run_state \<Rightarrow> string list \<Rightarrow> 'b \<times> 'l applier_state \<times> run_state" where
  "retryFailed fc kv a now acc [] = acc"
| "retryFailed fc kv a now (b, sr) (key # keys) =
     (case kv_get kv b key of
        (b, Inr (val, revision)) \<Rightarrow> retryFailed fc kv a now (b, applyKey fc a now sr (key, Some val)) keys
      | (b, Inl e) \<Rightarrow>
          if errorIs ErrKVNotFound e then retryFailed fc kv a now (b, applyKey fc a now sr (key, None)) keys
          else retryFailed fc kv a now (b, sr) keys)"

definition onTick ::
  "'l feed_client \<Rightarrow> 'b KV \<Rightarrow> Applier \<Rightarrow> (go_error + bool) option \<Rightarrow> go_time \<Rightarrow> 'b \<times> 'l applier_state \<times> run_state \<Rightarrow> 'b \<times> 'l applier_state \<times> run_state" where
  "onTick fc kv a caughtUp now bsr =
     (case bsr of (b, st, rs) \<Rightarrow>
      case retryFailed fc kv a now (b, st, rs) (rs_failed rs) of (b, st, rs) \<Rightarrow>
        if rs_synced rs \<and> \<not> rs_pruned rs \<and> caughtUp \<noteq> None then
          (case the caughtUp of
             Inl e \<Rightarrow> (b, st, rs)
           | Inr ready \<Rightarrow>
               if \<not> ready then (b, st, rs)
               else case prune fc a (as_cluster st) (rs_present rs) of
                 (l, Some e) \<Rightarrow> (b, st\<lparr>as_cluster := l\<rparr>, rs)
               | (l, None) \<Rightarrow> (b, fst (withdrawUnserved fc a now (st\<lparr>as_cluster := l\<rparr>)), rs\<lparr>rs_pruned := True\<rparr>))
        else if rs_pruned rs then (b, fst (withdrawUnserved fc a now st), rs)
        else (b, st, rs))"

subsection \<open>The publisher\<close>

definition ownedError :: "string \<times> string \<Rightarrow> string \<Rightarrow> go_error" where
  "ownedError key origin = PlainError (''object '' @ fst key @ ''/'' @ snd key @ '' is owned by origin '' @ go_quote origin @ ''; not replacing it'')"

definition hubCopy :: "string \<Rightarrow> feed_object \<Rightarrow> feed_object \<Rightarrow> go_error + feed_object" where
  "hubCopy region obj hub =
     (if fo_resourceVersion hub \<noteq> [] \<and> at (fo_labels hub) OriginLabel \<noteq> region
      then Inl (ownedError (fo_namespace obj, fo_name obj) (at (fo_labels hub) OriginLabel))
      else
        let annotations = (fo_annotations obj)(OriginGenerationAnnotation \<mapsto> int_str (fo_generation obj)) in
        Inr (hub\<lparr>fo_labels := (fo_labels obj)(OriginLabel \<mapsto> region, replicatedLabel := None),
                 fo_annotations := (if at annotations OriginUIDAnnotation = [] then annotations(OriginUIDAnnotation \<mapsto> fo_uid obj) else annotations),
                 fo_spec := fo_spec obj\<rparr>))"

text \<open>The hub is optional.\<close>

definition copyToHub :: "'h feed_client option \<Rightarrow> string \<Rightarrow> 'h \<Rightarrow> string \<Rightarrow> feed_object \<Rightarrow> 'h \<times> err" where
  "copyToHub hc region h kind obj =
     (case hc of
        None \<Rightarrow> (h, None)
      | Some hc \<Rightarrow> fc_createOrPatch hc h (emptyObject kind (fo_namespace obj) (fo_name obj)) (hubCopy region obj))"

definition withdrawFromHub :: "'h feed_client option \<Rightarrow> string \<Rightarrow> 'h \<Rightarrow> string \<Rightarrow> string \<times> string \<Rightarrow> 'h \<times> err" where
  "withdrawFromHub hc region h kind key =
     (case hc of
        None \<Rightarrow> (h, None)
      | Some hc \<Rightarrow>
          (case fc_get hc h kind key of
             (h, Inl e) \<Rightarrow> (h, if fc_isNotFound hc e then None else Some e)
           | (h, Inr hub) \<Rightarrow>
               if at (fo_labels hub) OriginLabel \<noteq> region then (h, None)
               else case fc_delete hc h hub of (h, r) \<Rightarrow> (h, ignoreNotFound hc r)))"

record ('l, 'b, 'h) publisher =
  pb_local :: 'l
  pb_bucket :: 'b
  pb_hub :: 'h

definition withdrawKey ::
  "'b KV \<Rightarrow> 'h feed_client option \<Rightarrow> string \<Rightarrow> ('l, 'b, 'h) publisher \<Rightarrow> string \<Rightarrow> string \<times> string \<Rightarrow> ('l, 'b, 'h) publisher \<times> err" where
  "withdrawKey kv hc region p kind key =
     (case remove kv (pb_bucket p) (feedKey kind (fst key) (snd key)) of (b, e1) \<Rightarrow>
      case withdrawFromHub hc region (pb_hub p) kind key of (h, e2) \<Rightarrow>
        (p\<lparr>pb_bucket := b, pb_hub := h\<rparr>, joinErr e1 e2))"

definition Sync ::
  "'l feed_client \<Rightarrow> 'b KV \<Rightarrow> 'h feed_client option \<Rightarrow> string \<Rightarrow> ('l, 'b, 'h) publisher \<Rightarrow> string \<Rightarrow> string \<times> string \<Rightarrow> ('l, 'b, 'h) publisher \<times> err" where
  "Sync fc kv hc region p kind key =
     (case fc_get fc (pb_local p) kind key of
        (l, Inl e) \<Rightarrow>
          if \<not> fc_isNotFound fc e then (p\<lparr>pb_local := l\<rparr>, Some e)
          else withdrawKey kv hc region (p\<lparr>pb_local := l\<rparr>) kind key
      | (l, Inr obj) \<Rightarrow>
          let p = p\<lparr>pb_local := l\<rparr> in
          if fo_deleting obj \<or> at (fo_labels obj) OriginLabel \<noteq> region then withdrawKey kv hc region p kind key
          else
            (case put kv (pb_bucket p) (feedKey kind (fst key) (snd key)) (EntryValue (entryOf obj)) of (b, e1) \<Rightarrow>
             case copyToHub hc region (pb_hub p) kind obj of (h, e2) \<Rightarrow>
               (p\<lparr>pb_bucket := b, pb_hub := h\<rparr>, joinErr e1 e2)))"

text \<open>The keys a watch replays: those with a value when the replay ends.\<close>

fun replayed :: "string list \<Rightarrow> KVEvent list \<Rightarrow> string list option" where
  "replayed keys [] = None"
| "replayed keys (SyncedEvent # events) = Some keys"
| "replayed keys (KeyEvent key None # events) = replayed (removeAll key keys) events"
| "replayed keys (KeyEvent key (Some val) # events) = replayed (List.insert key keys) events"

definition errWatchEnded :: go_error where "errWatchEnded = PlainError ''feed watch ended''"

definition bucketKeys :: "'b KV \<Rightarrow> 'b \<Rightarrow> 'b \<times> (go_error + string list)" where
  "bucketKeys kv b =
     (case kv_watch kv b of
        (b, Inl e) \<Rightarrow> (b, Inl e)
      | (b, Inr events) \<Rightarrow> (b, case replayed [] events of None \<Rightarrow> Inl errWatchEnded | Some keys \<Rightarrow> Inr keys))"

definition syncEach ::
  "'l feed_client \<Rightarrow> 'b KV \<Rightarrow> 'h feed_client option \<Rightarrow> string \<Rightarrow> ('l, 'b, 'h) publisher \<times> err \<Rightarrow> string \<times> string \<times> string \<Rightarrow> ('l, 'b, 'h) publisher \<times> err" where
  "syncEach fc kv hc region acc kindKey =
     (case acc of (p, errs) \<Rightarrow>
        (case Sync fc kv hc region p (fst kindKey) (snd kindKey) of
           (p, None) \<Rightarrow> (p, errs)
         | (p, Some e) \<Rightarrow> (p, joinErr errs (Some e))))"

fun syncKinds ::
  "'l feed_client \<Rightarrow> 'b KV \<Rightarrow> 'h feed_client option \<Rightarrow> string \<Rightarrow> ('l, 'b, 'h) publisher \<times> err \<Rightarrow> string list \<Rightarrow> string list \<Rightarrow>
   ('l, 'b, 'h) publisher \<times> (go_error + string list \<times> err)" where
  "syncKinds fc kv hc region (p, errs) present [] = (p, Inr (present, errs))"
| "syncKinds fc kv hc region (p, errs) present (kind # kinds) =
     (case fc_listLabelled fc (pb_local p) kind (OriginLabel, region) of
        (l, Inl e) \<Rightarrow> (p\<lparr>pb_local := l\<rparr>, Inl e)
      | (l, Inr obs) \<Rightarrow>
          syncKinds fc kv hc region
            (foldl (syncEach fc kv hc region) (p\<lparr>pb_local := l\<rparr>, errs) (map (\<lambda>ob. (kind, fo_namespace ob, fo_name ob)) obs))
            (present @ map (\<lambda>ob. feedKey kind (fo_namespace ob) (fo_name ob)) obs) kinds)"

definition Resync ::
  "'l feed_client \<Rightarrow> 'b KV \<Rightarrow> 'h feed_client option \<Rightarrow> string \<Rightarrow> ('l, 'b, 'h) publisher \<Rightarrow> ('l, 'b, 'h) publisher \<times> err" where
  "Resync fc kv hc region p =
     (case syncKinds fc kv hc region (p, None) [] Kinds of
        (p, Inl e) \<Rightarrow> (p, Some e)
      | (p, Inr (present, errs)) \<Rightarrow>
          (case bucketKeys kv (pb_bucket p) of
             (b, Inl e) \<Rightarrow> (p\<lparr>pb_bucket := b\<rparr>, Some e)
           | (b, Inr keys) \<Rightarrow>
               foldl (syncEach fc kv hc region) (p\<lparr>pb_bucket := b\<rparr>, errs)
                 (map (\<lambda>key. the (parseKey key))
                   (filter (\<lambda>key. key \<notin> set present \<and> (case parseKey key of None \<Rightarrow> False | Some (kind, _) \<Rightarrow> known kind)) keys))))"

section \<open>What the clusters promise\<close>

definition objectKeyOf :: "feed_object \<Rightarrow> string \<times> string" where
  "objectKeyOf ob = (fo_namespace ob, fo_name ob)"

definition originOf :: "feed_object \<Rightarrow> string" where
  "originOf ob = at (fo_labels ob) OriginLabel"

text \<open>Only the object of a kind under a key may differ.\<close>

definition onlyAt :: "'l feed_client \<Rightarrow> string \<Rightarrow> string \<times> string \<Rightarrow> 'l \<Rightarrow> 'l \<Rightarrow> bool" where
  "onlyAt fc kind key l l' \<longleftrightarrow> (\<forall>kind' key'. (kind', key') \<noteq> (kind, key) \<longrightarrow> fc_objects fc l' kind' key' = fc_objects fc l kind' key')"

definition sameObjects :: "'l feed_client \<Rightarrow> 'l \<Rightarrow> 'l \<Rightarrow> bool" where
  "sameObjects fc l l' \<longleftrightarrow> fc_objects fc l' = fc_objects fc l"

text \<open>
  Reads and lists change nothing, and return what is stored: a read the object, or an error that says it
  is not found only when it is not there; a list the objects of the namespace, or those that carry the
  label. Deletion and \<^verbatim>\<open>CreateOrPatch\<close> change one object. No other client writes while an operation of the feed runs.
\<close>

definition reads_laws :: "'l feed_client \<Rightarrow> bool" where
  "reads_laws fc \<longleftrightarrow>
     (\<forall>l kind key. case fc_get fc l kind key of
        (l', Inl e) \<Rightarrow> sameObjects fc l l' \<and> (fc_isNotFound fc e \<longrightarrow> fc_objects fc l kind key = None)
      | (l', Inr ob) \<Rightarrow> sameObjects fc l l' \<and> fc_objects fc l kind key = Some ob \<and> fo_kind ob = kind \<and> objectKeyOf ob = key) \<and>
     (\<forall>l kind namespace. case fc_listIn fc l kind namespace of
        (l', Inl e) \<Rightarrow> sameObjects fc l l'
      | (l', Inr obs) \<Rightarrow> sameObjects fc l l' \<and>
          (\<forall>ob. ob \<in> set obs \<longleftrightarrow> fc_objects fc l kind (objectKeyOf ob) = Some ob \<and> fo_namespace ob = namespace)) \<and>
     (\<forall>l kind label. case fc_listLabelled fc l kind label of
        (l', Inl e) \<Rightarrow> sameObjects fc l l'
      | (l', Inr obs) \<Rightarrow> sameObjects fc l l' \<and>
          (\<forall>ob. ob \<in> set obs \<longleftrightarrow> fc_objects fc l kind (objectKeyOf ob) = Some ob \<and> fo_kind ob = kind \<and> fo_labels ob (fst label) = Some (snd label))) \<and>
     (\<forall>l namespace. sameObjects fc l (fst (fc_getNamespace fc l namespace))) \<and>
     (\<forall>l label. sameObjects fc l (fst (fc_listNamespaces fc l label))) \<and>
     (\<forall>l. sameObjects fc l (fst (fc_listAccessBindings fc l)))"

definition writes_laws :: "'l feed_client \<Rightarrow> bool" where
  "writes_laws fc \<longleftrightarrow>
     (\<forall>l ob. onlyAt fc (fo_kind ob) (objectKeyOf ob) l (fst (fc_delete fc l ob))) \<and>
     (\<forall>l ob f. onlyAt fc (fo_kind ob) (objectKeyOf ob) l (fst (fc_createOrPatch fc l ob f)))"

definition cluster_laws :: "'l feed_client \<Rightarrow> bool" where
  "cluster_laws fc \<longleftrightarrow> reads_laws fc \<and> writes_laws fc"

text \<open>Every object of another origin is as it was.\<close>

definition keepsForeign :: "'l feed_client \<Rightarrow> string \<Rightarrow> 'l \<Rightarrow> 'l \<Rightarrow> bool" where
  "keepsForeign fc region l l' \<longleftrightarrow>
     (\<forall>kind key ob. fc_objects fc l kind key = Some ob \<longrightarrow> originOf ob \<noteq> region \<longrightarrow> fc_objects fc l' kind key = Some ob)"

section \<open>The applier leaves other origins alone\<close>

lemma keepsForeign_refl [simp]: "keepsForeign fc region l l"
  by (simp add: keepsForeign_def)

lemma keepsForeign_trans: "keepsForeign fc region l1 l2 \<Longrightarrow> keepsForeign fc region l2 l3 \<Longrightarrow> keepsForeign fc region l1 l3"
  unfolding keepsForeign_def by metis

lemma sameObjects_keeps: "sameObjects fc l l' \<Longrightarrow> keepsForeign fc region l l'"
  by (simp add: sameObjects_def keepsForeign_def)

text \<open>A change of one object that is not there or has the region's origin.\<close>

lemma onlyAt_keeps:
  assumes "onlyAt fc kind key l l'" "\<And>ob. fc_objects fc l kind key = Some ob \<Longrightarrow> originOf ob = region"
  shows "keepsForeign fc region l l'"
  unfolding keepsForeign_def
proof (intro allI impI)
  fix kind' key' ob assume "fc_objects fc l kind' key' = Some ob" "originOf ob \<noteq> region"
  moreover from this assms(2) have "(kind', key') \<noteq> (kind, key)" by blast
  ultimately show "fc_objects fc l' kind' key' = Some ob"
    using assms(1) unfolding onlyAt_def by (metis Pair_inject)
qed

lemma get_same:
  assumes "reads_laws fc" "fc_get fc l kind key = (l', r)"
  shows "sameObjects fc l l'" "r = Inr ob \<Longrightarrow> fc_objects fc l kind key = Some ob \<and> fo_kind ob = kind \<and> objectKeyOf ob = key"
    "r = Inl e \<Longrightarrow> fc_isNotFound fc e \<Longrightarrow> fc_objects fc l kind key = None"
proof -
  have "case fc_get fc l kind key of
        (l', Inl e) \<Rightarrow> sameObjects fc l l' \<and> (fc_isNotFound fc e \<longrightarrow> fc_objects fc l kind key = None)
      | (l', Inr ob) \<Rightarrow> sameObjects fc l l' \<and> fc_objects fc l kind key = Some ob \<and> fo_kind ob = kind \<and> objectKeyOf ob = key"
    using assms(1) [unfolded reads_laws_def, THEN conjunct1] by (elim allE)
  thus "sameObjects fc l l'" "r = Inr ob \<Longrightarrow> fc_objects fc l kind key = Some ob \<and> fo_kind ob = kind \<and> objectKeyOf ob = key"
    "r = Inl e \<Longrightarrow> fc_isNotFound fc e \<Longrightarrow> fc_objects fc l kind key = None"
    by (auto simp: assms(2) split: sum.splits)
qed

lemma listLabelled_same:
  assumes "reads_laws fc" "fc_listLabelled fc l kind label = (l', r)"
  shows "sameObjects fc l l'"
    "r = Inr obs \<Longrightarrow> ob \<in> set obs \<longleftrightarrow> fc_objects fc l kind (objectKeyOf ob) = Some ob \<and> fo_kind ob = kind \<and> fo_labels ob (fst label) = Some (snd label)"
proof -
  have "case fc_listLabelled fc l kind label of
        (l', Inl e) \<Rightarrow> sameObjects fc l l'
      | (l', Inr obs) \<Rightarrow> sameObjects fc l l' \<and>
          (\<forall>ob. ob \<in> set obs \<longleftrightarrow> fc_objects fc l kind (objectKeyOf ob) = Some ob \<and> fo_kind ob = kind \<and> fo_labels ob (fst label) = Some (snd label))"
    using assms(1) [unfolded reads_laws_def, THEN conjunct2, THEN conjunct2, THEN conjunct1] by (elim allE)
  thus "sameObjects fc l l'"
    "r = Inr obs \<Longrightarrow> ob \<in> set obs \<longleftrightarrow> fc_objects fc l kind (objectKeyOf ob) = Some ob \<and> fo_kind ob = kind \<and> fo_labels ob (fst label) = Some (snd label)"
    by (auto simp: assms(2) split: sum.splits)
qed

lemma listIn_same:
  assumes "reads_laws fc" "fc_listIn fc l kind namespace = (l', r)"
  shows "sameObjects fc l l'"
    "r = Inr obs \<Longrightarrow> ob \<in> set obs \<longleftrightarrow> fc_objects fc l kind (objectKeyOf ob) = Some ob \<and> fo_namespace ob = namespace"
proof -
  have "case fc_listIn fc l kind namespace of
        (l', Inl e) \<Rightarrow> sameObjects fc l l'
      | (l', Inr obs) \<Rightarrow> sameObjects fc l l' \<and>
          (\<forall>ob. ob \<in> set obs \<longleftrightarrow> fc_objects fc l kind (objectKeyOf ob) = Some ob \<and> fo_namespace ob = namespace)"
    using assms(1) [unfolded reads_laws_def, THEN conjunct2, THEN conjunct1] by (elim allE)
  thus "sameObjects fc l l'"
    "r = Inr obs \<Longrightarrow> ob \<in> set obs \<longleftrightarrow> fc_objects fc l kind (objectKeyOf ob) = Some ob \<and> fo_namespace ob = namespace"
    by (auto simp: assms(2) split: sum.splits)
qed

lemma reads_same:
  assumes "reads_laws fc"
  shows "fc_getNamespace fc l namespace = (l', y) \<Longrightarrow> sameObjects fc l l'"
    "fc_listNamespaces fc l label = (l', z) \<Longrightarrow> sameObjects fc l l'"
    "fc_listAccessBindings fc l = (l', v) \<Longrightarrow> sameObjects fc l l'"
proof -
  have "\<forall>l namespace. sameObjects fc l (fst (fc_getNamespace fc l namespace))"
    "\<forall>l label. sameObjects fc l (fst (fc_listNamespaces fc l label))" "\<forall>l. sameObjects fc l (fst (fc_listAccessBindings fc l))"
    using assms unfolding reads_laws_def by argo+
  thus "fc_getNamespace fc l namespace = (l', y) \<Longrightarrow> sameObjects fc l l'"
    "fc_listNamespaces fc l label = (l', z) \<Longrightarrow> sameObjects fc l l'"
    "fc_listAccessBindings fc l = (l', v) \<Longrightarrow> sameObjects fc l l'"
    by (metis fst_conv)+
qed

lemma sameObjects_trans: "sameObjects fc l1 l2 \<Longrightarrow> sameObjects fc l2 l3 \<Longrightarrow> sameObjects fc l1 l3"
  by (simp add: sameObjects_def)

lemma sameObjects_refl [simp]: "sameObjects fc l l"
  by (simp add: sameObjects_def)

lemma readServed_same:
  assumes "reads_laws fc" "readServed fc a now st = (st', r)"
  shows "sameObjects fc (as_cluster st) (as_cluster st')"
proof -
  obtain l1 r1 where one: "fc_listNamespaces fc (as_cluster st) (replicatedLabel, replicatedValue) = (l1, r1)" by fastforce
  obtain l2 r2 where two: "fc_listAccessBindings fc l1 = (l2, r2)" by fastforce
  have "sameObjects fc (as_cluster st) l1" by (rule reads_same(2) [OF assms(1) one])
  moreover from this have "sameObjects fc (as_cluster st) l2"
    by (rule sameObjects_trans) (rule reads_same(3) [OF assms(1) two])
  ultimately show ?thesis
    using assms(2) by (auto simp: readServed_def one two Let_def split: sum.splits)
qed

lemma servedProjects_same:
  "reads_laws fc \<Longrightarrow> servedProjects fc a now st = (st', r) \<Longrightarrow> sameObjects fc (as_cluster st) (as_cluster st')"
  by (auto simp: servedProjects_def dest: readServed_same split: option.splits if_splits)

lemma mapped_same:
  assumes "reads_laws fc" "mapped fc a now st namespace = (st', r)"
  shows "sameObjects fc (as_cluster st) (as_cluster st')"
proof -
  obtain l got where get: "fc_getNamespace fc (as_cluster st) namespace = (l, got)" by fastforce
  have one: "sameObjects fc (as_cluster st) l" by (rule reads_same(1) [OF assms(1) get])
  obtain st1 served where two: "servedProjects fc a now (st\<lparr>as_cluster := l\<rparr>) = (st1, served)" by fastforce
  have "sameObjects fc l (as_cluster st1)" using servedProjects_same [OF assms(1) two] by simp
  with one have "sameObjects fc (as_cluster st) (as_cluster st1)" by (rule sameObjects_trans)
  with assms(2) one show ?thesis
    by (auto simp: mapped_def get two Let_def split: sum.splits if_splits)
qed

lemma uniqueIdentity_same:
  "reads_laws fc \<Longrightarrow> uniqueIdentity fc st kind namespace name uid = (st', r) \<Longrightarrow> sameObjects fc (as_cluster st) (as_cluster st')"
  by (auto simp: uniqueIdentity_def dest: listIn_same(1) split: prod.splits sum.splits if_splits)

lemma writes_onlyAt:
  assumes "writes_laws fc"
  shows "fc_delete fc l ob = (l', r) \<Longrightarrow> onlyAt fc (fo_kind ob) (objectKeyOf ob) l l'"
    "fc_createOrPatch fc l ob f = (l', r) \<Longrightarrow> onlyAt fc (fo_kind ob) (objectKeyOf ob) l l'"
  using assms unfolding writes_laws_def by (metis fst_conv)+

lemma onlyAt_refl [simp]: "onlyAt fc kind key l l"
  by (simp add: onlyAt_def)

lemma onlyAt_same: "sameObjects fc l1 l2 \<Longrightarrow> onlyAt fc kind key l2 l3 \<Longrightarrow> onlyAt fc kind key l1 l3"
  by (simp add: sameObjects_def onlyAt_def)

lemma writeCopy_onlyAt:
  assumes laws: "writes_laws fc" and ok: "writeCopy fc a st kind existing entry key = (st', r)"
    and existing: "\<And>local. existing = Some local \<Longrightarrow> fo_kind local = kind \<and> objectKeyOf local = (en_namespace entry, en_name entry)"
  shows "onlyAt fc kind (en_namespace entry, en_name entry) (as_cluster st) (as_cluster st')"
proof -
  let ?uid = "at (en_annotations entry) OriginUIDAnnotation"
  let ?local = "case existing of None \<Rightarrow> emptyObject kind (en_namespace entry) (en_name entry) | Some local \<Rightarrow> local"
  have key: "fo_kind ?local = kind" "objectKeyOf ?local = (en_namespace entry, en_name entry)"
    using existing by (auto simp: emptyObject_def objectKeyOf_def split: option.splits)
  obtain l1 r1 where del: "fc_delete fc (as_cluster st) ?local = (l1, r1)" by fastforce
  obtain l2 r2 where patch: "fc_createOrPatch fc (as_cluster st) ?local (\<lambda>ob. Inr (copyOf a entry ob)) = (l2, r2)" by fastforce
  have "as_cluster st' \<in> {as_cluster st, l1, l2}"
    using ok del patch by (cases existing) (auto simp: writeCopy_def Let_def split: if_splits)
  with writes_onlyAt(1) [OF laws del] writes_onlyAt(2) [OF laws patch] key show ?thesis
    by auto
qed

lemma applyEntry_onlyAt:
  assumes laws: "cluster_laws fc" and ok: "applyEntry fc a now st kind namespace name existing key entry = (st', r)"
    and existing: "\<And>local. existing = Some local \<Longrightarrow> fo_kind local = kind \<and> objectKeyOf local = (namespace, name)"
  shows "onlyAt fc kind (namespace, name) (as_cluster st) (as_cluster st')"
proof (cases "en_namespace entry = namespace \<and> en_name entry = name")
  case True
  have reads: "reads_laws fc" and writes: "writes_laws fc" using laws by (simp_all add: cluster_laws_def)
  obtain st1 r1 where one: "mapped fc a now st namespace = (st1, r1)" by fastforce
  obtain st2 r2 where two: "uniqueIdentity fc st1 kind namespace name (at (en_annotations entry) OriginUIDAnnotation) = (st2, r2)" by fastforce
  obtain st3 r3 where three: "writeCopy fc a st2 kind existing entry key = (st3, r3)" by fastforce
  have same: "sameObjects fc (as_cluster st) (as_cluster st1)" by (rule mapped_same [OF reads one])
  have same2: "sameObjects fc (as_cluster st) (as_cluster st2)"
    by (rule sameObjects_trans [OF same uniqueIdentity_same [OF reads two]])
  have "onlyAt fc kind (namespace, name) (as_cluster st2) (as_cluster st3)"
    using writeCopy_onlyAt [OF writes three] existing True by auto
  hence "onlyAt fc kind (namespace, name) (as_cluster st) (as_cluster st3)"
    by (rule onlyAt_same [OF same2])
  moreover have "as_cluster st' \<in> {as_cluster st1, as_cluster st2, as_cluster st3}"
    using ok True by (auto simp: applyEntry_def one two three split: option.splits)
  ultimately show ?thesis
    using onlyAt_same [OF same onlyAt_refl] onlyAt_same [OF same2 onlyAt_refl] by auto
qed (use ok in \<open>auto simp: applyEntry_def\<close>)

text \<open>What \<^verbatim>\<open>Apply\<close> does to the cluster once it has read the local object.\<close>

lemma Apply_effect:
  assumes "Apply fc a now st key val = (st', r)" "parseKey key = Some (kind, namespace, name)" "known kind"
    and "fc_get fc (as_cluster st) kind (namespace, name) = (l, got)"
  shows "as_cluster st' = l \<or>
    (\<exists>ob r. got = Inr ob \<and> originOf ob = ap_region a \<and> fc_delete fc l ob = (as_cluster st', r)) \<or>
    (\<exists>existing entry.
       (existing = None \<and> (\<exists>e. got = Inl e \<and> fc_isNotFound fc e) \<or> (\<exists>ob. existing = Some ob \<and> got = Inr ob \<and> originOf ob = ap_region a)) \<and>
       val = Some (EntryValue entry) \<and>
       applyEntry fc a now (st\<lparr>as_cluster := l\<rparr>) kind namespace name existing key entry = (st', r))"
proof (cases got)
  case (Inl e)
  with assms show ?thesis
    by (cases "fc_isNotFound fc e"; cases val; cases "the val") (auto simp: Apply_def Let_def)
next
  case (Inr ob)
  obtain l2 r2 where del: "fc_delete fc l ob = (l2, r2)" by fastforce
  from Inr assms del show ?thesis
    by (cases "originOf ob = ap_region a"; cases val; cases "the val") (auto simp: Apply_def Let_def originOf_def)
qed

lemma Apply_keeps:
  assumes laws: "cluster_laws fc" and ok: "Apply fc a now st key val = (st', r)"
  shows "keepsForeign fc (ap_region a) (as_cluster st) (as_cluster st')"
proof (cases "\<exists>kind namespace name. parseKey key = Some (kind, namespace, name) \<and> known kind")
  case True
  then obtain kind namespace name where key: "parseKey key = Some (kind, namespace, name)" "known kind" by blast
  have reads: "reads_laws fc" and writes: "writes_laws fc" using laws by (simp_all add: cluster_laws_def)
  obtain l got where get: "fc_get fc (as_cluster st) kind (namespace, name) = (l, got)" by fastforce
  note same = get_same(1) [OF reads get]
  have step: "keepsForeign fc (ap_region a) (as_cluster st) l'"
    if "onlyAt fc kind (namespace, name) l l'" "(\<exists>e. got = Inl e \<and> fc_isNotFound fc e) \<or> (\<exists>ob. got = Inr ob \<and> originOf ob = ap_region a)" for l'
    by (rule onlyAt_keeps [OF onlyAt_same [OF same that(1)]]) (use that(2) get_same(2,3) [OF reads get] in auto)
  from Apply_effect [OF ok key get] show ?thesis
  proof (elim disjE exE conjE)
    assume "as_cluster st' = l"
    with same show ?thesis by (simp add: sameObjects_keeps)
  next
    fix ob r1 assume ob: "got = Inr ob" "originOf ob = ap_region a" "fc_delete fc l ob = (as_cluster st', r1)"
    have "onlyAt fc kind (namespace, name) l (as_cluster st')"
      using writes_onlyAt(1) [OF writes ob(3)] get_same(2) [OF reads get ob(1)] by simp
    with ob step show ?thesis by blast
  next
    fix existing entry e assume none: "existing = None" "got = Inl e" "fc_isNotFound fc e"
      and app: "applyEntry fc a now (st\<lparr>as_cluster := l\<rparr>) kind namespace name existing key entry = (st', r)"
    have "onlyAt fc kind (namespace, name) l (as_cluster st')"
      using applyEntry_onlyAt [OF laws app] none(1) by simp
    with none step show ?thesis by blast
  next
    fix existing entry ob assume some: "existing = Some ob" "got = Inr ob" "originOf ob = ap_region a"
      and app: "applyEntry fc a now (st\<lparr>as_cluster := l\<rparr>) kind namespace name existing key entry = (st', r)"
    have "onlyAt fc kind (namespace, name) l (as_cluster st')"
      using applyEntry_onlyAt [OF laws app] some(1) get_same(2) [OF reads get some(2)] by auto
    with some step show ?thesis by blast
  qed
qed (use ok in \<open>auto simp: Apply_def split: option.splits\<close>)

lemma keepsForeign_onlyAt:
  assumes "keepsForeign fc region l0 l" "onlyAt fc kind key l l'"
    and own: "\<And>ob. fc_objects fc l0 kind key = Some ob \<Longrightarrow> originOf ob = region"
  shows "keepsForeign fc region l0 l'"
  unfolding keepsForeign_def
proof (intro allI impI)
  fix kind' key' ob assume ob: "fc_objects fc l0 kind' key' = Some ob" "originOf ob \<noteq> region"
  hence "(kind', key') \<noteq> (kind, key)" using own by blast
  with ob assms(1,2) show "fc_objects fc l' kind' key' = Some ob"
    unfolding keepsForeign_def onlyAt_def by metis
qed

lemma deleteEach_keeps:
  assumes writes: "writes_laws fc" and "deleteEach fc unwanted (l, errs) obs = (l', errs')" and "keepsForeign fc region l0 l"
    and "\<And>ob. ob \<in> set obs \<Longrightarrow> fc_objects fc l0 (fo_kind ob) (objectKeyOf ob) = Some ob \<and> originOf ob = region"
  shows "keepsForeign fc region l0 l'"
  using assms(2-4)
proof (induction obs arbitrary: l errs)
  case (Cons ob obs)
  obtain l1 r1 where del: "fc_delete fc l ob = (l1, r1)" by fastforce
  have "keepsForeign fc region l0 l1"
    by (rule keepsForeign_onlyAt [OF Cons.prems(2) writes_onlyAt(1) [OF writes del]]) (use Cons.prems(3) [of ob] in simp)
  with Cons.prems Cons.IH [of l1] Cons.IH [of l errs] del show ?case
    by (auto split: if_splits)
qed simp

lemma sweepKind_keeps:
  assumes laws: "cluster_laws fc" and sweep: "sweepKind fc a unwanted (l, errs) kind = (l', errs')"
    and so_far: "keepsForeign fc (ap_region a) l0 l"
  shows "keepsForeign fc (ap_region a) l0 l'"
proof -
  have reads: "reads_laws fc" and writes: "writes_laws fc" using laws by (simp_all add: cluster_laws_def)
  obtain l1 r where list: "fc_listLabelled fc l kind (OriginLabel, ap_region a) = (l1, r)" by fastforce
  have same: "sameObjects fc l l1" by (rule listLabelled_same(1) [OF reads list])
  show ?thesis
  proof (cases r)
    case (Inl e)
    with sweep list same so_far show ?thesis
      by (auto simp: sweepKind_def intro: keepsForeign_trans sameObjects_keeps)
  next
    case (Inr obs)
    have "fc_objects fc l1 (fo_kind ob) (objectKeyOf ob) = Some ob \<and> originOf ob = ap_region a" if "ob \<in> set obs" for ob
      using that listLabelled_same(2) [OF reads list Inr, of ob] same by (simp add: sameObjects_def originOf_def at_def)
    moreover have "deleteEach fc unwanted (l1, errs) obs = (l', errs')"
      using sweep list Inr by (simp add: sweepKind_def)
    ultimately have "keepsForeign fc (ap_region a) l1 l'"
      using deleteEach_keeps [OF writes, of unwanted l1 errs obs l' errs' "ap_region a" l1] by simp
    with so_far same show ?thesis
      using keepsForeign_trans sameObjects_keeps by metis
  qed
qed

lemma sweep_keeps:
  assumes "cluster_laws fc" "foldl (\<lambda>acc kind. sweepKind fc a (unwanted kind) acc kind) (l, errs) kinds = (l', errs')"
    and "keepsForeign fc (ap_region a) l0 l"
  shows "keepsForeign fc (ap_region a) l0 l'"
  using assms(2,3)
proof (induction kinds arbitrary: l errs)
  case (Cons kind kinds)
  obtain l1 e1 where one: "sweepKind fc a (unwanted kind) (l, errs) kind = (l1, e1)" by fastforce
  with Cons sweepKind_keeps [OF assms(1) one Cons.prems(2)] show ?case by simp
qed simp

lemma prune_keeps:
  assumes "cluster_laws fc" "prune fc a l seen = (l', errs)"
  shows "keepsForeign fc (ap_region a) l l'"
  using sweep_keeps [OF assms(1) assms(2) [unfolded prune_def] keepsForeign_refl] .

lemma withdrawUnserved_keeps:
  assumes laws: "cluster_laws fc" and run: "withdrawUnserved fc a now st = (st', e)"
  shows "keepsForeign fc (ap_region a) (as_cluster st) (as_cluster st')"
proof -
  have reads: "reads_laws fc" using laws by (simp add: cluster_laws_def)
  obtain st1 r1 where one: "servedProjects fc a now st = (st1, r1)" by fastforce
  obtain l2 r2 where two: "fc_listNamespaces fc (as_cluster st1) (replicatedLabel, replicatedValue) = (l2, r2)" by fastforce
  have same: "sameObjects fc (as_cluster st) (as_cluster st1)" by (rule servedProjects_same [OF reads one])
  have same2: "sameObjects fc (as_cluster st) l2"
    by (rule sameObjects_trans [OF same reads_same(2) [OF reads two]])
  have "as_cluster st' \<in> {as_cluster st1, l2} \<or>
    (\<exists>unwanted e. foldl (\<lambda>acc kind. sweepKind fc a unwanted acc kind) (l2, None) Kinds = (as_cluster st', e))"
    using run by (auto simp: withdrawUnserved_def one two Let_def split: sum.splits if_splits prod.splits)
  thus ?thesis
  proof (elim disjE exE)
    fix unwanted e assume "foldl (\<lambda>acc kind. sweepKind fc a unwanted acc kind) (l2, None) Kinds = (as_cluster st', e)"
    from sweep_keeps [OF laws this sameObjects_keeps [OF same2]] show ?thesis .
  qed (use same same2 sameObjects_keeps in auto)
qed

lemma applyKey_keeps:
  assumes "cluster_laws fc" "applyKey fc a now (st, rs) (key, val) = (st', rs')"
  shows "keepsForeign fc (ap_region a) (as_cluster st) (as_cluster st')"
proof -
  obtain st1 r where one: "Apply fc a now st key val = (st1, r)" by fastforce
  with assms(2) have "st' = st1"
    by (auto simp: applyKey_def split: option.splits apply_error.splits)
  with Apply_keeps [OF assms(1) one] show ?thesis by simp
qed

lemma retryFailed_keeps:
  assumes "cluster_laws fc" "retryFailed fc kv a now (b, st, rs) keys = (b', st', rs')"
  shows "keepsForeign fc (ap_region a) (as_cluster st) (as_cluster st')"
  using assms(2)
proof (induction keys arbitrary: b st rs)
  case (Cons key keys)
  have step: "keepsForeign fc (ap_region a) (as_cluster st) (as_cluster st')"
    if go: "retryFailed fc kv a now (b1, applyKey fc a now (st, rs) (key, val)) keys = (b', st', rs')" for b1 val
  proof -
    obtain st1 rs1 where one: "applyKey fc a now (st, rs) (key, val) = (st1, rs1)" by fastforce
    from Cons.IH [OF go [unfolded one]] applyKey_keeps [OF assms(1) one] show ?thesis
      by (metis keepsForeign_trans)
  qed
  from Cons.prems Cons.IH step show ?case
    by (auto split: prod.splits sum.splits if_splits)
qed simp


section \<open>What an accepted entry leaves behind\<close>

text \<open>\<^verbatim>\<open>CreateOrPatch\<close> applies its function to the stored object, or to the one it is given, and stores the
  result.\<close>

definition patch_laws :: "'l feed_client \<Rightarrow> bool" where
  "patch_laws fc \<longleftrightarrow>
     (\<forall>l ob f l'. fc_createOrPatch fc l ob f = (l', None) \<longrightarrow>
        (\<exists>new stored. f (case fc_objects fc l (fo_kind ob) (objectKeyOf ob) of None \<Rightarrow> ob | Some current \<Rightarrow> current) = Inr new \<and>
           fc_objects fc l' (fo_kind ob) (objectKeyOf ob) = Some stored \<and> fo_labels stored = fo_labels new \<and>
           fo_annotations stored = fo_annotations new \<and> fo_spec stored = fo_spec new))"

definition carries :: "Applier \<Rightarrow> Entry \<Rightarrow> feed_object \<Rightarrow> bool" where
  "carries a entry copy \<longleftrightarrow>
     fo_spec copy = en_spec entry \<and> originOf copy = ap_region a \<and>
     at (fo_annotations copy) OriginUIDAnnotation = at (en_annotations entry) OriginUIDAnnotation \<and>
     at (fo_annotations copy) OriginGenerationAnnotation = int_str (en_generation entry) \<and>
     (\<forall>k. \<not> reserved k \<longrightarrow> fo_labels copy k = en_labels entry k \<and> fo_annotations copy k = en_annotations entry k) \<and>
     (\<forall>k. reserved k \<longrightarrow> k \<noteq> OriginLabel \<longrightarrow> fo_labels copy k = None)"

text \<open>The local copy is of a later generation of the same object.\<close>

definition newerThan :: "Applier \<Rightarrow> Entry \<Rightarrow> feed_object \<Rightarrow> bool" where
  "newerThan a entry copy \<longleftrightarrow>
     originOf copy = ap_region a \<and> at (fo_annotations copy) OriginUIDAnnotation = at (en_annotations entry) OriginUIDAnnotation \<and>
     (\<exists>g. ParseInt64 (at (fo_annotations copy) OriginGenerationAnnotation) = Some g \<and> en_generation entry < g)"

lemma reserved_origin: "reserved OriginLabel" "reserved OriginUIDAnnotation" "reserved OriginGenerationAnnotation"
  by code_simp+

lemma origin_names: "OriginUIDAnnotation \<noteq> OriginGenerationAnnotation"
  by code_simp

lemma carries_copyOf:
  assumes "fo_labels copy = fo_labels (copyOf a entry ob)" "fo_annotations copy = fo_annotations (copyOf a entry ob)"
    "fo_spec copy = fo_spec (copyOf a entry ob)"
  shows "carries a entry copy"
proof -
  have "k \<noteq> OriginLabel \<and> k \<noteq> OriginUIDAnnotation \<and> k \<noteq> OriginGenerationAnnotation" if "\<not> reserved k" for k
    using that reserved_origin by blast
  thus ?thesis
    using assms origin_names by (auto simp: carries_def copyOf_def originOf_def at_def unreserved_def)
qed

text \<open>The two ways a write ends without an error: the copy is newer and stays, or \<^verbatim>\<open>CreateOrPatch\<close> stored one.\<close>

lemma writeCopy_done:
  assumes "writeCopy fc a st kind existing entry key = (st', None)"
  shows "(\<exists>local g. existing = Some local \<and> st' = st \<and>
      at (fo_annotations local) OriginUIDAnnotation = at (en_annotations entry) OriginUIDAnnotation \<and>
      ParseInt64 (at (fo_annotations local) OriginGenerationAnnotation) = Some g \<and> en_generation entry < g) \<or>
    fc_createOrPatch fc (as_cluster st) (case existing of None \<Rightarrow> emptyObject kind (en_namespace entry) (en_name entry) | Some local \<Rightarrow> local)
      (\<lambda>ob. Inr (copyOf a entry ob)) = (as_cluster st', None)"
proof (cases existing)
  case None
  with assms show ?thesis
    by (simp add: writeCopy_def Let_def split: if_splits prod.splits) auto
next
  case (Some local)
  show ?thesis
  proof (cases "at (fo_annotations local) OriginUIDAnnotation = at (en_annotations entry) OriginUIDAnnotation")
    case True
    with assms Some show ?thesis
      by (simp add: writeCopy_def Let_def split: if_splits prod.splits option.splits) auto
  next
    case False
    with assms Some show ?thesis
      by (simp add: writeCopy_def Let_def split: if_splits prod.splits option.splits)
  qed
qed

lemma patch_stores:
  assumes "patch_laws fc" "fc_createOrPatch fc l ob f = (l', None)"
  shows "\<exists>new stored. f (case fc_objects fc l (fo_kind ob) (objectKeyOf ob) of None \<Rightarrow> ob | Some current \<Rightarrow> current) = Inr new \<and>
    fc_objects fc l' (fo_kind ob) (objectKeyOf ob) = Some stored \<and> fo_labels stored = fo_labels new \<and>
    fo_annotations stored = fo_annotations new \<and> fo_spec stored = fo_spec new"
  using assms unfolding patch_laws_def by blast

lemma writeCopy_leaves:
  assumes patch: "patch_laws fc" and ok: "writeCopy fc a st kind existing entry key = (st', None)"
    and existing: "\<And>local. existing = Some local \<Longrightarrow> fc_objects fc (as_cluster st) kind (en_namespace entry, en_name entry) = Some local \<and>
      fo_kind local = kind \<and> objectKeyOf local = (en_namespace entry, en_name entry) \<and> originOf local = ap_region a"
  shows "\<exists>copy. fc_objects fc (as_cluster st') kind (en_namespace entry, en_name entry) = Some copy \<and>
    (carries a entry copy \<or> newerThan a entry copy)"
  using writeCopy_done [OF ok]
proof (elim disjE exE conjE)
  fix local g assume "existing = Some local" "st' = st"
    "at (fo_annotations local) OriginUIDAnnotation = at (en_annotations entry) OriginUIDAnnotation"
    "ParseInt64 (at (fo_annotations local) OriginGenerationAnnotation) = Some g" "en_generation entry < g"
  with existing [of local] show ?thesis by (intro exI [of _ local]) (simp add: newerThan_def)
next
  let ?local = "case existing of None \<Rightarrow> emptyObject kind (en_namespace entry) (en_name entry) | Some local \<Rightarrow> local"
  assume go: "fc_createOrPatch fc (as_cluster st) ?local (\<lambda>ob. Inr (copyOf a entry ob)) = (as_cluster st', None)"
  have key: "fo_kind ?local = kind" "objectKeyOf ?local = (en_namespace entry, en_name entry)"
    using existing by (auto simp: emptyObject_def objectKeyOf_def split: option.splits)
  from patch_stores [OF patch go] obtain ob stored where stored: "fc_objects fc (as_cluster st') (fo_kind ?local) (objectKeyOf ?local) = Some stored"
    "fo_labels stored = fo_labels (copyOf a entry ob)" "fo_annotations stored = fo_annotations (copyOf a entry ob)"
    "fo_spec stored = fo_spec (copyOf a entry ob)"
    by (auto simp del: fun_upd_apply)
  from carries_copyOf [OF stored(2-4)] stored(1) key show ?thesis by simp
qed

lemma writeCopy_others:
  assumes "writes_laws fc" "writeCopy fc a st kind existing entry key = (st', r)"
    and "\<And>local. existing = Some local \<Longrightarrow> fo_kind local = kind \<and> objectKeyOf local = (en_namespace entry, en_name entry)"
    and "objectKeyOf ob \<noteq> (en_namespace entry, en_name entry)"
  shows "fc_objects fc (as_cluster st') kind (objectKeyOf ob) = fc_objects fc (as_cluster st) kind (objectKeyOf ob)"
  using writeCopy_onlyAt [OF assms(1-3)] assms(4) unfolding onlyAt_def by blast

text \<open>An identity that passes is well-formed, and no other object of the kind in the namespace answers to it.\<close>

lemma uniqueIdentity_unique:
  assumes "reads_laws fc" "uniqueIdentity fc st kind namespace name uid = (st', None)"
  shows "wellFormedUID uid \<and> (\<forall>ob. fc_objects fc (as_cluster st') kind (objectKeyOf ob) = Some ob \<longrightarrow> fo_namespace ob = namespace \<longrightarrow>
    fo_name ob \<noteq> name \<longrightarrow> heldUID ob \<noteq> uid)"
proof -
  obtain l r where list: "fc_listIn fc (as_cluster st) kind namespace = (l, r)" by fastforce
  have uid: "wellFormedUID uid" using assms(2) by (auto simp: uniqueIdentity_def split: if_splits)
  then obtain obs where obs: "r = Inr obs" "as_cluster st' = l" "find (\<lambda>ob. fo_name ob \<noteq> name \<and> heldUID ob = uid) obs = None"
    using assms(2) list by (auto simp: uniqueIdentity_def split: sum.splits option.splits)
  have "heldUID ob \<noteq> uid" if "fc_objects fc l kind (objectKeyOf ob) = Some ob" "fo_namespace ob = namespace" "fo_name ob \<noteq> name" for ob
  proof -
    have "ob \<in> set obs"
      using listIn_same(2) [OF assms(1) list obs(1), of ob] listIn_same(1) [OF assms(1) list] that by (simp add: sameObjects_def)
    with obs(3) that(3) show ?thesis by (auto simp: find_None_iff)
  qed
  with uid obs(2) show ?thesis by simp
qed

lemma applyEntry_accepts:
  assumes laws: "cluster_laws fc" "patch_laws fc" and ok: "applyEntry fc a now st kind namespace name existing key entry = (st', None)"
    and existing: "\<And>local. existing = Some local \<Longrightarrow> fc_objects fc (as_cluster st) kind (namespace, name) = Some local \<and>
      fo_kind local = kind \<and> objectKeyOf local = (namespace, name) \<and> originOf local = ap_region a"
  shows "en_namespace entry = namespace \<and> en_name entry = name \<and> wellFormedUID (at (en_annotations entry) OriginUIDAnnotation) \<and>
    (\<exists>copy. fc_objects fc (as_cluster st') kind (namespace, name) = Some copy \<and> (carries a entry copy \<or> newerThan a entry copy)) \<and>
    (\<forall>ob. fc_objects fc (as_cluster st') kind (objectKeyOf ob) = Some ob \<longrightarrow> fo_namespace ob = namespace \<longrightarrow> fo_name ob \<noteq> name \<longrightarrow>
       heldUID ob \<noteq> at (en_annotations entry) OriginUIDAnnotation)"
proof -
  let ?uid = "at (en_annotations entry) OriginUIDAnnotation"
  have reads: "reads_laws fc" and writes: "writes_laws fc" using laws(1) by (simp_all add: cluster_laws_def)
  have names: "en_namespace entry = namespace" "en_name entry = name"
    using ok by (auto simp: applyEntry_def split: if_splits)
  obtain st1 st2 where one: "mapped fc a now st namespace = (st1, None)"
    and two: "uniqueIdentity fc st1 kind namespace name ?uid = (st2, None)"
    and three: "writeCopy fc a st2 kind existing entry key = (st', None)"
    using ok names by (auto simp: applyEntry_def split: prod.splits option.splits)
  have same: "sameObjects fc (as_cluster st) (as_cluster st2)"
    by (rule sameObjects_trans [OF mapped_same [OF reads one] uniqueIdentity_same [OF reads two]])
  have leaves: "\<exists>copy. fc_objects fc (as_cluster st') kind (namespace, name) = Some copy \<and> (carries a entry copy \<or> newerThan a entry copy)"
    using writeCopy_leaves [OF laws(2) three] existing same names by (simp add: sameObjects_def)
  have "fc_objects fc (as_cluster st') kind (objectKeyOf ob) = fc_objects fc (as_cluster st2) kind (objectKeyOf ob)"
    if "fo_name ob \<noteq> name" for ob
    by (rule writeCopy_others [OF writes three]) (use that existing names in \<open>auto simp: objectKeyOf_def\<close>)
  with uniqueIdentity_unique [OF reads two] leaves names show ?thesis by auto
qed

lemma takeWhile_dot: "CHR ''.'' \<notin> set s \<Longrightarrow> takeWhile (\<lambda>c. c \<noteq> CHR ''.'') (s @ CHR ''.'' # t) = s"
  by (induction s) auto

lemma dropWhile_dot: "CHR ''.'' \<notin> set s \<Longrightarrow> dropWhile (\<lambda>c. c \<noteq> CHR ''.'') (s @ CHR ''.'' # t) = CHR ''.'' # t"
  by (induction s) auto

text \<open>A key reads back as what it was made of; the name may have dots.\<close>

lemma parseKey_feedKey:
  assumes "CHR ''.'' \<notin> set kind" "CHR ''.'' \<notin> set namespace"
  shows "parseKey (feedKey kind namespace name) = Some (kind, namespace, name)"
  using assms by (simp add: parseKey_def feedKey_def Let_def takeWhile_dot dropWhile_dot)

lemma known_no_dot: "known kind \<Longrightarrow> CHR ''.'' \<notin> set kind"
  by (auto simp: known_def Kinds_def)

text \<open>C14: An entry that is applied without an error names the object of its key and has a well-formed origin UID that no
  other object of its kind in the namespace answers to; the region then holds a copy with the entry's spec, identity,
  generation and unreserved labels and annotations, marked with the writing region as its origin and with no other label
  of a reserved domain, unless it holds a copy of a later generation of the same object already.\<close>

theorem applied_entry_carried:
  assumes laws: "cluster_laws fc" "patch_laws fc" and kind: "known kind" and namespace: "CHR ''.'' \<notin> set namespace"
    and ok: "snd (Apply fc a now st (feedKey kind namespace name) (Some (EntryValue entry))) = None"
  shows "en_namespace entry = namespace \<and> en_name entry = name \<and> wellFormedUID (at (en_annotations entry) OriginUIDAnnotation) \<and>
    (\<exists>copy. fc_objects fc (as_cluster (fst (Apply fc a now st (feedKey kind namespace name) (Some (EntryValue entry))))) kind (namespace, name) = Some copy \<and>
       (carries a entry copy \<or> newerThan a entry copy)) \<and>
    (\<forall>ob. fc_objects fc (as_cluster (fst (Apply fc a now st (feedKey kind namespace name) (Some (EntryValue entry))))) kind (objectKeyOf ob) = Some ob \<longrightarrow>
       fo_namespace ob = namespace \<longrightarrow> fo_name ob \<noteq> name \<longrightarrow> heldUID ob \<noteq> at (en_annotations entry) OriginUIDAnnotation)"
proof -
  let ?key = "feedKey kind namespace name"
  have reads: "reads_laws fc" using laws(1) by (simp add: cluster_laws_def)
  note key = parseKey_feedKey [OF known_no_dot [OF kind] namespace, of name]
  obtain l got where get: "fc_get fc (as_cluster st) kind (namespace, name) = (l, got)" by fastforce
  obtain st' where run: "Apply fc a now st ?key (Some (EntryValue entry)) = (st', None)"
    using ok by (metis prod.collapse)
  have own: "fc_objects fc l kind (namespace, name) = Some local \<and> fo_kind local = kind \<and> objectKeyOf local = (namespace, name)"
    if "got = Inr local" for local
    using get_same(1,2) [OF reads get] that by (simp add: sameObjects_def)
  obtain existing where "applyEntry fc a now (st\<lparr>as_cluster := l\<rparr>) kind namespace name existing ?key entry = (st', None)"
    "existing = None \<or> (\<exists>local. existing = Some local \<and> got = Inr local \<and> originOf local = ap_region a)"
    using run kind key get by (cases got) (auto simp: Apply_def Let_def originOf_def split: if_splits)
  with applyEntry_accepts [OF laws, of a now "st\<lparr>as_cluster := l\<rparr>" kind namespace name existing ?key entry st'] own run
  show ?thesis by auto
qed

section \<open>A cluster in memory\<close>

text \<open>A cluster as lists of objects, namespaces and access bindings; of two objects of a kind with one key the first counts.\<close>

record shelf =
  sh_objects :: "feed_object list"
  sh_namespaces :: "feed_namespace list"
  sh_bindings :: "access_binding list"

definition sameSlot :: "feed_object \<Rightarrow> feed_object \<Rightarrow> bool" where
  "sameSlot x y \<longleftrightarrow> fo_kind x = fo_kind y \<and> objectKeyOf x = objectKeyOf y"

fun visible :: "feed_object list \<Rightarrow> feed_object list" where
  "visible [] = []"
| "visible (ob # obs) = ob # filter (\<lambda>x. \<not> sameSlot x ob) (visible obs)"

definition lookup_in :: "feed_object list \<Rightarrow> string \<Rightarrow> string \<times> string \<Rightarrow> feed_object option" where
  "lookup_in obs kind key = find (\<lambda>ob. fo_kind ob = kind \<and> objectKeyOf ob = key) obs"

definition without :: "feed_object \<Rightarrow> feed_object list \<Rightarrow> feed_object list" where
  "without ob = filter (\<lambda>x. \<not> sameSlot x ob)"

definition shelved :: "feed_object \<Rightarrow> feed_object \<Rightarrow> feed_object" where
  "shelved ob new = new\<lparr>fo_kind := fo_kind ob, fo_namespace := fo_namespace ob, fo_name := fo_name ob, fo_resourceVersion := ''1''\<rparr>"

definition shelfPatch :: "shelf \<Rightarrow> feed_object \<Rightarrow> (feed_object \<Rightarrow> go_error + feed_object) \<Rightarrow> shelf \<times> err" where
  "shelfPatch l ob f =
     (case f (case lookup_in (sh_objects l) (fo_kind ob) (objectKeyOf ob) of None \<Rightarrow> ob | Some current \<Rightarrow> current) of
        Inl e \<Rightarrow> (l, Some e)
      | Inr new \<Rightarrow> (l\<lparr>sh_objects := shelved ob new # without ob (sh_objects l)\<rparr>, None))"

definition shelfMissing :: go_error where "shelfMissing = PlainError ''not found''"

definition shelfClient :: "shelf feed_client" where
  "shelfClient =
     \<lparr>fc_isNotFound = (\<lambda>e. e = shelfMissing),
      fc_get = (\<lambda>l kind key. (l, case lookup_in (sh_objects l) kind key of None \<Rightarrow> Inl shelfMissing | Some ob \<Rightarrow> Inr ob)),
      fc_listIn = (\<lambda>l kind namespace. (l, Inr (filter (\<lambda>ob. fo_kind ob = kind \<and> fo_namespace ob = namespace) (visible (sh_objects l))))),
      fc_listLabelled = (\<lambda>l kind label. (l, Inr (filter (\<lambda>ob. fo_kind ob = kind \<and> fo_labels ob (fst label) = Some (snd label)) (visible (sh_objects l))))),
      fc_delete = (\<lambda>l ob. (l\<lparr>sh_objects := without ob (sh_objects l)\<rparr>, None)),
      fc_createOrPatch = shelfPatch,
      fc_getNamespace = (\<lambda>l namespace. (l, case find (\<lambda>ns. fn_name ns = namespace) (sh_namespaces l) of None \<Rightarrow> Inl shelfMissing | Some ns \<Rightarrow> Inr ns)),
      fc_listNamespaces = (\<lambda>l label. (l, Inr (filter (\<lambda>ns. at (fn_labels ns) (fst label) = snd label) (sh_namespaces l)))),
      fc_listAccessBindings = (\<lambda>l. (l, Inr (sh_bindings l))),
      fc_objects = (\<lambda>l. lookup_in (sh_objects l))\<rparr>"

lemma lookup_in_key: "lookup_in obs kind key = Some ob \<Longrightarrow> fo_kind ob = kind \<and> objectKeyOf ob = key"
  by (auto simp: lookup_in_def find_Some_iff)

lemma visible_iff: "ob \<in> set (visible obs) \<longleftrightarrow> lookup_in obs (fo_kind ob) (objectKeyOf ob) = Some ob"
  by (induction obs) (auto simp: lookup_in_def sameSlot_def)

lemma lookup_without: "\<not> (kind = fo_kind ob \<and> key = objectKeyOf ob) \<Longrightarrow> lookup_in (without ob obs) kind key = lookup_in obs kind key"
  by (induction obs) (auto simp: lookup_in_def without_def sameSlot_def)

lemma shelved_sel: "fo_labels (shelved ob new) = fo_labels new" "fo_annotations (shelved ob new) = fo_annotations new"
    "fo_spec (shelved ob new) = fo_spec new"
  by (simp_all add: shelved_def)

lemma lookup_shelved:
  "lookup_in (shelved ob new # obs) kind key = (if kind = fo_kind ob \<and> key = objectKeyOf ob then Some (shelved ob new) else lookup_in obs kind key)"
  by (auto simp: lookup_in_def shelved_def objectKeyOf_def)

lemma shelf_reads: "reads_laws shelfClient"
proof -
  have slot: "ob \<in> set (visible obs) \<and> fo_kind ob = kind \<longleftrightarrow> lookup_in obs kind (objectKeyOf ob) = Some ob" for ob obs kind
    using visible_iff [of ob obs] lookup_in_key [of obs kind "objectKeyOf ob" ob] by auto
  show ?thesis
    unfolding reads_laws_def shelfClient_def
    by (auto simp: slot [symmetric] dest: lookup_in_key split: option.splits)
qed

lemma shelf_writes: "writes_laws shelfClient"
  by (auto simp: writes_laws_def shelfClient_def onlyAt_def shelfPatch_def lookup_without lookup_shelved split: sum.splits)

lemma shelf_laws: "cluster_laws shelfClient" "patch_laws shelfClient"
proof -
  show "cluster_laws shelfClient" by (simp add: cluster_laws_def shelf_reads shelf_writes)
  show "patch_laws shelfClient"
    by (auto simp: patch_laws_def shelfClient_def shelfPatch_def lookup_shelved shelved_sel split: sum.splits)
qed

subsection \<open>A region with one project and an object of its own\<close>

definition exampleRegion :: Applier where
  "exampleRegion = \<lparr>ap_region = ''us'', ap_interval = 0\<rparr>"

definition exampleOwn :: feed_object where
  "exampleOwn = (emptyObject ''DNSRegistration'' ''p1'' ''own'')\<lparr>fo_labels := [OriginLabel \<mapsto> ''eu'']\<rparr>"

definition exampleShelf :: shelf where
  "exampleShelf =
     \<lparr>sh_objects = [exampleOwn],
      sh_namespaces = [\<lparr>fn_name = ''p1'', fn_deleting = False, fn_labels = [replicatedLabel \<mapsto> replicatedValue],
                        fn_annotations = [projectUIDAnnotation \<mapsto> ''project'']\<rparr>],
      sh_bindings = [\<lparr>ab_namespace = ''p1'', ab_region = ''us''\<rparr>]\<rparr>"

definition exampleState :: "shelf applier_state" where
  "exampleState = \<lparr>as_cluster = exampleShelf, as_served = None, as_servedAt = 0\<rparr>"

definition exampleEntry :: Entry where
  "exampleEntry = \<lparr>en_kind = ''DNSRegistration'', en_namespace = ''p1'', en_name = ''web.1'', en_generation = 3,
     en_labels = [''app'' \<mapsto> ''web'', replicatedLabel \<mapsto> replicatedValue],
     en_annotations = [OriginUIDAnnotation \<mapsto> ''00000000-0000-0000-0000-000000000001''], en_spec = ''{}''\<rparr>"

definition exampleKey :: string where
  "exampleKey = feedKey ''DNSRegistration'' ''p1'' ''web.1''"

lemma example_accepted: "snd (Apply shelfClient exampleRegion 0 exampleState exampleKey (Some (EntryValue exampleEntry))) = None"
  by code_simp

definition emptyBucket :: "unit KV" where
  "emptyBucket = \<lparr>kv_get = (\<lambda>b key. (b, Inl ErrKVNotFound)), kv_create = (\<lambda>b key val. (b, Some ErrKVExists)),
     kv_update = (\<lambda>b key val revision. (b, Some ErrKVConflict)), kv_delete = (\<lambda>b key revision. (b, Some ErrKVNotFound)),
     kv_watch = (\<lambda>b. (b, Inr [SyncedEvent]))\<rparr>"

lemma example_foreign:
  "keepsForeign shelfClient ''us'' exampleShelf l \<Longrightarrow> fc_objects shelfClient l ''DNSRegistration'' (''p1'', ''own'') = Some exampleOwn"
proof -
  assume keeps: "keepsForeign shelfClient ''us'' exampleShelf l"
  have "fc_objects shelfClient exampleShelf ''DNSRegistration'' (''p1'', ''own'') = Some exampleOwn"
    by (simp add: shelfClient_def exampleShelf_def lookup_in_def exampleOwn_def emptyObject_def objectKeyOf_def)
  moreover have "originOf exampleOwn \<noteq> ''us''" by code_simp
  ultimately show ?thesis using keeps unfolding keepsForeign_def by blast
qed


theorem applied_entry_carried_witness:
  "cluster_laws shelfClient \<and> patch_laws shelfClient \<and> known ''DNSRegistration'' \<and> CHR ''.'' \<notin> set ''p1'' \<and>
   snd (Apply shelfClient exampleRegion 0 exampleState exampleKey (Some (EntryValue exampleEntry))) = None \<and>
   (\<exists>copy. fc_objects shelfClient (as_cluster (fst (Apply shelfClient exampleRegion 0 exampleState exampleKey (Some (EntryValue exampleEntry)))))
      ''DNSRegistration'' (''p1'', ''web.1'') = Some copy \<and>
      (carries exampleRegion exampleEntry copy \<or> newerThan exampleRegion exampleEntry copy))"
proof -
  have kind: "known ''DNSRegistration''" by (simp add: known_def Kinds_def)
  have dot: "CHR ''.'' \<notin> set ''p1''" by simp
  from applied_entry_carried [OF shelf_laws kind dot example_accepted [unfolded exampleKey_def], folded exampleKey_def]
    kind dot shelf_laws example_accepted show ?thesis by blast
qed

text \<open>The function the applier gives to \<^verbatim>\<open>CreateOrPatch\<close> accepts whatever object is read there, the publisher's refuses one of
  another origin: only the earlier read keeps the applier away from objects that others create.\<close>

lemma copy_replaces_any_origin:
  "originOf (copyOf a entry ob) = ap_region a"
  "fo_resourceVersion ob \<noteq> [] \<Longrightarrow> originOf ob \<noteq> region \<Longrightarrow> hubCopy region obj ob = Inl (ownedError (objectKeyOf obj) (originOf ob))"
  by (simp_all add: copyOf_def originOf_def at_def hubCopy_def objectKeyOf_def)

end
