(* ===== verification/Spec2Isabelle.thy ===== *)
theory Spec2Isabelle
  imports Zone_Controller Rdata_Validate Admission Zone_Replicator Region_Lease Feed
begin

text \<open>
  A verification library for the DNS operator: a Kubernetes operator that programs zones and record
  sets into PowerDNS, replicates them between clusters, and comes with a command line plugin.

  \<^bold>\<open>The program.\<close>  A user writes \<^verbatim>\<open>DNSZone\<close> and \<^verbatim>\<open>DNSRecordSet\<close> objects into an upstream cluster. The
  admission webhooks (\<^verbatim>\<open>internal/webhook\<close>) refuse record sets that contend for an owner name and stamp
  annotations. The replicators (\<^verbatim>\<open>internal/controller/*_replicator_controller.go\<close>) mirror public zones
  whose domain name is claimed and proven, and the record sets of public zones, into a downstream
  cluster (\<^verbatim>\<open>internal/downstreamclient\<close>), and copy the status back. The downstream controllers
  (\<^verbatim>\<open>internal/controller/*_downstream_controller.go\<close>) program the mirrors through the provider interface
  (\<^verbatim>\<open>internal/dns\<close>) into PowerDNS (\<^verbatim>\<open>internal/dns/pdns\<close>). The plugin (\<^verbatim>\<open>internal/cmd/dns\<close>) parses, validates
  and shows record data and statuses. Beside them stands the internal DNS service (\<^verbatim>\<open>internal/internaldns\<close>)
  for private zones: a control plane per region, led by one process at a time (\<^verbatim>\<open>platform/region_lease.go\<close>),
  publishes zones to the servers of its shards in the messages of \<^verbatim>\<open>model\<close>, and regions exchange their
  inputs through buckets (\<^verbatim>\<open>feed\<close>).

  \<^bold>\<open>How it is modelled.\<close>  Go strings are \<^typ>\<open>string\<close> and compared bytewise, slices are lists, maps are
  association lists where their order does not matter, structs are records, fixed-width integers of
  the API are words or integers with the bound written out. An error is a value of \<open>go_error\<close>; an
  operation returns it in an option or a sum. State is passed explicitly. What is not in this repository
  is a parameter: PowerDNS is a \<open>pdns_env\<close> that answers requests from a state of its own; the API server,
  \<^verbatim>\<open>apimachinery\<close> and \<^verbatim>\<open>controller-runtime\<close> are the records \<open>kube\<close>, \<open>up_client\<close>, \<open>down_client\<close> and
  \<open>webhook_client\<close>, \<open>lease_api\<close> and \<open>feed_client\<close> of functions, the bucket of a feed is a \<open>KV\<close>, \<^verbatim>\<open>miekg/dns\<close> a
  \<open>dns_lib\<close>; what their documentation promises is stated as a named predicate where a theorem needs it
  (\<open>condition_laws\<close>, \<open>finalizer_laws\<close>, \<open>find_laws\<close>, \<open>status_keeps_spec\<close>, \<open>ledger_laws\<close>, \<open>reads_namespace\<close>,
  \<open>api_laws\<close>, \<open>api_up\<close>, \<open>cluster_laws\<close>, \<open>patch_laws\<close>), each with an instance that satisfies it. The controllers
  carry a ghost log of the effects they have, so that a theorem can speak of their order. The region lease
  is a program of calls with their continuations, and several processes run it in the step relation
  \<open>lease_step\<close>. A value that travels as JSON is represented by what it encodes.

  \<^bold>\<open>The theories.\<close>
  \<^item> \<open>Go_Prelude\<close>: what the code uses of the Go library (strings, sorting, numbers, quoting), the locale
    \<open>go_less\<close> of the comparisons that \<^verbatim>\<open>sort.Slice\<close> may be given, interpreted where a component sorts. \<open>Go_Hash\<close>:
    SHA-256 and hexadecimal text.
  \<^item> \<open>Api_Types\<close>: the types of \<^verbatim>\<open>api/v1alpha1\<close>. \<open>Owner_Name\<close>: \<^verbatim>\<open>ownername.Qualify\<close>, the names a domain covers,
    nameserver lists; one qualified name per owner, whatever its spelling.
  \<^item> \<open>Pdns_Content\<close>, \<open>Pdns_Errors\<close>, \<open>Pdns_Patch\<close>, \<open>Pdns_Zone\<close>, \<open>Pdns_RecordSet\<close>: \<^verbatim>\<open>pdns/client.go\<close> and
    \<^verbatim>\<open>errors.go\<close>. The content of every record type, RRsets, serials; classified errors and refusals;
    patches, their order and the isolation of refused changes; zones; record sets. They show that a
    reconcile touches only what its record set owns, that it settles, that its report is true, that
    a deletion removes all and only the owner's RRsets, and that no zone goes before its comments.
  \<^item> \<open>Record_Status\<close>: the status words and the delegation state of \<^verbatim>\<open>dns/util\<close>. \<open>Dns_Backend\<close>: the provider
    interface as the locales \<open>record_backend\<close> and \<open>complete_backend\<close>, interpreted for the fake and the PowerDNS
    provider, and the handler that picks one.
  \<^item> \<open>Kube_Api\<close>: the parameters of a controller, the aggregation of the conditions of all names.
    \<open>Alias_Target\<close>, \<open>RecordSet_Controller\<close>, \<open>Zone_Controller\<close>: the downstream controllers. Programmed means
    served, finalizers come off last, what is not programmed is retried, what waits is woken.
  \<^item> \<open>Display\<close>, \<open>Admission\<close>: \<^verbatim>\<open>internal/display\<close> and \<^verbatim>\<open>internal/webhook\<close>. Through any sequence of admitted
    writes no two live record sets contend for an owner name.
  \<^item> \<open>Downstream\<close>, \<open>RecordSet_Replicator\<close>, \<open>Zone_Replicator\<close>: mirrors. Only public, claimed and proven zones are
    mirrored; a domain name has one owner; a change of a mirror wakes its original; the original goes
    last; the status follows the mirror.
  \<^item> \<open>Rdata_Text\<close>, \<open>Go_Netip\<close>, \<open>Rdata_Value\<close>, \<open>Rdata_Validate\<close>: \<^verbatim>\<open>internal/cmd/dns/rdata\<close>. Tokens, TXT and TTL
    spellings and their round trips; addresses; parsing and rendering of values; validation. What
    passes the validation is written to PowerDNS as it is shown.
  \<^item> \<open>Wire_Model\<close>: \<^verbatim>\<open>internaldns/model\<close> and the chunks of a publication. A valid snapshot keeps the addresses
    of bindings apart, a valid plan can be served, a payload survives being cut and verified, subjects
    reach the shard they are for, fences order what they should.
  \<^item> \<open>Region_Lease\<close>: at most one process leads a region, whatever way the calls of several interleave, and a
    free lease is taken. \<open>Feed\<close>: publisher and applier of a feed. The applier leaves objects of other origins
    alone, and an entry it accepts is carried faithfully under a unique identity.

  \<^bold>\<open>Bounds.\<close>  One operation of the model takes fuel, the recogniser of JSON texts: every second call
  takes a byte, and it starts with more than twice the length of the text. The loops whose end is not structural
  have a measure: the isolation of refused changes by the number of changes left, chunks and tokens by
  the length of the input left. Widths are kept where they matter: SOA serials and timers have 32 bits,
  TTLs are parsed with the wrap-around of 64 bits, preferences and ports have 16, epochs and revisions 64.
  Letter case is that of ASCII.

  \<^bold>\<open>Not modelled.\<close>  Log lines, metrics other than the gauge of ALIAS targets, HTTP transport and
  request headers, the registration of watches and indexes with the managers, deep copies and other
  generated code, and flag parsing. Network lookups are parameters (the resolver of ALIAS targets) or left
  out (zone discovery, \<^verbatim>\<open>internal/discovery\<close>). The reading and writing of zone files
  (\<^verbatim>\<open>internal/cmd/dns/bind\<close>), the commands themselves, the rest of the internal DNS service (its compiler and
  reconcilers, allocation and placement, the serving agent and its transport), its private replication
  and the agent tools have no model yet. Caches of \<^verbatim>\<open>controller-runtime\<close> are not told apart from the API
  server except where the code asks the API server on purpose. Reconciles and the turns of an applier are
  atomic: two of them do not interleave, and no other client writes while one runs; only the processes
  of a region lease interleave call by call.
\<close>

end
